(* ===== verification/Prelude.thy ===== *)
theory Prelude
  imports Complex_Main "HOL-Library.AList" "HOL-Library.Word"
begin

text \<open>
  Shared vocabulary of the development: Python exceptions as values, programs that pass an
  explicit state and may raise (a handler that raises keeps the writes made before the raise, as
  Python does), Python dictionaries as association lists in insertion order, the string methods
  the server uses, and two locales for reasoning that every stateful component shares:
  \<open>effect_order\<close> (what a program may do to its state, as a preorder) and \<open>machine\<close> (an
  invariant of one step is an invariant of every run).
\<close>

named_theorems prog_simps \<comment> \<open>evaluation of programs on a state\<close>

section \<open>Exceptions and results\<close>

datatype exn =
    AttributeError | TypeError | KeyError | ValueError | StructError | UnicodeError
  | RuntimeError | FileNotFoundError | OSError | IncompleteReadError | TimeoutError
  | IntegrityError | OperationalError | OverflowError | ConnectionClosed | CursesError

type_synonym ('s, 'a) prog = "'s \<Rightarrow> (exn + 'a) \<times> 's"

section \<open>Programs: state passing with exceptions\<close>

definition ret :: "'a \<Rightarrow> ('s, 'a) prog" where
  "ret a = (\<lambda>s. (Inr a, s))"

definition raise :: "exn \<Rightarrow> ('s, 'a) prog" where
  "raise e = (\<lambda>s. (Inl e, s))"

definition bnd :: "('s, 'a) prog \<Rightarrow> ('a \<Rightarrow> ('s, 'b) prog) \<Rightarrow> ('s, 'b) prog" where
  "bnd m f = (\<lambda>s. case m s of (Inl e, t) \<Rightarrow> (Inl e, t) | (Inr a, t) \<Rightarrow> f a t)"

definition thn :: "('s, 'a) prog \<Rightarrow> ('s, 'b) prog \<Rightarrow> ('s, 'b) prog" where
  "thn m n = bnd m (\<lambda>_. n)"

definition gets :: "('s \<Rightarrow> 'a) \<Rightarrow> ('s, 'a) prog" where
  "gets f = (\<lambda>s. (Inr (f s), s))"

definition modify :: "('s \<Rightarrow> 's) \<Rightarrow> ('s, unit) prog" where
  "modify f = (\<lambda>s. (Inr (), f s))"

text \<open>\<open>attempt m h\<close> is \<^verbatim>\<open>try: m except Exception: h\<close>; the writes of \<open>m\<close> stay.\<close>

definition attempt :: "('s, 'a) prog \<Rightarrow> (exn \<Rightarrow> ('s, 'a) prog) \<Rightarrow> ('s, 'a) prog" where
  "attempt m h = (\<lambda>s. case m s of (Inl e, t) \<Rightarrow> h e t | (Inr a, t) \<Rightarrow> (Inr a, t))"

text \<open>\<^verbatim>\<open>try: a = m except Exception: h else: f(a)\<close>, where the handler leaves the function.\<close>

definition try_else :: "('s, 'a) prog \<Rightarrow> (exn \<Rightarrow> ('s, 'b) prog) \<Rightarrow> ('a \<Rightarrow> ('s, 'b) prog) \<Rightarrow> ('s, 'b) prog" where
  "try_else m h f = (\<lambda>s. case m s of (Inl e, t) \<Rightarrow> h e t | (Inr a, t) \<Rightarrow> f a t)"

definition lift_result :: "exn + 'a \<Rightarrow> ('s, 'a) prog" where
  "lift_result r = (\<lambda>s. (r, s))"

definition whenp :: "bool \<Rightarrow> ('s, unit) prog \<Rightarrow> ('s, unit) prog" where
  "whenp b m = (if b then m else ret ())"

primrec for_each :: "('a \<Rightarrow> ('s, unit) prog) \<Rightarrow> 'a list \<Rightarrow> ('s, unit) prog" where
  "for_each f [] = ret ()"
| "for_each f (x # xs) = thn (f x) (for_each f xs)"

text \<open>Sequencing of pure results.\<close>

definition sbnd :: "exn + 'a \<Rightarrow> ('a \<Rightarrow> exn + 'b) \<Rightarrow> exn + 'b" where
  "sbnd r f = (case r of Inl e \<Rightarrow> Inl e | Inr a \<Rightarrow> f a)"

lemma sbnd_simps [simp]: "sbnd (Inl e) f = Inl e" "sbnd (Inr a) f = f a"
  by (simp_all add: sbnd_def)

lemma sbnd_Inr: "sbnd r f = Inr b \<longleftrightarrow> (\<exists>a. r = Inr a \<and> f a = Inr b)"
  by (cases r) auto

lemma ret_app [simp, prog_simps]: "ret a s = (Inr a, s)" by (simp add: ret_def)
lemma raise_app [simp, prog_simps]: "raise e s = (Inl e, s)" by (simp add: raise_def)
lemma gets_app [simp, prog_simps]: "gets f s = (Inr (f s), s)" by (simp add: gets_def)
lemma modify_app [simp, prog_simps]: "modify f s = (Inr (), f s)" by (simp add: modify_def)
lemma lift_result_app [simp, prog_simps]: "lift_result r s = (r, s)"
  by (simp add: lift_result_def)
lemma bnd_app [prog_simps]:
  "bnd m f s = (case m s of (Inl e, t) \<Rightarrow> (Inl e, t) | (Inr a, t) \<Rightarrow> f a t)"
  by (simp add: bnd_def)
lemma thn_app [prog_simps]:
  "thn m n s = (case m s of (Inl e, t) \<Rightarrow> (Inl e, t) | (Inr a, t) \<Rightarrow> n t)"
  by (simp add: thn_def bnd_def)
lemma attempt_app [prog_simps]:
  "attempt m h s = (case m s of (Inl e, t) \<Rightarrow> h e t | (Inr a, t) \<Rightarrow> (Inr a, t))"
  by (simp add: attempt_def)
lemma try_else_app [prog_simps]:
  "try_else m h f s = (case m s of (Inl e, t) \<Rightarrow> h e t | (Inr a, t) \<Rightarrow> f a t)"
  by (simp add: try_else_def)

lemma bnd_bnd: "bnd (bnd m f) g = bnd m (\<lambda>a. bnd (f a) g)"
  by (rule ext) (simp add: bnd_def split: prod.split sum.split)

text \<open>What follows moved into the last part of a program.\<close>

lemma thn_rest:
  "thn (thn a b) c = thn a (thn b c)" "thn (bnd m f) c = bnd m (\<lambda>x. thn (f x) c)"
  "thn (if p then a else b) c = (if p then thn a c else thn b c)"
  by (simp_all add: thn_def bnd_bnd)

section \<open>Python dictionaries: association lists in insertion order\<close>

abbreviation dget :: "('k \<times> 'v) list \<Rightarrow> 'k \<Rightarrow> 'v option" where
  "dget d k \<equiv> map_of d k"

abbreviation dset :: "'k \<Rightarrow> 'v \<Rightarrow> ('k \<times> 'v) list \<Rightarrow> ('k \<times> 'v) list" where
  "dset \<equiv> AList.update"

abbreviation dpop :: "'k \<Rightarrow> ('k \<times> 'v) list \<Rightarrow> ('k \<times> 'v) list" where
  "dpop \<equiv> AList.delete"

definition dupdate :: "('k \<times> 'v) list \<Rightarrow> ('k \<times> 'v) list \<Rightarrow> ('k \<times> 'v) list" where
  "dupdate d kvs = foldl (\<lambda>d (k, v). dset k v d) d kvs"

lemma dget_dset [simp]: "dget (dset k v d) k' = (if k' = k then Some v else dget d k')"
  by (auto simp: AList.update_conv)

lemma dget_dpop [simp]: "dget (dpop k d) k' = (if k' = k then None else dget d k')"
  by (simp add: AList.delete_conv')

lemma distinct_dset: "distinct (map fst d) \<Longrightarrow> distinct (map fst (dset k v d))"
  by (rule AList.distinct_update)

lemma distinct_dpop: "distinct (map fst d) \<Longrightarrow> distinct (map fst (dpop k d))"
  by (rule AList.distinct_delete)

lemma dset_fresh: "k \<notin> fst ` set d \<Longrightarrow> dset k v d = d @ [(k, v)]"
  by (induction d) auto

lemma fst_dset: "fst ` set (dset k v d) = insert k (fst ` set d)"
  by (simp add: AList.dom_update)

lemma distinct_dupdate: "distinct (map fst d) \<Longrightarrow> distinct (map fst (dupdate d kvs))"
  by (induction kvs arbitrary: d) (auto simp: dupdate_def distinct_dset)

lemma dupdate_Nil [simp]: "dupdate d [] = d" by (simp add: dupdate_def)
lemma dupdate_Cons [simp]: "dupdate d ((k, v) # kvs) = dupdate (dset k v d) kvs"
  by (simp add: dupdate_def)

lemma map_of_rev_distinct: "distinct (map fst xs) \<Longrightarrow> map_of (rev xs) = map_of xs"
  by (simp add: map_of_inject_set rev_map [symmetric])

lemma dupdate_append:
  "distinct (map fst d @ map fst kvs) \<Longrightarrow> dupdate d kvs = d @ kvs"
proof (induction kvs arbitrary: d)
  case (Cons p kvs)
  obtain k v where p: "p = (k, v)" by (cases p)
  have "dset k v d = d @ [(k, v)]" using Cons.prems p by (intro dset_fresh) auto
  then show ?case using Cons.IH [of "d @ [(k, v)]"] Cons.prems p by simp
qed simp

section \<open>Python string methods\<close>

text \<open>
  A Python string is a list of HOL characters, that is, of the code points U+0000 to U+00FF;
  \<open>py_space\<close> is \<^verbatim>\<open>str.isspace\<close> on that range.
\<close>

definition py_space :: "char \<Rightarrow> bool" where
  "py_space c = (let n = (of_char c :: nat)
     in (9 \<le> n \<and> n \<le> 13) \<or> (28 \<le> n \<and> n \<le> 32) \<or> n = 133 \<or> n = 160)"

definition py_lstrip :: "string \<Rightarrow> string" where
  "py_lstrip s = dropWhile py_space s"

definition py_rstrip :: "string \<Rightarrow> string" where
  "py_rstrip s = rev (dropWhile py_space (rev s))"

definition py_strip :: "string \<Rightarrow> string" where
  "py_strip s = py_rstrip (py_lstrip s)"

definition starts_with :: "string \<Rightarrow> string \<Rightarrow> bool" where
  "starts_with s p = (take (length p) s = p)"

definition remove_prefix :: "string \<Rightarrow> string \<Rightarrow> string" where
  "remove_prefix s p = (if starts_with s p then drop (length p) s else s)"

lemma starts_with_Cons [simp]:
  "starts_with (c # cs) (d # ds) = (c = d \<and> starts_with cs ds)"
  "starts_with s []" "\<not> starts_with [] (d # ds)"
  by (auto simp: starts_with_def)

lemma starts_with_append [simp]: "starts_with (p @ s) p" by (simp add: starts_with_def)

lemma remove_prefix_append [simp]: "remove_prefix (p @ s) p = s"
  by (simp add: remove_prefix_def)

lemma py_rstrip_snoc: "\<not> py_space c \<Longrightarrow> py_rstrip (s @ [c]) = s @ [c]"
  by (simp add: py_rstrip_def)

lemma py_strip_id:
  assumes "s = [] \<or> (\<not> py_space (hd s) \<and> \<not> py_space (last s))"
  shows "py_strip s = s"
proof -
  from assms have "dropWhile py_space s = s" by (auto simp: dropWhile_eq_self_iff)
  moreover from assms have "dropWhile py_space (rev s) = rev s"
    by (auto simp: dropWhile_eq_self_iff hd_rev)
  ultimately show ?thesis by (simp add: py_strip_def py_lstrip_def py_rstrip_def)
qed

lemma py_rstrip_subset: "set (py_rstrip s) \<subseteq> set s"
  by (auto simp: py_rstrip_def dest: set_dropWhileD)

text \<open>\<^verbatim>\<open>s.split(c, n)\<close> with a one-character separator and at most \<open>n\<close> splits.\<close>

fun split_max :: "char \<Rightarrow> nat \<Rightarrow> string \<Rightarrow> string list" where
  "split_max c 0 s = [s]"
| "split_max c (Suc n) s =
    (if c \<in> set s
     then takeWhile (\<lambda>x. x \<noteq> c) s # split_max c n (tl (dropWhile (\<lambda>x. x \<noteq> c) s)) else [s])"

lemma split_max_field:
  "c \<notin> set a \<Longrightarrow> split_max c (Suc n) (a @ c # s) = a # split_max c n s"
proof -
  assume c: "c \<notin> set a"
  then have "takeWhile (\<lambda>x. x \<noteq> c) (a @ c # s) = a" "dropWhile (\<lambda>x. x \<noteq> c) (a @ c # s) = c # s"
    by (auto simp: takeWhile_append dropWhile_append takeWhile_eq_all_conv)
  then show ?thesis by simp
qed

section \<open>Paths\<close>

text \<open>\<^verbatim>\<open>os.path.join(a, b)\<close>: an absolute second component discards the first.\<close>

definition path_join :: "string \<Rightarrow> string \<Rightarrow> string" where
  "path_join a b = (if starts_with b ''/'' then b
     else if a = [] \<or> last a = CHR ''/'' then a @ b else a @ ''/'' @ b)"

text \<open>\<^verbatim>\<open>os.path.dirname\<close> and \<^verbatim>\<open>os.path.basename\<close> of a path with one slash between components.\<close>

definition path_dir :: "string \<Rightarrow> string" where
  "path_dir p = rev (tl (dropWhile (\<lambda>c. c \<noteq> CHR ''/'') (rev p)))"

definition path_base :: "string \<Rightarrow> string" where
  "path_base p = rev (takeWhile (\<lambda>c. c \<noteq> CHR ''/'') (rev p))"

lemma path_dir_join: "CHR ''/'' \<notin> set b \<Longrightarrow> path_dir (d @ CHR ''/'' # b) = d"
  by (auto simp: path_dir_def dropWhile_append)

section \<open>What a program may do to its state\<close>

text \<open>
  \<open>steps R m\<close>: every run of \<open>m\<close>, raising or not, relates the state before to the state
  after by \<open>R\<close>. The locale \<open>effect_order\<close> asks \<open>R\<close> to be a preorder and then gives one
  rule per way of building a program; an interpretation at a concrete \<open>R\<close> (an invariant is
  kept, a field is untouched, the output only grows) turns a whole handler into a syntax-directed
  proof.
\<close>

definition steps :: "('s \<Rightarrow> 's \<Rightarrow> bool) \<Rightarrow> ('s, 'a) prog \<Rightarrow> bool" where
  "steps R m \<longleftrightarrow> (\<forall>s. R s (snd (m s)))"

lemma stepsI: "(\<And>s. R s (snd (m s))) \<Longrightarrow> steps R m"
  by (simp add: steps_def)

lemma stepsD: "steps R m \<Longrightarrow> m s = (r, t) \<Longrightarrow> R s t"
  by (metis snd_conv steps_def)

locale effect_order =
  fixes R :: "'s \<Rightarrow> 's \<Rightarrow> bool"
  assumes R_refl: "R s s"
    and R_trans: "R s t \<Longrightarrow> R t u \<Longrightarrow> R s u"
begin

lemma steps_ret: "steps R (ret a)"
  by (simp add: steps_def R_refl)

lemma steps_raise: "steps R (raise e)"
  by (simp add: steps_def R_refl)

lemma steps_gets: "steps R (gets f)"
  by (simp add: steps_def R_refl)

lemma steps_lift_result: "steps R (lift_result r)"
  by (simp add: steps_def R_refl)

lemma steps_modify: "(\<And>s. R s (f s)) \<Longrightarrow> steps R (modify f)"
  by (simp add: steps_def)

lemma steps_bnd:
  assumes "steps R m" and "\<And>a. steps R (f a)"
  shows "steps R (bnd m f)"
proof (rule stepsI)
  fix s
  obtain r t where m: "m s = (r, t)" by (cases "m s")
  have "R s t" using assms(1) m by (rule stepsD)
  moreover have "R t (snd (f a t))" for a using assms(2) by (simp add: steps_def)
  ultimately show "R s (snd (bnd m f s))"
    using m by (auto simp: bnd_app split: sum.split intro: R_trans)
qed

lemma steps_thn: "steps R m \<Longrightarrow> steps R n \<Longrightarrow> steps R (thn m n)"
  by (simp add: thn_def steps_bnd)

lemma steps_attempt:
  assumes "steps R m" and "\<And>e. steps R (h e)"
  shows "steps R (attempt m h)"
proof (rule stepsI)
  fix s
  obtain r t where m: "m s = (r, t)" by (cases "m s")
  have "R s t" using assms(1) m by (rule stepsD)
  moreover have "R t (snd (h e t))" for e using assms(2) by (simp add: steps_def)
  ultimately show "R s (snd (attempt m h s))"
    using m by (auto simp: attempt_app split: sum.split intro: R_trans)
qed

lemma steps_try_else:
  assumes "steps R m" and "\<And>e. steps R (h e)" and "\<And>a. steps R (f a)"
  shows "steps R (try_else m h f)"
proof (rule stepsI)
  fix s
  obtain r t where m: "m s = (r, t)" by (cases "m s")
  have "R s t" using assms(1) m by (rule stepsD)
  moreover have "R t (snd (h e t))" "R t (snd (f a t))" for e a using assms(2,3) by (simp_all add: steps_def)
  ultimately show "R s (snd (try_else m h f s))"
    using m by (auto simp: try_else_app split: sum.split intro: R_trans)
qed

lemma steps_whenp: "steps R m \<Longrightarrow> steps R (whenp b m)"
  by (simp add: whenp_def steps_ret)

lemma steps_if: "steps R m \<Longrightarrow> steps R n \<Longrightarrow> steps R (if b then m else n)"
  by simp

lemma steps_option:
  "steps R m \<Longrightarrow> (\<And>x. steps R (f x)) \<Longrightarrow> steps R (case v of None \<Rightarrow> m | Some x \<Rightarrow> f x)"
  by (cases v) auto

lemma steps_list:
  "steps R m \<Longrightarrow> (\<And>x xs. steps R (f x xs)) \<Longrightarrow> steps R (case v of [] \<Rightarrow> m | x # xs \<Rightarrow> f x xs)"
  by (cases v) auto

lemma steps_sum:
  "(\<And>x. steps R (f x)) \<Longrightarrow> (\<And>x. steps R (g x)) \<Longrightarrow> steps R (case v of Inl x \<Rightarrow> f x | Inr x \<Rightarrow> g x)"
  by (cases v) auto

lemma steps_prod:
  "(\<And>x y. steps R (f x y)) \<Longrightarrow> steps R (case v of (x, y) \<Rightarrow> f x y)"
  by (cases v) auto

lemma steps_let: "(\<And>x. steps R (f x)) \<Longrightarrow> steps R (Let v f)"
  by simp

lemma steps_for_each: "(\<And>x. steps R (f x)) \<Longrightarrow> steps R (for_each f xs)"
  by (induction xs) (simp_all add: steps_ret steps_thn)

lemmas steps_rules =
  steps_ret steps_raise steps_gets steps_lift_result steps_modify steps_bnd steps_thn
  steps_attempt steps_try_else steps_whenp steps_if steps_option steps_list steps_sum steps_prod steps_let steps_for_each

end

section \<open>Machines and their invariants\<close>

definition run :: "('s \<Rightarrow> 'e \<Rightarrow> 's) \<Rightarrow> 's \<Rightarrow> 'e list \<Rightarrow> 's" where
  "run step s es = foldl step s es"

lemma run_Nil [simp]: "run step s [] = s" by (simp add: run_def)
lemma run_Cons [simp]: "run step s (e # es) = run step (step s e) es" by (simp add: run_def)
lemma run_append: "run step s (es @ fs) = run step (run step s es) fs" by (simp add: run_def)

locale machine =
  fixes step :: "'s \<Rightarrow> 'e \<Rightarrow> 's" and inv :: "'s \<Rightarrow> bool"
  assumes inv_step: "inv s \<Longrightarrow> inv (step s e)"
begin

lemma inv_run: "inv s \<Longrightarrow> inv (run step s es)"
  by (induction es arbitrary: s) (auto intro: inv_step)

lemma inv_prefix: "inv s \<Longrightarrow> inv (run step s (take n es))"
  by (rule inv_run)

end

section \<open>Keyed stores\<close>

text \<open>
  The interface of every in-memory registry of the server: connections by user name, call
  sessions by session id, relay entries, rate buckets.
\<close>

locale key_store =
  fixes get :: "'m \<Rightarrow> 'k \<Rightarrow> 'v option"
    and put :: "'k \<Rightarrow> 'v \<Rightarrow> 'm \<Rightarrow> 'm"
    and del :: "'k \<Rightarrow> 'm \<Rightarrow> 'm"
  assumes get_put: "get (put k v m) k' = (if k' = k then Some v else get m k')"
    and get_del: "get (del k m) k' = (if k' = k then None else get m k')"
begin

lemma last_put_wins: "get (put k w (put k v m)) k = Some w"
  by (simp add: get_put)

lemma del_put: "get (del k (put k v m)) k' = get (del k m) k'"
  by (simp add: get_put get_del)

lemma put_other: "k' \<noteq> k \<Longrightarrow> get (put k v m) k' = get m k'"
  by (simp add: get_put)

lemma del_other: "k' \<noteq> k \<Longrightarrow> get (del k m) k' = get m k'"
  by (simp add: get_del)

lemma del_absent: "get m k = None \<Longrightarrow> get (del k m) = get m"
  by (auto simp: get_del)

end

end
