(* ===== verification/Encoding.thy ===== *)
theory Encoding
  imports Prelude
begin

text \<open>
  The parts of Python's standard library the program encodes its data with: decimal and
  hexadecimal numerals, UTF-8, base64, \<^verbatim>\<open>struct\<close> integers and \<^verbatim>\<open>uuid4\<close>, each with its round trip or
  length law. Strings hold code points up to U+00FF, so UTF-8 sequences for higher code points
  are rejected as undecodable.
\<close>

type_synonym byte = "8 word"
type_synonym bytes = "byte list"

definition byte_of :: "nat \<Rightarrow> byte" where
  "byte_of n = of_nat n"

lemma unat_byte_of [simp]: "unat (byte_of n) = n mod 256"
  by (simp add: byte_of_def unsigned_of_nat take_bit_eq_mod)

lemma byte_of_unat [simp]: "byte_of (unat b) = b"
  by (simp add: byte_of_def)

lemma unat_less_256 [simp]: "unat (b :: byte) < 256"
  using unsigned_less [of b, where ?'a = nat] by simp

section \<open>Decimal numerals\<close>

definition digit :: "nat \<Rightarrow> char" where
  "digit d = char_of (48 + d)"

definition is_digit :: "char \<Rightarrow> bool" where
  "is_digit c = (48 \<le> (of_char c :: nat) \<and> (of_char c :: nat) \<le> 57)"

definition digit_val :: "char \<Rightarrow> nat" where
  "digit_val c = of_char c - 48"

fun nat_str :: "nat \<Rightarrow> string" where
  "nat_str n = (if n < 10 then [digit n] else nat_str (n div 10) @ [digit (n mod 10)])"

declare nat_str.simps [simp del]

definition int_str :: "int \<Rightarrow> string" where
  "int_str i = (if i < 0 then CHR ''-'' # nat_str (nat (- i)) else nat_str (nat i))"

definition dec_val :: "string \<Rightarrow> nat" where
  "dec_val s = foldl (\<lambda>a c. a * 10 + digit_val c) 0 s"

definition zfill :: "nat \<Rightarrow> string \<Rightarrow> string" where
  "zfill w s = replicate (w - length s) (CHR ''0'') @ s"

lemma of_char_digit [simp]: "d < 10 \<Longrightarrow> (of_char (digit d) :: nat) = 48 + d"
  by (simp add: digit_def)

lemma is_digit_digit [simp]: "d < 10 \<Longrightarrow> is_digit (digit d)"
  by (simp add: is_digit_def)

lemma digit_val_digit [simp]: "d < 10 \<Longrightarrow> digit_val (digit d) = d"
  by (simp add: digit_val_def)

lemma nat_str_not_Nil [simp]: "nat_str n \<noteq> []"
  by (subst nat_str.simps) simp

lemma nat_str_digits: "\<forall>c \<in> set (nat_str n). is_digit c"
proof (induction n rule: nat_str.induct)
  case (1 n)
  then show ?case by (cases "n < 10") (auto simp: nat_str.simps [of n])
qed

lemma dec_val_snoc: "dec_val (s @ [c]) = dec_val s * 10 + digit_val c"
  by (simp add: dec_val_def)

lemma dec_val_nat_str [simp]: "dec_val (nat_str n) = n"
proof (induction n rule: nat_str.induct)
  case (1 n)
  then show ?case
    by (cases "n < 10") (simp_all add: nat_str.simps [of n] dec_val_snoc, simp add: dec_val_def)
qed

lemma nat_str_inj: "nat_str m = nat_str n \<Longrightarrow> m = n"
  by (metis dec_val_nat_str)

lemma dec_val_zeros: "dec_val (replicate k (CHR ''0'') @ s) = dec_val s"
  by (induction k) (simp_all add: dec_val_def digit_val_def)

lemma dec_val_zfill [simp]: "dec_val (zfill w s) = dec_val s"
  by (simp add: zfill_def dec_val_zeros)

lemma length_zfill: "length s \<le> w \<Longrightarrow> length (zfill w s) = w"
  by (simp add: zfill_def)

lemma length_nat_str: "n < 10 ^ k \<Longrightarrow> 0 < k \<Longrightarrow> length (nat_str n) \<le> k"
proof (induction k arbitrary: n)
  case (Suc k)
  show ?case
  proof (cases "n < 10")
    case False
    with Suc.prems have "n div 10 < 10 ^ k" "0 < k" by (auto simp: less_mult_imp_div_less)
       (metis False One_nat_def less_one not_gr_zero power_0 power_one_right mult.right_neutral nat_mult_1_right)
    with Suc.IH False show ?thesis by (simp add: nat_str.simps [of n])
  qed (simp add: nat_str.simps [of n])
qed simp

section \<open>Hexadecimal\<close>

definition hex_digit :: "nat \<Rightarrow> char" where
  "hex_digit d = (if d < 10 then char_of (48 + d) else char_of (87 + d))"

definition hex_byte :: "byte \<Rightarrow> string" where
  "hex_byte b = [hex_digit (unat b div 16), hex_digit (unat b mod 16)]"

definition hex_bytes :: "bytes \<Rightarrow> string" where
  "hex_bytes bs = concat (map hex_byte bs)"

definition hex_val :: "char \<Rightarrow> nat option" where
  "hex_val c = (let n = (of_char c :: nat) in
     if 48 \<le> n \<and> n \<le> 57 then Some (n - 48)
     else if 97 \<le> n \<and> n \<le> 102 then Some (n - 87)
     else if 65 \<le> n \<and> n \<le> 70 then Some (n - 55) else None)"

lemma hex_val_hex_digit [simp]: "d < 16 \<Longrightarrow> hex_val (hex_digit d) = Some d"
  by (auto simp: hex_val_def hex_digit_def)

lemma length_hex_byte [simp]: "length (hex_byte b) = 2"
  by (simp add: hex_byte_def)

lemma length_hex_bytes [simp]: "length (hex_bytes bs) = 2 * length bs"
  by (induction bs) (simp_all add: hex_bytes_def)

lemma hex_bytes_append: "hex_bytes (a @ b) = hex_bytes a @ hex_bytes b"
  by (simp add: hex_bytes_def)

section \<open>UTF-8\<close>

definition utf8_char :: "char \<Rightarrow> bytes" where
  "utf8_char c = (let n = (of_char c :: nat) in
     if n < 128 then [byte_of n] else [byte_of (192 + n div 64), byte_of (128 + n mod 64)])"

definition utf8_encode :: "string \<Rightarrow> bytes" where
  "utf8_encode s = concat (map utf8_char s)"

fun utf8_decode :: "bytes \<Rightarrow> exn + string" where
  "utf8_decode [] = Inr []"
| "utf8_decode (b # bs) =
    (if unat b < 128 then map_sum id ((#) (char_of (unat b))) (utf8_decode bs)
     else if unat b = 194 \<or> unat b = 195 then
       (case bs of [] \<Rightarrow> Inl UnicodeError
        | c # cs \<Rightarrow>
           if 128 \<le> unat c \<and> unat c < 192
           then map_sum id ((#) (char_of ((unat b - 192) * 64 + (unat c - 128)))) (utf8_decode cs)
           else Inl UnicodeError)
     else Inl UnicodeError)"

lemma of_char_256: "(of_char c :: nat) < 256"
  using of_char_mod_256 [of c, where ?'a = nat] by (metis mod_less_divisor zero_less_numeral)

lemma utf8_decode_char:
  "utf8_decode (utf8_char c @ bs) = map_sum id ((#) c) (utf8_decode bs)"
proof -
  define n where "n = (of_char c :: nat)"
  have n: "n < 256" and c: "char_of n = c"
    using of_char_256 by (simp_all add: n_def)
  show ?thesis
  proof (cases "n < 128")
    case True
    then show ?thesis using n c by (simp add: utf8_char_def n_def [symmetric])
  next
    case False
    have "192 + n div 64 = 194 \<or> 192 + n div 64 = 195" "n div 64 * 64 + n mod 64 = n"
      using n False by auto
    then show ?thesis using n c False
      by (auto simp: utf8_char_def n_def [symmetric] Let_def)
  qed
qed

theorem utf8_roundtrip: "utf8_decode (utf8_encode s) = Inr s"
  by (induction s) (simp_all add: utf8_encode_def utf8_decode_char)

lemma utf8_decode_ascii:
  "\<forall>b \<in> set bs. unat b < 128 \<Longrightarrow> utf8_decode bs = Inr (map (\<lambda>b. char_of (unat b)) bs)"
  by (induction bs) simp_all

lemma utf8_encode_append: "utf8_encode (a @ b) = utf8_encode a @ utf8_encode b"
  by (simp add: utf8_encode_def)

definition ascii_encode :: "string \<Rightarrow> exn + bytes" where
  "ascii_encode s = (if \<forall>c \<in> set s. (of_char c :: nat) < 128
     then Inr (map (\<lambda>c. byte_of (of_char c)) s) else Inl UnicodeError)"

definition ascii_decode :: "bytes \<Rightarrow> exn + string" where
  "ascii_decode bs = (if \<forall>b \<in> set bs. unat b < 128
     then Inr (map (\<lambda>b. char_of (unat b)) bs) else Inl UnicodeError)"

lemma ascii_roundtrip: "ascii_encode s = Inr bs \<Longrightarrow> ascii_decode bs = Inr s"
  by (auto simp: ascii_encode_def ascii_decode_def comp_def of_char_256 split: if_splits
      intro!: map_idI)

lemma ascii_encode_length: "ascii_encode s = Inr bs \<Longrightarrow> length bs = length s"
  by (auto simp: ascii_encode_def split: if_splits)

section \<open>Base64\<close>

definition b64_char :: "nat \<Rightarrow> char" where
  "b64_char n = (if n < 26 then char_of (65 + n) else if n < 52 then char_of (71 + n)
     else if n < 62 then char_of (n - 4) else if n = 62 then CHR ''+'' else CHR ''/'')"

definition b64_code :: "nat \<Rightarrow> nat option" where
  "b64_code n = (if 65 \<le> n \<and> n \<le> 90 then Some (n - 65)
     else if 97 \<le> n \<and> n \<le> 122 then Some (n - 71)
     else if 48 \<le> n \<and> n \<le> 57 then Some (n + 4)
     else if n = 43 then Some 62 else if n = 47 then Some 63 else None)"

definition b64_val :: "char \<Rightarrow> nat option" where
  "b64_val c = b64_code (of_char c)"

fun b64_encode :: "bytes \<Rightarrow> string" where
  "b64_encode [] = []"
| "b64_encode [a] = [b64_char (unat a div 4), b64_char (unat a mod 4 * 16), CHR ''='', CHR ''='']"
| "b64_encode [a, b] = [b64_char (unat a div 4), b64_char (unat a mod 4 * 16 + unat b div 16),
     b64_char (unat b mod 16 * 4), CHR ''='']"
| "b64_encode (a # b # c # rest) =
     b64_char (unat a div 4) # b64_char (unat a mod 4 * 16 + unat b div 16)
     # b64_char (unat b mod 16 * 4 + unat c div 64) # b64_char (unat c mod 64) # b64_encode rest"

text \<open>
  The lenient decoder of \<^verbatim>\<open>binascii.a2b_base64\<close>: characters outside the alphabet are skipped, the
  input ends at the padding of a quad, and a quad left open is an error. The state is the
  position in the quad, the bits left over, and the pad characters seen.
\<close>

fun b64_scan :: "nat \<Rightarrow> nat \<Rightarrow> nat \<Rightarrow> string \<Rightarrow> exn + bytes" where
  "b64_scan q l p [] = (if q = 0 then Inr [] else Inl ValueError)"
| "b64_scan q l p (c # cs) =
    (if c = CHR ''='' then
       (if 2 \<le> q then (if 4 \<le> q + Suc p then Inr [] else b64_scan q l (Suc p) cs)
        else b64_scan q l p cs)
     else case b64_val c of
       None \<Rightarrow> b64_scan q l p cs
     | Some v \<Rightarrow>
         (if q = 0 then b64_scan 1 v 0 cs
          else if q = 1 then map_sum id ((#) (byte_of (l * 4 + v div 16))) (b64_scan 2 (v mod 16) 0 cs)
          else if q = 2 then map_sum id ((#) (byte_of (l * 16 + v div 4))) (b64_scan 3 (v mod 4) 0 cs)
          else map_sum id ((#) (byte_of (l * 64 + v))) (b64_scan 0 0 0 cs)))"

definition b64_decode :: "string \<Rightarrow> exn + bytes" where
  "b64_decode s = (case ascii_encode s of Inl e \<Rightarrow> Inl ValueError | Inr _ \<Rightarrow> b64_scan 0 0 0 s)"

lemma b64_val_char [simp]: "n < 64 \<Longrightarrow> b64_val (b64_char n) = Some n"
  by (auto simp: b64_val_def b64_code_def b64_char_def)

lemma b64_char_not_pad [simp]: "n < 64 \<Longrightarrow> b64_char n \<noteq> CHR ''=''"
  using b64_val_char [of n] by (auto simp: b64_val_def b64_code_def simp del: b64_val_char)

lemma b64_char_ascii: "n < 64 \<Longrightarrow> (of_char (b64_char n) :: nat) < 128"
  by (auto simp: b64_char_def)

lemma b64_scan_data:
  assumes "n < 64"
  shows "b64_scan q l p (b64_char n # cs) =
    (if q = 0 then b64_scan 1 n 0 cs
     else if q = 1 then map_sum id ((#) (byte_of (l * 4 + n div 16))) (b64_scan 2 (n mod 16) 0 cs)
     else if q = 2 then map_sum id ((#) (byte_of (l * 16 + n div 4))) (b64_scan 3 (n mod 4) 0 cs)
     else map_sum id ((#) (byte_of (l * 64 + n))) (b64_scan 0 0 0 cs))"
  using assms by simp

lemma radix_div: "y < k \<Longrightarrow> (x * k + y) div k = x" for x y k :: nat
  by (metis add.commute add_cancel_left_right div_less div_mult_self1 less_nat_zero_code)

lemma radix_mod: "y < k \<Longrightarrow> (x * k + y) mod k = y" for x y k :: nat
  by simp

lemma b64_bounds:
  "unat (a::byte) div 16 < 16" "unat a div 64 < 4" "unat a div 4 < 64" "unat a mod 64 < 64"
  "unat a mod 4 * 16 < 64" "unat a mod 16 * 4 < 64"
  using unat_less_256 [of a] by (auto simp: less_mult_imp_div_less)

lemma b64_quad_arith:
  "unat (a::byte) div 4 * 4 + (unat a mod 4 * 16 + unat (b::byte) div 16) div 16 = unat a"
  "(unat a mod 4 * 16 + unat b div 16) mod 16 * 16
     + (unat b mod 16 * 4 + unat (c::byte) div 64) div 4 = unat b"
  "(unat b mod 16 * 4 + unat c div 64) mod 4 * 64 + unat c mod 64 = unat c"
  "unat a mod 4 * 16 + unat b div 16 < 64"
  "unat b mod 16 * 4 + unat c div 64 < 64"
proof -
  have m: "unat a mod 4 \<le> 3" "unat b mod 16 \<le> 15" by simp_all
  show "unat a mod 4 * 16 + unat b div 16 < 64" "unat b mod 16 * 4 + unat c div 64 < 64"
    using m b64_bounds(1) [of b] b64_bounds(2) [of c] by linarith+
qed (simp_all only: radix_div [OF b64_bounds(1)] radix_div [OF b64_bounds(2)]
      radix_mod [OF b64_bounds(1)] radix_mod [OF b64_bounds(2)] div_mult_mod_eq)

lemma b64_tail_arith:
  "unat (a::byte) div 4 * 4 + unat a mod 4 * 16 div 16 = unat a"
  "(unat a mod 4 * 16 + unat (b::byte) div 16) mod 16 * 16 + unat b mod 16 * 4 div 4 = unat b"
  by (simp_all only: radix_mod [OF b64_bounds(1)] div_mult_mod_eq nonzero_mult_div_cancel_right
      zero_neq_numeral [symmetric] not_False_eq_True)

lemma b64_scan_pad: "2 \<le> q \<Longrightarrow> b64_scan q l p (CHR ''='' # cs) =
    (if 4 \<le> q + Suc p then Inr [] else b64_scan q l (Suc p) cs)"
  by simp

lemma b64_scan_encode: "b64_scan 0 0 0 (b64_encode bs) = Inr bs"
  by (induction bs rule: b64_encode.induct)
    (simp_all add: b64_scan_data b64_scan_pad b64_bounds b64_quad_arith b64_tail_arith
      del: b64_scan.simps add: b64_scan.simps(1))

lemma b64_encode_ascii: "\<forall>c \<in> set (b64_encode bs). (of_char c :: nat) < 128"
  by (induction bs rule: b64_encode.induct)
    (auto intro!: b64_char_ascii simp: b64_quad_arith b64_bounds)

theorem b64_roundtrip: "b64_decode (b64_encode bs) = Inr bs"
  using b64_encode_ascii [of bs] by (simp add: b64_decode_def ascii_encode_def b64_scan_encode)

lemma b64_encode_chars: "c \<in> set (b64_encode bs) \<Longrightarrow> c = CHR ''='' \<or> b64_val c \<noteq> None"
  by (induction bs rule: b64_encode.induct) (auto simp: b64_quad_arith b64_bounds)

section \<open>Fixed-width integers of \<^verbatim>\<open>struct\<close>\<close>

fun be_bytes :: "nat \<Rightarrow> nat \<Rightarrow> bytes" where
  "be_bytes 0 v = []"
| "be_bytes (Suc n) v = be_bytes n (v div 256) @ [byte_of v]"

definition be_val :: "bytes \<Rightarrow> nat" where
  "be_val bs = foldl (\<lambda>a b. a * 256 + unat b) 0 bs"

definition le_bytes :: "nat \<Rightarrow> nat \<Rightarrow> bytes" where
  "le_bytes n v = rev (be_bytes n v)"

definition le_val :: "bytes \<Rightarrow> nat" where
  "le_val bs = be_val (rev bs)"

text \<open>\<^verbatim>\<open>struct.pack(">I", v)\<close> raises outside the 32-bit range.\<close>

definition pack_be32 :: "int \<Rightarrow> exn + bytes" where
  "pack_be32 v = (if 0 \<le> v \<and> v < 2 ^ 32 then Inr (be_bytes 4 (nat v)) else Inl StructError)"

lemma length_be_bytes [simp]: "length (be_bytes n v) = n"
  by (induction n arbitrary: v) auto

lemma length_le_bytes [simp]: "length (le_bytes n v) = n"
  by (simp add: le_bytes_def)

lemma be_val_snoc: "be_val (bs @ [b]) = be_val bs * 256 + unat b"
  by (simp add: be_val_def)

lemma be_val_bytes: "be_val (be_bytes n v) = v mod 256 ^ n"
proof (induction n arbitrary: v)
  case (Suc n)
  have "v mod (256 * 256 ^ n) = 256 * (v div 256 mod 256 ^ n) + v mod 256"
    by (rule mod_mult2_eq)
  then show ?case by (simp add: Suc be_val_snoc)
qed (simp add: be_val_def)

lemma be_val_bytes_id: "v < 256 ^ n \<Longrightarrow> be_val (be_bytes n v) = v"
  by (simp add: be_val_bytes)

lemma le_val_bytes_id: "v < 256 ^ n \<Longrightarrow> le_val (le_bytes n v) = v"
  by (simp add: le_val_def le_bytes_def be_val_bytes_id)

lemma be_val_bound: "be_val bs < 256 ^ length bs"
proof (induction bs rule: rev_induct)
  case (snoc b bs)
  have "be_val bs * 256 + unat b < (be_val bs + 1) * 256" using unat_less_256 [of b] by simp
  also have "\<dots> \<le> 256 ^ length bs * 256" using snoc by (intro mult_right_mono) auto
  finally show ?case by (simp add: be_val_snoc)
qed (simp add: be_val_def)

lemma le_bytes_inj: "le_bytes n v = le_bytes n w \<Longrightarrow> v < 256 ^ n \<Longrightarrow> w < 256 ^ n \<Longrightarrow> v = w"
  by (metis le_val_bytes_id)

lemma pack_be32_val: "pack_be32 v = Inr bs \<Longrightarrow> length bs = 4 \<and> int (be_val bs) = v"
  by (auto simp: pack_be32_def be_val_bytes_id nat_less_iff split: if_splits)

section \<open>Version 4 UUIDs\<close>

text \<open>
  \<^verbatim>\<open>str(uuid.uuid4())\<close> from 16 random bytes: the version and variant bits overwritten, 32
  hexadecimal digits in groups of 8, 4, 4, 4 and 12.
\<close>

definition uuid4_str :: "bytes \<Rightarrow> string" where
  "uuid4_str bs =
    (let h = hex_bytes (bs[6 := byte_of (64 + unat (bs ! 6) mod 16),
                           8 := byte_of (128 + unat (bs ! 8) mod 64)])
     in take 8 h @ ''-'' @ take 4 (drop 8 h) @ ''-'' @ take 4 (drop 12 h) @ ''-''
        @ take 4 (drop 16 h) @ ''-'' @ drop 20 h)"

lemma length_uuid4_str: "length bs = 16 \<Longrightarrow> length (uuid4_str bs) = 36"
  by (simp add: uuid4_str_def Let_def)

lemma uuid4_str_not_Nil [simp]: "uuid4_str bs \<noteq> []"
  by (simp add: uuid4_str_def Let_def)

end
