(* ===== verification/Json.thy ===== *)
theory Json
  imports Encoding
begin

text \<open>
  Python's \<^verbatim>\<open>json.dumps\<close> and \<^verbatim>\<open>json.loads\<close> with their default options, on the values the program
  exchanges: null, booleans, integers, strings, lists and objects in insertion order. A document
  with a fractional or exponent literal, \<^verbatim>\<open>NaN\<close>, an infinity, or an escape above U+00FF is outside the
  model and is rejected by \<open>json_loads\<close>. The theory proves that enough fuel never changes a
  parse and that parsing inverts printing.
\<close>

datatype json =
    JNull | JBool bool | JInt int | JStr string
  | JList "json list" | JObj "(string \<times> json) list"

abbreviation dquote :: char where "dquote \<equiv> CHR 0x22"
abbreviation bslash :: char where "bslash \<equiv> CHR 0x5C"

section \<open>Printing\<close>

definition esc_char :: "char \<Rightarrow> string" where
  "esc_char c = (let n = (of_char c :: nat) in
     if n = 34 then [bslash, dquote] else if n = 92 then [bslash, bslash]
     else if n = 10 then [bslash, CHR ''n''] else if n = 13 then [bslash, CHR ''r'']
     else if n = 9 then [bslash, CHR ''t''] else if n = 12 then [bslash, CHR ''f'']
     else if n = 8 then [bslash, CHR ''b''] else if 32 \<le> n \<and> n \<le> 126 then [c]
     else [bslash, CHR ''u'', CHR ''0'', CHR ''0'', hex_digit (n div 16), hex_digit (n mod 16)])"

definition json_str :: "string \<Rightarrow> string" where
  "json_str s = dquote # concat (map esc_char s) @ [dquote]"

fun json_dumps :: "json \<Rightarrow> string"
  and dumps_elems :: "json list \<Rightarrow> string"
  and dumps_members :: "(string \<times> json) list \<Rightarrow> string" where
  "json_dumps JNull = ''null''"
| "json_dumps (JBool b) = (if b then ''true'' else ''false'')"
| "json_dumps (JInt i) = int_str i"
| "json_dumps (JStr s) = json_str s"
| "json_dumps (JList xs) = ''['' @ dumps_elems xs @ '']''"
| "json_dumps (JObj kvs) = ''{'' @ dumps_members kvs @ ''}''"
| "dumps_elems [] = []"
| "dumps_elems (x # xs) = json_dumps x @ (if xs = [] then [] else '', '' @ dumps_elems xs)"
| "dumps_members [] = []"
| "dumps_members ((k, v) # kvs) = json_str k @ '': '' @ json_dumps v
     @ (if kvs = [] then [] else '', '' @ dumps_members kvs)"

section \<open>Parsing\<close>

definition json_ws :: "char \<Rightarrow> bool" where
  "json_ws c = (c \<in> {CHR '' '', CHR 0x09, CHR 0x0A, CHR 0x0D})"

definition skip_ws :: "string \<Rightarrow> string" where
  "skip_ws s = dropWhile json_ws s"

definition unesc :: "char \<Rightarrow> char option" where
  "unesc c = (if c = dquote \<or> c = bslash \<or> c = CHR ''/'' then Some c
     else if c = CHR ''b'' then Some (CHR 0x08) else if c = CHR ''f'' then Some (CHR 0x0C)
     else if c = CHR ''n'' then Some (CHR 0x0A) else if c = CHR ''r'' then Some (CHR 0x0D)
     else if c = CHR ''t'' then Some (CHR 0x09) else None)"

definition hex4 :: "char \<Rightarrow> char \<Rightarrow> char \<Rightarrow> char \<Rightarrow> nat option" where
  "hex4 a b c d = (case (hex_val a, hex_val b, hex_val c, hex_val d) of
     (Some x, Some y, Some z, Some w) \<Rightarrow> Some (((x * 16 + y) * 16 + z) * 16 + w)
   | _ \<Rightarrow> None)"

fun scan_str :: "string \<Rightarrow> (string \<times> string) option" where
  "scan_str [] = None"
| "scan_str (c # cs) =
    (if c = dquote then Some ([], cs)
     else if c = bslash then
       (case cs of [] \<Rightarrow> None
        | e # es \<Rightarrow>
          if e = CHR ''u'' then
            (case es of a # b # d # f # rest \<Rightarrow>
               (case hex4 a b d f of None \<Rightarrow> None
                | Some n \<Rightarrow> if n < 256 then map_option (apfst ((#) (char_of n))) (scan_str rest)
                           else None)
             | _ \<Rightarrow> None)
          else (case unesc e of None \<Rightarrow> None
                | Some u \<Rightarrow> map_option (apfst ((#) u)) (scan_str es)))
     else if (of_char c :: nat) < 32 then None
     else map_option (apfst ((#) c)) (scan_str cs))"

definition scan_int :: "string \<Rightarrow> (json \<times> string) option" where
  "scan_int s =
    (let neg = (s \<noteq> [] \<and> hd s = CHR ''-''); t = (if neg then tl s else s);
         ds = takeWhile is_digit t
     in if ds = [] then None
        else if hd ds = CHR ''0'' then Some (JInt 0, tl t)
        else Some (JInt ((if neg then - 1 else 1) * int (dec_val ds)), dropWhile is_digit t))"

fun parse_value :: "nat \<Rightarrow> string \<Rightarrow> (json \<times> string) option"
  and parse_elems :: "nat \<Rightarrow> string \<Rightarrow> (json list \<times> string) option"
  and parse_members :: "nat \<Rightarrow> string \<Rightarrow> ((string \<times> json) list \<times> string) option" where
  "parse_value 0 s = None"
| "parse_value (Suc n) s =
    (case s of [] \<Rightarrow> None
     | c # cs \<Rightarrow>
       if c = dquote then map_option (apfst JStr) (scan_str cs)
       else if c = CHR ''{'' then
         (if starts_with (skip_ws cs) ''}'' then Some (JObj [], tl (skip_ws cs))
          else map_option (apfst (\<lambda>kvs. JObj (dupdate [] kvs))) (parse_members n (skip_ws cs)))
       else if c = CHR ''['' then
         (if starts_with (skip_ws cs) '']'' then Some (JList [], tl (skip_ws cs))
          else map_option (apfst JList) (parse_elems n (skip_ws cs)))
       else if starts_with s ''null'' then Some (JNull, drop 4 s)
       else if starts_with s ''true'' then Some (JBool True, drop 4 s)
       else if starts_with s ''false'' then Some (JBool False, drop 5 s)
       else scan_int s)"
| "parse_elems 0 s = None"
| "parse_elems (Suc n) s =
    (case parse_value n s of None \<Rightarrow> None
     | Some (v, r) \<Rightarrow>
       (case skip_ws r of [] \<Rightarrow> None
        | c # cs \<Rightarrow>
          if c = CHR '','' then map_option (apfst ((#) v)) (parse_elems n (skip_ws cs))
          else if c = CHR '']'' then Some ([v], cs) else None))"
| "parse_members 0 s = None"
| "parse_members (Suc n) s =
    (case s of [] \<Rightarrow> None
     | c # cs \<Rightarrow>
       if c \<noteq> dquote then None
       else (case scan_str cs of None \<Rightarrow> None
        | Some (k, r) \<Rightarrow>
          (case skip_ws r of [] \<Rightarrow> None
           | d # ds \<Rightarrow>
             if d \<noteq> CHR '':'' then None
             else (case parse_value n (skip_ws ds) of None \<Rightarrow> None
              | Some (v, q) \<Rightarrow>
                (case skip_ws q of [] \<Rightarrow> None
                 | e # es \<Rightarrow>
                   if e = CHR '','' then map_option (apfst ((#) (k, v))) (parse_members n (skip_ws es))
                   else if e = CHR ''}'' then Some ([(k, v)], es) else None)))))"

definition json_loads :: "string \<Rightarrow> exn + json" where
  "json_loads s =
    (case parse_value (2 * length s + 2) (skip_ws s) of
       None \<Rightarrow> Inl ValueError
     | Some (v, r) \<Rightarrow> if skip_ws r = [] then Inr v else Inl ValueError)"

section \<open>Round trip of strings and integers\<close>

lemma hex4_byte: "n < 256 \<Longrightarrow>
  hex4 (CHR ''0'') (CHR ''0'') (hex_digit (n div 16)) (hex_digit (n mod 16)) = Some n"
  by (simp add: hex4_def less_mult_imp_div_less) (simp add: hex_val_def)

lemma char_code_eqI: "(of_char c :: nat) = of_char d \<Longrightarrow> c = d"
  by (simp add: of_char_eq_iff)

lemma scan_esc_char: "scan_str (esc_char c @ r) = map_option (apfst ((#) c)) (scan_str r)"
proof -
  define n where "n = (of_char c :: nat)"
  have n: "n < 256" "char_of n = c" by (simp_all add: n_def of_char_256)
  show ?thesis
  proof (cases "n \<in> {34, 92, 10, 13, 9, 12, 8}")
    case True
    then have "c = dquote \<or> c = bslash \<or> c = CHR 0x0A \<or> c = CHR 0x0D \<or> c = CHR 0x09
        \<or> c = CHR 0x0C \<or> c = CHR 0x08"
      by (auto simp: n_def intro: char_code_eqI)
    then show ?thesis by (elim disjE) (simp_all add: esc_char_def unesc_def)
  next
    case False
    show ?thesis
    proof (cases "32 \<le> n \<and> n \<le> 126")
      case True
      then have "c \<noteq> dquote" "c \<noteq> bslash" using False by (auto simp: n_def)
      then show ?thesis using True False by (simp add: esc_char_def Let_def n_def)
    next
      case plain: False
      then have "esc_char c = [bslash, CHR ''u'', CHR ''0'', CHR ''0'', hex_digit (n div 16),
          hex_digit (n mod 16)]"
        using False by (auto simp: esc_char_def Let_def n_def)
      then show ?thesis using n by (simp add: hex4_byte)
    qed
  qed
qed

lemma scan_json_str: "scan_str (concat (map esc_char s) @ dquote # r) = Some (s, r)"
  by (induction s) (simp_all add: scan_esc_char)

definition no_digit :: "string \<Rightarrow> bool" where
  "no_digit r = (r = [] \<or> \<not> is_digit (hd r))"

lemma takeWhile_digits:
  "\<forall>c \<in> set ds. is_digit c \<Longrightarrow> no_digit r \<Longrightarrow> takeWhile is_digit (ds @ r) = ds
     \<and> dropWhile is_digit (ds @ r) = r"
  by (induction ds) (auto simp: no_digit_def takeWhile_eq_Nil_iff dropWhile_eq_self_iff)

lemma nat_str_0 [simp]: "nat_str 0 = ''0''"
  by (simp add: nat_str.simps [of 0]) (rule char_code_eqI, simp)

lemma hd_nat_str_pos: "0 < n \<Longrightarrow> hd (nat_str n) \<noteq> CHR ''0''"
proof (induction n rule: nat_str.induct)
  case (1 n)
  show ?case
  proof (cases "n < 10")
    case True
    then have "(of_char (hd (nat_str n)) :: nat) = 48 + n" by (simp add: nat_str.simps [of n])
    then show ?thesis using "1.prems" by auto
  next
    case False
    then have "0 < n div 10" by (simp add: div_greater_zero_iff)
    with "1.IH" False show ?thesis by (simp add: nat_str.simps [of n])
  qed
qed

lemma hd_nat_str_digit: "is_digit (hd (nat_str n))"
  using nat_str_digits [of n] by (simp add: hd_in_set)

lemma scan_nat_str:
  assumes "no_digit r"
  shows "takeWhile is_digit (nat_str n @ r) = nat_str n" "dropWhile is_digit (nat_str n @ r) = r"
  using takeWhile_digits [OF nat_str_digits assms] by simp_all

lemma scan_int_str: "no_digit r \<Longrightarrow> scan_int (int_str i @ r) = Some (JInt i, r)"
proof -
  assume r: "no_digit r"
  have hd: "hd (nat_str m @ r) \<noteq> CHR ''-''" for m
    using hd_nat_str_digit [of m] by (auto simp: is_digit_def)
  consider "i = 0" | "0 < i" | "i < 0" by linarith
  then show ?thesis
  proof cases
    case 1
    then show ?thesis using r hd [of 0] scan_nat_str [OF r, of 0]
      by (simp add: scan_int_def int_str_def Let_def)
  next
    case 2
    then show ?thesis using r hd [of "nat i"] scan_nat_str [OF r] hd_nat_str_pos [of "nat i"]
      by (simp add: scan_int_def int_str_def Let_def)
  next
    case 3
    then show ?thesis using r scan_nat_str [OF r] hd_nat_str_pos [of "nat (- i)"]
      by (simp add: scan_int_def int_str_def Let_def)
  qed
qed

section \<open>Parsing inverts printing\<close>

text \<open>A value of the program: the keys of every object are distinct, as in a Python dictionary.\<close>

fun json_wf :: "json \<Rightarrow> bool"
  and wf_elems :: "json list \<Rightarrow> bool"
  and wf_members :: "(string \<times> json) list \<Rightarrow> bool" where
  "json_wf (JList xs) = wf_elems xs"
| "json_wf (JObj kvs) = (distinct (map fst kvs) \<and> wf_members kvs)"
| "json_wf _ = True"
| "wf_elems [] = True"
| "wf_elems (x # xs) = (json_wf x \<and> wf_elems xs)"
| "wf_members [] = True"
| "wf_members ((k, v) # kvs) = (json_wf v \<and> wf_members kvs)"

lemma skip_ws_nonspace: "\<not> json_ws c \<Longrightarrow> skip_ws (c # cs) = c # cs"
  by (simp add: skip_ws_def)

lemma skip_ws_space: "skip_ws (CHR '' '' # cs) = skip_ws cs"
  by (simp add: skip_ws_def json_ws_def)

lemma not_ws [simp]: "\<not> json_ws (CHR '','')" "\<not> json_ws (CHR '':'')" "\<not> json_ws (CHR '']'')"
  "\<not> json_ws (CHR ''}'')" "\<not> json_ws (CHR ''['')" "\<not> json_ws (CHR ''{'')" "\<not> json_ws dquote"
  by (simp_all add: json_ws_def)

text \<open>The first character of a printed value decides the branch of the parser.\<close>

lemma hd_int_str: "hd (int_str i) = CHR ''-'' \<or> is_digit (hd (int_str i))" "int_str i \<noteq> []"
  by (auto simp: int_str_def hd_nat_str_digit)

definition value_start :: "char \<Rightarrow> bool" where
  "value_start c = (\<not> json_ws c \<and> c \<noteq> CHR '']'' \<and> c \<noteq> CHR ''}'')"

lemma digit_start: "is_digit c \<Longrightarrow> value_start c \<and> c \<noteq> dquote \<and> c \<noteq> CHR ''{'' \<and> c \<noteq> CHR ''[''
    \<and> c \<noteq> CHR ''n'' \<and> c \<noteq> CHR ''t'' \<and> c \<noteq> CHR ''f''"
  by (auto simp: is_digit_def value_start_def json_ws_def)

lemma dumps_start: "\<exists>c cs. json_dumps j = c # cs \<and> value_start c"
proof (cases j)
  case (JInt i)
  then show ?thesis using hd_int_str [of i] digit_start [of "hd (int_str i)"]
    by (cases "int_str i") (auto simp: value_start_def json_ws_def)
qed (auto simp: json_str_def value_start_def json_ws_def)

lemma skip_ws_dumps: "skip_ws (json_dumps j @ r) = json_dumps j @ r"
  using dumps_start [of j] by (auto simp: value_start_def skip_ws_nonspace)

lemma dumps_not_close: "\<not> starts_with (json_dumps j @ r) '']''" "\<not> starts_with (json_dumps j @ r) ''}''"
  using dumps_start [of j] by (auto simp: value_start_def starts_with_def)

lemma length_dumps_pos: "0 < length (json_dumps j)"
  using dumps_start [of j] by auto

lemma parse_int: "no_digit r \<Longrightarrow> parse_value (Suc n) (int_str i @ r) = Some (JInt i, r)"
proof -
  assume r: "no_digit r"
  obtain c cs where c: "int_str i = c # cs" using hd_int_str(2) [of i] by (cases "int_str i") auto
  then have h: "c = CHR ''-'' \<or> is_digit c" using hd_int_str(1) [of i] by simp
  have "c \<noteq> dquote \<and> c \<noteq> CHR ''{'' \<and> c \<noteq> CHR ''['' \<and> c \<noteq> CHR ''n'' \<and> c \<noteq> CHR ''t'' \<and> c \<noteq> CHR ''f''"
    using h digit_start [of c] by auto
  then show ?thesis using scan_int_str [OF r, of i] c by simp
qed

lemma no_digit_seps [simp]: "no_digit (CHR '','' # r)" "no_digit (CHR '']'' # r)"
  "no_digit (CHR ''}'' # r)" "no_digit []"
  by (simp_all add: no_digit_def is_digit_def)

lemma parse_value_str [simp]: "parse_value (Suc n) (json_str s @ r) = Some (JStr s, r)"
  by (simp add: json_str_def scan_json_str)

lemma parse_elems_step:
  assumes "parse_value n (json_dumps x @ CHR '','' # q) = Some (x, CHR '','' # q)"
    and "parse_elems n (skip_ws q) = Some (xs, r)"
  shows "parse_elems (Suc n) (json_dumps x @ CHR '','' # q) = Some (x # xs, r)"
  using assms by (simp add: skip_ws_nonspace)

lemma parse_members_step:
  assumes "parse_value n (json_dumps v @ CHR '','' # q) = Some (v, CHR '','' # q)"
    and "parse_members n (skip_ws q) = Some (kvs, r)"
  shows "parse_members (Suc n) (json_str k @ '': '' @ json_dumps v @ CHR '','' # q)
    = Some ((k, v) # kvs, r)"
  using assms
  by (simp add: json_str_def scan_json_str skip_ws_nonspace skip_ws_space skip_ws_dumps)

lemma elems_skip: "xs \<noteq> [] \<Longrightarrow> skip_ws (dumps_elems xs @ r) = dumps_elems xs @ r"
  by (cases xs) (simp_all add: skip_ws_dumps)

lemma members_skip: "kvs \<noteq> [] \<Longrightarrow> skip_ws (dumps_members kvs @ r) = dumps_members kvs @ r"
  by (cases kvs rule: dumps_members.cases) (auto simp: json_str_def skip_ws_nonspace)

lemma parse_literals:
  assumes "k < n"
  shows "parse_value n (CHR ''n'' # CHR ''u'' # CHR ''l'' # CHR ''l'' # r) = Some (JNull, r)"
    and "parse_value n (CHR ''t'' # CHR ''r'' # CHR ''u'' # CHR ''e'' # r) = Some (JBool True, r)"
    and "parse_value n (CHR ''f'' # CHR ''a'' # CHR ''l'' # CHR ''s'' # CHR ''e'' # r)
      = Some (JBool False, r)"
  using assms by (cases n, simp_all)+

text \<open>The four compound cases of the round trip, each from the round trip of the parts.\<close>

lemma parse_dumps_list:
  assumes "xs \<noteq> [] \<Longrightarrow> (\<And>n r. 2 * length (dumps_elems xs) + 1 \<le> n \<Longrightarrow> parse_elems n (dumps_elems xs @ CHR '']'' # r) = Some (xs, r))"
    and "2 * length (json_dumps (JList xs)) \<le> n"
  shows "parse_value n (json_dumps (JList xs) @ r) = Some (JList xs, r)"
proof -
  obtain m where n: "n = Suc m" "2 * length (dumps_elems xs) + 3 \<le> m" using assms(2) by (cases n) auto
  show ?thesis
  proof (cases "xs = []")
    case True
    then show ?thesis using n by (simp add: skip_ws_nonspace)
  next
    case False
    have "\<not> starts_with (dumps_elems xs @ CHR '']'' # r) '']''" using False dumps_not_close by (cases xs) auto
    then show ?thesis using False n assms(1) [OF False, of m r] by (simp add: elems_skip)
  qed
qed

lemma parse_dumps_obj:
  assumes "kvs \<noteq> [] \<Longrightarrow> (\<And>n r. 2 * length (dumps_members kvs) + 1 \<le> n \<Longrightarrow> parse_members n (dumps_members kvs @ CHR ''}'' # r) = Some (kvs, r))"
    and "2 * length (json_dumps (JObj kvs)) \<le> n" "distinct (map fst kvs)"
  shows "parse_value n (json_dumps (JObj kvs) @ r) = Some (JObj kvs, r)"
proof -
  obtain m where n: "n = Suc m" "2 * length (dumps_members kvs) + 3 \<le> m" using assms(2) by (cases n) auto
  show ?thesis
  proof (cases "kvs = []")
    case True
    then show ?thesis using n by (simp add: skip_ws_nonspace)
  next
    case False
    have "\<not> starts_with (dumps_members kvs @ CHR ''}'' # r) ''}''"
      using False by (cases kvs rule: dumps_members.cases) (auto simp: json_str_def)
    moreover have "dupdate [] kvs = kvs" using assms(3) by (simp add: dupdate_append)
    ultimately show ?thesis using False n assms(1) [OF False, of m r] by (simp add: members_skip)
  qed
qed

lemma parse_dumps_elem:
  assumes "\<And>n r. 2 * length (json_dumps x) \<le> n \<Longrightarrow> no_digit r \<Longrightarrow> parse_value n (json_dumps x @ r) = Some (x, r)"
    and "xs \<noteq> [] \<Longrightarrow> (\<And>n r. 2 * length (dumps_elems xs) + 1 \<le> n \<Longrightarrow> parse_elems n (dumps_elems xs @ CHR '']'' # r) = Some (xs, r))"
    and "2 * length (dumps_elems (x # xs)) + 1 \<le> n"
  shows "parse_elems n (dumps_elems (x # xs) @ CHR '']'' # r) = Some (x # xs, r)"
proof -
  obtain m where n: "n = Suc m" "2 * length (dumps_elems (x # xs)) \<le> m" using assms(3) by (cases n) auto
  show ?thesis
  proof (cases "xs = []")
    case True
    then show ?thesis using assms(1) n by (simp add: skip_ws_nonspace)
  next
    case False
    have "parse_value m (json_dumps x @ CHR '','' # CHR '' '' # dumps_elems xs @ CHR '']'' # r)
        = Some (x, CHR '','' # CHR '' '' # dumps_elems xs @ CHR '']'' # r)"
      using assms(1) n False by auto
    moreover have "parse_elems m (skip_ws (CHR '' '' # dumps_elems xs @ CHR '']'' # r)) = Some (xs, r)"
      using assms(2) n False by (auto simp: skip_ws_space elems_skip)
    ultimately show ?thesis using False n parse_elems_step [of m x] by (simp del: parse_elems.simps)
  qed
qed

lemma parse_dumps_member:
  assumes "\<And>n r. 2 * length (json_dumps v) \<le> n \<Longrightarrow> no_digit r \<Longrightarrow> parse_value n (json_dumps v @ r) = Some (v, r)"
    and "kvs \<noteq> [] \<Longrightarrow> (\<And>n r. 2 * length (dumps_members kvs) + 1 \<le> n \<Longrightarrow> parse_members n (dumps_members kvs @ CHR ''}'' # r) = Some (kvs, r))"
    and "2 * length (dumps_members ((k, v) # kvs)) + 1 \<le> n"
  shows "parse_members n (dumps_members ((k, v) # kvs) @ CHR ''}'' # r) = Some ((k, v) # kvs, r)"
proof -
  obtain m where n: "n = Suc m" "2 * length (dumps_members ((k, v) # kvs)) \<le> m" using assms(3) by (cases n) auto
  show ?thesis
  proof (cases "kvs = []")
    case True
    then show ?thesis using assms(1) n
      by (simp add: json_str_def scan_json_str skip_ws_nonspace skip_ws_space skip_ws_dumps)
  next
    case False
    have "parse_value m (json_dumps v @ CHR '','' # CHR '' '' # dumps_members kvs @ CHR ''}'' # r)
        = Some (v, CHR '','' # CHR '' '' # dumps_members kvs @ CHR ''}'' # r)"
      using assms(1) n False by auto
    moreover have "parse_members m (skip_ws (CHR '' '' # dumps_members kvs @ CHR ''}'' # r)) = Some (kvs, r)"
      using assms(2) n False by (auto simp: skip_ws_space members_skip)
    ultimately have "parse_members (Suc m) (json_str k @ '': '' @ json_dumps v @ CHR '','' # CHR '' ''
        # dumps_members kvs @ CHR ''}'' # r) = Some ((k, v) # kvs, r)"
      by (rule parse_members_step)
    then show ?thesis using False n by (simp del: parse_members.simps)
  qed
qed

lemma parse_dumps:
  "json_wf j \<Longrightarrow> (\<forall>n r. 2 * length (json_dumps j) \<le> n \<longrightarrow> no_digit r \<longrightarrow>
     parse_value n (json_dumps j @ r) = Some (j, r))"
  "wf_elems xs \<Longrightarrow> (\<forall>n r. xs \<noteq> [] \<longrightarrow> 2 * length (dumps_elems xs) + 1 \<le> n \<longrightarrow>
     parse_elems n (dumps_elems xs @ CHR '']'' # r) = Some (xs, r))"
  "wf_members kvs \<Longrightarrow> (\<forall>n r. kvs \<noteq> [] \<longrightarrow> 2 * length (dumps_members kvs) + 1 \<le> n \<longrightarrow>
     parse_members n (dumps_members kvs @ CHR ''}'' # r) = Some (kvs, r))"
proof (induction j and xs and kvs rule: json_dumps_dumps_elems_dumps_members.induct)
  case (3 i)
  have "parse_value n (json_dumps (JInt i) @ r) = Some (JInt i, r)"
    if "2 * length (json_dumps (JInt i)) \<le> n" "no_digit r" for n r
    using that parse_int [OF that(2)] length_dumps_pos [of "JInt i"] by (cases n) auto
  then show ?case by blast
next
  case (4 s)
  have "parse_value n (json_dumps (JStr s) @ r) = Some (JStr s, r)" if n: "2 * length (json_dumps (JStr s)) \<le> n" for n r
  proof -
    obtain m where "n = Suc m" using n by (cases n) (auto simp: json_str_def)
    then show ?thesis by (simp only: json_dumps.simps parse_value_str)
  qed
  then show ?case by blast
next
  case (5 xs)
  then show ?case by (intro allI impI parse_dumps_list) simp_all
next
  case (6 kvs)
  then show ?case by (intro allI impI parse_dumps_obj) simp_all
next
  case (8 x xs)
  then show ?case by (intro allI impI parse_dumps_elem) simp_all
next
  case (10 k v kvs)
  then show ?case by (intro allI impI parse_dumps_member) simp_all
qed (auto simp: Suc_le_eq numeral_eq_Suc parse_literals)

lemma json_loads_dumps: "json_wf j \<Longrightarrow> json_loads (json_dumps j) = Inr j"
proof -
  assume wf: "json_wf j"
  have "parse_value (2 * length (json_dumps j) + 2) (json_dumps j @ []) = Some (j, [])"
    using parse_dumps(1) [OF wf, rule_format, of "2 * length (json_dumps j) + 2" "[]"]
    by (simp del: parse_value.simps)
  then show ?thesis using skip_ws_dumps [of j "[]"]
    by (simp add: json_loads_def skip_ws_def del: parse_value.simps)
qed

section \<open>The fuel is enough\<close>

lemmas parse_unfold = parse_value.simps parse_elems.simps parse_members.simps

declare parse_unfold [simp del]

lemma length_skip_ws: "length (skip_ws s) \<le> length s"
  by (simp add: skip_ws_def length_dropWhile_le)

lemma skip_ws_Cons_le: "skip_ws r = c # cs \<Longrightarrow> length cs < length r"
  using length_skip_ws [of r] by simp

lemma scan_str_consumes: "scan_str s = Some (x, r) \<Longrightarrow> length r < length s"
  by (induction s arbitrary: x rule: scan_str.induct)
    (fastforce split: if_splits list.splits option.splits)+

lemma scan_int_consumes: "scan_int s = Some (v, r) \<Longrightarrow> length r < length s"
proof -
  assume *: "scan_int s = Some (v, r)"
  define t where "t = (if s \<noteq> [] \<and> hd s = CHR ''-'' then tl s else s)"
  have t: "length t \<le> length s" by (simp add: t_def)
  from * have ne: "takeWhile is_digit t \<noteq> []"
    by (auto simp: scan_int_def Let_def t_def split: if_splits)
  then have "t \<noteq> []" by auto
  have "length t = length (takeWhile is_digit t) + length (dropWhile is_digit t)"
    by (metis length_append takeWhile_dropWhile_id)
  with ne have "length (dropWhile is_digit t) < length t" by simp
  with * t \<open>t \<noteq> []\<close> show ?thesis
    by (auto simp: scan_int_def Let_def t_def [symmetric] split: if_splits)
qed

lemma parse_consumes:
  "parse_value n s = Some (v, r) \<Longrightarrow> length r < length s"
  "parse_elems n s = Some (xs, r) \<Longrightarrow> length r < length s"
  "parse_members n s = Some (kvs, r) \<Longrightarrow> length r < length s"
proof (induction n s and n s and n s arbitrary: v r and xs r and kvs r
    rule: parse_value_parse_elems_parse_members.induct)
  case (2 n s)
  show ?case
  proof (cases s)
    case (Cons c cs)
    note le = length_skip_ws [of cs]
    from 2 Cons le show ?thesis
      by (fastforce simp: parse_unfold split: if_splits dest: scan_str_consumes scan_int_consumes)
  qed (use 2 in \<open>simp add: parse_unfold\<close>)
next
  case (4 n s)
  from 4(3) obtain v q c cs where v: "parse_value n s = Some (v, q)" and q: "skip_ws q = c # cs"
    by (auto simp: parse_unfold split: option.splits list.splits)
  have "length q < length s" "length cs < length q" "length (skip_ws cs) \<le> length cs"
    using 4(1) [OF v] skip_ws_Cons_le [OF q] length_skip_ws [of cs] by simp_all
  then show ?case using 4(2) [OF v refl q] 4(3) v q by (fastforce simp: parse_unfold split: if_splits)
next
  case (6 n s)
  then obtain c cs k p d ds v q e es where
    *: "s = c # cs" "scan_str cs = Some (k, p)" "skip_ws p = d # ds"
       "parse_value n (skip_ws ds) = Some (v, q)" "skip_ws q = e # es" "c = dquote" "d = CHR '':''"
    by (auto simp: parse_unfold split: option.splits list.splits if_splits)
  have "length p < length cs" "length ds < length p" "length (skip_ws ds) \<le> length ds"
    "length q < length (skip_ws ds)" "length es < length q" "length (skip_ws es) \<le> length es"
    using scan_str_consumes [OF *(2)] skip_ws_Cons_le [OF *(3)] skip_ws_Cons_le [OF *(5)]
      length_skip_ws [of ds] length_skip_ws [of es] * 6 by fastforce+
  then show ?case using 6 * by (fastforce simp: parse_unfold split: if_splits)
qed (simp_all add: parse_unfold)

text \<open>With fuel above a bound, the result does not depend on it; first for one text, given that for the shorter ones.\<close>

definition fuel_irrelevant :: "string \<Rightarrow> bool" where
  "fuel_irrelevant s \<longleftrightarrow>
     (\<forall>n m. 2 * length s < n \<longrightarrow> 2 * length s < m \<longrightarrow> parse_value n s = parse_value m s)
   \<and> (\<forall>n m. 2 * length s + 1 < n \<longrightarrow> 2 * length s + 1 < m \<longrightarrow> parse_elems n s = parse_elems m s)
   \<and> (\<forall>n m. 2 * length s < n \<longrightarrow> 2 * length s < m \<longrightarrow> parse_members n s = parse_members m s)"

lemma fuel_irrelevantD:
  "fuel_irrelevant t \<Longrightarrow> 2 * length t < n \<Longrightarrow> 2 * length t < m \<Longrightarrow> parse_value n t = parse_value m t"
  "fuel_irrelevant t \<Longrightarrow> 2 * length t + 1 < n \<Longrightarrow> 2 * length t + 1 < m \<Longrightarrow> parse_elems n t = parse_elems m t"
  "fuel_irrelevant t \<Longrightarrow> 2 * length t < n \<Longrightarrow> 2 * length t < m \<Longrightarrow> parse_members n t = parse_members m t"
  unfolding fuel_irrelevant_def by blast+

lemma parse_value_fuel:
  assumes "\<And>t. length t < length s \<Longrightarrow> fuel_irrelevant t" "2 * length s < n" "2 * length s < m"
  shows "parse_value n s = parse_value m s"
proof -
  from assms(2,3) obtain n' m' where n: "n = Suc n'" "m = Suc m'" by (cases n; cases m) auto
  show ?thesis
  proof (cases s)
    case (Cons c cs)
    have l: "length (skip_ws cs) < length s" "2 * length (skip_ws cs) + 1 < n'" "2 * length (skip_ws cs) + 1 < m'"
      using length_skip_ws [of cs] Cons assms(2,3) n by simp_all
    have e: "parse_elems n' (skip_ws cs) = parse_elems m' (skip_ws cs)"
      by (rule fuel_irrelevantD(2) [OF assms(1) [OF l(1)] l(2,3)])
    have m: "parse_members n' (skip_ws cs) = parse_members m' (skip_ws cs)"
      by (rule fuel_irrelevantD(3) [OF assms(1) [OF l(1)]]) (use l in simp_all)
    show ?thesis unfolding n parse_value.simps(2) e m Cons list.case by (rule refl)
  qed (simp add: n parse_unfold)
qed

lemma parse_elems_fuel:
  assumes "\<And>t. length t < length s \<Longrightarrow> fuel_irrelevant t" "2 * length s + 1 < n" "2 * length s + 1 < m"
  shows "parse_elems n s = parse_elems m s"
proof -
  from assms(2,3) obtain n' m' where n: "n = Suc n'" "m = Suc m'" by (cases n; cases m) auto
  have v: "parse_value n' s = parse_value m' s" using assms n by (intro parse_value_fuel) simp_all
  have "parse_elems n' (skip_ws cs) = parse_elems m' (skip_ws cs)"
    if "parse_value m' s = Some (v, r)" "skip_ws r = c # cs" for v r c cs
  proof -
    have "length (skip_ws cs) < length s"
      using parse_consumes(1) [OF that(1)] skip_ws_Cons_le [OF that(2)] length_skip_ws [of cs] by simp
    then show ?thesis using assms n by (intro fuel_irrelevantD(2)) simp_all
  qed
  then show ?thesis by (auto simp: n v parse_unfold split: option.splits list.splits)
qed

lemma parse_members_fuel:
  assumes "\<And>t. length t < length s \<Longrightarrow> fuel_irrelevant t" "2 * length s < n" "2 * length s < m"
  shows "parse_members n s = parse_members m s"
proof -
  from assms(2,3) obtain n' m' where n: "n = Suc n'" "m = Suc m'" by (cases n; cases m) auto
  show ?thesis
  proof (cases s)
    case (Cons c cs)
    have a: "parse_value n' (skip_ws ds) = parse_value m' (skip_ws ds)"
      and b: "parse_value m' (skip_ws ds) = Some (v, q) \<Longrightarrow> skip_ws q = e # es \<Longrightarrow>
        parse_members n' (skip_ws es) = parse_members m' (skip_ws es)"
      if "scan_str cs = Some (k, r)" "skip_ws r = d # ds" for k r d ds v q e es
    proof -
      have l: "length (skip_ws ds) < length cs"
        using scan_str_consumes [OF that(1)] skip_ws_Cons_le [OF that(2)] length_skip_ws [of ds] by simp
      then show "parse_value n' (skip_ws ds) = parse_value m' (skip_ws ds)"
        using Cons n assms by (intro fuel_irrelevantD(1)) simp_all
      assume pv: "parse_value m' (skip_ws ds) = Some (v, q)" and q: "skip_ws q = e # es"
      have "length (skip_ws es) < length cs"
        using l parse_consumes(1) [OF pv] skip_ws_Cons_le [OF q] length_skip_ws [of es] by simp
      then show "parse_members n' (skip_ws es) = parse_members m' (skip_ws es)"
        using Cons n assms by (intro fuel_irrelevantD(3)) simp_all
    qed
    then show ?thesis by (auto simp: n Cons parse_unfold split: option.splits list.splits)
  qed (simp add: n parse_unfold)
qed

lemma parse_fuel: "fuel_irrelevant s"
proof (induction s rule: length_induct)
  case (1 s)
  then have IH: "length t < length s \<Longrightarrow> fuel_irrelevant t" for t by blast
  show ?case unfolding fuel_irrelevant_def
    using parse_value_fuel [OF IH] parse_elems_fuel [OF IH] parse_members_fuel [OF IH] by blast
qed

lemma json_loads_fuel:
  "2 * length s < n \<Longrightarrow> parse_value n (skip_ws s) = parse_value (2 * length s + 2) (skip_ws s)"
  using fuel_irrelevantD(1) [OF parse_fuel, of "skip_ws s" n] length_skip_ws [of s] by auto

text \<open>What the parser returns is a Python value: the keys of a dictionary are distinct, a repeated key having replaced the earlier one.\<close>

lemma wf_members_dset: "wf_members d \<Longrightarrow> json_wf v \<Longrightarrow> wf_members (dset k v d)"
  by (induction d) auto

lemma wf_members_dupdate: "wf_members d \<Longrightarrow> wf_members kvs \<Longrightarrow> wf_members (dupdate d kvs)"
  by (induction kvs arbitrary: d) (auto simp: wf_members_dset)

lemma json_wf_dupdate: "wf_members kvs \<Longrightarrow> json_wf (JObj (dupdate [] kvs))"
  using distinct_dupdate [of "[] :: (string \<times> json) list" kvs] wf_members_dupdate [of "[]" kvs] by simp

lemma json_wf_Nil: "json_wf (JObj [])" by simp

lemma scan_int_wf: "scan_int s = Some (v, r) \<Longrightarrow> json_wf v"
  by (auto simp: scan_int_def Let_def split: if_splits)

lemma parse_wf:
  "parse_value n s = Some (v, r) \<Longrightarrow> json_wf v"
  "parse_elems n s = Some (xs, r) \<Longrightarrow> wf_elems xs"
  "parse_members n s = Some (kvs, r) \<Longrightarrow> wf_members kvs"
proof (induction n s and n s and n s arbitrary: v r and xs r and kvs r
    rule: parse_value_parse_elems_parse_members.induct)
  case (2 n s)
  then show ?case
    by (cases s) (auto simp: parse_unfold json_wf_Nil simp del: json_wf.simps(2) split: if_splits
        intro: json_wf_dupdate scan_int_wf)
qed (auto simp: parse_unfold split: option.splits list.splits if_splits)

lemma json_loads_wf: "json_loads s = Inr v \<Longrightarrow> json_wf v"
  by (auto simp: json_loads_def split: option.splits if_splits dest: parse_wf(1))

declare json_dumps.simps [simp del]

end
