(* ===== verification/Protocol.thy ===== *)
theory Protocol
  imports Json
begin

text \<open>
  The shared layer (\<^verbatim>\<open>shared/protocol.py\<close>, \<^verbatim>\<open>shared/constants.py\<close>, \<^verbatim>\<open>shared/utils.py\<close>): the packet
  types, the wire packet of \<open>make_packet\<close> and \<open>parse_packet\<close>, the constants, and the environment a
  process reads: the wall clock, the monotonic clock and the operating system's random bytes. The
  records of the server's and the client's state extend \<open>env\<close>. The packet accessors at the end
  are the ways the handlers read a field of a parsed packet.
\<close>

section \<open>Packet types, error codes and constants\<close>

datatype msg_type =
    AUTH_REGISTER | AUTH_LOGIN | AUTH_LOGOUT | AUTH_RESPONSE | KEY_REQUEST | KEY_RESPONSE
    | ROOM_CREATE | ROOM_JOIN | ROOM_LEAVE | ROOM_MEMBERS | ROOM_MEMBERS_LIST | ROOM_INFO
    | ROOM_MESSAGE | FILE_INIT | FILE_ACK | FILE_DONE | FILE_CANCEL | CALL_INVITE | CALL_ACCEPT
    | CALL_DECLINE | CALL_END | CALL_RELAY | MESSAGE | MESSAGE_EDIT | MESSAGE_DELETE | DELIVERY
    | READ | TYPING | SYNC_REQUEST | SYNC_RESPONSE | ONLINE_LIST | STATUS | PING | PONG | ERROR

fun type_str :: "msg_type \<Rightarrow> string" where
  "type_str AUTH_REGISTER = ''AUTH_REGISTER''"
| "type_str AUTH_LOGIN = ''AUTH_LOGIN''"
| "type_str AUTH_LOGOUT = ''AUTH_LOGOUT''"
| "type_str AUTH_RESPONSE = ''AUTH_RESPONSE''"
| "type_str KEY_REQUEST = ''KEY_REQUEST''"
| "type_str KEY_RESPONSE = ''KEY_RESPONSE''"
| "type_str ROOM_CREATE = ''ROOM_CREATE''"
| "type_str ROOM_JOIN = ''ROOM_JOIN''"
| "type_str ROOM_LEAVE = ''ROOM_LEAVE''"
| "type_str ROOM_MEMBERS = ''ROOM_MEMBERS''"
| "type_str ROOM_MEMBERS_LIST = ''ROOM_MEMBERS_LIST''"
| "type_str ROOM_INFO = ''ROOM_INFO''"
| "type_str ROOM_MESSAGE = ''ROOM_MESSAGE''"
| "type_str FILE_INIT = ''FILE_INIT''"
| "type_str FILE_ACK = ''FILE_ACK''"
| "type_str FILE_DONE = ''FILE_DONE''"
| "type_str FILE_CANCEL = ''FILE_CANCEL''"
| "type_str CALL_INVITE = ''CALL_INVITE''"
| "type_str CALL_ACCEPT = ''CALL_ACCEPT''"
| "type_str CALL_DECLINE = ''CALL_DECLINE''"
| "type_str CALL_END = ''CALL_END''"
| "type_str CALL_RELAY = ''CALL_RELAY''"
| "type_str MESSAGE = ''MESSAGE''"
| "type_str MESSAGE_EDIT = ''MESSAGE_EDIT''"
| "type_str MESSAGE_DELETE = ''MESSAGE_DELETE''"
| "type_str DELIVERY = ''DELIVERY''"
| "type_str READ = ''READ''"
| "type_str TYPING = ''TYPING''"
| "type_str SYNC_REQUEST = ''SYNC_REQUEST''"
| "type_str SYNC_RESPONSE = ''SYNC_RESPONSE''"
| "type_str ONLINE_LIST = ''ONLINE_LIST''"
| "type_str STATUS = ''STATUS''"
| "type_str PING = ''PING''"
| "type_str PONG = ''PONG''"
| "type_str ERROR = ''ERROR''"

definition all_types :: "msg_type list" where
  "all_types =
    [AUTH_REGISTER, AUTH_LOGIN, AUTH_LOGOUT, AUTH_RESPONSE, KEY_REQUEST, KEY_RESPONSE
     , ROOM_CREATE, ROOM_JOIN, ROOM_LEAVE, ROOM_MEMBERS, ROOM_MEMBERS_LIST, ROOM_INFO
     , ROOM_MESSAGE, FILE_INIT, FILE_ACK, FILE_DONE, FILE_CANCEL, CALL_INVITE, CALL_ACCEPT
     , CALL_DECLINE, CALL_END, CALL_RELAY, MESSAGE, MESSAGE_EDIT, MESSAGE_DELETE, DELIVERY, READ
     , TYPING, SYNC_REQUEST, SYNC_RESPONSE, ONLINE_LIST, STATUS, PING, PONG, ERROR]"

text \<open>\<^verbatim>\<open>MsgType\<close> is a string enumeration: a packet's type matches a member when the strings agree.\<close>

definition msg_type_of :: "string \<Rightarrow> msg_type option" where
  "msg_type_of s = List.find (\<lambda>t. type_str t = s) all_types"

lemma msg_type_of_str [simp]: "msg_type_of (type_str t) = Some t"
  by (cases t) (simp_all add: msg_type_of_def all_types_def)

lemma msg_type_of_Some: "msg_type_of s = Some t \<longleftrightarrow> s = type_str t"
  by (metis (mono_tags, lifting) find_Some_iff msg_type_of_def msg_type_of_str)

lemma type_str_inj: "type_str a = type_str b \<longleftrightarrow> a = b"
  by (metis msg_type_of_str option.inject)

definition SESSION_TTL :: int where "SESSION_TTL = 86400 * 7"
definition OFFLINE_QUEUE_TTL :: int where "OFFLINE_QUEUE_TTL = 86400 * 30"

section \<open>The environment: clocks and random bytes\<close>

record env =
  clock :: int
  mono :: real
  entropy :: "nat \<Rightarrow> byte"
  epos :: nat

definition now :: "('e env_scheme, int) prog" where
  "now = gets clock"

definition urandom :: "nat \<Rightarrow> ('e env_scheme, bytes) prog" where
  "urandom n = (\<lambda>s. (Inr (map (\<lambda>i. entropy s (epos s + i)) [0..<n]), s\<lparr>epos := epos s + n\<rparr>))"

definition new_id :: "('e env_scheme, string) prog" where
  "new_id = bnd (urandom 16) (\<lambda>bs. ret (uuid4_str bs))"

definition next_id :: "'e env_scheme \<Rightarrow> string" where
  "next_id s = uuid4_str (map (\<lambda>i. entropy s (epos s + i)) [0..<16])"

lemma now_app [simp]: "now s = (Inr (clock s), s)" by (simp add: now_def)

lemma new_id_app [simp]: "new_id s = (Inr (next_id s), s\<lparr>epos := epos s + 16\<rparr>)"
  by (simp add: new_id_def bnd_def urandom_def next_id_def)

lemma length_next_id [simp]: "length (next_id s) = 36"
  by (simp add: next_id_def length_uuid4_str)

lemma next_id_not_Nil [simp]: "next_id s \<noteq> []"
  by (simp add: next_id_def)

section \<open>Wire packets\<close>

definition packet_fields :: "string \<Rightarrow> string \<Rightarrow> int \<Rightarrow> (string \<times> json) list \<Rightarrow> (string \<times> json) list" where
  "packet_fields ty i ts kwargs = dupdate
     [(''version'', JStr ''1.0''), (''type'', JStr ty), (''id'', JStr i), (''timestamp'', JInt ts)]
     kwargs"

definition make_packet :: "string \<Rightarrow> (string \<times> json) list \<Rightarrow> ('e env_scheme, string) prog" where
  "make_packet ty kwargs = bnd new_id (\<lambda>i. bnd now (\<lambda>ts.
     ret (json_dumps (JObj (packet_fields ty i ts kwargs)))))"

definition parse_packet :: "string \<Rightarrow> exn + json" where
  "parse_packet data = json_loads data"

lemma make_packet_app [simp]:
  "make_packet ty kwargs s =
     (Inr (json_dumps (JObj (packet_fields ty (next_id s) (clock s) kwargs))), s\<lparr>epos := epos s + 16\<rparr>)"
  by (simp add: make_packet_def bnd_def)

lemma distinct_packet_fields: "distinct (map fst (packet_fields ty i ts kwargs))"
  unfolding packet_fields_def by (intro distinct_dupdate) simp

lemma json_wf_packet: "wf_members kwargs \<Longrightarrow> json_wf (JObj (packet_fields ty i ts kwargs))"
  using distinct_packet_fields by (simp add: packet_fields_def wf_members_dupdate)

lemma dget_dupdate: "dget (dupdate d kvs) k = (case dget (rev kvs) k of Some v \<Rightarrow> Some v | None \<Rightarrow> dget d k)"
proof (induction kvs arbitrary: d)
  case (Cons p kvs)
  then show ?case by (cases p) (auto simp: map_add_def split: option.splits)
qed simp

lemma dget_packet_kwarg:
  "distinct (map fst kwargs) \<Longrightarrow> dget kwargs k = Some v \<Longrightarrow> dget (packet_fields ty i ts kwargs) k = Some v"
  by (simp add: packet_fields_def dget_dupdate map_of_rev_distinct)

lemma parse_packet_dumps: "json_wf j \<Longrightarrow> parse_packet (json_dumps j) = Inr j"
  by (simp add: parse_packet_def json_loads_dumps)



text \<open> C8: What arrives on the wire is a Python value: every object in it has distinct keys, whatever the text said.
  So a packet can be printed again, with any field replaced as the server does when it stamps the sender, and
  the receiver parses exactly that packet. \<close>

theorem parsed_packet_is_dict:
  assumes "parse_packet raw = Inr v"
  shows "json_wf v \<and> parse_packet (json_dumps v) = Inr v \<and>
    (\<forall>pkt. v = JObj pkt \<longrightarrow> distinct (map fst pkt) \<and>
      (\<forall>k x. json_wf x \<longrightarrow> parse_packet (json_dumps (JObj (dset k x pkt))) = Inr (JObj (dset k x pkt))))"
proof -
  have wf: "json_wf v" using assms json_loads_wf by (simp add: parse_packet_def)
  then have "parse_packet (json_dumps (JObj (dset k x pkt))) = Inr (JObj (dset k x pkt))"
    if "v = JObj pkt" "json_wf x" for pkt k x
    using that by (intro parse_packet_dumps) (simp add: wf_members_dset distinct_dset)
  moreover have "distinct (map fst pkt)" if "v = JObj pkt" for pkt using wf that by simp
  ultimately show ?thesis using wf parse_packet_dumps [OF wf] by blast
qed

lemma parsed_packet_is_dict_witness:
  "parse_packet (json_dumps (JObj [(''to'', JStr ''bob''), (''from'', JStr ''ann'')])) =
     Inr (JObj [(''to'', JStr ''bob''), (''from'', JStr ''ann'')])"
proof -
  have "parse_packet (json_dumps (JObj [(''to'', JStr ''bob''), (''from'', JStr ''eve'')])) =
      Inr (JObj [(''to'', JStr ''bob''), (''from'', JStr ''eve'')])"
    by (rule parse_packet_dumps) simp
  from parsed_packet_is_dict [OF this, THEN conjunct2, THEN conjunct2, rule_format, OF refl, THEN conjunct2, rule_format,
      of "JStr ''ann''" "''from''"] show ?thesis by simp
qed

section \<open>Reading the fields of a packet\<close>

text \<open>
  A parsed packet is the association list of its object. Handlers read fields as Python does:
  \<open>truthy\<close> is the truth value of a JSON value; \<open>str_field\<close> is \<^verbatim>\<open>pkt.get(k, "")\<close> used as a string
  (any other type raises on the string method that follows); \<open>name_field\<close> is \<^verbatim>\<open>pkt.get(k)\<close> tested for
  truth and then used as a dictionary key and a text column; \<open>item_str\<close> is \<^verbatim>\<open>pkt[k]\<close> used so. A number
  or \<^verbatim>\<open>true\<close> where a name is expected raises in the model.
\<close>

type_synonym packet = "(string \<times> json) list"

fun truthy :: "json \<Rightarrow> bool" where
  "truthy JNull = False"
| "truthy (JBool b) = b"
| "truthy (JInt i) = (i \<noteq> 0)"
| "truthy (JStr s) = (s \<noteq> [])"
| "truthy (JList xs) = (xs \<noteq> [])"
| "truthy (JObj kvs) = (kvs \<noteq> [])"

definition jget :: "packet \<Rightarrow> string \<Rightarrow> json" where
  "jget pkt k = (case dget pkt k of Some v \<Rightarrow> v | None \<Rightarrow> JNull)"

definition jget_or :: "packet \<Rightarrow> string \<Rightarrow> json \<Rightarrow> json" where
  "jget_or pkt k d = (case dget pkt k of Some v \<Rightarrow> v | None \<Rightarrow> d)"

fun as_str :: "exn \<Rightarrow> json \<Rightarrow> exn + string" where
  "as_str e (JStr s) = Inr s"
| "as_str e _ = Inl e"

definition str_field :: "packet \<Rightarrow> string \<Rightarrow> exn + string" where
  "str_field pkt k = as_str AttributeError (jget_or pkt k (JStr []))"

definition strip_field :: "packet \<Rightarrow> string \<Rightarrow> exn + string" where
  "strip_field pkt k = map_sum id py_strip (str_field pkt k)"

definition as_name :: "json \<Rightarrow> exn + string option" where
  "as_name v = (if truthy v then map_sum id Some (as_str TypeError v) else Inr None)"

definition name_field :: "packet \<Rightarrow> string \<Rightarrow> exn + string option" where
  "name_field pkt k = as_name (jget pkt k)"

definition item_str :: "packet \<Rightarrow> string \<Rightarrow> exn + string" where
  "item_str pkt k = (case dget pkt k of None \<Rightarrow> Inl KeyError | Some v \<Rightarrow> as_str TypeError v)"

text \<open>
  Binding a JSON value to a SQLite column: an integer must fit 64 bits; a nullable text column
  stores numbers in decimal (\<^verbatim>\<open>true\<close> is 1) and rejects lists and objects.
\<close>

definition sql_int :: "int \<Rightarrow> exn + int" where
  "sql_int i = (if - (2 ^ 63) \<le> i \<and> i < 2 ^ 63 then Inr i else Inl OverflowError)"

fun opt_text :: "json \<Rightarrow> exn + string option" where
  "opt_text JNull = Inr None"
| "opt_text (JStr s) = Inr (Some s)"
| "opt_text (JInt i) = map_sum id (\<lambda>i. Some (int_str i)) (sql_int i)"
| "opt_text (JBool b) = Inr (Some (if b then ''1'' else ''0''))"
| "opt_text _ = Inl TypeError"

definition opt_json :: "string option \<Rightarrow> json" where
  "opt_json v = (case v of None \<Rightarrow> JNull | Some s \<Rightarrow> JStr s)"

text \<open>\<^verbatim>\<open>int(v)\<close> of a JSON value: integers, booleans and decimal strings
  without underscores.\<close>

definition int_of_str :: "string \<Rightarrow> exn + int" where
  "int_of_str s0 = (let s = py_strip s0;
      neg = starts_with s ''-''; t = (if neg \<or> starts_with s ''+'' then tl s else s)
    in if t \<noteq> [] \<and> list_all is_digit t
       then Inr ((if neg then - 1 else 1) * int (dec_val t)) else Inl ValueError)"

fun py_int :: "json \<Rightarrow> exn + int" where
  "py_int (JInt i) = Inr i"
| "py_int (JBool b) = Inr (if b then 1 else 0)"
| "py_int (JStr s) = int_of_str s"
| "py_int _ = Inl TypeError"

text \<open>\<^verbatim>\<open>str(v)\<close>, as in an f-string, of a JSON value.\<close>

definition py_printable :: "char \<Rightarrow> bool" where
  "py_printable c = (let n = (of_char c :: nat) in
     (32 \<le> n \<and> n \<le> 126) \<or> (161 \<le> n \<and> n \<noteq> 173))"

definition repr_str :: "string \<Rightarrow> string" where
  "repr_str s =
    (let q = (if CHR 0x27 \<in> set s \<and> dquote \<notin> set s then dquote else CHR 0x27);
         esc = (\<lambda>c. if c = q \<or> c = bslash then [bslash, c]
                    else if c = CHR 0x09 then [bslash, CHR ''t'']
                    else if c = CHR 0x0A then [bslash, CHR ''n'']
                    else if c = CHR 0x0D then [bslash, CHR ''r'']
                    else if py_printable c then [c]
                    else [bslash, CHR ''x''] @ hex_byte (byte_of (of_char c)))
     in q # concat (map esc s) @ [q])"

fun py_repr :: "json \<Rightarrow> string"
  and repr_elems :: "json list \<Rightarrow> string"
  and repr_members :: "(string \<times> json) list \<Rightarrow> string" where
  "py_repr JNull = ''None''"
| "py_repr (JBool b) = (if b then ''True'' else ''False'')"
| "py_repr (JInt i) = int_str i"
| "py_repr (JStr s) = repr_str s"
| "py_repr (JList xs) = ''['' @ repr_elems xs @ '']''"
| "py_repr (JObj kvs) = ''{'' @ repr_members kvs @ ''}''"
| "repr_elems [] = []"
| "repr_elems (x # xs) = py_repr x @ (if xs = [] then [] else '', '' @ repr_elems xs)"
| "repr_members [] = []"
| "repr_members ((k, v) # kvs) = repr_str k @ '': '' @ py_repr v
     @ (if kvs = [] then [] else '', '' @ repr_members kvs)"

fun py_str :: "json \<Rightarrow> string" where
  "py_str (JStr s) = s"
| "py_str v = py_repr v"

text \<open>\<^verbatim>\<open>pkt.get("type")\<close> compared with the members of \<^verbatim>\<open>MsgType\<close>.\<close>

definition packet_type :: "packet \<Rightarrow> msg_type option" where
  "packet_type pkt = (case jget pkt ''type'' of JStr s \<Rightarrow> msg_type_of s | _ \<Rightarrow> None)"

section \<open>Truncation\<close>

text \<open>
  \<^verbatim>\<open>trunc(s, n)\<close> cuts a string to \<open>n\<close> characters, the last one an ellipsis (the argument \<open>ell\<close>,
  U+2026, above the range of HOL characters); a negative slice bound counts from the end.
\<close>

definition py_take :: "int \<Rightarrow> 'c list \<Rightarrow> 'c list" where
  "py_take k s = take (nat (if k < 0 then int (length s) + k else k)) s"

definition trunc :: "'c \<Rightarrow> 'c list \<Rightarrow> int \<Rightarrow> 'c list" where
  "trunc ell s n = (if int (length s) \<le> n then s else py_take (n - 1) s @ [ell])"

lemma trunc_length: "1 \<le> n \<Longrightarrow> int (length (trunc ell s n)) \<le> n"
  by (auto simp: trunc_def py_take_def min_def)

end
