(* ===== verification/Server_Db.thy ===== *)
theory Server_Db
  imports Protocol
begin

text \<open>
  The server's SQLite database (\<^verbatim>\<open>server/db/schema.py\<close>, \<^verbatim>\<open>users.py\<close>, \<^verbatim>\<open>messages.py\<close>, \<^verbatim>\<open>files.py\<close>,
  \<^verbatim>\<open>calls.py\<close> and the statements of \<^verbatim>\<open>server/rooms.py\<close>): one row record per table, a table as the list
  of its rows in insertion order, one function per statement. \<^verbatim>\<open>INSERT\<close> raises \<open>IntegrityError\<close> on a
  violated key, \<^verbatim>\<open>INSERT OR IGNORE\<close> leaves the table as it is; both add at the end. A query without
  \<^verbatim>\<open>ORDER BY\<close> is modelled in insertion order and \<^verbatim>\<open>ORDER BY\<close> as a stable sort. The invariant \<open>db_ok\<close>
  states the declared keys, and every statement keeps it.
\<close>

section \<open>Tables\<close>

record user_row =
  u_id :: string
  u_name :: string
  u_password :: string
  u_public_key :: "string option"
  u_created_at :: int
  u_last_seen :: "int option"

record session_row =
  s_token :: string
  s_user_id :: string
  s_username :: string
  s_created_at :: int
  s_expires_at :: int

record queue_row =
  q_id :: string
  q_to_user :: string
  q_packet :: string
  q_created_at :: int

record room_row =
  r_id :: string
  r_name :: string
  r_created_by :: string
  r_created_at :: int

record member_row =
  m_room_id :: string
  m_username :: string
  m_joined_at :: int

record file_row =
  f_id :: string
  f_name :: string
  f_size :: int
  f_total_chunks :: int
  f_uploader :: string
  f_recipient :: string
  f_encrypted_key :: "string option"
  f_created_at :: int
  f_expires_at :: "int option"

record chunk_row =
  c_id :: string
  c_file_id :: string
  c_index :: int
  c_checksum :: string
  c_delivered :: int

record call_row =
  k_id :: string
  k_caller :: string
  k_callee :: string
  k_started_at :: "int option"
  k_ended_at :: "int option"
  k_relay_used :: int
  k_status :: string

record database =
  users :: "user_row list"
  sessions :: "session_row list"
  offline_queue :: "queue_row list"
  rooms :: "room_row list"
  room_members :: "member_row list"
  files :: "file_row list"
  chunks :: "chunk_row list"
  call_sessions :: "call_row list"

definition empty_db :: database where
  "empty_db = \<lparr>users = [], sessions = [], offline_queue = [], rooms = [], room_members = [],
     files = [], chunks = [], call_sessions = []\<rparr>"

text \<open>\<^verbatim>\<open>clear_server_state\<close>: every table emptied.\<close>

definition clear_server_state :: "database \<Rightarrow> database" where
  "clear_server_state d = d\<lparr>sessions := [], offline_queue := [], room_members := [], rooms := [],
     chunks := [], files := [], call_sessions := [], users := []\<rparr>"

section \<open>Statements on users and sessions\<close>

definition create_user ::
  "string \<Rightarrow> string \<Rightarrow> string \<Rightarrow> int \<Rightarrow> string option \<Rightarrow> database \<Rightarrow> exn + database" where
  "create_user uid username hashed ts public_key d =
    (if uid \<in> u_id ` set (users d) \<or> username \<in> u_name ` set (users d) then Inl IntegrityError
     else Inr (d\<lparr>users := users d @ [\<lparr>u_id = uid, u_name = username, u_password = hashed,
       u_public_key = public_key, u_created_at = ts, u_last_seen = None\<rparr>]\<rparr>))"

definition get_by_username :: "string \<Rightarrow> database \<Rightarrow> user_row option" where
  "get_by_username username d = List.find (\<lambda>u. u_name u = username) (users d)"

definition update_last_seen :: "string \<Rightarrow> int \<Rightarrow> database \<Rightarrow> database" where
  "update_last_seen username ts d = d\<lparr>users :=
     map (\<lambda>u. if u_name u = username then u\<lparr>u_last_seen := Some ts\<rparr> else u) (users d)\<rparr>"

definition get_public_key :: "string \<Rightarrow> database \<Rightarrow> string option" where
  "get_public_key username d = Option.bind (get_by_username username d) u_public_key"

definition create_session ::
  "string \<Rightarrow> string \<Rightarrow> string \<Rightarrow> int \<Rightarrow> int \<Rightarrow> database \<Rightarrow> exn + database" where
  "create_session token user_id username created expires d =
    (if token \<in> s_token ` set (sessions d) then Inl IntegrityError
     else Inr (d\<lparr>sessions := sessions d @ [\<lparr>s_token = token, s_user_id = user_id,
       s_username = username, s_created_at = created, s_expires_at = expires\<rparr>]\<rparr>))"

definition get_session :: "string \<Rightarrow> int \<Rightarrow> database \<Rightarrow> session_row option" where
  "get_session token t d = List.find (\<lambda>s. s_token s = token \<and> s_expires_at s > t) (sessions d)"

definition delete_session :: "string \<Rightarrow> database \<Rightarrow> database" where
  "delete_session token d = d\<lparr>sessions := filter (\<lambda>s. s_token s \<noteq> token) (sessions d)\<rparr>"

section \<open>Statements on the offline queue\<close>

definition db_enqueue :: "string \<Rightarrow> string \<Rightarrow> string \<Rightarrow> int \<Rightarrow> database \<Rightarrow> database" where
  "db_enqueue msg_id to_user pkt ts d =
    (if msg_id \<in> q_id ` set (offline_queue d) then d
     else d\<lparr>offline_queue := offline_queue d @
       [\<lparr>q_id = msg_id, q_to_user = to_user, q_packet = pkt, q_created_at = ts\<rparr>]\<rparr>)"

definition get_queued :: "string \<Rightarrow> int \<Rightarrow> database \<Rightarrow> queue_row list" where
  "get_queued to_user since d = sort_key q_created_at
     (filter (\<lambda>q. q_to_user q = to_user \<and> q_created_at q > since) (offline_queue d))"

definition clear_queue :: "string \<Rightarrow> database \<Rightarrow> database" where
  "clear_queue to_user d =
     d\<lparr>offline_queue := filter (\<lambda>q. q_to_user q \<noteq> to_user) (offline_queue d)\<rparr>"

section \<open>Statements on rooms\<close>

definition insert_room :: "room_row \<Rightarrow> database \<Rightarrow> exn + database" where
  "insert_room r d = (if r_id r \<in> r_id ` set (rooms d) then Inl IntegrityError
     else Inr (d\<lparr>rooms := rooms d @ [r]\<rparr>))"

definition insert_member :: "member_row \<Rightarrow> database \<Rightarrow> database" where
  "insert_member m d =
    (if (m_room_id m, m_username m) \<in> (\<lambda>x. (m_room_id x, m_username x)) ` set (room_members d)
     then d else d\<lparr>room_members := room_members d @ [m]\<rparr>)"

definition delete_member :: "string \<Rightarrow> string \<Rightarrow> database \<Rightarrow> database" where
  "delete_member room_id username d = d\<lparr>room_members :=
     filter (\<lambda>m. \<not> (m_room_id m = room_id \<and> m_username m = username)) (room_members d)\<rparr>"

definition select_members :: "string \<Rightarrow> database \<Rightarrow> string list" where
  "select_members room_id d =
     map m_username (filter (\<lambda>m. m_room_id m = room_id) (room_members d))"

definition select_user_rooms :: "string \<Rightarrow> database \<Rightarrow> room_row list" where
  "select_user_rooms username d = concat (map (\<lambda>m.
     if m_username m = username then filter (\<lambda>r. r_id r = m_room_id m) (rooms d) else [])
     (room_members d))"

definition room_exists_db :: "string \<Rightarrow> database \<Rightarrow> bool" where
  "room_exists_db room_id d \<longleftrightarrow> room_id \<in> r_id ` set (rooms d)"

section \<open>Statements on files and chunks\<close>

definition create_file :: "file_row \<Rightarrow> database \<Rightarrow> database" where
  "create_file f d = (if f_id f \<in> f_id ` set (files d) then d else d\<lparr>files := files d @ [f]\<rparr>)"

definition get_file :: "string \<Rightarrow> database \<Rightarrow> file_row option" where
  "get_file fid d = List.find (\<lambda>f. f_id f = fid) (files d)"

definition add_chunk :: "string \<Rightarrow> string \<Rightarrow> int \<Rightarrow> string \<Rightarrow> database \<Rightarrow> database" where
  "add_chunk cid fid i checksum d =
    (if cid \<in> c_id ` set (chunks d) \<or> (fid, i) \<in> (\<lambda>c. (c_file_id c, c_index c)) ` set (chunks d)
     then d
     else d\<lparr>chunks := chunks d @ [\<lparr>c_id = cid, c_file_id = fid, c_index = i,
       c_checksum = checksum, c_delivered = 1\<rparr>]\<rparr>)"

definition mark_chunk_delivered :: "string \<Rightarrow> int \<Rightarrow> database \<Rightarrow> database" where
  "mark_chunk_delivered fid i d = d\<lparr>chunks := map (\<lambda>c.
     if c_file_id c = fid \<and> c_index c = i then c\<lparr>c_delivered := 1\<rparr> else c) (chunks d)\<rparr>"

definition get_chunks :: "string \<Rightarrow> database \<Rightarrow> chunk_row list" where
  "get_chunks fid d = sort_key c_index (filter (\<lambda>c. c_file_id c = fid) (chunks d))"

definition count_delivered :: "string \<Rightarrow> database \<Rightarrow> int" where
  "count_delivered fid d =
     int (length (filter (\<lambda>c. c_file_id c = fid \<and> c_delivered c = 1) (chunks d)))"

definition delete_file :: "string \<Rightarrow> database \<Rightarrow> database" where
  "delete_file fid d = d\<lparr>chunks := filter (\<lambda>c. c_file_id c \<noteq> fid) (chunks d),
     files := filter (\<lambda>f. f_id f \<noteq> fid) (files d)\<rparr>"

definition get_expired_files :: "int \<Rightarrow> database \<Rightarrow> file_row list" where
  "get_expired_files t d =
     filter (\<lambda>f. case f_expires_at f of None \<Rightarrow> False | Some e \<Rightarrow> e < t) (files d)"

section \<open>Statements on call sessions\<close>

definition create_call :: "string \<Rightarrow> string \<Rightarrow> string \<Rightarrow> int \<Rightarrow> database \<Rightarrow> exn + database" where
  "create_call kid caller callee started d =
    (if kid \<in> k_id ` set (call_sessions d) then Inl IntegrityError
     else Inr (d\<lparr>call_sessions := call_sessions d @ [\<lparr>k_id = kid, k_caller = caller,
       k_callee = callee, k_started_at = Some started, k_ended_at = None, k_relay_used = 0,
       k_status = ''pending''\<rparr>]\<rparr>))"

text \<open>\<^verbatim>\<open>update_call(id, status=...)\<close>, the one call the program makes.\<close>

definition update_call_status :: "string \<Rightarrow> string \<Rightarrow> database \<Rightarrow> database" where
  "update_call_status kid status d = d\<lparr>call_sessions :=
     map (\<lambda>k. if k_id k = kid then k\<lparr>k_status := status\<rparr> else k) (call_sessions d)\<rparr>"

definition get_call :: "string \<Rightarrow> database \<Rightarrow> call_row option" where
  "get_call kid d = List.find (\<lambda>k. k_id k = kid) (call_sessions d)"

definition db_end_call :: "string \<Rightarrow> int \<Rightarrow> bool \<Rightarrow> database \<Rightarrow> database" where
  "db_end_call kid ended relay d = d\<lparr>call_sessions :=
     map (\<lambda>k. if k_id k = kid then k\<lparr>k_ended_at := Some ended,
       k_relay_used := (if relay then 1 else 0), k_status := ''ended''\<rparr> else k) (call_sessions d)\<rparr>"

section \<open>Keys\<close>

definition db_ok :: "database \<Rightarrow> bool" where
  "db_ok d \<longleftrightarrow>
     distinct (map u_id (users d)) \<and> distinct (map u_name (users d)) \<and>
     distinct (map s_token (sessions d)) \<and> distinct (map q_id (offline_queue d)) \<and>
     distinct (map r_id (rooms d)) \<and>
     distinct (map (\<lambda>m. (m_room_id m, m_username m)) (room_members d)) \<and>
     distinct (map f_id (files d)) \<and> distinct (map c_id (chunks d)) \<and>
     distinct (map (\<lambda>c. (c_file_id c, c_index c)) (chunks d)) \<and>
     distinct (map k_id (call_sessions d))"

named_theorems db_keeps \<comment> \<open>statements keep the declared keys\<close>

lemma db_ok_empty [db_keeps]: "db_ok empty_db" "db_ok (clear_server_state d)"
  by (simp_all add: db_ok_def empty_db_def clear_server_state_def)

lemma map_if_same: "(\<And>x. g (f x) = g x) \<Longrightarrow> map g (map (\<lambda>x. if P x then f x else x) xs) = map g xs"
  by (induction xs) auto

lemma distinct_map_filter_key: "distinct (map f xs) \<Longrightarrow> distinct (map f (filter P xs))"
  by (rule distinct_map_filter)

lemma db_ok_create_user [db_keeps]: "db_ok d \<Longrightarrow> create_user i n h t k d = Inr d' \<Longrightarrow> db_ok d'"
  by (auto simp: create_user_def db_ok_def split: if_splits)

lemma db_ok_update_last_seen [db_keeps]: "db_ok d \<Longrightarrow> db_ok (update_last_seen n t d)"
  by (simp add: update_last_seen_def db_ok_def map_if_same del: map_map)

lemma db_ok_create_session [db_keeps]:
  "db_ok d \<Longrightarrow> create_session k i n c e d = Inr d' \<Longrightarrow> db_ok d'"
  by (auto simp: create_session_def db_ok_def split: if_splits)

lemma db_ok_delete_session [db_keeps]: "db_ok d \<Longrightarrow> db_ok (delete_session k d)"
  by (simp add: delete_session_def db_ok_def distinct_map_filter_key)

lemma db_ok_enqueue [db_keeps]: "db_ok d \<Longrightarrow> db_ok (db_enqueue i u p t d)"
  by (auto simp: db_enqueue_def db_ok_def)

lemma db_ok_clear_queue [db_keeps]: "db_ok d \<Longrightarrow> db_ok (clear_queue u d)"
  by (simp add: clear_queue_def db_ok_def distinct_map_filter_key)

lemma db_ok_insert_room [db_keeps]: "db_ok d \<Longrightarrow> insert_room r d = Inr d' \<Longrightarrow> db_ok d'"
  by (auto simp: insert_room_def db_ok_def split: if_splits)

lemma db_ok_insert_member [db_keeps]: "db_ok d \<Longrightarrow> db_ok (insert_member m d)"
  by (auto simp: insert_member_def db_ok_def)

lemma db_ok_delete_member [db_keeps]: "db_ok d \<Longrightarrow> db_ok (delete_member r u d)"
  by (simp add: delete_member_def db_ok_def distinct_map_filter_key)

lemma db_ok_create_file [db_keeps]: "db_ok d \<Longrightarrow> db_ok (create_file f d)"
  by (auto simp: create_file_def db_ok_def)

lemma db_ok_add_chunk [db_keeps]: "db_ok d \<Longrightarrow> db_ok (add_chunk i f n c d)"
  by (auto simp: add_chunk_def db_ok_def)

lemma db_ok_mark_chunk_delivered [db_keeps]: "db_ok d \<Longrightarrow> db_ok (mark_chunk_delivered f n d)"
  by (simp add: mark_chunk_delivered_def db_ok_def map_if_same del: map_map)

lemma db_ok_delete_file [db_keeps]: "db_ok d \<Longrightarrow> db_ok (delete_file f d)"
  by (simp add: delete_file_def db_ok_def distinct_map_filter_key)

lemma db_ok_create_call [db_keeps]: "db_ok d \<Longrightarrow> create_call k a b t d = Inr d' \<Longrightarrow> db_ok d'"
  by (auto simp: create_call_def db_ok_def split: if_splits)

lemma db_ok_update_call_status [db_keeps]: "db_ok d \<Longrightarrow> db_ok (update_call_status k s d)"
  by (simp add: update_call_status_def db_ok_def map_if_same del: map_map)

lemma db_ok_db_end_call [db_keeps]: "db_ok d \<Longrightarrow> db_ok (db_end_call k t r d)"
  by (simp add: db_end_call_def db_ok_def map_if_same del: map_map)

section \<open>Lookups\<close>

lemma find_distinct_Some:
  "distinct (map f xs) \<Longrightarrow> List.find (\<lambda>x. f x = k) xs = Some x \<longleftrightarrow> x \<in> set xs \<and> f x = k"
  by (induction xs) (auto simp: rev_image_eqI)

lemma find_None_image: "List.find (\<lambda>x. f x = k) xs = None \<longleftrightarrow> k \<notin> f ` set xs"
  by (auto simp: find_None_iff)

lemma find_append: "List.find P (xs @ ys) = (case List.find P xs of Some x \<Rightarrow> Some x | None \<Rightarrow> List.find P ys)"
  by (induction xs) auto

lemma find_map_if:
  "(\<And>x. P (f x) = P x) \<Longrightarrow> List.find P (map f xs) = map_option f (List.find P xs)"
  by (induction xs) auto

lemma get_by_username_create:
  assumes "create_user i n h t k d = Inr d'"
  shows "get_by_username m d' =
     (if m = n then Some \<lparr>u_id = i, u_name = n, u_password = h, u_public_key = k, u_created_at = t,
        u_last_seen = None\<rparr> else get_by_username m d)"
proof -
  have "List.find (\<lambda>u. u_name u = n) (users d) = None"
    using assms by (auto simp: create_user_def find_None_image split: if_splits)
  then show ?thesis using assms
    by (auto simp: create_user_def get_by_username_def find_append split: if_splits option.splits)
qed

lemma get_by_username_last_seen:
  "get_by_username m (update_last_seen n t d) =
     map_option (\<lambda>u. if u_name u = n then u\<lparr>u_last_seen := Some t\<rparr> else u) (get_by_username m d)"
  unfolding get_by_username_def update_last_seen_def by (simp add: find_map_if)

lemma get_session_create:
  assumes "create_session k i n c e d = Inr d'"
  shows "get_session k t d' = (if t < e then
     Some \<lparr>s_token = k, s_user_id = i, s_username = n, s_created_at = c, s_expires_at = e\<rparr> else None)"
proof -
  have "List.find (\<lambda>s. s_token s = k \<and> t < s_expires_at s) (sessions d) = None"
    using assms by (auto simp: create_session_def find_None_iff split: if_splits)
  then show ?thesis using assms
    by (auto simp: create_session_def get_session_def find_append split: if_splits)
qed

lemma get_session_delete: "get_session k t (delete_session k d) = None"
  by (auto simp: get_session_def delete_session_def find_None_iff)

lemma mem_get_queued:
  "q \<in> set (get_queued u since d) \<longleftrightarrow> q \<in> set (offline_queue d) \<and> q_to_user q = u \<and> since < q_created_at q"
  by (auto simp: get_queued_def)

lemma sorted_get_queued: "sorted (map q_created_at (get_queued u since d))"
  by (simp add: get_queued_def)

lemma sorted_get_chunks: "sorted (map c_index (get_chunks f d))"
  by (simp add: get_chunks_def)

lemma mem_get_chunks: "c \<in> set (get_chunks f d) \<longleftrightarrow> c \<in> set (chunks d) \<and> c_file_id c = f"
  by (auto simp: get_chunks_def)

lemma distinct_select_members: "db_ok d \<Longrightarrow> distinct (select_members r d)"
  by (auto simp: db_ok_def select_members_def distinct_map inj_on_def filter_id_conv)

lemma mem_select_members:
  "u \<in> set (select_members r d) \<longleftrightarrow> (\<exists>m \<in> set (room_members d). m_room_id m = r \<and> m_username m = u)"
  by (auto simp: select_members_def)

end
