(* ===== verification/Router.thy ===== *)
theory Router
  imports Protocol
begin

text \<open>
  The connection registry of \<^verbatim>\<open>server/router.py\<close>: user name to WebSocket, at most one socket per user.
  A socket is a number. The registry is a \<open>key_store\<close>, so a later registration of a name replaces
  the earlier one and \<open>unregister\<close> removes whatever socket is registered under the name.
\<close>

type_synonym ws = nat
type_synonym registry = "(string \<times> ws) list"

definition register :: "string \<Rightarrow> ws \<Rightarrow> registry \<Rightarrow> registry" where
  "register username w conns = dset username w conns"

definition unregister :: "string \<Rightarrow> registry \<Rightarrow> registry" where
  "unregister username conns = dpop username conns"

definition lookup :: "registry \<Rightarrow> string \<Rightarrow> ws option" where
  "lookup conns username = dget conns username"

definition online_users :: "registry \<Rightarrow> string list" where
  "online_users conns = map fst conns"

definition is_online :: "string \<Rightarrow> registry \<Rightarrow> bool" where
  "is_online username conns \<longleftrightarrow> username \<in> fst ` set conns"

interpretation reg: key_store lookup register unregister
  by unfold_locales (simp_all add: lookup_def register_def unregister_def)

lemma is_online_lookup: "is_online u c \<longleftrightarrow> lookup c u \<noteq> None"
  by (simp add: is_online_def lookup_def map_of_eq_None_iff del: not_None_eq)

lemma online_users_lookup: "u \<in> set (online_users c) \<longleftrightarrow> lookup c u \<noteq> None"
  using is_online_lookup by (simp add: online_users_def is_online_def)

lemma distinct_register: "distinct (map fst c) \<Longrightarrow> distinct (map fst (register u w c))"
  unfolding register_def by (rule distinct_dset)

lemma distinct_unregister: "distinct (map fst c) \<Longrightarrow> distinct (map fst (unregister u c))"
  unfolding unregister_def by (rule distinct_dpop)

end
