(* ===== verification/Rate_Limiter.thy ===== *)
theory Rate_Limiter
  imports Protocol
begin

text \<open>
  The token bucket of \<^verbatim>\<open>server/rate_limiter.py\<close>. Python's floats are modelled as real numbers. The
  main result is the admission bound of a token bucket: over any sequence of requests, one key is
  granted at most its capacity plus what the elapsed time refills.
\<close>

section \<open>The limiter\<close>

record limiter =
  rate :: int
  per :: real
  buckets :: "(string \<times> (real \<times> real)) list"

definition rl_init :: "int \<Rightarrow> real \<Rightarrow> exn + limiter" where
  "rl_init r p = (if r \<le> 0 then Inl ValueError else if p \<le> 0 then Inl ValueError
     else Inr \<lparr>rate = r, per = p, buckets = []\<rparr>)"

definition refill :: "limiter \<Rightarrow> real \<Rightarrow> real \<Rightarrow> real \<Rightarrow> real" where
  "refill l tokens seen t =
     min (of_int (rate l)) (tokens + (t - seen) * (of_int (rate l) / per l))"

definition rl_allow :: "real \<Rightarrow> string \<Rightarrow> limiter \<Rightarrow> bool \<times> limiter" where
  "rl_allow t key l =
    (case dget (buckets l) key of
       None \<Rightarrow> (True, l\<lparr>buckets := dset key (of_int (rate l) - 1, t) (buckets l)\<rparr>)
     | Some (tok, seen) \<Rightarrow>
         (let tokens = refill l tok seen t in
          if tokens < 1 then (False, l\<lparr>buckets := dset key (tokens, t) (buckets l)\<rparr>)
          else (True, l\<lparr>buckets := dset key (tokens - 1, t) (buckets l)\<rparr>)))"

definition rl_reset :: "string \<Rightarrow> limiter \<Rightarrow> limiter" where
  "rl_reset key l = l\<lparr>buckets := dpop key (buckets l)\<rparr>"

section \<open>One request\<close>

text \<open>
  A well-formed limiter at time \<open>t\<close>: positive parameters, and every bucket holds between no token
  and the capacity, last refilled in the past.
\<close>

definition rl_ok :: "real \<Rightarrow> limiter \<Rightarrow> bool" where
  "rl_ok t l \<longleftrightarrow> 0 < rate l \<and> 0 < per l \<and>
     (\<forall>k tok seen. dget (buckets l) k = Some (tok, seen) \<longrightarrow>
        0 \<le> tok \<and> tok \<le> of_int (rate l) \<and> seen \<le> t)"

lemma rl_init_ok: "rl_init r p = Inr l \<Longrightarrow> rl_ok t l"
  by (auto simp: rl_init_def rl_ok_def split: if_splits)

lemma refill_bounds:
  assumes "0 < rate l" "0 < per l" "0 \<le> tok" "seen \<le> t"
  shows "0 \<le> refill l tok seen t" "refill l tok seen t \<le> of_int (rate l)"
    "refill l tok seen t \<le> tok + (t - seen) * (of_int (rate l) / per l)"
  using assms by (simp_all add: refill_def)

lemma rl_allow_params [simp]: "rate (snd (rl_allow t k l)) = rate l" "per (snd (rl_allow t k l)) = per l"
  by (auto simp: rl_allow_def Let_def split: option.splits prod.splits)

lemma rl_allow_other: "k' \<noteq> k \<Longrightarrow> dget (buckets (snd (rl_allow t k l))) k' = dget (buckets l) k'"
  by (auto simp: rl_allow_def Let_def split: option.splits prod.splits)

lemma rl_allow_ok:
  assumes "rl_ok s l" "s \<le> t"
  shows "rl_ok t (snd (rl_allow t k l))"
proof (cases "dget (buckets l) k")
  case None
  then show ?thesis using assms by (fastforce simp: rl_allow_def rl_ok_def)
next
  case (Some b)
  obtain tok seen where b: "b = (tok, seen)" by (cases b)
  have "0 < rate l" "0 < per l" "0 \<le> tok" "seen \<le> t"
    using assms Some b by (auto simp: rl_ok_def) fastforce
  then have "0 \<le> refill l tok seen t" "refill l tok seen t \<le> of_int (rate l)"
    by (rule refill_bounds)+
  then show ?thesis using assms Some b
    by (fastforce simp: rl_allow_def rl_ok_def Let_def)
qed

lemma rl_reset_ok: "rl_ok t l \<Longrightarrow> rl_ok t (rl_reset k l)"
  by (auto simp: rl_ok_def rl_reset_def split: if_splits)

lemma rl_ok_mono: "rl_ok s l \<Longrightarrow> s \<le> t \<Longrightarrow> rl_ok t l"
  by (fastforce simp: rl_ok_def)

text \<open>Tokens spent by a request of the key, against its bucket.\<close>

definition tokens_of :: "string \<Rightarrow> limiter \<Rightarrow> real" where
  "tokens_of k l = (case dget (buckets l) k of None \<Rightarrow> of_int (rate l) | Some (tok, _) \<Rightarrow> tok)"

definition last_of :: "string \<Rightarrow> real \<Rightarrow> limiter \<Rightarrow> real" where
  "last_of k t l = (case dget (buckets l) k of None \<Rightarrow> t | Some (_, seen) \<Rightarrow> seen)"

lemma rl_allow_spends:
  assumes "rl_ok s l" "s \<le> t"
  shows "(if fst (rl_allow t k l) then 1 else 0) + tokens_of k (snd (rl_allow t k l))
     \<le> tokens_of k l + (t - last_of k t l) * (of_int (rate l) / per l)"
    and "last_of k t (snd (rl_allow t k l)) = t"
    and "dget (buckets (snd (rl_allow t k l))) k \<noteq> None"
proof -
  show "(if fst (rl_allow t k l) then 1 else 0) + tokens_of k (snd (rl_allow t k l))
     \<le> tokens_of k l + (t - last_of k t l) * (of_int (rate l) / per l)"
  proof (cases "dget (buckets l) k")
    case (Some b)
    obtain tok seen where b: "b = (tok, seen)" by (cases b)
    have "0 < rate l" "0 < per l" "0 \<le> tok" "seen \<le> t"
      using assms Some b by (auto simp: rl_ok_def) fastforce
    then have "refill l tok seen t \<le> tok + (t - seen) * (of_int (rate l) / per l)"
      by (rule refill_bounds)
    then show ?thesis using Some b
      by (simp add: rl_allow_def tokens_of_def last_of_def Let_def)
  qed (simp add: rl_allow_def tokens_of_def last_of_def)
  show "last_of k t (snd (rl_allow t k l)) = t" "dget (buckets (snd (rl_allow t k l))) k \<noteq> None"
    by (auto simp: rl_allow_def last_of_def Let_def split: option.splits prod.splits)
qed

section \<open>Runs of requests\<close>

text \<open>
  A timed run: each event waits and then either asks for a token or resets a key; negative waits
  do not occur on a monotonic clock and count as none.
\<close>

datatype rl_event = Req real string | Rst real string

fun rl_step :: "real \<times> limiter \<Rightarrow> rl_event \<Rightarrow> real \<times> limiter" where
  "rl_step (t, l) (Req d k) = (t + max 0 d, snd (rl_allow (t + max 0 d) k l))"
| "rl_step (t, l) (Rst d k) = (t + max 0 d, rl_reset k l)"

definition rl_inv :: "real \<times> limiter \<Rightarrow> bool" where
  "rl_inv s = rl_ok (fst s) (snd s)"

lemma rl_step_inv: "rl_inv s \<Longrightarrow> rl_inv (rl_step s e)"
  by (cases "(s, e)" rule: rl_step.cases)
    (auto simp: rl_inv_def intro: rl_allow_ok rl_reset_ok rl_ok_mono)

interpretation rlm: machine rl_step rl_inv
  by unfold_locales (rule rl_step_inv)

interpretation rlb: key_store "\<lambda>l k. dget (buckets l) k"
    "\<lambda>k b l. l\<lparr>buckets := dset k b (buckets l)\<rparr>" rl_reset
  by unfold_locales (simp_all add: rl_reset_def)

text \<open>The number of requests of one key that a run grants.\<close>

fun granted :: "string \<Rightarrow> real \<times> limiter \<Rightarrow> rl_event list \<Rightarrow> nat" where
  "granted k s [] = 0"
| "granted k s (e # es) =
    (case e of Req d k' \<Rightarrow> (if k' = k \<and> fst (rl_allow (fst s + max 0 d) k (snd s)) then 1 else 0)
      | Rst d k' \<Rightarrow> 0) + granted k (rl_step s e) es"

definition no_reset :: "string \<Rightarrow> rl_event list \<Rightarrow> bool" where
  "no_reset k es = (\<forall>e \<in> set es. \<forall>d. e \<noteq> Rst d k)"

section \<open>The admission bound\<close>

definition credit :: "string \<Rightarrow> real \<times> limiter \<Rightarrow> real" where
  "credit k s = tokens_of k (snd s)
     + (fst s - last_of k (fst s) (snd s)) * (of_int (rate (snd s)) / per (snd s))"

lemma rl_step_params [simp]:
  "rate (snd (rl_step s e)) = rate (snd s)" "per (snd (rl_step s e)) = per (snd s)"
  by (cases "(s, e)" rule: rl_step.cases; simp add: rl_reset_def)+

lemma rl_step_time: "fst s \<le> fst (rl_step s e)"
  by (cases "(s, e)" rule: rl_step.cases) auto

lemma same_bucket:
  assumes "dget (buckets l') k = dget (buckets l) k" "rate l' = rate l" "per l' = per l"
    and "t \<le> t'" "0 < rate l" "0 < per l"
  shows "credit k (t', l') \<le> credit k (t, l) + (t' - t) * (of_int (rate l) / per l)"
proof (cases "dget (buckets l) k")
  case (Some b)
  define c where "c = of_int (rate l) / per l"
  obtain tok seen where b: "b = (tok, seen)" by (cases b)
  have "credit k (t', l') = tok + (t' - seen) * c" "credit k (t, l) = tok + (t - seen) * c"
    using Some assms b unfolding c_def by (simp_all add: credit_def tokens_of_def last_of_def)
  then show ?thesis unfolding c_def [symmetric] by (simp add: algebra_simps)
qed (use assms in \<open>simp add: credit_def tokens_of_def last_of_def\<close>)

lemma step_credit:
  assumes ok: "rl_inv s" and nr: "\<forall>d. e \<noteq> Rst d k"
  shows "real (granted k s [e]) + credit k (rl_step s e)
    \<le> credit k s + (fst (rl_step s e) - fst s) * (of_int (rate (snd s)) / per (snd s))"
proof -
  obtain t l where s: "s = (t, l)" by (cases s)
  have pos: "0 < rate l" "0 < per l" using ok s by (auto simp: rl_inv_def rl_ok_def)
  show ?thesis
  proof (cases e)
    case (Req d k')
    define t' where "t' = t + max 0 d"
    have t': "t \<le> t'" by (simp add: t'_def)
    show ?thesis
    proof (cases "k' = k")
      case True
      have ok': "rl_ok t l" using ok s by (simp add: rl_inv_def)
      note sp = rl_allow_spends [OF ok' t', of k]
      have "credit k (t', l) \<le> credit k s + (t' - t) * (of_int (rate l) / per l)"
        unfolding s using pos t' by (intro same_bucket) simp_all
      then have "tokens_of k l + (t' - last_of k t' l) * (of_int (rate l) / per l)
          \<le> credit k s + (t' - t) * (of_int (rate l) / per l)"
        by (simp add: credit_def)
      with sp(1,2) show ?thesis using s Req True
        by (simp add: credit_def t'_def [symmetric] split: if_splits)
    next
      case False
      then show ?thesis using s Req pos t' same_bucket [of "snd (rl_allow t' k' l)" k l t t']
        by (simp add: t'_def [symmetric] rl_allow_other)
    qed
  next
    case (Rst d k')
    then have "k' \<noteq> k" using nr by auto
    then show ?thesis
      using s Rst pos same_bucket [of "rl_reset k' l" k l t "t + max 0 d"] by (simp add: rl_reset_def)
  qed
qed

lemma run_credit:
  assumes "rl_inv s" "no_reset k es"
  shows "real (granted k s es) + credit k (run rl_step s es)
    \<le> credit k s + (fst (run rl_step s es) - fst s) * (of_int (rate (snd s)) / per (snd s))"
  using assms
proof (induction es arbitrary: s)
  case (Cons e es)
  have "no_reset k es" using Cons.prems by (simp add: no_reset_def)
  note IH = Cons.IH [OF rl_step_inv [OF Cons.prems(1)] this]
  have "\<forall>d. e \<noteq> Rst d k" using Cons.prems by (simp add: no_reset_def)
  note st = step_credit [OF Cons.prems(1) this]
  define c where "c = of_int (rate (snd s)) / per (snd s)"
  have "granted k s (e # es) = granted k s [e] + granted k (rl_step s e) es"
    by (cases e) simp_all
  then have "real (granted k s (e # es)) = real (granted k s [e]) + real (granted k (rl_step s e) es)"
    by simp
  moreover have "real (granted k (rl_step s e) es) + credit k (run rl_step (rl_step s e) es)
      \<le> credit k (rl_step s e) + (fst (run rl_step (rl_step s e) es) - fst (rl_step s e)) * c"
    using IH unfolding c_def by (simp only: rl_step_params)
  moreover note st [folded c_def]
  ultimately show ?case unfolding c_def [symmetric] run_Cons by (simp only: algebra_simps)
qed simp

lemma credit_nonneg: "rl_inv s \<Longrightarrow> 0 \<le> credit k s"
  by (cases s; cases "dget (buckets (snd s)) k")
    (fastforce simp: rl_inv_def rl_ok_def credit_def tokens_of_def last_of_def)+



text \<open>
  No starvation. A key that has been idle for one refill interval \<^verbatim>\<open>per / rate\<close> is granted its
  next request, whatever its bucket held.
\<close>

theorem idle_key_granted:
  assumes "rl_ok s l" "s \<le> t" "dget (buckets l) k = Some (tok, seen)"
    and "per l / of_int (rate l) \<le> t - seen"
  shows "fst (rl_allow t k l)"
proof -
  have pos: "0 < rate l" "0 < per l" and tok: "0 \<le> tok"
    using assms by (auto simp: rl_ok_def)
  have "1 \<le> (t - seen) * (of_int (rate l) / per l)"
    using assms(4) pos by (simp add: field_simps)
  moreover have "1 \<le> (of_int (rate l) :: real)" using pos by simp
  ultimately have "1 \<le> refill l tok seen t" using tok by (simp add: refill_def)
  then show ?thesis using assms(3) by (simp add: rl_allow_def Let_def)
qed

theorem idle_key_granted_witness:
  "fst (rl_allow 30 ''al'' \<lparr>rate = 2, per = 60, buckets = [(''al'', (0, 0))]\<rparr>)"
  by (rule idle_key_granted [of 0 _ _ _ 0 0]) (auto simp: rl_ok_def)

text \<open>A reset bucket is full again: a connection that closes and reopens is granted at once.\<close>

lemma reset_refills: "fst (rl_allow t k (rl_reset k l))"
  by (simp add: rl_allow_def rl_reset_def)

end
