(* ===== verification/Server_State.thy ===== *)
theory Server_State
  imports Server_Db Router Rate_Limiter "HOL-Library.Sublist"
begin

text \<open>
  The state of the server process and the primitive effects its handlers are built from: the
  database, the connection registry, the rate limiter, the in-memory call sessions, the directory
  of stored chunks, and the sockets. \<open>outbox\<close> is everything sent, in order; a send on a socket of
  \<open>broken\<close> raises \<open>ConnectionClosed\<close>. The effect orders interpreted here (declared keys are kept,
  the outbox only grows) are what the handlers' invariants are proved with.
\<close>

section \<open>The state\<close>

record call_info =
  ci_ip :: string
  ci_udp_port :: json
  ci_pubkey :: json

record call =
  cs_id :: string
  cs_caller :: string
  cs_callee :: string
  cs_status :: string
  cs_caller_info :: call_info
  cs_callee_info :: "call_info option"
  cs_created_at :: int

record server = env +
  db :: database
  connections :: registry
  rates :: limiter
  calls :: "(string \<times> call) list"
  fs_files :: "string \<Rightarrow> bytes option"
  fs_dirs :: "string set"
  broken :: "ws set"
  remote :: "ws \<Rightarrow> string option"
  outbox :: "(ws \<times> string) list"

text \<open>The process at start: an empty database and empty registries.\<close>

definition boot :: "(nat \<Rightarrow> byte) \<Rightarrow> int \<Rightarrow> real \<Rightarrow> server" where
  "boot ent t m = \<lparr>clock = t, mono = m, entropy = ent, epos = 0, db = empty_db, connections = [],
     rates = (case rl_init 120 60 of Inr l \<Rightarrow> l),calls = [], fs_files = (\<lambda>_. None), fs_dirs = {}, broken = {},
     remote = (\<lambda>_. None), outbox = []\<rparr>"

type_synonym 'a server_prog = "(server, 'a) prog"

section \<open>Primitive effects\<close>

definition ws_send :: "ws \<Rightarrow> string \<Rightarrow> unit server_prog" where
  "ws_send w msg = (\<lambda>s. if w \<in> broken s then (Inl ConnectionClosed, s)
     else (Inr (), s\<lparr>outbox := outbox s @ [(w, msg)]\<rparr>))"

definition send_packet :: "ws \<Rightarrow> msg_type \<Rightarrow> (string \<times> json) list \<Rightarrow> unit server_prog" where
  "send_packet w ty kwargs = bnd (make_packet (type_str ty) kwargs) (ws_send w)"

definition dbq :: "(database \<Rightarrow> 'a) \<Rightarrow> 'a server_prog" where
  "dbq f = gets (\<lambda>s. f (db s))"

definition dbm :: "(database \<Rightarrow> database) \<Rightarrow> unit server_prog" where
  "dbm f = modify (\<lambda>s. s\<lparr>db := f (db s)\<rparr>)"

definition dbx :: "(database \<Rightarrow> exn + database) \<Rightarrow> unit server_prog" where
  "dbx f = (\<lambda>s. case f (db s) of Inl e \<Rightarrow> (Inl e, s) | Inr d \<Rightarrow> (Inr (), s\<lparr>db := d\<rparr>))"

definition router_get :: "string \<Rightarrow> ws option server_prog" where
  "router_get u = gets (\<lambda>s. lookup (connections s) u)"

definition router_register :: "string \<Rightarrow> ws \<Rightarrow> unit server_prog" where
  "router_register u w = modify (\<lambda>s. s\<lparr>connections := register u w (connections s)\<rparr>)"

definition router_unregister :: "string \<Rightarrow> unit server_prog" where
  "router_unregister u = modify (\<lambda>s. s\<lparr>connections := unregister u (connections s)\<rparr>)"

lemma ws_send_app [prog_simps]:
  "ws_send w msg s = (if w \<in> broken s then (Inl ConnectionClosed, s)
     else (Inr (), s\<lparr>outbox := outbox s @ [(w, msg)]\<rparr>))"
  by (simp add: ws_send_def)

lemma send_packet_app [prog_simps]:
  "send_packet w ty kwargs s = ws_send w
     (json_dumps (JObj (packet_fields (type_str ty) (next_id s) (clock s) kwargs)))
     (s\<lparr>epos := epos s + 16\<rparr>)"
  by (simp add: send_packet_def bnd_app)

lemma dbq_app [simp, prog_simps]: "dbq f s = (Inr (f (db s)), s)" by (simp add: dbq_def)
lemma dbm_app [simp, prog_simps]: "dbm f s = (Inr (), s\<lparr>db := f (db s)\<rparr>)" by (simp add: dbm_def)
lemma dbx_app [prog_simps]:
  "dbx f s = (case f (db s) of Inl e \<Rightarrow> (Inl e, s) | Inr d \<Rightarrow> (Inr (), s\<lparr>db := d\<rparr>))"
  by (simp add: dbx_def)
lemma router_get_app [simp, prog_simps]: "router_get u s = (Inr (lookup (connections s) u), s)"
  by (simp add: router_get_def)
lemma router_register_app [simp, prog_simps]:
  "router_register u w s = (Inr (), s\<lparr>connections := register u w (connections s)\<rparr>)"
  by (simp add: router_register_def)
lemma router_unregister_app [simp, prog_simps]:
  "router_unregister u s = (Inr (), s\<lparr>connections := unregister u (connections s)\<rparr>)"
  by (simp add: router_unregister_def)

section \<open>What a handler may do to the state\<close>

text \<open>
  \<open>db_step\<close>: one statement outside the call table. \<open>packet_effect\<close>: a preorder on the server's state
  that allows every primitive effect of the handlers of packets; \<open>server_effect\<close>: also those of transfers and expiry. Its lemmas, in the theories of the handlers,
  say that every handler is allowed; each interpretation turns them into an invariant of the whole
  server. The call operations are assumed as wholes, because an invitation is well behaved only as
  one.
\<close>

inductive db_step :: "database \<Rightarrow> database \<Rightarrow> bool" where
  step_create_user: "create_user i n h t k d = Inr d' \<Longrightarrow> db_step d d'"
| step_create_session: "create_session k i n c e d = Inr d' \<Longrightarrow> db_step d d'"
| step_insert_room: "insert_room r d = Inr d' \<Longrightarrow> db_step d d'"
| step_update_last_seen: "db_step d (update_last_seen n t d)"
| step_delete_session: "db_step d (delete_session k d)"
| step_enqueue: "db_step d (db_enqueue i u p t d)"
| step_clear_queue: "db_step d (clear_queue u d)"
| step_insert_member: "db_step d (insert_member m d)"
| step_delete_member: "db_step d (delete_member r u d)"
| step_create_file: "db_step d (create_file f d)"
| step_add_chunk: "db_step d (add_chunk i f n c d)"
| step_delete_file: "db_step d (delete_file f d)"

inductive_cases db_stepE: "db_step d d'"

lemma db_ok_step: "db_step d d' \<Longrightarrow> db_ok d \<Longrightarrow> db_ok d'"
  by (erule db_step.cases) (auto intro: db_keeps)

lemma call_sessions_step: "db_step d d' \<Longrightarrow> call_sessions d' = call_sessions d"
  by (erule db_step.cases) (auto simp: create_user_def create_session_def insert_room_def
      update_last_seen_def delete_session_def db_enqueue_def clear_queue_def insert_member_def
      delete_member_def create_file_def add_chunk_def delete_file_def split: if_splits)

named_theorems eff_intro \<comment> \<open>programs made of allowed effects\<close>

end
