(* ===== verification/Udp_Relay.thy ===== *)
theory Udp_Relay
  imports Server_State
begin

text \<open>
  The audio relays (\<^verbatim>\<open>server/udp_relay.py\<close>): the registry of WebSocket pairs with \<open>relay_packet\<close>, and the raw
  UDP relay, a machine over datagrams whose invariant says which addresses it knows.
\<close>

section \<open>The WebSocket relay\<close>

record relay_entry =
  caller_ws :: "ws option"
  callee_ws :: "ws option"

type_synonym ws_relay = "(string \<times> relay_entry) list"

definition get_relay :: "ws_relay \<Rightarrow> string \<Rightarrow> relay_entry option" where
  "get_relay reg session_id = dget reg session_id"

definition register_relay :: "string \<Rightarrow> relay_entry \<Rightarrow> ws_relay \<Rightarrow> ws_relay" where
  "register_relay session_id e reg = dset session_id e reg"

definition unregister_relay :: "string \<Rightarrow> ws_relay \<Rightarrow> ws_relay" where
  "unregister_relay session_id reg = dpop session_id reg"

interpretation wsr: key_store get_relay register_relay unregister_relay
  by unfold_locales (simp_all add: get_relay_def register_relay_def unregister_relay_def)

text \<open>The first registered handle that is not the sender's; the sends of \<^verbatim>\<open>_send\<close> ignore errors.\<close>

fun relay_first :: "ws option \<Rightarrow> string \<Rightarrow> ws option list \<Rightarrow> unit server_prog" where
  "relay_first sender payload [] = ret ()"
| "relay_first sender payload (None # ts) = relay_first sender payload ts"
| "relay_first sender payload (Some t # ts) =
    (if Some t = sender then relay_first sender payload ts
     else attempt (ws_send t payload) (\<lambda>_. ret ()))"

definition relay_packet :: "ws_relay \<Rightarrow> string \<Rightarrow> string \<Rightarrow> string \<Rightarrow> unit server_prog" where
  "relay_packet reg session_id from_user data =
    bnd new_id (\<lambda>i.
    bnd now (\<lambda>ts.
    let payload = json_dumps (JObj [(''version'', JStr ''1.0''), (''type'', JStr ''CALL_RELAY''),
          (''id'', JStr i), (''timestamp'', JInt ts), (''session_id'', JStr session_id),
          (''data'', JStr data)])
    in case get_relay reg session_id of
      None \<Rightarrow> ret ()
    | Some e \<Rightarrow> bnd (router_get from_user) (\<lambda>sender.
        relay_first sender payload [caller_ws e, callee_ws e])))"

section \<open>The UDP relay\<close>

definition SESSION_PREFIX_LEN :: nat where "SESSION_PREFIX_LEN = 16"

text \<open>A peer address: host and port.\<close>

datatype addr = Addr string nat

record endpoints =
  ep_a :: "addr option"
  ep_b :: "addr option"

record relay =
  transport :: bool
  sessions_ep :: "(bytes \<times> endpoints) list"
  addr_session :: "(addr \<times> bytes) list"
  sent :: "(bytes \<times> addr) list"

definition relay_init :: relay where
  "relay_init = \<lparr>transport = False, sessions_ep = [], addr_session = [], sent = []\<rparr>"

definition connection_made :: "relay \<Rightarrow> relay" where
  "connection_made r = r\<lparr>transport := True\<rparr>"

definition no_endpoints :: endpoints where
  "no_endpoints = \<lparr>ep_a = None, ep_b = None\<rparr>"

definition ends_of :: "relay \<Rightarrow> bytes \<Rightarrow> endpoints" where
  "ends_of r sid = (case dget (sessions_ep r) sid of Some e \<Rightarrow> e | None \<Rightarrow> no_endpoints)"

definition datagram_received :: "relay \<Rightarrow> bytes \<times> addr \<Rightarrow> relay" where
  "datagram_received r d = (case d of (data, src) \<Rightarrow>
    if length data < SESSION_PREFIX_LEN then r
    else
      let sid = take SESSION_PREFIX_LEN data; e = ends_of r sid;
          r = r\<lparr>sessions_ep := dset sid e (sessions_ep r)\<rparr> in
      if dget (addr_session r) src = None then
        (if ep_a e = None then
           r\<lparr>sessions_ep := dset sid (e\<lparr>ep_a := Some src\<rparr>) (sessions_ep r),
             addr_session := dset src sid (addr_session r)\<rparr>
         else if ep_b e = None then
           r\<lparr>sessions_ep := dset sid (e\<lparr>ep_b := Some src\<rparr>) (sessions_ep r),
             addr_session := dset src sid (addr_session r)\<rparr>
         else r)
      else case (ep_a e, ep_b e) of
        (Some a, Some b) \<Rightarrow> (if transport r then r\<lparr>sent := sent r @ [(data, if src = a then b else a)]\<rparr> else r)
      | _ \<Rightarrow> r)"

section \<open>Invariant\<close>

text \<open>
  The endpoints of a session are registered for it, party B only after party A and different from it,
  and every registered address is an endpoint of its session.
\<close>

definition relay_ok :: "relay \<Rightarrow> bool" where
  "relay_ok r \<longleftrightarrow>
    (\<forall>sid a. ep_a (ends_of r sid) = Some a \<longrightarrow> dget (addr_session r) a = Some sid) \<and>
    (\<forall>sid b. ep_b (ends_of r sid) = Some b \<longrightarrow> dget (addr_session r) b = Some sid) \<and>
    (\<forall>sid. ep_a (ends_of r sid) = None \<longrightarrow> ep_b (ends_of r sid) = None) \<and>
    (\<forall>sid a. ep_a (ends_of r sid) = Some a \<longrightarrow> ep_b (ends_of r sid) \<noteq> Some a) \<and>
    (\<forall>src sid. dget (addr_session r) src = Some sid \<longrightarrow>
       ep_a (ends_of r sid) = Some src \<or> ep_b (ends_of r sid) = Some src)"

lemma ends_of_put: "ends_of (r\<lparr>sessions_ep := dset sid e m\<rparr>) sid' =
    (if sid' = sid then e else ends_of (r\<lparr>sessions_ep := m\<rparr>) sid')"
  by (simp add: ends_of_def)

lemma ends_of_upd [simp]:
  "ends_of (r\<lparr>addr_session := x\<rparr>) = ends_of r" "ends_of (r\<lparr>sent := y\<rparr>) = ends_of r"
  "ends_of (r\<lparr>transport := z\<rparr>) = ends_of r"
  by (simp_all add: ends_of_def fun_eq_iff)

lemma datagram_received_cases:
  obtains (short) "length data < SESSION_PREFIX_LEN" "datagram_received r (data, src) = r"
  | (party_a) "SESSION_PREFIX_LEN \<le> length data" "dget (addr_session r) src = None"
      "ep_a (ends_of r (take 16 data)) = None"
      "ends_of (datagram_received r (data, src)) =
         (ends_of r)(take 16 data := (ends_of r (take 16 data))\<lparr>ep_a := Some src\<rparr>)"
      "addr_session (datagram_received r (data, src)) = dset src (take 16 data) (addr_session r)"
      "sent (datagram_received r (data, src)) = sent r"
  | (party_b) a where "SESSION_PREFIX_LEN \<le> length data" "dget (addr_session r) src = None"
      "ep_a (ends_of r (take 16 data)) = Some a" "ep_b (ends_of r (take 16 data)) = None"
      "ends_of (datagram_received r (data, src)) =
         (ends_of r)(take 16 data := (ends_of r (take 16 data))\<lparr>ep_b := Some src\<rparr>)"
      "addr_session (datagram_received r (data, src)) = dset src (take 16 data) (addr_session r)"
      "sent (datagram_received r (data, src)) = sent r"
  | (third) "SESSION_PREFIX_LEN \<le> length data" "dget (addr_session r) src = None"
      "ep_a (ends_of r (take 16 data)) \<noteq> None" "ep_b (ends_of r (take 16 data)) \<noteq> None"
      "ends_of (datagram_received r (data, src)) = ends_of r"
      "addr_session (datagram_received r (data, src)) = addr_session r"
      "sent (datagram_received r (data, src)) = sent r"
  | (known) sid where "SESSION_PREFIX_LEN \<le> length data" "dget (addr_session r) src = Some sid"
      "ends_of (datagram_received r (data, src)) = ends_of r"
      "addr_session (datagram_received r (data, src)) = addr_session r"
      "sent (datagram_received r (data, src)) = sent r @
         (case (ep_a (ends_of r (take 16 data)), ep_b (ends_of r (take 16 data))) of
            (Some a, Some b) \<Rightarrow> if transport r then [(data, if src = a then b else a)] else []
          | _ \<Rightarrow> [])"
proof -
  let ?sid = "take 16 data"
  let ?e = "ends_of r ?sid"
  have same: "ends_of (r\<lparr>sessions_ep := dset ?sid ?e (sessions_ep r)\<rparr>) = ends_of r"
    by (auto simp: fun_eq_iff ends_of_put)
  have put: "ends_of (r\<lparr>sessions_ep := dset ?sid e (dset ?sid ?e (sessions_ep r)), addr_session := m\<rparr>) =
      (ends_of r)(?sid := e)" for e m
    by (auto simp: fun_eq_iff ends_of_def)
  note d = datagram_received_def SESSION_PREFIX_LEN_def Let_def
  consider "length data < SESSION_PREFIX_LEN" | "SESSION_PREFIX_LEN \<le> length data" by linarith
  then show thesis
  proof cases
    case 1
    then show thesis by (intro short) (simp_all add: d)
  next
    case 2
    show thesis
    proof (cases "dget (addr_session r) src")
      case None
      let ?r = "\<lambda>e. r\<lparr>sessions_ep := dset ?sid e (dset ?sid ?e (sessions_ep r)),
        addr_session := dset src ?sid (addr_session r)\<rparr>"
      show thesis
      proof (cases "ep_a ?e")
        assume a: "ep_a ?e = None"
        have "datagram_received r (data, src) = ?r (?e\<lparr>ep_a := Some src\<rparr>)" using 2 None a by (simp add: d)
        then show thesis by (intro party_a [OF 2 None a]) (simp_all only: put, simp_all)
      next
        fix x assume a: "ep_a ?e = Some x"
        show thesis
        proof (cases "ep_b ?e")
          assume b: "ep_b ?e = None"
          have "datagram_received r (data, src) = ?r (?e\<lparr>ep_b := Some src\<rparr>)" using 2 None a b by (simp add: d)
          then show thesis by (intro party_b [OF 2 None a b]) (simp_all only: put, simp_all)
        next
          fix y assume b: "ep_b ?e = Some y"
          have "datagram_received r (data, src) = r\<lparr>sessions_ep := dset ?sid ?e (sessions_ep r)\<rparr>"
            using 2 None a b by (simp add: d)
          then show thesis by (intro third [OF 2 None]) (simp_all only: same, simp_all add: a b)
        qed
      qed
    next
      case (Some sid)
      then show thesis using 2 same by (intro known [OF 2 Some]) (auto simp: d split: option.split)
    qed
  qed
qed

lemma datagram_received_ok: "relay_ok r \<Longrightarrow> relay_ok (datagram_received r d)"
proof -
  obtain data src where Pair: "d = (data, src)" by (metis prod.exhaust)
  assume ok: "relay_ok r"
  have new: "dget (addr_session r) src = None \<Longrightarrow> ep_a (ends_of r sid) \<noteq> Some src \<and> ep_b (ends_of r sid) \<noteq> Some src" for sid
    using ok unfolding relay_ok_def by (metis option.distinct(1))
  have "relay_ok (datagram_received r (data, src))"
  proof (rule datagram_received_cases [of data r src])
    assume a: "dget (addr_session r) src = None" "ep_a (ends_of r (take 16 data)) = None"
      "ends_of (datagram_received r (data, src)) = (ends_of r)(take 16 data := (ends_of r (take 16 data))\<lparr>ep_a := Some src\<rparr>)"
      "addr_session (datagram_received r (data, src)) = dset src (take 16 data) (addr_session r)"
    have "ep_b (ends_of r (take 16 data)) = None" using ok a(2) by (simp add: relay_ok_def)
    moreover have "dget (addr_session r) x \<noteq> Some (take 16 data)" for x
      using ok a(2) calculation unfolding relay_ok_def by (metis option.distinct(1))
    ultimately show "relay_ok (datagram_received r (data, src))" using ok a(2) new [OF a(1)] a(1) unfolding relay_ok_def a(3,4) by auto
  next
    fix x
    assume a: "dget (addr_session r) src = None" "ep_a (ends_of r (take 16 data)) = Some x"
      "ep_b (ends_of r (take 16 data)) = None"
      "ends_of (datagram_received r (data, src)) = (ends_of r)(take 16 data := (ends_of r (take 16 data))\<lparr>ep_b := Some src\<rparr>)"
      "addr_session (datagram_received r (data, src)) = dset src (take 16 data) (addr_session r)"
    have yx: "dget (addr_session r) y \<noteq> Some (take 16 data)" if "y \<noteq> x" for y
    proof
      assume s: "dget (addr_session r) y = Some (take 16 data)"
      have "ep_a (ends_of r (take 16 data)) = Some y \<or> ep_b (ends_of r (take 16 data)) = Some y"
        using ok s unfolding relay_ok_def by blast
      then show False using a(2,3) that by auto
    qed
    show "relay_ok (datagram_received r (data, src))" using ok new [OF a(1)] a(1-3) unfolding relay_ok_def a(4,5) by auto (metis yx)
  qed (use ok in \<open>simp_all add: relay_ok_def\<close>)
  then show ?thesis by (simp only: Pair)
qed

interpretation udp: machine datagram_received relay_ok
  by unfold_locales (rule datagram_received_ok)

lemma relay_init_ok: "relay_ok (connection_made relay_init)"
  by (simp add: relay_ok_def connection_made_def relay_init_def ends_of_def no_endpoints_def)

section \<open>Properties\<close>

text \<open> C35: The UDP relay never sends a datagram anywhere but to a registered endpoint of the session the datagram
  names, and a datagram of one of the two endpoints goes to the other one, unchanged. This holds in every
  state reachable by any sequence of datagrams. \<close>

theorem relay_forwards_within_session:
  assumes "r = run datagram_received (connection_made relay_init) ds"
    and "sent (datagram_received r (data, src)) = sent r @ fwd"
  shows "fwd = [] \<or> (\<exists>dst. fwd = [(data, dst)] \<and> 16 \<le> length data \<and>
    (ep_a (ends_of r (take 16 data)) = Some dst \<or> ep_b (ends_of r (take 16 data)) = Some dst) \<and>
    (ep_a (ends_of r (take 16 data)) = Some src \<longrightarrow> ep_b (ends_of r (take 16 data)) = Some dst) \<and>
    (ep_b (ends_of r (take 16 data)) = Some src \<longrightarrow> ep_a (ends_of r (take 16 data)) = Some dst))"
proof -
  have "relay_ok r" unfolding assms(1) by (rule udp.inv_run [OF relay_init_ok])
  then have ab: "ep_a (ends_of r sid) = Some a \<Longrightarrow> ep_b (ends_of r sid) \<noteq> Some a" for sid a
    by (simp add: relay_ok_def)
  show ?thesis
  proof (rule datagram_received_cases [of data r src])
    fix sid
    assume "SESSION_PREFIX_LEN \<le> length data"
      and "sent (datagram_received r (data, src)) = sent r @
        (case (ep_a (ends_of r (take 16 data)), ep_b (ends_of r (take 16 data))) of
            (Some a, Some b) \<Rightarrow> if transport r then [(data, if src = a then b else a)] else []
          | _ \<Rightarrow> [])"
    then show ?thesis using assms(2) ab [of "take 16 data"]
      by (auto simp: SESSION_PREFIX_LEN_def split: option.splits if_splits)
  qed (use assms(2) in simp_all)
qed

text \<open> Registration is first come, first served: the first two fresh addresses that send a datagram of a
  session become its parties A and B, and a third fresh address is discarded. \<close>

theorem relay_registration:
  assumes "dget (addr_session r) src = None" "16 \<le> length data"
    and "sid = take 16 data" "r' = datagram_received r (data, src)"
  shows "sent r' = sent r \<and>
    (if ep_a (ends_of r sid) = None then ep_a (ends_of r' sid) = Some src \<and> dget (addr_session r') src = Some sid
     else if ep_b (ends_of r sid) = None then ep_b (ends_of r' sid) = Some src \<and> dget (addr_session r') src = Some sid
     else ends_of r' = ends_of r \<and> addr_session r' = addr_session r)"
  using assms(1,2) unfolding assms(3,4)
  by (cases rule: datagram_received_cases [of data r src])
    (auto simp: SESSION_PREFIX_LEN_def)

text \<open> The relay does not keep sessions apart. An address registered for any session can send a datagram
  carrying another session's prefix, and it is delivered to that session's party A, although the code means
  to discard third parties. \<close>

theorem relay_cross_session_injection:
  assumes "dget (addr_session r) eve = Some other" "transport r" "16 \<le> length data"
    and "ep_a (ends_of r (take 16 data)) = Some a" "ep_b (ends_of r (take 16 data)) = Some b"
    and "eve \<noteq> a"
  shows "sent (datagram_received r (data, eve)) = sent r @ [(data, a)]"
  using assms by (simp add: datagram_received_def SESSION_PREFIX_LEN_def Let_def)

definition demo_data :: "byte \<Rightarrow> bytes" where "demo_data b = replicate 16 b @ [9]"

definition demo_relay :: relay where
  "demo_relay = run datagram_received (connection_made relay_init)
     [(demo_data 1, (Addr ''alice'' 1)), (demo_data 1, (Addr ''bob'' 2)), (demo_data 2, (Addr ''eve'' 3))]"

lemma demo_relay_state:
  "transport demo_relay" "ep_a (ends_of demo_relay (replicate 16 1)) = Some (Addr ''alice'' 1)"
  "ep_b (ends_of demo_relay (replicate 16 1)) = Some (Addr ''bob'' 2)" "sent demo_relay = []"
  "dget (addr_session demo_relay) (Addr ''eve'' 3) = Some (replicate 16 2)"
  by code_simp+

lemma demo_data_prefix [simp]: "take 16 (demo_data b) = replicate 16 b" "length (demo_data b) = 17"
  by (simp_all add: demo_data_def)

lemma relay_forwards_within_session_witness:
  "sent (datagram_received demo_relay (demo_data 1, (Addr ''alice'' 1))) = [(demo_data 1, (Addr ''bob'' 2))]"
proof -
  have s: "sent (datagram_received demo_relay (demo_data 1, (Addr ''alice'' 1))) =
      sent demo_relay @ sent (datagram_received demo_relay (demo_data 1, (Addr ''alice'' 1)))"
    by (simp add: demo_relay_state)
  have "sent (datagram_received demo_relay (demo_data 1, (Addr ''alice'' 1))) \<noteq> []"
    by code_simp
  then show ?thesis
    using relay_forwards_within_session [OF demo_relay_def s] by (auto simp: demo_relay_state)
qed

lemma relay_registration_witness:
  "ep_a (ends_of (datagram_received relay_init (demo_data 7, (Addr ''x'' 5))) (replicate 16 7)) = Some (Addr ''x'' 5)"
  using relay_registration [of relay_init "(Addr ''x'' 5)" "demo_data 7" _ "datagram_received relay_init (demo_data 7, (Addr ''x'' 5))"]
  by (simp add: relay_init_def ends_of_def no_endpoints_def)

lemma relay_cross_session_injection_witness:
  "sent (datagram_received demo_relay (demo_data 1, (Addr ''eve'' 3))) = [(demo_data 1, (Addr ''alice'' 1))]"
  using relay_cross_session_injection [of demo_relay "(Addr ''eve'' 3)" "replicate 16 2" "demo_data 1" "(Addr ''alice'' 1)" "(Addr ''bob'' 2)"]
  by (simp add: demo_relay_state)

text \<open> A packet relayed between two registered sockets goes to the socket that is not the sender's, once, and
  an unregistered session relays nothing. \<close>

theorem ws_relay_other_socket:
  assumes "lookup (connections s) u = Some w" "w \<noteq> v" "v \<notin> broken s"
    and "get_relay reg sid = Some e" "{caller_ws e, callee_ws e} = {Some w, Some v}"
  shows "\<exists>payload. outbox (snd (relay_packet reg sid u d s)) = outbox s @ [(v, payload)] \<and>
    outbox (snd (relay_packet (unregister_relay sid reg) sid u d s)) = outbox s"
proof -
  have "caller_ws e = Some w \<and> callee_ws e = Some v \<or> caller_ws e = Some v \<and> callee_ws e = Some w"
    using assms(2,5) by (auto simp: doubleton_eq_iff)
  then show ?thesis using assms(1-4)
    by (auto simp: relay_packet_def prog_simps Let_def wsr.get_del)
qed

definition demo_sockets :: server where
  "demo_sockets = (boot (\<lambda>_. 0) 10 0)\<lparr>connections := [(''bob'', 2)]\<rparr>"

definition demo_pair :: relay_entry where "demo_pair = \<lparr>caller_ws = Some 1, callee_ws = Some 2\<rparr>"

lemma ws_relay_other_socket_witness:
  "map fst (outbox (snd (relay_packet [(''c'', demo_pair)] ''c'' ''bob'' ''AA'' demo_sockets))) = [1]"
proof -
  have "lookup (connections demo_sockets) ''bob'' = Some 2" "1 \<notin> broken demo_sockets" "outbox demo_sockets = []"
    "get_relay [(''c'', demo_pair)] ''c'' = Some demo_pair"
    "{caller_ws demo_pair, callee_ws demo_pair} = {Some 2, Some 1}"
    by (auto simp: demo_sockets_def boot_def lookup_def get_relay_def demo_pair_def)
  then obtain payload where
    "outbox (snd (relay_packet [(''c'', demo_pair)] ''c'' ''bob'' ''AA'' demo_sockets)) = [(1, payload)]"
    using ws_relay_other_socket [of demo_sockets "''bob''" 2 1 "[(''c'', demo_pair)]" "''c''" demo_pair "''AA''"] by auto
  then show ?thesis by simp
qed

end
