(* ===== verification/Stun.thy ===== *)
theory Stun
  imports Protocol
begin

unbundle bit_operations_syntax

text \<open>
  STUN address discovery (\<^verbatim>\<open>client/audio/nat.py\<close>): the binding request, the parser of the response and its
  attributes, and the protocol objects that keep the first response. The network between request and
  response is an argument. An IPv4 address is its dotted text, an IPv6 address its 16 bytes (which
  \<^verbatim>\<open>inet_ntop\<close> renders).
\<close>

section \<open>Requests and responses\<close>

definition STUN_BINDING_REQUEST :: nat where "STUN_BINDING_REQUEST = 1"
definition STUN_MAGIC_COOKIE :: nat where "STUN_MAGIC_COOKIE = 0x2112A442"
definition STUN_HEADER_LEN :: nat where "STUN_HEADER_LEN = 20"
definition ATTR_XOR_MAPPED_ADDRESS :: nat where "ATTR_XOR_MAPPED_ADDRESS = 0x20"
definition ATTR_MAPPED_ADDRESS :: nat where "ATTR_MAPPED_ADDRESS = 1"

definition build_binding_request :: "bytes \<Rightarrow> exn + bytes" where
  "build_binding_request tid = (if length tid \<noteq> 12 then Inl ValueError
     else Inr (be_bytes 2 STUN_BINDING_REQUEST @ be_bytes 2 0 @ be_bytes 4 STUN_MAGIC_COOKIE @ tid))"

datatype ip = Dotted string | Ip6 bytes

definition inet_ntoa :: "bytes \<Rightarrow> string" where
  "inet_ntoa b = nat_str (unat (b ! 0)) @ ''.'' @ nat_str (unat (b ! 1)) @ ''.''
     @ nat_str (unat (b ! 2)) @ ''.'' @ nat_str (unat (b ! 3))"

definition xor_zip :: "bytes \<Rightarrow> bytes \<Rightarrow> bytes" where
  "xor_zip a b = map2 (\<lambda>x y. x XOR y) a b"

definition xor_port :: "nat \<Rightarrow> nat" where
  "xor_port p = p XOR (STUN_MAGIC_COOKIE div 2 ^ 16)"

definition decode_xor_mapped_address :: "bytes \<Rightarrow> nat \<Rightarrow> bytes \<Rightarrow> (ip \<times> nat) option" where
  "decode_xor_mapped_address attr magic tid =
    (if length attr < 8 then None
     else
       let family = unat (attr ! 1); xport = be_val (take 2 (drop 2 attr)) in
       if family = 1 then
         Some (Dotted (inet_ntoa (xor_zip (take 4 (drop 4 attr)) (be_bytes 4 magic))), xor_port xport)
       else if family = 2 then
         (if length attr < 20 then None
          else Some (Ip6 (xor_zip (take 16 (drop 4 attr)) (be_bytes 4 magic @ tid)), xor_port xport))
       else None)"

definition decode_mapped_address :: "bytes \<Rightarrow> (ip \<times> nat) option" where
  "decode_mapped_address attr =
    (if length attr < 8 then None
     else
       let family = unat (attr ! 1); port = be_val (take 2 (drop 2 attr)) in
       if family = 1 then Some (Dotted (inet_ntoa (take 4 (drop 4 attr))), port)
       else if family = 2 \<and> 20 \<le> length attr then Some (Ip6 (take 16 (drop 4 attr)), port)
       else None)"

definition padded :: "nat \<Rightarrow> nat" where
  "padded n = n + (4 - n mod 4) mod 4"

function scan_attrs :: "bytes \<Rightarrow> bytes \<Rightarrow> nat \<Rightarrow> nat \<Rightarrow> nat \<Rightarrow> (ip \<times> nat) option" where
  "scan_attrs data tid magic stop offset =
    (if offset + 4 \<le> stop \<and> offset + 4 \<le> length data then
       let attr_type = be_val (take 2 (drop offset data));
           attr_len = be_val (take 2 (drop (offset + 2) data));
           attr_value = take attr_len (drop (offset + 4) data);
           offset' = offset + 4 + padded attr_len in
       if attr_type = ATTR_XOR_MAPPED_ADDRESS then decode_xor_mapped_address attr_value magic tid
       else if attr_type = ATTR_MAPPED_ADDRESS then decode_mapped_address attr_value
       else scan_attrs data tid magic stop offset'
     else None)"
  by pat_completeness auto
termination by (relation "measure (\<lambda>(data, tid, magic, stop, offset). length data - offset)") auto

declare scan_attrs.simps [simp del]

definition parse_xor_mapped_address :: "bytes \<Rightarrow> bytes \<Rightarrow> (ip \<times> nat) option" where
  "parse_xor_mapped_address data tid =
    (if length data < STUN_HEADER_LEN then None
     else
       let msg_len = be_val (take 2 (drop 2 data)); magic = be_val (take 4 (drop 4 data)) in
       if magic \<noteq> STUN_MAGIC_COOKIE then None
       else if take 12 (drop 8 data) \<noteq> tid then None
       else scan_attrs data tid magic (STUN_HEADER_LEN + msg_len) STUN_HEADER_LEN)"

text \<open>
  \<open>net request\<close> is the first response the server sends, or the failure (time-out, resolution,
  socket error) that ends the attempt.
\<close>

definition get_public_address ::
  "(bytes \<Rightarrow> exn + bytes) \<Rightarrow> ('e env_scheme, (ip \<times> nat) option) prog" where
  "get_public_address net =
    bnd (urandom 12) (\<lambda>tid.
    bnd (lift_result (build_binding_request tid)) (\<lambda>request.
    ret (case net request of Inl e \<Rightarrow> None | Inr data \<Rightarrow> parse_xor_mapped_address data tid)))"

section \<open>The protocol object\<close>

text \<open>An asyncio future: set once; later events are ignored.\<close>

datatype 'a future = Pending | Result 'a | Failed | Cancelled

fun stun_datagram_received :: "bytes \<Rightarrow> bytes future \<Rightarrow> bytes future" where
  "stun_datagram_received data Pending = Result data"
| "stun_datagram_received data f = f"

fun stun_error_received :: "bytes future \<Rightarrow> bytes future" where
  "stun_error_received Pending = Failed"
| "stun_error_received f = f"

fun stun_connection_lost :: "bytes future \<Rightarrow> bytes future" where
  "stun_connection_lost Pending = Cancelled"
| "stun_connection_lost f = f"

datatype stun_event = Datagram bytes | Error_received | Lost

fun stun_step :: "bytes future \<Rightarrow> stun_event \<Rightarrow> bytes future" where
  "stun_step f (Datagram d) = stun_datagram_received d f"
| "stun_step f Error_received = stun_error_received f"
| "stun_step f Lost = stun_connection_lost f"

text \<open>
  The reachability probe: a new endpoint (if it opens), up to five datagrams until one cannot be sent, and what
  happens to the endpoint before the time is up. Any datagram counts, whoever sent it.
\<close>

definition UDP_PROBE_COUNT :: nat where "UDP_PROBE_COUNT = 5"

datatype probe_event = Echoed bytes | Probe_error | Probe_lost

fun probe_step :: "bool future \<Rightarrow> probe_event \<Rightarrow> bool future" where
  "probe_step Pending (Echoed data) = Result True"
| "probe_step Pending Probe_error = Result False"
| "probe_step Pending Probe_lost = Cancelled"
| "probe_step f e = f"

definition probes_sent :: "bool list \<Rightarrow> nat" where
  "probes_sent sends = length (takeWhile id (take UDP_PROBE_COUNT sends))"

definition try_direct_udp :: "bool \<Rightarrow> bool list \<Rightarrow> probe_event list \<Rightarrow> bool \<times> nat" where
  "try_direct_udp opens sends events =
    (if \<not> opens then (False, 0)
     else (case run probe_step Pending events of Result b \<Rightarrow> b | _ \<Rightarrow> False, probes_sent sends))"

lemma stun_step_done: "f \<noteq> Pending \<Longrightarrow> stun_step f e = f"
  by (cases e; cases f) auto

section \<open>Building responses\<close>

definition attr_bytes :: "nat \<times> bytes \<Rightarrow> bytes" where
  "attr_bytes a = (case a of (ty, v) \<Rightarrow>
     be_bytes 2 ty @ be_bytes 2 (length v) @ v @ replicate (padded (length v) - length v) 0)"

definition good_attr :: "nat \<times> bytes \<Rightarrow> bool" where
  "good_attr a \<longleftrightarrow> fst a < 2 ^ 16 \<and> length (snd a) < 2 ^ 16"

definition response :: "bytes \<Rightarrow> (nat \<times> bytes) list \<Rightarrow> bytes" where
  "response tid attrs = (let body = concat (map attr_bytes attrs) in
     be_bytes 2 0x101 @ be_bytes 2 (length body) @ be_bytes 4 STUN_MAGIC_COOKIE @ tid @ body)"

definition xor_attr :: "bytes \<Rightarrow> nat \<Rightarrow> nat \<times> bytes" where
  "xor_attr addr port = (ATTR_XOR_MAPPED_ADDRESS,
     [0, 1] @ be_bytes 2 (xor_port port) @ xor_zip addr (be_bytes 4 STUN_MAGIC_COOKIE))"

lemma padded_le: "n \<le> padded n" by (simp add: padded_def)

lemma length_attr_bytes: "length (attr_bytes (ty, v)) = 4 + padded (length v)"
  using padded_le [of "length v"] by (simp add: attr_bytes_def)

lemma length_xor_zip [simp]: "length (xor_zip a b) = min (length a) (length b)"
  by (simp add: xor_zip_def)

lemma xor_zip_cancel: "length a \<le> length b \<Longrightarrow> xor_zip (xor_zip a b) b = a"
proof (induction a arbitrary: b)
  case (Cons x a)
  then show ?case by (cases b) (auto simp: xor_zip_def xor.assoc)
qed (simp add: xor_zip_def)

lemma xor_port_bound: "p < 2 ^ 16 \<Longrightarrow> xor_port p < 2 ^ 16"
proof -
  assume "p < 2 ^ 16"
  then have p: "take_bit 16 p = p" by (simp add: take_bit_nat_eq_self_iff)
  have m: "take_bit 16 (STUN_MAGIC_COOKIE div 2 ^ 16) = STUN_MAGIC_COOKIE div 2 ^ 16"
    by (simp add: take_bit_nat_eq_self_iff STUN_MAGIC_COOKIE_def)
  have "take_bit 16 (xor_port p) = xor_port p" unfolding xor_port_def by (simp only: take_bit_xor p m)
  then show ?thesis by (simp only: take_bit_nat_eq_self_iff)
qed

lemma xor_port_cancel: "xor_port (xor_port p) = p"
  by (simp add: xor_port_def xor.assoc)

lemma scan_attrs_step:
  assumes "good_attr (ty, v)" "drop offset data = attr_bytes (ty, v) @ rest"
    and "offset \<le> length data" "offset + 4 \<le> stop"
  shows "scan_attrs data tid magic stop offset =
    (if ty = ATTR_XOR_MAPPED_ADDRESS then decode_xor_mapped_address v magic tid
     else if ty = ATTR_MAPPED_ADDRESS then decode_mapped_address v
     else scan_attrs data tid magic stop (offset + length (attr_bytes (ty, v))))"
proof -
  have "length (drop offset data) = 4 + padded (length v) + length rest"
    unfolding assms(2) by (simp add: length_attr_bytes)
  then have l: "offset + 4 \<le> length data" using assms(3) by simp
  have ty: "be_val (take 2 (drop offset data)) = ty"
    using assms(1) unfolding assms(2) by (simp add: attr_bytes_def be_val_bytes_id good_attr_def)
  have "drop (offset + 2) data = drop 2 (drop offset data)" by (simp add: add.commute)
  then have len: "be_val (take 2 (drop (offset + 2) data)) = length v"
    using assms(1) unfolding assms(2) by (simp add: attr_bytes_def be_val_bytes_id good_attr_def)
  have "drop (offset + 4) data = drop 4 (drop offset data)" by (simp add: add.commute)
  then have v: "take (length v) (drop (offset + 4) data) = v"
    unfolding assms(2) by (simp add: attr_bytes_def)
  show ?thesis
    by (subst scan_attrs.simps, unfold Let_def ty len v)
      (use l assms(4) in \<open>simp add: length_attr_bytes add.assoc\<close>)
qed

lemma scan_attrs_skip:
  assumes "\<forall>a \<in> set attrs. good_attr a \<and> fst a \<noteq> ATTR_XOR_MAPPED_ADDRESS \<and> fst a \<noteq> ATTR_MAPPED_ADDRESS"
    and "drop offset data = concat (map attr_bytes attrs) @ rest" "offset \<le> length data"
    and "offset + length (concat (map attr_bytes attrs)) \<le> stop"
  shows "scan_attrs data tid magic stop offset =
    scan_attrs data tid magic stop (offset + length (concat (map attr_bytes attrs)))"
  using assms
proof (induction attrs arbitrary: offset)
  case (Cons a attrs)
  obtain ty v where a: "a = (ty, v)" by (cases a)
  let ?n = "length (attr_bytes (ty, v))"
  have d: "drop offset data = attr_bytes (ty, v) @ concat (map attr_bytes attrs) @ rest"
    using Cons.prems(2) a by simp
  have step: "scan_attrs data tid magic stop offset = scan_attrs data tid magic stop (offset + ?n)"
    using scan_attrs_step [OF _ d Cons.prems(3), of stop tid magic] Cons.prems a by (auto simp: length_attr_bytes)
  have "drop (offset + ?n) data = drop ?n (drop offset data)" by (simp add: add.commute)
  also have "\<dots> = concat (map attr_bytes attrs) @ rest" unfolding d by simp
  finally have d': "drop (offset + ?n) data = concat (map attr_bytes attrs) @ rest" .
  have "length (drop offset data) = ?n + length (concat (map attr_bytes attrs)) + length rest"
    unfolding d by simp
  then have "offset + ?n \<le> length data" using Cons.prems(3) by simp
  then show ?case
    using step Cons.IH [OF _ d'] Cons.prems(1,4) a by (simp add: add.assoc)
qed simp

section \<open>Properties\<close>



text \<open> The first event decides: once a response, an error or the loss of the socket has settled the exchange,
  no later datagram changes its outcome. \<close>

theorem stun_first_event_wins:
  "run stun_step Pending (e # es) = stun_step Pending e"
proof -
  have "run stun_step f es = f" if "f \<noteq> Pending" for f
    using that by (induction es) (simp_all add: stun_step_done)
  moreover have "stun_step Pending e \<noteq> Pending" by (cases e) auto
  ultimately show ?thesis by simp
qed

text \<open>The probe is decided by the first event alone, also when nothing could be sent.\<close>

lemma probe_decided_by_first:
  "fst (try_direct_udp opens sends events) \<longleftrightarrow> opens \<and> (\<exists>d es. events = Echoed d # es)"
proof -
  have decided: "run probe_step f es = f" if "f \<noteq> Pending" for f es
    using that by (induction es) (cases f; simp)+
  show ?thesis
  proof (cases events)
    case (Cons e es)
    then show ?thesis using decided [of "probe_step Pending e" es] by (cases e) (auto simp: try_direct_udp_def)
  qed (simp add: try_direct_udp_def)
qed

end
