(* ===== verification/Sha256.thy ===== *)
theory Sha256
  imports Encoding
begin

unbundle bit_operations_syntax

text \<open>
  The hash functions of Python's \<^verbatim>\<open>hashlib\<close> and \<^verbatim>\<open>hmac\<close> that the program calls: SHA-256 (FIPS 180-4),
  HMAC-SHA-256 (RFC 2104) and PBKDF2-HMAC-SHA-256 with a 32-byte key (RFC 8018). Words are 32 bits
  wide and their additions wrap.
\<close>

type_synonym word32 = "32 word"

section \<open>SHA-256\<close>

definition sha_K :: "word32 list" where
  "sha_K =
    [0x428A2F98, 0x71374491, 0xB5C0FBCF, 0xE9B5DBA5, 0x3956C25B, 0x59F111F1, 0x923F82A4, 0xAB1C5ED5,
     0xD807AA98, 0x12835B01, 0x243185BE, 0x550C7DC3, 0x72BE5D74, 0x80DEB1FE, 0x9BDC06A7, 0xC19BF174,
     0xE49B69C1, 0xEFBE4786, 0x0FC19DC6, 0x240CA1CC, 0x2DE92C6F, 0x4A7484AA, 0x5CB0A9DC, 0x76F988DA,
     0x983E5152, 0xA831C66D, 0xB00327C8, 0xBF597FC7, 0xC6E00BF3, 0xD5A79147, 0x06CA6351, 0x14292967,
     0x27B70A85, 0x2E1B2138, 0x4D2C6DFC, 0x53380D13, 0x650A7354, 0x766A0ABB, 0x81C2C92E, 0x92722C85,
     0xA2BFE8A1, 0xA81A664B, 0xC24B8B70, 0xC76C51A3, 0xD192E819, 0xD6990624, 0xF40E3585, 0x106AA070,
     0x19A4C116, 0x1E376C08, 0x2748774C, 0x34B0BCB5, 0x391C0CB3, 0x4ED8AA4A, 0x5B9CCA4F, 0x682E6FF3,
     0x748F82EE, 0x78A5636F, 0x84C87814, 0x8CC70208, 0x90BEFFFA, 0xA4506CEB, 0xBEF9A3F7, 0xC67178F2]"

definition sha_H :: "word32 list" where
  "sha_H =
    [0x6A09E667, 0xBB67AE85, 0x3C6EF372, 0xA54FF53A, 0x510E527F, 0x9B05688C, 0x1F83D9AB, 0x5BE0CD19]"

definition rotr :: "nat \<Rightarrow> word32 \<Rightarrow> word32" where
  "rotr n x = drop_bit n x OR push_bit (32 - n) x"

definition small_sigma0 :: "word32 \<Rightarrow> word32" where
  "small_sigma0 x = rotr 7 x XOR rotr 18 x XOR drop_bit 3 x"

definition small_sigma1 :: "word32 \<Rightarrow> word32" where
  "small_sigma1 x = rotr 17 x XOR rotr 19 x XOR drop_bit 10 x"

definition big_sigma0 :: "word32 \<Rightarrow> word32" where
  "big_sigma0 x = rotr 2 x XOR rotr 13 x XOR rotr 22 x"

definition big_sigma1 :: "word32 \<Rightarrow> word32" where
  "big_sigma1 x = rotr 6 x XOR rotr 11 x XOR rotr 25 x"

fun words_of :: "bytes \<Rightarrow> word32 list" where
  "words_of (a # b # c # d # rest) = of_nat (be_val [a, b, c, d]) # words_of rest"
| "words_of _ = []"

definition word_bytes :: "word32 \<Rightarrow> bytes" where
  "word_bytes w = be_bytes 4 (unat w)"

text \<open>The message schedule: \<open>n\<close> further words after the first sixteen.\<close>

primrec schedule :: "nat \<Rightarrow> word32 list \<Rightarrow> word32 list" where
  "schedule 0 ws = ws"
| "schedule (Suc n) ws = (let t = length ws in schedule n (ws @
     [small_sigma1 (ws ! (t - 2)) + ws ! (t - 7) + small_sigma0 (ws ! (t - 15)) + ws ! (t - 16)]))"

type_synonym sha_state =
  "word32 \<times> word32 \<times> word32 \<times> word32 \<times> word32 \<times> word32 \<times> word32 \<times> word32"

fun sha_round :: "sha_state \<Rightarrow> word32 \<times> word32 \<Rightarrow> sha_state" where
  "sha_round (a, b, c, d, e, f, g, h) (k, w) =
    (let t1 = h + big_sigma1 e + ((e AND f) XOR (NOT e AND g)) + k + w;
         t2 = big_sigma0 a + ((a AND b) XOR (a AND c) XOR (b AND c))
     in (t1 + t2, a, b, c, d + t1, e, f, g))"

fun sha_add :: "sha_state \<Rightarrow> sha_state \<Rightarrow> sha_state" where
  "sha_add (a, b, c, d, e, f, g, h) (a', b', c', d', e', f', g', h') =
     (a + a', b + b', c + c', d + d', e + e', f + f', g + g', h + h')"

definition sha_block :: "sha_state \<Rightarrow> bytes \<Rightarrow> sha_state" where
  "sha_block st blk = sha_add st (foldl sha_round st (zip sha_K (schedule 48 (words_of blk))))"

definition sha_pad :: "bytes \<Rightarrow> bytes" where
  "sha_pad msg = msg @ [0x80] @ replicate ((119 - length msg mod 64) mod 64) 0
     @ be_bytes 8 (8 * length msg)"

function sha_blocks :: "sha_state \<Rightarrow> bytes \<Rightarrow> sha_state" where
  "sha_blocks st bs = (if bs = [] then st else sha_blocks (sha_block st (take 64 bs)) (drop 64 bs))"
  by pat_completeness auto
termination by (relation "measure (\<lambda>(_, bs). length bs)") auto

declare sha_blocks.simps [simp del]

definition sha_init :: sha_state where
  "sha_init = (sha_H ! 0, sha_H ! 1, sha_H ! 2, sha_H ! 3, sha_H ! 4, sha_H ! 5, sha_H ! 6, sha_H ! 7)"

fun sha_digest :: "sha_state \<Rightarrow> bytes" where
  "sha_digest (a, b, c, d, e, f, g, h) = concat (map word_bytes [a, b, c, d, e, f, g, h])"

definition sha256 :: "bytes \<Rightarrow> bytes" where
  "sha256 msg = sha_digest (sha_blocks sha_init (sha_pad msg))"

definition sha256_hex :: "bytes \<Rightarrow> string" where
  "sha256_hex msg = hex_bytes (sha256 msg)"

lemma length_sha_digest: "length (sha_digest st) = 32"
  by (cases st rule: sha_digest.cases) (simp add: word_bytes_def)

lemma length_sha256 [simp]: "length (sha256 msg) = 32"
  by (simp add: sha256_def length_sha_digest)

lemma length_sha256_hex [simp]: "length (sha256_hex msg) = 64"
  by (simp add: sha256_hex_def)

lemma sha_pad_blocks: "64 dvd length (sha_pad msg)"
proof -
  define k where "k = length msg div 64"
  define m where "m = length msg mod 64"
  have n: "length msg = 64 * k + m" by (simp add: k_def m_def)
  have "m < 64" by (simp add: m_def)
  then have "64 dvd m + 9 + (119 - m) mod 64"
    by (cases "m \<le> 55") (auto simp: mod_if le_mod_geq)
  then have "64 dvd 64 * k + (m + 9 + (119 - m) mod 64)" by (rule dvd_add [OF dvd_triv_left])
  moreover have "length (sha_pad msg) = 64 * k + (m + 9 + (119 - m) mod 64)"
    unfolding sha_pad_def m_def [symmetric] using n by simp
  ultimately show ?thesis by simp
qed

section \<open>HMAC and PBKDF2\<close>

definition xor_bytes :: "bytes \<Rightarrow> bytes \<Rightarrow> bytes" where
  "xor_bytes a b = map2 (\<lambda>x y. x XOR y) a b"

definition hmac_sha256 :: "bytes \<Rightarrow> bytes \<Rightarrow> bytes" where
  "hmac_sha256 key msg =
    (let k0 = (if 64 < length key then sha256 key else key);
         k = k0 @ replicate (64 - length k0) 0
     in sha256 (map (\<lambda>b. b XOR 0x5C) k @ sha256 (map (\<lambda>b. b XOR 0x36) k @ msg)))"

primrec pbkdf2_rounds :: "nat \<Rightarrow> bytes \<Rightarrow> bytes \<Rightarrow> bytes \<Rightarrow> bytes" where
  "pbkdf2_rounds 0 password u acc = acc"
| "pbkdf2_rounds (Suc n) password u acc =
    (let u' = hmac_sha256 password u in pbkdf2_rounds n password u' (xor_bytes acc u'))"

text \<open>\<^verbatim>\<open>hashlib.pbkdf2_hmac("sha256", password, salt, iterations)\<close>.\<close>

definition pbkdf2 :: "bytes \<Rightarrow> bytes \<Rightarrow> int \<Rightarrow> exn + bytes" where
  "pbkdf2 password salt iterations =
    (if iterations < 1 then Inl ValueError
     else let u1 = hmac_sha256 password (salt @ [0, 0, 0, 1])
          in Inr (pbkdf2_rounds (nat iterations - 1) password u1 u1))"

lemma length_xor_bytes [simp]: "length (xor_bytes a b) = min (length a) (length b)"
  by (simp add: xor_bytes_def)

lemma length_hmac_sha256 [simp]: "length (hmac_sha256 key msg) = 32"
  by (simp add: hmac_sha256_def Let_def)

lemma length_pbkdf2_rounds: "length acc = 32 \<Longrightarrow> length (pbkdf2_rounds n p u acc) = 32"
  by (induction n arbitrary: u acc) (simp_all add: Let_def)

lemma length_pbkdf2: "pbkdf2 p s n = Inr d \<Longrightarrow> length d = 32"
  by (auto simp: pbkdf2_def Let_def length_pbkdf2_rounds split: if_splits)

end
