(* ===== verification/Auth.thy ===== *)
theory Auth
  imports Server_State Sha256
begin

text \<open>
  Accounts and sessions (\<^verbatim>\<open>server/auth.py\<close>): password hashing and verification, registration, login
  and token validation. \<open>checkpw\<close> stands for \<^verbatim>\<open>bcrypt.checkpw\<close>, which is consulted only for hashes
  without the PBKDF2 prefix.
\<close>

section \<open>Passwords\<close>

definition PBKDF2_ALG :: string where "PBKDF2_ALG = ''pbkdf2_sha256''"
definition PBKDF2_ITERATIONS :: int where "PBKDF2_ITERATIONS = 310000"

definition hash_text :: "bytes \<Rightarrow> bytes \<Rightarrow> string" where
  "hash_text salt digest = PBKDF2_ALG @ ''$'' @ int_str PBKDF2_ITERATIONS @ ''$''
     @ b64_encode salt @ ''$'' @ b64_encode digest"

definition hash_password :: "json \<Rightarrow> ('e env_scheme, string) prog" where
  "hash_password password =
    bnd (urandom 16) (\<lambda>salt.
    bnd (lift_result (as_str AttributeError password)) (\<lambda>p.
    bnd (lift_result (pbkdf2 (utf8_encode p) salt PBKDF2_ITERATIONS)) (\<lambda>digest.
    ret (hash_text salt digest))))"

definition verify_pbkdf2 :: "json \<Rightarrow> string \<Rightarrow> exn + bool" where
  "verify_pbkdf2 password stored =
    (case split_max (CHR ''$'') 3 stored of
      [_, iter_s, salt_b64, digest_b64] \<Rightarrow>
        sbnd (as_str AttributeError password) (\<lambda>p.
        sbnd (b64_decode salt_b64) (\<lambda>salt.
        sbnd (int_of_str iter_s) (\<lambda>n.
        sbnd (pbkdf2 (utf8_encode p) salt n) (\<lambda>digest.
        sbnd (b64_decode digest_b64) (\<lambda>expected. Inr (digest = expected))))))
    | _ \<Rightarrow> Inl ValueError)"

definition verify_password :: "(bytes \<Rightarrow> bytes \<Rightarrow> exn + bool) \<Rightarrow> json \<Rightarrow> string \<Rightarrow> bool" where
  "verify_password checkpw password stored =
    (if starts_with stored (PBKDF2_ALG @ ''$'')
     then (case verify_pbkdf2 password stored of Inr b \<Rightarrow> b | Inl _ \<Rightarrow> False)
     else (case sbnd (as_str AttributeError password)
                  (\<lambda>p. checkpw (utf8_encode p) (utf8_encode stored)) of
             Inr b \<Rightarrow> b | Inl _ \<Rightarrow> False))"

lemma dollar_not_digit: "CHR ''$'' \<notin> set (nat_str n)"
  using nat_str_digits [of n] by (auto simp: is_digit_def)

lemma dollar_not_b64: "CHR ''$'' \<notin> set (b64_encode bs)"
  using b64_encode_chars [of "CHR ''$''" bs] by (auto simp: b64_val_def b64_code_def)

lemma split_hash_text:
  "split_max (CHR ''$'') 3 (hash_text salt digest) =
     [PBKDF2_ALG, int_str PBKDF2_ITERATIONS, b64_encode salt, b64_encode digest]"
proof -
  have "CHR ''$'' \<notin> set PBKDF2_ALG" "CHR ''$'' \<notin> set (int_str PBKDF2_ITERATIONS)"
    by (simp_all add: PBKDF2_ALG_def int_str_def PBKDF2_ITERATIONS_def dollar_not_digit)
  then show ?thesis
    by (simp add: hash_text_def numeral_3_eq_3 split_max_field dollar_not_b64
        del: split_max.simps(2))
qed

lemma int_of_nat_str: "int_of_str (nat_str n) = Inr (int n)"
proof -
  have d: "\<And>c. c \<in> set (nat_str n) \<Longrightarrow> is_digit c" using nat_str_digits by auto
  have hd: "is_digit (hd (nat_str n))" "is_digit (last (nat_str n))"
    using d nat_str_not_Nil by (auto intro!: d)
  have s: "\<not> py_space c" if "is_digit c" for c
    using that by (auto simp: py_space_def is_digit_def)
  have strip: "py_strip (nat_str n) = nat_str n"
    by (rule py_strip_id) (use hd s in blast)
  obtain c cs where cs: "nat_str n = c # cs" using nat_str_not_Nil [of n] by (cases "nat_str n") auto
  have "\<not> starts_with (nat_str n) ''-''" "\<not> starts_with (nat_str n) ''+''"
    using hd(1) cs by (auto simp: is_digit_def)
  then show ?thesis
    using d strip by (simp add: int_of_str_def Let_def list_all_iff)
qed

lemma verify_hash_text:
  "verify_password checkpw (JStr q) (hash_text salt digest) \<longleftrightarrow>
     pbkdf2 (utf8_encode q) salt PBKDF2_ITERATIONS = Inr digest"
proof -
  have p: "starts_with (hash_text salt digest) (PBKDF2_ALG @ ''$'')"
    using starts_with_append [of "PBKDF2_ALG @ ''$''"] by (simp add: hash_text_def)
  have "int_of_str (int_str PBKDF2_ITERATIONS) = Inr PBKDF2_ITERATIONS"
    by (simp add: PBKDF2_ITERATIONS_def int_str_def int_of_nat_str)
  then show ?thesis
    using p by (auto simp: verify_password_def verify_pbkdf2_def split_hash_text b64_roundtrip
        sbnd_def split: sum.splits)
qed

section \<open>Accounts and sessions\<close>

text \<open>The result dictionary: \<open>Auth_Ok token username\<close>, or \<open>Auth_Fail error\<close>.\<close>

datatype auth_result = Auth_Ok json string | Auth_Fail string

fun auth_kwargs :: "auth_result \<Rightarrow> (string \<times> json) list" where
  "auth_kwargs (Auth_Ok token username) =
     [(''success'', JBool True), (''token'', token), (''username'', JStr username)]"
| "auth_kwargs (Auth_Fail err) = [(''success'', JBool False), (''error'', JStr err)]"

definition auth_register :: "string \<Rightarrow> json \<Rightarrow> json \<Rightarrow> auth_result server_prog" where
  "auth_register username password public_key =
    bnd (dbq (get_by_username username)) (\<lambda>u. case u of
      Some _ \<Rightarrow> ret (Auth_Fail ''USER_EXISTS'')
    | None \<Rightarrow>
        bnd (hash_password password) (\<lambda>hashed.
        bnd new_id (\<lambda>uid.
        bnd now (\<lambda>ts.
        bnd (lift_result (opt_text public_key)) (\<lambda>key.
        thn (dbx (create_user uid username hashed ts key))
        (bnd new_id (\<lambda>token.
        thn (dbx (create_session token uid username ts (ts + SESSION_TTL)))
        (ret (Auth_Ok (JStr token) username)))))))))"

definition auth_login ::
  "(bytes \<Rightarrow> bytes \<Rightarrow> exn + bool) \<Rightarrow> string \<Rightarrow> json \<Rightarrow> auth_result server_prog" where
  "auth_login checkpw username password =
    bnd (dbq (get_by_username username)) (\<lambda>u. case u of
      None \<Rightarrow> ret (Auth_Fail ''AUTH_FAILED'')
    | Some user \<Rightarrow>
        if \<not> verify_password checkpw password (u_password user) then ret (Auth_Fail ''AUTH_FAILED'')
        else
          bnd now (\<lambda>ts.
          bnd new_id (\<lambda>token.
          thn (dbx (create_session token (u_id user) username ts (ts + SESSION_TTL)))
          (thn (dbm (update_last_seen username ts))
          (ret (Auth_Ok (JStr token) username))))))"

definition validate_token :: "string \<Rightarrow> session_row option server_prog" where
  "validate_token token = bnd now (\<lambda>t. dbq (get_session token t))"

lemma hash_password_app:
  "hash_password (JStr p) s =
     (let salt = map (\<lambda>i. entropy s (epos s + i)) [0..<16]
      in case pbkdf2 (utf8_encode p) salt PBKDF2_ITERATIONS of
           Inl e \<Rightarrow> (Inl e, s\<lparr>epos := epos s + 16\<rparr>)
         | Inr d \<Rightarrow> (Inr (hash_text salt d), s\<lparr>epos := epos s + 16\<rparr>))"
  by (simp add: hash_password_def prog_simps urandom_def Let_def split: sum.split)

end
