(* ===== verification/Offline.thy ===== *)
theory Offline
  imports Server_State "HOL-Library.Multiset"
begin

text \<open>
  The offline queue (\<^verbatim>\<open>server/offline.py\<close>) and its delivery at login (\<^verbatim>\<open>_flush_offline\<close> in
  \<^verbatim>\<open>server/ws_server.py\<close>). The locale \<open>mailbox\<close> is the contract the rest of the server relies on: a
  packet stored under a fresh id is in its user's box until the box is cleared, an id already
  present is ignored. The database provides it.
\<close>

section \<open>The mailbox contract\<close>

locale mailbox =
  fixes put :: "'i \<Rightarrow> 'u \<Rightarrow> 'p \<Rightarrow> int \<Rightarrow> 'm \<Rightarrow> 'm"
    and box :: "'u \<Rightarrow> 'm \<Rightarrow> 'p list"
    and clear :: "'u \<Rightarrow> 'm \<Rightarrow> 'm"
    and ids :: "'m \<Rightarrow> 'i set"
  assumes put_fresh: "i \<notin> ids m \<Longrightarrow> 0 < t \<Longrightarrow>
      mset (box v (put i u p t m)) = mset (box v m) + (if v = u then {#p#} else {#})"
    and put_known: "i \<in> ids m \<Longrightarrow> put i u p t m = m"
    and ids_put: "ids (put i u p t m) = insert i (ids m)"
    and box_clear: "box v (clear u m) = (if v = u then [] else box v m)"
    and ids_clear: "ids (clear u m) \<subseteq> ids m"
begin

lemma puts_box:
  assumes "distinct (map (\<lambda>(i, u, p, t). i) es)" and "\<forall>(i, u, p, t) \<in> set es. i \<notin> ids m \<and> 0 < t"
  shows "mset (box v (foldl (\<lambda>m (i, u, p, t). put i u p t m) m es)) =
     mset (box v m) + mset (map (\<lambda>(i, u, p, t). p) (filter (\<lambda>(i, u, p, t). u = v) es))"
  using assms
proof (induction es arbitrary: m)
  case (Cons e es)
  obtain i u p t where e: "e = (i, u, p, t)" by (metis prod_cases4)
  have "\<forall>(j, u', p', t') \<in> set es. j \<notin> ids (put i u p t m) \<and> 0 < t'"
    using Cons.prems e by (force simp: ids_put)
  moreover have "distinct (map (\<lambda>(i, u, p, t). i) es)"
    using Cons.prems(1) unfolding list.map distinct.simps by blast
  ultimately show ?case
    using Cons.IH [of "put i u p t m"] Cons.prems e put_fresh [of i m t v u p] by auto
qed simp

lemma put_twice: "put i u p t (put i v q t' m) = put i v q t' m"
  by (simp add: put_known ids_put)

end

section \<open>The module\<close>

definition offline_enqueue :: "string \<Rightarrow> string \<Rightarrow> string \<Rightarrow> unit server_prog" where
  "offline_enqueue msg_id to_user pkt = bnd now (\<lambda>ts. dbm (db_enqueue msg_id to_user pkt ts))"

definition offline_flush :: "string \<Rightarrow> int \<Rightarrow> string list server_prog" where
  "offline_flush to_user since = bnd (dbq (get_queued to_user since)) (\<lambda>rows. ret (map q_packet rows))"

definition offline_clear :: "string \<Rightarrow> unit server_prog" where
  "offline_clear to_user = dbm (clear_queue to_user)"

definition flush_offline :: "ws \<Rightarrow> string \<Rightarrow> unit server_prog" where
  "flush_offline w username =
    bnd (offline_flush username 0) (\<lambda>queued.
    thn (whenp (queued \<noteq> [])
          (send_packet w SYNC_RESPONSE [(''messages'', JList (map JStr queued))]))
    (offline_clear username))"

definition queued_box :: "string \<Rightarrow> database \<Rightarrow> string list" where
  "queued_box u d = map q_packet (get_queued u 0 d)"

definition queued_ids :: "database \<Rightarrow> string set" where
  "queued_ids d = q_id ` set (offline_queue d)"

lemma mset_queued_box:
  "mset (queued_box u d) =
     mset (map q_packet (filter (\<lambda>q. q_to_user q = u \<and> 0 < q_created_at q) (offline_queue d)))"
  by (simp add: queued_box_def get_queued_def)

lemma offline_enqueue_app [prog_simps]:
  "offline_enqueue i u p s = (Inr (), s\<lparr>db := db_enqueue i u p (clock s) (db s)\<rparr>)"
  by (simp add: offline_enqueue_def prog_simps)

lemma offline_flush_app [prog_simps]:
  "offline_flush u since s = (Inr (map q_packet (get_queued u since (db s))), s)"
  by (simp add: offline_flush_def prog_simps)

lemma offline_clear_app [prog_simps]:
  "offline_clear u s = (Inr (), s\<lparr>db := clear_queue u (db s)\<rparr>)"
  by (simp add: offline_clear_def)

interpretation offq: mailbox db_enqueue queued_box clear_queue queued_ids
proof unfold_locales
  fix i u p v and t :: int and m
  assume "i \<notin> queued_ids m" "0 < t"
  then show "mset (queued_box v (db_enqueue i u p t m)) =
      mset (queued_box v m) + (if v = u then {#p#} else {#})"
    by (simp add: mset_queued_box db_enqueue_def queued_ids_def)
next
  fix u v m
  have "get_queued v 0 (clear_queue u m) = (if v = u then [] else get_queued v 0 m)"
    by (auto simp: get_queued_def clear_queue_def filter_empty_conv intro!: arg_cong [of _ _ "sort_key _"]
        filter_cong)
  then show "queued_box v (clear_queue u m) = (if v = u then [] else queued_box v m)"
    by (simp add: queued_box_def)
qed (auto simp: db_enqueue_def queued_ids_def clear_queue_def)

lemma offline_queue_fresh:
  "i \<notin> queued_ids d \<Longrightarrow> offline_queue (db_enqueue i u p t d) = offline_queue d @
     [\<lparr>q_id = i, q_to_user = u, q_packet = p, q_created_at = t\<rparr>]"
  by (simp add: db_enqueue_def queued_ids_def)

section \<open>Properties\<close>

lemma flush_offline_broken:
  assumes "w \<in> broken s" and "queued_box u (db s) \<noteq> []"
  shows "\<exists>s'. flush_offline w u s = (Inl ConnectionClosed, s') \<and> db s' = db s \<and> outbox s' = outbox s"
  using assms by (simp add: flush_offline_def prog_simps whenp_def queued_box_def)

lemma flush_offline_ok:
  assumes "w \<notin> broken s"
  shows "flush_offline w u s = (Inr (), (if queued_box u (db s) = [] then s else
     s\<lparr>epos := epos s + 16, outbox := outbox s @ [(w, json_dumps (JObj (packet_fields
        (type_str SYNC_RESPONSE) (next_id s) (clock s)
        [(''messages'', JList (map JStr (queued_box u (db s))))])))]\<rparr>)
     \<lparr>db := clear_queue u (db s)\<rparr>)"
  using assms by (simp add: flush_offline_def prog_simps whenp_def queued_box_def)

text \<open> C21: Packets queued under distinct fresh ids while a user is away are all in the user's box, each
  exactly once and nobody else's, whatever was interleaved for other users. \<close>

theorem offline_exactly_once:
  assumes "distinct (map (\<lambda>(i, u, p, t). i) es)"
    and "\<forall>(i, u, p, t) \<in> set es. i \<notin> queued_ids d \<and> 0 < t"
    and "queued_box v d = []"
  shows "mset (queued_box v (foldl (\<lambda>d (i, u, p, t). db_enqueue i u p t d) d es)) =
     mset (map (\<lambda>(i, u, p, t). p) (filter (\<lambda>(i, u, p, t). u = v) es))"
  using offq.puts_box [OF assms(1,2), of v] assms(3) by simp

lemma offline_exactly_once_witness:
  "mset (queued_box ''bob'' (foldl (\<lambda>d (i, u, p, t). db_enqueue i u p t d) empty_db
     [(''1'', ''bob'', ''a'', 5), (''2'', ''eve'', ''b'', 5), (''3'', ''bob'', ''c'', 4)])) =
   {#''a'', ''c''#}"
  using offline_exactly_once [of "[(''1'', ''bob'', ''a'', 5), (''2'', ''eve'', ''b'', 5), (''3'', ''bob'', ''c'', 4)]"
      empty_db "''bob''"]
  by (simp add: queued_ids_def queued_box_def get_queued_def empty_db_def)

text \<open> C22: Delivery of the queue at login is all or nothing: if the new socket is already dead the send
  raises and the queue is untouched; otherwise one SYNC_RESPONSE carries every queued packet, oldest
  first, the user's queue is empty afterwards and every other user's is unchanged. \<close>

theorem flush_all_or_nothing:
  assumes "flush_offline w u s = (r, s')" and "queued_box u (db s) \<noteq> []"
  shows "(w \<in> broken s \<and> r = Inl ConnectionClosed \<and> db s' = db s \<and> outbox s' = outbox s) \<or>
    (w \<notin> broken s \<and> r = Inr () \<and> queued_box u (db s') = [] \<and>
     (\<forall>v. v = u \<or> queued_box v (db s') = queued_box v (db s)) \<and>
     (\<exists>i ts. outbox s' = outbox s @ [(w, json_dumps (JObj (packet_fields ''SYNC_RESPONSE'' i ts
        [(''messages'', JList (map JStr (queued_box u (db s))))])))]) \<and>
     sorted (map q_created_at (get_queued u 0 (db s))))"
proof (cases "w \<in> broken s")
  case True
  then show ?thesis using flush_offline_broken [OF True assms(2)] assms(1) by auto
next
  case False
  then show ?thesis using flush_offline_ok [OF False, of u] assms sorted_get_queued
    by (auto simp: offq.box_clear)
qed

definition flush_example :: server where
  "flush_example = (boot (\<lambda>_. 0) 9 0)\<lparr>db := db_enqueue ''1'' ''bob'' ''a'' 5 empty_db\<rparr>"

lemma flush_all_or_nothing_witness:
  "queued_box ''bob'' (db flush_example) = [''a''] \<and>
   queued_box ''bob'' (db (snd (flush_offline 1 ''bob'' flush_example))) = []"
proof -
  have box: "queued_box ''bob'' (db flush_example) = [''a'']" and live: "(1::nat) \<notin> broken flush_example"
    by (simp_all add: flush_example_def boot_def queued_box_def get_queued_def db_enqueue_def empty_db_def)
  obtain r s' where f: "flush_offline 1 ''bob'' flush_example = (r, s')" by fastforce
  show ?thesis using flush_all_or_nothing [OF f] f box live by simp
qed

end
