(* ===== verification/Rooms.thy ===== *)
theory Rooms
  imports Offline
begin

text \<open>
  Rooms (\<^verbatim>\<open>server/rooms.py\<close>): creation, membership and the broadcast to a room. \<open>route_room_message\<close> is
  compared with \<open>route_spec\<close>, which says of a list of members who is sent the packet and for whom it
  is queued.
\<close>

section \<open>Membership\<close>

fun room_json :: "string \<times> string \<times> string \<Rightarrow> json" where
  "room_json (i, name, created_by) =
     JObj [(''id'', JStr i), (''name'', JStr name), (''created_by'', JStr created_by)]"

definition create_room :: "string \<Rightarrow> string \<Rightarrow> (string \<times> string \<times> string) server_prog" where
  "create_room name created_by =
    bnd new_id (\<lambda>room_id.
    bnd now (\<lambda>ts.
    thn (dbx (insert_room \<lparr>r_id = room_id, r_name = name, r_created_by = created_by, r_created_at = ts\<rparr>))
    (thn (dbm (insert_member \<lparr>m_room_id = room_id, m_username = created_by, m_joined_at = ts\<rparr>))
    (ret (room_id, name, created_by)))))"

definition room_exists :: "string \<Rightarrow> bool server_prog" where
  "room_exists room_id = dbq (room_exists_db room_id)"

definition join_room :: "string \<Rightarrow> string \<Rightarrow> bool server_prog" where
  "join_room room_id username =
    bnd (room_exists room_id) (\<lambda>b.
      if \<not> b then ret False
      else bnd now (\<lambda>ts.
        thn (dbm (insert_member \<lparr>m_room_id = room_id, m_username = username, m_joined_at = ts\<rparr>))
        (ret True)))"

definition leave_room :: "string \<Rightarrow> string \<Rightarrow> unit server_prog" where
  "leave_room room_id username = dbm (delete_member room_id username)"

definition get_members :: "string \<Rightarrow> string list server_prog" where
  "get_members room_id = dbq (select_members room_id)"

definition get_user_rooms :: "string \<Rightarrow> (string \<times> string \<times> string) list server_prog" where
  "get_user_rooms username =
    bnd (dbq (select_user_rooms username)) (\<lambda>rows.
      ret (map (\<lambda>r. (r_id r, r_name r, r_created_by r)) rows))"

section \<open>Broadcast\<close>

definition queue_for_member :: "packet \<Rightarrow> string \<Rightarrow> string \<Rightarrow> unit server_prog" where
  "queue_for_member pkt payload member =
    bnd new_id (\<lambda>fresh.
      offline_enqueue (py_str (jget_or pkt ''id'' (JStr fresh)) @ '':'' @ member) member payload)"

definition route_to_member :: "packet \<Rightarrow> string \<Rightarrow> string \<Rightarrow> string \<Rightarrow> unit server_prog" where
  "route_to_member pkt payload sender member =
    (if member = sender then ret ()
     else bnd (router_get member) (\<lambda>w. case w of
       Some w \<Rightarrow> attempt (ws_send w payload) (\<lambda>_. queue_for_member pkt payload member)
     | None \<Rightarrow> queue_for_member pkt payload member))"

definition route_room_message :: "string \<Rightarrow> packet \<Rightarrow> string \<Rightarrow> unit server_prog" where
  "route_room_message room_id pkt sender =
    bnd (get_members room_id) (\<lambda>members.
      for_each (route_to_member pkt (json_dumps (JObj pkt)) sender) members)"

section \<open>What a broadcast does\<close>

text \<open>A member is reachable when a live socket is registered under the name.\<close>

definition reachable :: "server \<Rightarrow> string \<Rightarrow> ws option" where
  "reachable s u = (case lookup (connections s) u of
     Some w \<Rightarrow> (if w \<in> broken s then None else Some w) | None \<Rightarrow> None)"

definition route_spec :: "json \<Rightarrow> string \<Rightarrow> string list \<Rightarrow> server \<Rightarrow> (ws \<times> string) list \<times> database" where
  "route_spec i payload members s =
    (outbox s @ concat (map (\<lambda>m. case reachable s m of Some w \<Rightarrow> [(w, payload)] | None \<Rightarrow> []) members),
     foldl (\<lambda>d m. db_enqueue (py_str i @ '':'' @ m) m payload (clock s) d) (db s)
       (filter (\<lambda>m. reachable s m = None) members))"

lemma route_to_member_spec:
  assumes "dget pkt ''id'' = Some i"
  shows "\<exists>s'. route_to_member pkt payload sender m s = (Inr (), s') \<and>
    (outbox s', db s') = route_spec i payload (if m = sender then [] else [m]) s \<and>
    connections s' = connections s \<and> broken s' = broken s \<and> clock s' = clock s"
  using assms
  by (auto simp: route_to_member_def queue_for_member_def prog_simps jget_or_def route_spec_def
      reachable_def split: option.splits)

lemma route_for_each_spec:
  assumes "dget pkt ''id'' = Some i"
  shows "\<exists>s'. for_each (route_to_member pkt payload sender) members s = (Inr (), s') \<and>
    (outbox s', db s') = route_spec i payload (filter (\<lambda>m. m \<noteq> sender) members) s \<and>
    connections s' = connections s \<and> broken s' = broken s \<and> clock s' = clock s"
proof (induction members arbitrary: s)
  case Nil
  then show ?case by (simp add: route_spec_def)
next
  case (Cons m ms)
  obtain s1 where s1: "route_to_member pkt payload sender m s = (Inr (), s1)"
    "(outbox s1, db s1) = route_spec i payload (if m = sender then [] else [m]) s"
    "connections s1 = connections s" "broken s1 = broken s" "clock s1 = clock s"
    using route_to_member_spec [OF assms] by blast
  moreover have "reachable s1 = reachable s" using s1 by (auto simp: reachable_def fun_eq_iff split: option.split)
  ultimately show ?case
    using Cons.IH [of s1] by (auto simp: thn_app route_spec_def split: if_splits option.splits)
qed

lemma route_room_message_spec:
  assumes "dget pkt ''id'' = Some i"
  shows "\<exists>s'. route_room_message r pkt sender s = (Inr (), s') \<and>
    (outbox s', db s') = route_spec i (json_dumps (JObj pkt))
       (filter (\<lambda>m. m \<noteq> sender) (select_members r (db s))) s \<and>
    connections s' = connections s \<and> broken s' = broken s \<and> clock s' = clock s"
  using route_for_each_spec [OF assms] by (simp add: route_room_message_def prog_simps get_members_def)

lemma fold_enqueue_frame:
  "room_members (foldl (\<lambda>d m. db_enqueue (f m) m p t d) d ms) = room_members d"
  by (induction ms arbitrary: d) (auto simp: db_enqueue_def)

lemma fold_enqueue_rows:
  assumes "distinct (map f ms)" and "\<forall>m \<in> set ms. f m \<notin> queued_ids d"
  shows "offline_queue (foldl (\<lambda>d m. db_enqueue (f m) m p t d) d ms) = offline_queue d @
     map (\<lambda>m. \<lparr>q_id = f m, q_to_user = m, q_packet = p, q_created_at = t\<rparr>) ms"
  using assms
proof (induction ms arbitrary: d)
  case (Cons m ms)
  have "\<forall>m' \<in> set ms. f m' \<notin> queued_ids (db_enqueue (f m) m p t d)"
    using Cons.prems by (fastforce simp: offq.ids_put image_iff)
  then show ?case using Cons.IH [of "db_enqueue (f m) m p t d"] Cons.prems
    by (simp add: offline_queue_fresh)
qed simp

section \<open>Properties\<close>

text \<open> C13: A room message reaches exactly the members other than its sender, each once: those with a live
  registered socket are sent the packet now, in member order, and for every other member one row is
  queued under the packet id and the member's name; the broadcast itself never raises. \<close>

theorem room_broadcast:
  assumes "db_ok (db s)" and "dget pkt ''id'' = Some i"
    and "\<forall>m. py_str i @ '':'' @ m \<notin> queued_ids (db s)"
    and "route_room_message r pkt sender s = (res, s')"
  shows "res = Inr () \<and>
    outbox s' = outbox s @ concat (map (\<lambda>m. case reachable s m of
        Some w \<Rightarrow> [(w, json_dumps (JObj pkt))] | None \<Rightarrow> [])
        (filter (\<lambda>m. m \<noteq> sender) (select_members r (db s)))) \<and>
    offline_queue (db s') = offline_queue (db s) @ map (\<lambda>m. \<lparr>q_id = py_str i @ '':'' @ m,
        q_to_user = m, q_packet = json_dumps (JObj pkt), q_created_at = clock s\<rparr>)
        (filter (\<lambda>m. m \<noteq> sender \<and> reachable s m = None) (select_members r (db s)))"
proof -
  let ?ms = "filter (\<lambda>m. reachable s m = None) (filter (\<lambda>m. m \<noteq> sender) (select_members r (db s)))"
  have s': "res = Inr ()" "(outbox s', db s') = route_spec i (json_dumps (JObj pkt))
       (filter (\<lambda>m. m \<noteq> sender) (select_members r (db s))) s"
    using route_room_message_spec [OF assms(2), of r sender s] assms(4) by auto
  have "distinct ?ms" using distinct_select_members [OF assms(1)] by (intro distinct_filter)
  then have "distinct (map (\<lambda>m. py_str i @ '':'' @ m) ?ms)" by (simp add: distinct_map inj_on_def)
  then show ?thesis
    using s' assms(3) fold_enqueue_rows [of "\<lambda>m. py_str i @ '':'' @ m" ?ms]
    by (simp add: route_spec_def conj_commute)
qed

definition room_example :: server where
  "room_example = (boot (\<lambda>_. 0) 10 0)\<lparr>connections := [(''bob'', 7)],
     db := empty_db\<lparr>room_members := map (\<lambda>u. \<lparr>m_room_id = ''r'', m_username = u, m_joined_at = 1\<rparr>)
       [''alice'', ''bob'', ''carol'']\<rparr>\<rparr>"

lemma room_broadcast_witness:
  "let t = snd (route_room_message ''r'' [(''id'', JStr ''m'')] ''alice'' room_example)
   in map fst (outbox t) = [7] \<and> map q_to_user (offline_queue (db t)) = [''carol'']"
proof -
  obtain res t where t: "route_room_message ''r'' [(''id'', JStr ''m'')] ''alice'' room_example = (res, t)"
    by fastforce
  have "db_ok (db room_example)" "\<forall>m. py_str (JStr ''m'') @ '':'' @ m \<notin> queued_ids (db room_example)"
    by (simp_all add: room_example_def db_ok_def queued_ids_def empty_db_def)
  then show ?thesis
    using room_broadcast [OF _ _ _ t, of "JStr ''m''"] t
    by (simp add: room_example_def boot_def empty_db_def select_members_def reachable_def lookup_def)
qed

text \<open> Membership: a user is a member of a room after \<open>join_room\<close> iff the room exists (or the user
  already was one), is not one after \<open>leave_room\<close>, and neither changes anyone else's membership. \<close>

theorem membership:
  "(u' \<in> set (select_members r' (db (snd (join_room r u s)))) \<longleftrightarrow>
      (u' = u \<and> r' = r \<and> room_exists_db r (db s)) \<or> u' \<in> set (select_members r' (db s))) \<and>
   fst (join_room r u s) = Inr (room_exists_db r (db s)) \<and>
   (u' \<in> set (select_members r' (db (snd (leave_room r u s)))) \<longleftrightarrow>
      \<not> (u' = u \<and> r' = r) \<and> u' \<in> set (select_members r' (db s)))"
  by (auto simp: join_room_def room_exists_def leave_room_def prog_simps mem_select_members
      insert_member_def delete_member_def rev_image_eqI)

end
