(* ===== verification/Server_Files.thy ===== *)
theory Server_Files
  imports Offline
begin

text \<open>
  Stored file chunks (\<^verbatim>\<open>server/files.py\<close>). \<open>base\<close> is \<^verbatim>\<open>FILES_DIR\<close>. The disk is a map from paths to
  contents with the set of directories made; a path is the string the code builds, compared without
  resolving \<^verbatim>\<open>..\<close> components or links.
\<close>

section \<open>Paths\<close>

definition FILE_TTL :: int where "FILE_TTL = 86400 * 7"

definition chunk_name :: "int \<Rightarrow> string" where
  "chunk_name i = ''chunk_'' @ (if i < 0 then CHR ''-'' # zfill 3 (nat_str (nat (- i)))
     else zfill 4 (nat_str (nat i)))"

definition chunk_path :: "string \<Rightarrow> string \<Rightarrow> int \<Rightarrow> string" where
  "chunk_path base file_id i = path_join (path_join base file_id) (chunk_name i)"

definition file_dir :: "string \<Rightarrow> string \<Rightarrow> string" where
  "file_dir base file_id = path_join base file_id"

section \<open>The disk\<close>

definition makedirs :: "string \<Rightarrow> unit server_prog" where
  "makedirs p = (\<lambda>s. if CHR 0x00 \<in> set p then (Inl ValueError, s)
     else if fs_files s p \<noteq> None then (Inl OSError, s)
     else (Inr (), s\<lparr>fs_dirs := insert p (fs_dirs s)\<rparr>))"

definition write_file :: "string \<Rightarrow> bytes \<Rightarrow> unit server_prog" where
  "write_file p data = (\<lambda>s. if p \<in> fs_dirs s then (Inl OSError, s)
     else (Inr (), s\<lparr>fs_files := (fs_files s)(p \<mapsto> data)\<rparr>))"

definition below :: "string \<Rightarrow> string \<Rightarrow> bool" where
  "below p q \<longleftrightarrow> starts_with q (p @ ''/'')"

definition rmtree :: "string \<Rightarrow> unit server_prog" where
  "rmtree p = modify (\<lambda>s. s\<lparr>fs_files := (\<lambda>q. if below p q then None else fs_files s q),
     fs_dirs := {q \<in> fs_dirs s. q \<noteq> p \<and> \<not> below p q}\<rparr>)"

section \<open>The module\<close>

text \<open>
  The metadata dictionary of \<open>register_file\<close>: \<open>created_at\<close> is the packet's own timestamp, to which the
  lifetime is added (a non-number raises). A null name violates \<^verbatim>\<open>NOT NULL\<close>, which \<^verbatim>\<open>INSERT OR IGNORE\<close>
  skips.
\<close>

record file_meta =
  fm_id :: string
  fm_name :: json
  fm_size :: int
  fm_total_chunks :: int
  fm_uploader :: string
  fm_recipient :: string
  fm_encrypted_key :: string
  fm_created_at :: json

fun as_number :: "json \<Rightarrow> exn + int" where
  "as_number (JInt i) = Inr i"
| "as_number (JBool b) = Inr (if b then 1 else 0)"
| "as_number _ = Inl TypeError"

definition file_row_of :: "file_meta \<Rightarrow> exn + file_row option" where
  "file_row_of m =
    sbnd (as_number (fm_created_at m)) (\<lambda>created.
    sbnd (opt_text (fm_name m)) (\<lambda>name.
    sbnd (sql_int (fm_size m)) (\<lambda>size.
    sbnd (sql_int (fm_total_chunks m)) (\<lambda>total.
    sbnd (sql_int created) (\<lambda>created.
    sbnd (sql_int (created + FILE_TTL)) (\<lambda>expires.
    Inr (map_option (\<lambda>name. \<lparr>f_id = fm_id m, f_name = name, f_size = size, f_total_chunks = total,
      f_uploader = fm_uploader m, f_recipient = fm_recipient m,
      f_encrypted_key = Some (fm_encrypted_key m), f_created_at = created,
      f_expires_at = Some expires\<rparr>) name)))))))"

definition register_file :: "string \<Rightarrow> file_meta \<Rightarrow> unit server_prog" where
  "register_file base m =
    bnd (lift_result (file_row_of m)) (\<lambda>row.
    thn (case row of None \<Rightarrow> ret () | Some r \<Rightarrow> dbm (create_file r))
    (makedirs (file_dir base (fm_id m))))"

definition store_chunk :: "string \<Rightarrow> string \<Rightarrow> int \<Rightarrow> bytes \<Rightarrow> string \<Rightarrow> unit server_prog" where
  "store_chunk base file_id i data checksum =
    thn (makedirs (file_dir base file_id))
    (thn (write_file (chunk_path base file_id i) data)
    (bnd new_id (\<lambda>chunk_id. dbm (add_chunk chunk_id file_id i checksum))))"

definition get_chunk :: "string \<Rightarrow> string \<Rightarrow> int \<Rightarrow> bytes option server_prog" where
  "get_chunk base file_id i = (\<lambda>s. let p = chunk_path base file_id i in
     case fs_files s p of Some data \<Rightarrow> (Inr (Some data), s)
     | None \<Rightarrow> (if p \<in> fs_dirs s then (Inl OSError, s) else (Inr None, s)))"

definition is_complete :: "string \<Rightarrow> bool server_prog" where
  "is_complete file_id =
    bnd (dbq (get_file file_id)) (\<lambda>meta. case meta of
      None \<Rightarrow> ret False
    | Some f \<Rightarrow> bnd (dbq (count_delivered file_id)) (\<lambda>n. ret (n \<ge> f_total_chunks f)))"

definition delete_file_data :: "string \<Rightarrow> string \<Rightarrow> unit server_prog" where
  "delete_file_data base file_id =
    (let p = file_dir base file_id in
     thn (bnd (gets fs_dirs) (\<lambda>dirs. whenp (p \<in> dirs) (rmtree p)))
     (dbm (delete_file file_id)))"

definition cleanup_expired :: "string \<Rightarrow> nat server_prog" where
  "cleanup_expired base =
    bnd now (\<lambda>t.
    bnd (dbq (get_expired_files t)) (\<lambda>expired.
    thn (for_each (\<lambda>f. delete_file_data base (f_id f)) expired)
    (ret (length expired))))"

section \<open>Paths of chunks\<close>

lemma slash_split: "\<lbrakk>CHR ''/'' \<notin> set a; CHR ''/'' \<notin> set b; x @ CHR ''/'' # a = y @ CHR ''/'' # b\<rbrakk> \<Longrightarrow> x = y \<and> a = b"
proof -
  assume a: "CHR ''/'' \<notin> set a" "CHR ''/'' \<notin> set b" and e: "x @ CHR ''/'' # a = y @ CHR ''/'' # b"
  have t: "takeWhile (\<lambda>c. c \<noteq> CHR ''/'') (rev (z @ CHR ''/'' # c)) = rev c" if "CHR ''/'' \<notin> set c" for z c
    using that by (auto simp: takeWhile_append)
  have "rev a = rev b" using t [OF a(1), of x] t [OF a(2), of y] e by simp
  then show ?thesis using e by simp
qed

lemma digits_no_slash: "CHR ''/'' \<notin> set (zfill w (nat_str n))"
  using nat_str_digits [of n] by (auto simp: zfill_def is_digit_def)

lemma chunk_name_no_slash: "CHR ''/'' \<notin> set (chunk_name i)"
  using digits_no_slash by (simp add: chunk_name_def)

lemma zfill_nat_str_inj: "zfill w (nat_str m) = zfill w (nat_str n) \<Longrightarrow> m = n"
  by (metis dec_val_zfill dec_val_nat_str)

lemma digits_no_minus: "zfill w (nat_str n) \<noteq> CHR ''-'' # s"
proof
  assume "zfill w (nat_str n) = CHR ''-'' # s"
  moreover have "CHR ''-'' \<notin> set (zfill w (nat_str n))"
    using nat_str_digits [of n] by (auto simp: zfill_def is_digit_def)
  ultimately show False by simp
qed

lemma chunk_name_inj: "chunk_name i = chunk_name j \<Longrightarrow> i = j"
  by (auto simp: chunk_name_def digits_no_minus digits_no_minus [symmetric] dest!: zfill_nat_str_inj
      split: if_splits)

text \<open>A file id that names one directory below the base: non-empty and without a slash.\<close>

definition plain_id :: "string \<Rightarrow> bool" where
  "plain_id f \<longleftrightarrow> f \<noteq> [] \<and> CHR ''/'' \<notin> set f"

definition plain_base :: "string \<Rightarrow> bool" where
  "plain_base base \<longleftrightarrow> base \<noteq> [] \<and> last base \<noteq> CHR ''/''"

lemma file_dir_plain: "plain_base base \<Longrightarrow> plain_id f \<Longrightarrow> file_dir base f = base @ ''/'' @ f"
  by (cases f) (auto simp: file_dir_def path_join_def plain_base_def plain_id_def)

lemma last_no_slash: "CHR ''/'' \<notin> set f \<Longrightarrow> f \<noteq> [] \<Longrightarrow> last f \<noteq> CHR ''/''"
  by (metis last_in_set)

lemma chunk_path_join:
  "plain_id f \<Longrightarrow> chunk_path base f i = path_join base f @ ''/'' @ chunk_name i"
proof -
  assume f: "plain_id f"
  have "last (path_join base f) = last f" "path_join base f \<noteq> []"
    using f by (auto simp: path_join_def plain_id_def)
  moreover have "\<not> starts_with (chunk_name i) ''/''" by (simp add: chunk_name_def)
  ultimately show ?thesis
    using f last_no_slash [of f] by (simp add: chunk_path_def path_join_def [of _ "chunk_name i"] plain_id_def)
qed

lemma chunk_path_plain:
  "plain_base base \<Longrightarrow> plain_id f \<Longrightarrow> chunk_path base f i = (base @ ''/'' @ f) @ ''/'' @ chunk_name i"
  using chunk_path_join [of f base i] file_dir_plain [of base f] by (simp add: file_dir_def)

lemma chunk_path_inj:
  assumes "plain_base base" "plain_id f" "plain_id g" "chunk_path base f i = chunk_path base g j"
  shows "f = g \<and> i = j"
proof -
  have "base @ ''/'' @ f = base @ ''/'' @ g \<and> chunk_name i = chunk_name j"
    using assms slash_split [OF chunk_name_no_slash chunk_name_no_slash, of "base @ ''/'' @ f" i "base @ ''/'' @ g" j]
    by (simp add: chunk_path_plain)
  then show ?thesis using chunk_name_inj by auto
qed

lemma below_chunk_path:
  assumes "plain_base base" "plain_id f" "plain_id g"
  shows "below (file_dir base f) (chunk_path base g i) \<longleftrightarrow> f = g"
proof
  assume "below (file_dir base f) (chunk_path base g i)"
  then obtain r where "(base @ ''/'' @ g) @ ''/'' @ chunk_name i = (base @ ''/'' @ f) @ ''/'' @ r"
    using assms unfolding below_def starts_with_def chunk_path_plain [OF assms(1,3)] file_dir_plain [OF assms(1,2)]
    by (metis append.assoc append_take_drop_id)
  then have "g @ ''/'' @ chunk_name i = f @ ''/'' @ r" by simp
  then have "takeWhile (\<lambda>c. c \<noteq> CHR ''/'') (g @ ''/'' @ chunk_name i) =
      takeWhile (\<lambda>c. c \<noteq> CHR ''/'') (f @ ''/'' @ r)" by simp
  moreover have "takeWhile (\<lambda>c. c \<noteq> CHR ''/'') (h @ ''/'' @ z) = h" if "plain_id h" for h z
    using that by (auto simp: plain_id_def takeWhile_append)
  ultimately show "f = g" using assms by simp
next
  assume "f = g"
  then show "below (file_dir base f) (chunk_path base g i)"
    using assms starts_with_append [of "(base @ ''/'' @ g) @ ''/''" "chunk_name i"]
    by (simp add: below_def chunk_path_plain file_dir_plain)
qed

section \<open>Deletion and expiry\<close>

definition expired :: "int \<Rightarrow> file_row \<Rightarrow> bool" where
  "expired t f \<longleftrightarrow> (case f_expires_at f of None \<Rightarrow> False | Some e \<Rightarrow> e < t)"

lemma get_expired_files_filter: "get_expired_files t d = filter (expired t) (files d)"
  by (simp add: get_expired_files_def expired_def [abs_def])

lemma below_iff: "below p q \<longleftrightarrow> (\<exists>r. q = p @ CHR ''/'' # r)"
proof
  assume "below p q"
  then have "q = (p @ ''/'') @ drop (length (p @ ''/'')) q"
    unfolding below_def starts_with_def by (metis append_take_drop_id)
  then show "\<exists>r. q = p @ CHR ''/'' # r" by (metis append.assoc append_Cons append_Nil)
qed (auto simp: below_def starts_with_def)

lemma below_trans: "below p q \<Longrightarrow> below q r \<Longrightarrow> below p r"
  by (auto simp: below_iff)

lemma delete_file_data_app:
  "delete_file_data base f s = (Inr (), s\<lparr>
     fs_files := (\<lambda>q. if file_dir base f \<in> fs_dirs s \<and> below (file_dir base f) q then None else fs_files s q),
     fs_dirs := (if file_dir base f \<in> fs_dirs s then
        {q \<in> fs_dirs s. q \<noteq> file_dir base f \<and> \<not> below (file_dir base f) q} else fs_dirs s),
     db := delete_file f (db s)\<rparr>)"
  by (auto simp: delete_file_data_def prog_simps whenp_def rmtree_def Let_def)

lemma delete_files_loop:
  "\<exists>s'. for_each (\<lambda>f. delete_file_data base (f_id f)) fs s = (Inr (), s') \<and>
     files (db s') = filter (\<lambda>g. f_id g \<notin> f_id ` set fs) (files (db s)) \<and>
     chunks (db s') = filter (\<lambda>c. c_file_id c \<notin> f_id ` set fs) (chunks (db s)) \<and>
     fs_files s' = (\<lambda>q. if \<exists>f \<in> set fs. file_dir base (f_id f) \<in> fs_dirs s \<and>
        below (file_dir base (f_id f)) q then None else fs_files s q)"
proof (induction fs arbitrary: s)
  case (Cons f fs)
  let ?d = "file_dir base (f_id f)"
  define s1 where "s1 = snd (delete_file_data base (f_id f) s)"
  have dirs: "p \<in> fs_dirs s1 \<longleftrightarrow> p \<in> fs_dirs s \<and> \<not> (?d \<in> fs_dirs s \<and> (p = ?d \<or> below ?d p))" for p
    by (auto simp: s1_def delete_file_data_app)
  have fsf: "fs_files s1 q = (if ?d \<in> fs_dirs s \<and> below ?d q then None else fs_files s q)" for q
    by (simp add: s1_def delete_file_data_app)
  have "(if \<exists>g \<in> set fs. file_dir base (f_id g) \<in> fs_dirs s1 \<and> below (file_dir base (f_id g)) q
        then None else fs_files s1 q) =
      (if \<exists>g \<in> set (f # fs). file_dir base (f_id g) \<in> fs_dirs s \<and> below (file_dir base (f_id g)) q
        then None else fs_files s q)" for q
    unfolding dirs fsf by (auto dest: below_trans)
  moreover have "delete_file_data base (f_id f) s = (Inr (), s1)" by (simp add: s1_def delete_file_data_app)
  moreover have "files (db s1) = filter (\<lambda>g. f_id g \<noteq> f_id f) (files (db s))"
    "chunks (db s1) = filter (\<lambda>c. c_file_id c \<noteq> f_id f) (chunks (db s))"
    by (simp_all add: s1_def delete_file_data_app delete_file_def)
  ultimately show ?case
    using Cons.IH [of s1] by (auto simp: thn_app intro!: filter_cong ext)
qed simp

lemma cleanup_expired_spec:
  "\<exists>s'. cleanup_expired base s = (Inr (length (filter (expired (clock s)) (files (db s)))), s') \<and>
     files (db s') = filter (\<lambda>g. f_id g \<notin> f_id ` {f \<in> set (files (db s)). expired (clock s) f}) (files (db s)) \<and>
     chunks (db s') = filter (\<lambda>c. c_file_id c \<notin> f_id ` {f \<in> set (files (db s)). expired (clock s) f}) (chunks (db s)) \<and>
     fs_files s' = (\<lambda>q. if \<exists>f \<in> set (files (db s)). expired (clock s) f \<and>
        file_dir base (f_id f) \<in> fs_dirs s \<and> below (file_dir base (f_id f)) q then None else fs_files s q)"
  using delete_files_loop [of base "filter (expired (clock s)) (files (db s))" s]
  by (auto simp: cleanup_expired_def prog_simps get_expired_files_filter Bex_def conj_assoc)

section \<open>Properties\<close>

lemma store_chunk_app:
  assumes "CHR 0x00 \<notin> set (file_dir base f)" "fs_files s (file_dir base f) = None"
    and "chunk_path base f i \<notin> insert (file_dir base f) (fs_dirs s)"
  shows "store_chunk base f i data ck s = (Inr (), s\<lparr>fs_dirs := insert (file_dir base f) (fs_dirs s),
     fs_files := (fs_files s)(chunk_path base f i \<mapsto> data), epos := epos s + 16,
     db := add_chunk (next_id s) f i ck (db s)\<rparr>)"
  using assms by (simp add: store_chunk_def prog_simps makedirs_def write_file_def next_id_def)

text \<open> A stored chunk reads back as the bytes last written for its file and index, and storing it changes
  no other chunk of any file. \<close>

theorem store_get_chunk:
  assumes "plain_base base" "plain_id f" "plain_id g"
    and "store_chunk base f i data ck s = (Inr (), s')"
  shows "fs_files s' (chunk_path base g j) =
    (if g = f \<and> j = i then Some data else fs_files s (chunk_path base g j)) \<and>
    get_chunk base f i s' = (Inr (Some data), s')"
  using assms chunk_path_inj [of base g f j i]
  by (auto simp: store_chunk_def prog_simps makedirs_def write_file_def get_chunk_def Let_def
      split: if_splits)

lemma store_get_chunk_witness:
  "\<exists>s'. store_chunk ''/srv'' ''f'' 3 [1, 2] ''ck'' (boot (\<lambda>_. 0) 10 0) = (Inr (), s') \<and>
     get_chunk ''/srv'' ''f'' 3 s' = (Inr (Some [1, 2]), s')"
proof -
  have p: "file_dir ''/srv'' ''f'' = ''/srv/f''" "chunk_path ''/srv'' ''f'' 3 = ''/srv/f/chunk_0003''"
    by code_simp+
  obtain s' where s: "store_chunk ''/srv'' ''f'' 3 [1, 2] ''ck'' (boot (\<lambda>_. 0) 10 0) = (Inr (), s')"
    by (simp add: store_chunk_app p boot_def)
  show ?thesis using store_get_chunk [OF _ _ _ s, of "''f''" 3] s
    by (auto simp: plain_base_def plain_id_def)
qed


definition expiry_example :: server where
  "expiry_example = (boot (\<lambda>_. 0) 100 0)\<lparr>db := empty_db\<lparr>files := map (\<lambda>(i, e). \<lparr>f_id = i, f_name = i,
     f_size = 1, f_total_chunks = 1, f_uploader = ''a'', f_recipient = ''b'', f_encrypted_key = None,
     f_created_at = 1, f_expires_at = Some e\<rparr>) [(''old'', 50), (''new'', 500)]\<rparr>,
     fs_dirs := {''/srv/old'', ''/srv/new''}\<rparr>"


text \<open> A file id is not confined to the storage directory. Registering a file whose id is an absolute
  path that is a directory of the server, with a timestamp older than the lifetime, makes the next expiry
  run remove everything below that path. \<close>

theorem cleanup_escapes_base:
  assumes "fm_id m = CHR ''/'' # p" "fm_created_at m = JInt created" "fm_name m = JStr nm"
    and "file_row_of m \<noteq> Inl OverflowError" "get_file (fm_id m) (db s) = None"
    and "created + FILE_TTL < clock s"
    and "register_file base m s = (Inr (), s1)" and "cleanup_expired base s1 = (r, s2)"
  shows "\<forall>q. fs_files s2 ((CHR ''/'' # p) @ ''/'' @ q) = None"
proof
  fix q
  have dir: "file_dir base (CHR ''/'' # p) = CHR ''/'' # p"
    by (simp add: file_dir_def path_join_def)
  obtain row where row: "file_row_of m = Inr (Some row)" "f_id row = fm_id m"
    "f_expires_at row = Some (created + FILE_TTL)"
    using assms(2-4) by (auto simp: file_row_of_def sql_int_def sbnd_def split: if_splits)
  have "fm_id m \<notin> f_id ` set (files (db s))"
    using assms(5) by (simp add: get_file_def find_None_image)
  then have "row \<in> set (files (db s1))" "CHR ''/'' # p \<in> fs_dirs s1" "clock s1 = clock s"
    using assms(7) row dir assms(1)
    by (auto simp: register_file_def prog_simps makedirs_def create_file_def split: if_splits)
  moreover have "below (CHR ''/'' # p) ((CHR ''/'' # p) @ ''/'' @ q)"
    using starts_with_append [of "(CHR ''/'' # p) @ ''/''" q] by (simp add: below_def)
  moreover have "expired (clock s1) row" using row(3) assms(6) \<open>clock s1 = clock s\<close>
    by (simp add: expired_def)
  ultimately show "fs_files s2 ((CHR ''/'' # p) @ ''/'' @ q) = None"
    using cleanup_expired_spec [of base s1] assms(8) row(2) assms(1) dir by auto
qed

definition escape_meta :: file_meta where
  "escape_meta = \<lparr>fm_id = ''/etc'', fm_name = JStr ''x'', fm_size = 1, fm_total_chunks = 1,
     fm_uploader = ''eve'', fm_recipient = ''bob'', fm_encrypted_key = ''null'', fm_created_at = JInt 0\<rparr>"

lemma cleanup_escapes_base_witness:
  "let s = (boot (\<lambda>_. 0) 1000000 0)\<lparr>fs_files := (\<lambda>_. None)(''/etc/passwd'' \<mapsto> [1])\<rparr>;
       s1 = snd (register_file ''/srv'' escape_meta s); s2 = snd (cleanup_expired ''/srv'' s1)
   in fs_files s ''/etc/passwd'' = Some [1] \<and> fs_files s2 ''/etc/passwd'' = None"
proof -
  let ?s = "(boot (\<lambda>_. 0) 1000000 0)\<lparr>fs_files := (\<lambda>_. None)(''/etc/passwd'' \<mapsto> [1])\<rparr>"
  obtain r1 s1 where s1: "register_file ''/srv'' escape_meta ?s = (r1, s1)" by fastforce
  obtain r2 s2 where s2: "cleanup_expired ''/srv'' s1 = (r2, s2)" by fastforce
  have "r1 = Inr ()"
    using s1 by (auto simp: register_file_def file_row_of_def escape_meta_def sql_int_def FILE_TTL_def
        prog_simps makedirs_def file_dir_def path_join_def boot_def)
  then have "\<forall>q. fs_files s2 (''/etc'' @ ''/'' @ q) = None"
    using cleanup_escapes_base [of escape_meta "''etc''" 0 "''x''" ?s "''/srv''" s1 r2 s2] s1 s2
    by (simp add: escape_meta_def file_row_of_def sql_int_def FILE_TTL_def get_file_def boot_def empty_db_def)
  then have "fs_files s2 (''/etc'' @ ''/'' @ ''passwd'') = None" by blast
  then show ?thesis using s1 s2 by simp
qed

end
