(* ===== verification/Call_Manager.thy ===== *)
theory Call_Manager
  imports Server_State
begin

text \<open>
  Call signalling (\<^verbatim>\<open>server/call_manager.py\<close>): the sessions held in memory and the packets sent to the
  parties. The abstract specification of one session is the life cycle \<open>phase\<close>; the operations refine
  it and leave every other session alone.
\<close>

section \<open>The session table\<close>

definition get_session_mem :: "(string \<times> call) list \<Rightarrow> string \<Rightarrow> call option" where
  "get_session_mem cs session_id = dget cs session_id"

definition put_session :: "string \<Rightarrow> call \<Rightarrow> (string \<times> call) list \<Rightarrow> (string \<times> call) list" where
  "put_session session_id c cs = dset session_id c cs"

definition pop_session :: "string \<Rightarrow> (string \<times> call) list \<Rightarrow> (string \<times> call) list" where
  "pop_session session_id cs = dpop session_id cs"

interpretation sess: key_store get_session_mem put_session pop_session
  by unfold_locales (simp_all add: get_session_mem_def put_session_def pop_session_def)

definition other_party :: "call \<Rightarrow> string \<Rightarrow> string" where
  "other_party c from_user = (if from_user = cs_caller c then cs_callee c else cs_caller c)"

section \<open>Operations\<close>

definition call_send :: "string \<Rightarrow> packet \<Rightarrow> bool server_prog" where
  "call_send username pkt =
    bnd (router_get username) (\<lambda>w. case w of
      None \<Rightarrow> ret False
    | Some w \<Rightarrow> attempt (thn (ws_send w (json_dumps (JObj pkt))) (ret True)) (\<lambda>_. ret False))"

definition signal_fields :: "string \<Rightarrow> string \<Rightarrow> int \<Rightarrow> string \<Rightarrow> packet" where
  "signal_fields ty i ts session_id =
    [(''version'', JStr ''1.0''), (''type'', JStr ty), (''id'', JStr i), (''timestamp'', JInt ts),
     (''session_id'', JStr session_id)]"

definition call_invite :: "string \<Rightarrow> string \<Rightarrow> string \<Rightarrow> call_info \<Rightarrow> bool server_prog" where
  "call_invite session_id caller callee info =
    bnd (router_get callee) (\<lambda>w. case w of
      None \<Rightarrow> ret False
    | Some _ \<Rightarrow>
        bnd now (\<lambda>ts.
        thn (modify (\<lambda>s. s\<lparr>calls := put_session session_id \<lparr>cs_id = session_id, cs_caller = caller,
           cs_callee = callee, cs_status = ''pending'', cs_caller_info = info, cs_callee_info = None,
           cs_created_at = ts\<rparr> (calls s)\<rparr>))
        (thn (dbx (create_call session_id caller callee ts))
        (bnd new_id (\<lambda>i.
        thn (call_send callee (signal_fields ''CALL_INVITE'' i ts session_id @
          [(''from'', JStr caller), (''caller'', JStr caller), (''to'', JStr callee),
           (''caller_ip'', JStr (ci_ip info)), (''local_port'', ci_udp_port info),
           (''caller_udp_port'', ci_udp_port info), (''ephemeral_pubkey'', ci_pubkey info),
           (''caller_pubkey'', ci_pubkey info)]))
        (ret True))))))"

definition call_accept :: "string \<Rightarrow> call_info \<Rightarrow> bool server_prog" where
  "call_accept session_id info =
    bnd (gets (\<lambda>s. get_session_mem (calls s) session_id)) (\<lambda>c. case c of
      None \<Rightarrow> ret False
    | Some c \<Rightarrow>
        if cs_status c \<noteq> ''pending'' then ret False
        else
          thn (modify (\<lambda>s. s\<lparr>calls := put_session session_id
            (c\<lparr>cs_status := ''active'', cs_callee_info := Some info\<rparr>) (calls s)\<rparr>))
          (thn (dbm (update_call_status session_id ''active''))
          (bnd now (\<lambda>ts.
          (bnd new_id (\<lambda>i.
          thn (call_send (cs_caller c) (signal_fields ''CALL_ACCEPT'' i ts session_id @
            [(''from'', JStr (cs_callee c)), (''to'', JStr (cs_caller c)),
             (''callee_ip'', JStr (ci_ip info)), (''local_port'', ci_udp_port info),
             (''callee_udp_port'', ci_udp_port info), (''ephemeral_pubkey'', ci_pubkey info),
             (''callee_pubkey'', ci_pubkey info)]))
          (ret True)))))))"

definition pop_call :: "string \<Rightarrow> call option server_prog" where
  "pop_call session_id = bnd (gets (\<lambda>s. get_session_mem (calls s) session_id)) (\<lambda>c.
     thn (modify (\<lambda>s. s\<lparr>calls := pop_session session_id (calls s)\<rparr>)) (ret c))"

definition call_decline :: "string \<Rightarrow> unit server_prog" where
  "call_decline session_id =
    bnd (pop_call session_id) (\<lambda>c. case c of
      None \<Rightarrow> ret ()
    | Some c \<Rightarrow>
        bnd now (\<lambda>t.
        thn (dbm (db_end_call session_id t False))
        (bnd now (\<lambda>ts.
        bnd new_id (\<lambda>i.
        thn (call_send (cs_caller c) (signal_fields ''CALL_DECLINE'' i ts session_id)) (ret ()))))))"

definition call_end :: "string \<Rightarrow> string \<Rightarrow> unit server_prog" where
  "call_end session_id from_user =
    bnd (pop_call session_id) (\<lambda>c. case c of
      None \<Rightarrow> ret ()
    | Some c \<Rightarrow>
        bnd now (\<lambda>t.
        thn (dbm (db_end_call session_id t False))
        (bnd now (\<lambda>ts.
        bnd new_id (\<lambda>i.
        thn (call_send (other_party c from_user) (signal_fields ''CALL_END'' i ts session_id))
        (ret ()))))))"

definition relay_audio :: "string \<Rightarrow> string \<Rightarrow> json \<Rightarrow> unit server_prog" where
  "relay_audio session_id from_user data =
    bnd (gets (\<lambda>s. get_session_mem (calls s) session_id)) (\<lambda>c. case c of
      None \<Rightarrow> ret ()
    | Some c \<Rightarrow>
        bnd now (\<lambda>ts.
        bnd new_id (\<lambda>i.
        thn (call_send (other_party c from_user) (signal_fields ''CALL_RELAY'' i ts session_id @
          [(''from'', JStr from_user), (''data'', data)]))
        (ret ()))))"

section \<open>What the operations do\<close>

lemma call_send_app [prog_simps]:
  "call_send u pkt s = (case lookup (connections s) u of
     None \<Rightarrow> (Inr False, s)
   | Some w \<Rightarrow> (if w \<in> broken s then (Inr False, s)
       else (Inr True, s\<lparr>outbox := outbox s @ [(w, json_dumps (JObj pkt))]\<rparr>)))"
  by (auto simp: call_send_def prog_simps split: option.split)

lemma pop_call_app [prog_simps]:
  "pop_call i s = (Inr (get_session_mem (calls s) i), s\<lparr>calls := pop_session i (calls s)\<rparr>)"
  by (simp add: pop_call_def prog_simps)

section \<open>The life cycle of a session\<close>

datatype phase = Absent | Ringing string string | Active string string

definition phase_of :: "server \<Rightarrow> string \<Rightarrow> phase" where
  "phase_of s i = (case get_session_mem (calls s) i of
     None \<Rightarrow> Absent
   | Some c \<Rightarrow> (if cs_status c = ''pending'' then Ringing (cs_caller c) (cs_callee c)
                else Active (cs_caller c) (cs_callee c)))"

fun answer :: "phase \<Rightarrow> phase" where
  "answer (Ringing a b) = Active a b"
| "answer p = p"

lemma phase_of_calls: "calls s = calls t \<Longrightarrow> phase_of s = phase_of t"
  by (simp add: phase_of_def fun_eq_iff)

lemma calls_upd [simp]:
  "phase_of (s\<lparr>db := d\<rparr>) = phase_of s" "phase_of (s\<lparr>epos := e\<rparr>) = phase_of s"
  "phase_of (s\<lparr>outbox := x\<rparr>) = phase_of s"
  by (simp_all add: phase_of_def fun_eq_iff)

lemma phase_of_put:
  "phase_of (s\<lparr>calls := put_session i c (calls s)\<rparr>) = (phase_of s)
     (i := if cs_status c = ''pending'' then Ringing (cs_caller c) (cs_callee c)
           else Active (cs_caller c) (cs_callee c))"
  by (auto simp: phase_of_def sess.get_put fun_eq_iff)

lemma phase_of_pop: "phase_of (s\<lparr>calls := pop_session i (calls s)\<rparr>) = (phase_of s)(i := Absent)"
  by (auto simp: phase_of_def sess.get_del fun_eq_iff)

text \<open>Every session in memory is filed under its own id and has a row in the database.\<close>

definition calls_ok :: "server \<Rightarrow> bool" where
  "calls_ok s \<longleftrightarrow> (\<forall>i c. get_session_mem (calls s) i = Some c \<longrightarrow>
     cs_id c = i \<and> (cs_status c = ''pending'' \<and> cs_callee_info c = None \<or>
                    cs_status c = ''active'' \<and> cs_callee_info c \<noteq> None) \<and>
     get_call i (db s) \<noteq> None)"

definition keeps_calls :: "server \<Rightarrow> server \<Rightarrow> bool" where
  "keeps_calls s t \<longleftrightarrow> (calls_ok s \<longrightarrow> calls_ok t)"

lemma get_call_create:
  "create_call i a b t d = Inr d' \<Longrightarrow> get_call j d' \<noteq> None \<longleftrightarrow> j = i \<or> get_call j d \<noteq> None"
  by (auto simp: create_call_def get_call_def find_None_image split: if_splits)

lemma get_call_exists: "create_call i a b t d = Inl e \<Longrightarrow> get_call i d \<noteq> None"
  by (auto simp: create_call_def get_call_def find_None_image split: if_splits)

lemma get_call_update:
  "get_call j (update_call_status i st d) \<noteq> None \<longleftrightarrow> get_call j d \<noteq> None"
  "get_call j (db_end_call i t r d) \<noteq> None \<longleftrightarrow> get_call j d \<noteq> None"
proof -
  have img: "(\<forall>x. g (h x) = g x) \<Longrightarrow> g ` set (map (\<lambda>x. if P x then h x else x) xs) = g ` set xs" for g h P xs
    by (induction xs) auto
  show "get_call j (update_call_status i st d) \<noteq> None \<longleftrightarrow> get_call j d \<noteq> None"
    "get_call j (db_end_call i t r d) \<noteq> None \<longleftrightarrow> get_call j d \<noteq> None"
    by (simp_all add: get_call_def find_None_image update_call_status_def db_end_call_def img
        del: set_map list.set_map not_None_eq)
qed

interpretation callsq: effect_order keeps_calls
  by unfold_locales (auto simp: keeps_calls_def)

named_theorems calls_intro \<comment> \<open>programs that keep the call table well formed\<close>

lemmas calls_rules [calls_intro] = callsq.steps_rules

lemma steps_calls_frame:
  "(\<And>s. calls (snd (m s)) = calls s \<and> call_sessions (db (snd (m s))) = call_sessions (db s)) \<Longrightarrow>
     steps keeps_calls m"
  by (simp add: steps_def keeps_calls_def calls_ok_def get_call_def)

lemma calls_frame [calls_intro]:
  "steps keeps_calls (call_send u p)"
  "steps keeps_calls now" "steps keeps_calls new_id"
  by (rule steps_calls_frame, simp add: call_send_app split: option.split)+

lemma calls_ok_upd [simp]:
  "calls_ok (s\<lparr>epos := e\<rparr>) = calls_ok s" "calls_ok (s\<lparr>outbox := x\<rparr>) = calls_ok s"
  by (simp_all add: calls_ok_def)

lemma calls_ok_pop: "calls_ok s \<Longrightarrow> calls_ok (s\<lparr>calls := pop_session i (calls s)\<rparr>)"
  by (auto simp: calls_ok_def sess.get_del split: if_splits)

lemma calls_ok_end: "calls_ok s \<Longrightarrow> calls_ok (s\<lparr>db := db_end_call i t r (db s)\<rparr>)"
  by (simp add: calls_ok_def get_call_update del: not_None_eq)

lemma calls_ok_status: "calls_ok s \<Longrightarrow> calls_ok (s\<lparr>db := update_call_status i st (db s)\<rparr>)"
  by (simp add: calls_ok_def get_call_update del: not_None_eq)

lemma calls_ok_put:
  assumes "calls_ok s" "cs_id c = i" "get_call i (db s) \<noteq> None"
    and "cs_status c = ''pending'' \<and> cs_callee_info c = None \<or> cs_status c = ''active'' \<and> cs_callee_info c \<noteq> None"
  shows "calls_ok (s\<lparr>calls := put_session i c (calls s)\<rparr>)"
  using assms by (simp add: calls_ok_def sess.get_put del: not_None_eq)

lemma calls_ok_pop_end [calls_intro]:
  "steps keeps_calls (pop_call i)" "steps keeps_calls (dbm (db_end_call i t r))"
  "steps keeps_calls (dbm (update_call_status i st))"
  by (simp_all add: steps_def keeps_calls_def pop_call_app calls_ok_pop calls_ok_end calls_ok_status)

lemma call_decline_calls [calls_intro]: "steps keeps_calls (call_decline i)"
  unfolding call_decline_def by (intro calls_intro)
lemma call_end_calls [calls_intro]: "steps keeps_calls (call_end i u)"
  unfolding call_end_def by (intro calls_intro)
lemma relay_audio_calls [calls_intro]: "steps keeps_calls (relay_audio i u d)"
  unfolding relay_audio_def by (intro calls_intro)

lemma call_accept_calls [calls_intro]: "steps keeps_calls (call_accept i n)"
proof (rule stepsI)
  fix s :: server
  show "keeps_calls s (snd (call_accept i n s))"
  proof (cases "get_session_mem (calls s) i")
    case None
    then show ?thesis by (simp add: call_accept_def prog_simps keeps_calls_def)
  next
    case (Some c)
    let ?c = "c\<lparr>cs_status := ''active'', cs_callee_info := Some n\<rparr>"
    have "calls_ok s \<Longrightarrow> calls_ok (s\<lparr>calls := put_session i ?c (calls s)\<rparr>)"
      using Some by (intro calls_ok_put) (auto simp: calls_ok_def)
    then have "calls_ok s \<Longrightarrow> calls_ok (s\<lparr>calls := put_session i ?c (calls s),
        db := update_call_status i ''active'' (db s)\<rparr>)"
      using calls_ok_status [of "s\<lparr>calls := put_session i ?c (calls s)\<rparr>"] by simp
    then show ?thesis
      using Some by (simp add: call_accept_def prog_simps keeps_calls_def split: option.split)
  qed
qed

lemma call_invite_calls [calls_intro]: "steps keeps_calls (call_invite i a b n)"
proof (rule stepsI)
  fix s :: server
  let ?c = "\<lparr>cs_id = i, cs_caller = a, cs_callee = b, cs_status = ''pending'', cs_caller_info = n,
    cs_callee_info = None, cs_created_at = clock s\<rparr>"
  have old: "calls_ok (s\<lparr>calls := put_session i ?c (calls s)\<rparr>)"
    if "calls_ok s" "create_call i a b (clock s) (db s) = Inl e" for e
    using that get_call_exists [OF that(2)] by (intro calls_ok_put) auto
  have new: "calls_ok (s\<lparr>calls := put_session i ?c (calls s), db := d\<rparr>)"
    if "calls_ok s" "create_call i a b (clock s) (db s) = Inr d" for d
  proof -
    have "calls_ok (s\<lparr>db := d\<rparr>)" "get_call i d \<noteq> None"
      using that(1) get_call_create [OF that(2)] by (auto simp: calls_ok_def)
    then have "calls_ok (s\<lparr>db := d, calls := put_session i ?c (calls (s\<lparr>db := d\<rparr>))\<rparr>)"
      by (intro calls_ok_put) simp_all
    moreover have "s\<lparr>db := d, calls := put_session i ?c (calls (s\<lparr>db := d\<rparr>))\<rparr> =
        s\<lparr>calls := put_session i ?c (calls s), db := d\<rparr>" by simp
    ultimately show ?thesis by (simp only:)
  qed
  show "keeps_calls s (snd (call_invite i a b n s))"
    using old new by (auto simp: call_invite_def prog_simps keeps_calls_def split: option.split sum.split)
qed

section \<open>Properties\<close>


text \<open> Relayed audio and hang-ups of a party go to the other party only: at most one packet is sent, on
  the socket registered for the callee if the caller sends it and for the caller if the callee does. \<close>

theorem relay_to_other_party:
  assumes "get_session_mem (calls s) i = Some c" "cs_caller c \<noteq> cs_callee c"
    and "u = cs_caller c \<and> v = cs_callee c \<or> u = cs_callee c \<and> v = cs_caller c"
    and "p = relay_audio i u d \<or> p = call_end i u"
  shows "\<exists>pkts. outbox (snd (p s)) = outbox s @ pkts \<and> length pkts \<le> 1 \<and>
    (\<forall>(w, pkt) \<in> set pkts. lookup (connections s) v = Some w) \<and>
    (lookup (connections s) v = Some w \<and> w \<notin> broken s \<longrightarrow> length pkts = 1)"
proof -
  have "other_party c u = v" using assms(2,3) by (auto simp: other_party_def)
  then show ?thesis using assms(1,4)
    by (auto simp: relay_audio_def call_end_def prog_simps split: option.splits)
qed

definition call_example :: server where
  "call_example = (boot (\<lambda>_. 0) 10 0)\<lparr>connections := [(''alice'', 1), (''bob'', 2), (''eve'', 3)],
     calls := [(''c'', \<lparr>cs_id = ''c'', cs_caller = ''alice'', cs_callee = ''bob'', cs_status = ''pending'',
       cs_caller_info = \<lparr>ci_ip = ''h'', ci_udp_port = JInt 1, ci_pubkey = JNull\<rparr>, cs_callee_info = None,
       cs_created_at = 9\<rparr>)],
     db := empty_db\<lparr>call_sessions := [\<lparr>k_id = ''c'', k_caller = ''alice'', k_callee = ''bob'',
       k_started_at = Some 9, k_ended_at = None, k_relay_used = 0, k_status = ''pending''\<rparr>]\<rparr>\<rparr>"

lemma relay_to_other_party_witness:
  "map fst (outbox (snd (relay_audio ''c'' ''bob'' (JStr ''AAAA'') call_example))) = [1]"
proof -
  have "\<exists>pkts. outbox (snd (relay_audio ''c'' ''bob'' (JStr ''AAAA'') call_example)) = outbox call_example @ pkts \<and>
      length pkts \<le> 1 \<and> (\<forall>(w, pkt) \<in> set pkts. lookup (connections call_example) ''alice'' = Some w) \<and>
      (lookup (connections call_example) ''alice'' = Some 1 \<and> 1 \<notin> broken call_example \<longrightarrow> length pkts = 1)"
    by (rule relay_to_other_party [of call_example "''c''" "snd (hd (calls call_example))" "''bob''" _ _ "JStr ''AAAA''"])
      (simp_all add: call_example_def get_session_mem_def)
  then show ?thesis
    by (auto simp: call_example_def boot_def lookup_def length_Suc_conv le_Suc_eq)
qed

text \<open> A session id in use can be taken over. If any user invites an online user with the id of a session
  that exists in memory, the insert raises, but the session in memory already belongs to the new parties:
  it rings between them, and an active call is lost. \<close>

theorem invite_hijacks_session:
  assumes "calls_ok s" "phase_of s i \<noteq> Absent" "lookup (connections s) b \<noteq> None"
  shows "fst (call_invite i eve b n s) = Inl IntegrityError \<and>
    phase_of (snd (call_invite i eve b n s)) i = Ringing eve b \<and>
    db (snd (call_invite i eve b n s)) = db s"
proof -
  have "get_call i (db s) \<noteq> None"
    using assms(1,2) by (auto simp: phase_of_def calls_ok_def split: option.splits)
  then have "create_call i eve b (clock s) (db s) = Inl IntegrityError"
    by (auto simp: create_call_def get_call_def find_None_image)
  then show ?thesis using assms(3)
    by (auto simp: call_invite_def prog_simps phase_of_put split: option.split)
qed

lemma invite_hijacks_session_witness:
  "phase_of call_example ''c'' = Ringing ''alice'' ''bob'' \<and>
   phase_of (snd (call_invite ''c'' ''eve'' ''bob'' \<lparr>ci_ip = ''x'', ci_udp_port = JNull, ci_pubkey = JNull\<rparr>
     call_example)) ''c'' = Ringing ''eve'' ''bob''"
proof -
  have ok: "calls_ok call_example" and p: "phase_of call_example ''c'' = Ringing ''alice'' ''bob''"
    by (simp_all add: calls_ok_def phase_of_def call_example_def get_session_mem_def get_call_def empty_db_def)
  then show ?thesis
    using invite_hijacks_session [OF ok, of "''c''" "''bob''" "''eve''"]
    by (simp add: call_example_def lookup_def)
qed

end
