(* ===== verification/Server_Effects.thy ===== *)
theory Server_Effects
  imports Auth Rooms Server_Files Call_Manager
begin

text \<open>
  The operations of the server's modules are made of allowed effects, and four instances: the declared
  keys of the database are kept, the call table stays well formed, accounts persist unchanged, and
  what was sent stays sent. What the handling of packets does (\<open>packet_effect\<close>) leaves the stored chunks alone;
  transfers and the expiry of files (\<open>server_effect\<close>) write and delete them.
\<close>

text \<open>The statements of packet handlers do not touch the rows of chunks.\<close>

lemma chunks_kept:
  "create_user i n h t k d = Inr d' \<Longrightarrow> chunks d' = chunks d"
  "create_session tok i n c e d = Inr d' \<Longrightarrow> chunks d' = chunks d"
  "insert_room r d = Inr d' \<Longrightarrow> chunks d' = chunks d"
  "chunks (update_last_seen u t d) = chunks d" "chunks (delete_session tok d) = chunks d"
  "chunks (db_enqueue i u p t d) = chunks d" "chunks (clear_queue u d) = chunks d" "chunks (insert_member m d) = chunks d"
  "chunks (delete_member rid u d) = chunks d" "chunks (create_file f d) = chunks d"
  by (auto simp: create_user_def create_session_def insert_room_def update_last_seen_def delete_session_def db_enqueue_def
      clear_queue_def insert_member_def delete_member_def create_file_def split: if_splits)

locale packet_effect = effect_order R for R :: "server \<Rightarrow> server \<Rightarrow> bool" +
  assumes eff_entropy: "R s (s\<lparr>epos := e\<rparr>)"
    and eff_send: "R s (s\<lparr>outbox := outbox s @ [(w, m)]\<rparr>)"
    and eff_connections: "R s (s\<lparr>connections := c\<rparr>)"
    and eff_rates: "R s (s\<lparr>rates := l\<rparr>)"
    and eff_dirs: "R s (s\<lparr>fs_dirs := ds\<rparr>)"
    and eff_db: "db_step (db s) d \<Longrightarrow> chunks d = chunks (db s) \<Longrightarrow> R s (s\<lparr>db := d\<rparr>)"
    and eff_call_invite: "steps R (call_invite i a b n)"
    and eff_call_accept: "steps R (call_accept i n)"
    and eff_call_decline: "steps R (call_decline i)"
    and eff_call_end: "steps R (call_end i u)"
    and eff_relay_audio: "steps R (relay_audio i u data)"
begin

lemmas [eff_intro] = steps_rules eff_call_invite eff_call_accept eff_call_decline eff_call_end
  eff_relay_audio eff_connections eff_rates eff_dirs

lemma eff_now [eff_intro]: "steps R now" and eff_new_id [eff_intro]: "steps R new_id"
  and eff_make_packet [eff_intro]: "steps R (make_packet ty kw)"
  and eff_urandom [eff_intro]: "steps R (urandom n)"
  by (simp_all add: steps_def R_refl eff_entropy urandom_def)

lemma eff_ws_send [eff_intro]: "steps R (ws_send w m)"
  by (simp add: steps_def ws_send_def R_refl eff_send)

lemma eff_send_packet [eff_intro]: "steps R (send_packet w ty kw)"
  unfolding send_packet_def by (intro eff_intro)

lemma eff_router [eff_intro]: "steps R (router_get u)" "steps R (router_register u w)"
  "steps R (router_unregister u)"
  by (simp_all add: steps_def R_refl eff_connections)

lemma eff_dbq [eff_intro]: "steps R (dbq q)"
  by (simp add: steps_def R_refl)

lemma eff_dbm: "(\<And>d. db_step d (f d)) \<Longrightarrow> (\<And>d. chunks (f d) = chunks d) \<Longrightarrow> steps R (dbm f)"
  by (simp add: steps_def eff_db)

lemma eff_dbx: "(\<And>d d'. f d = Inr d' \<Longrightarrow> db_step d d') \<Longrightarrow> (\<And>d d'. f d = Inr d' \<Longrightarrow> chunks d' = chunks d) \<Longrightarrow> steps R (dbx f)"
  by (simp add: steps_def dbx_def R_refl eff_db split: sum.split)

lemmas [eff_intro] = eff_dbx [OF step_create_user chunks_kept(1)] eff_dbx [OF step_create_session chunks_kept(2)]
  eff_dbx [OF step_insert_room chunks_kept(3)] eff_dbm [OF step_update_last_seen chunks_kept(4)]
  eff_dbm [OF step_delete_session chunks_kept(5)] eff_dbm [OF step_enqueue chunks_kept(6)]
  eff_dbm [OF step_clear_queue chunks_kept(7)] eff_dbm [OF step_insert_member chunks_kept(8)]
  eff_dbm [OF step_delete_member chunks_kept(9)] eff_dbm [OF step_create_file chunks_kept(10)]

lemma eff_hash_password [eff_intro]: "steps R (hash_password p)"
  unfolding hash_password_def by (intro eff_intro)
lemma eff_auth_register [eff_intro]: "steps R (auth_register u p k)"
  unfolding auth_register_def by (intro eff_intro)
lemma eff_auth_login [eff_intro]: "steps R (auth_login checkpw u p)"
  unfolding auth_login_def by (intro eff_intro)
lemma eff_validate_token [eff_intro]: "steps R (validate_token t)"
  unfolding validate_token_def by (intro eff_intro)

lemma eff_offline_enqueue [eff_intro]: "steps R (offline_enqueue i u p)"
  unfolding offline_enqueue_def by (intro eff_intro)
lemma eff_offline_flush [eff_intro]: "steps R (offline_flush u since)"
  unfolding offline_flush_def by (intro eff_intro)
lemma eff_offline_clear [eff_intro]: "steps R (offline_clear u)"
  unfolding offline_clear_def by (intro eff_intro)
lemma eff_flush_offline [eff_intro]: "steps R (flush_offline w u)"
  unfolding flush_offline_def by (intro eff_intro)

lemma eff_create_room [eff_intro]: "steps R (create_room n u)"
  unfolding create_room_def by (intro eff_intro)
lemma eff_join_room [eff_intro]: "steps R (join_room r u)"
  unfolding join_room_def room_exists_def by (intro eff_intro)
lemma eff_leave_room [eff_intro]: "steps R (leave_room r u)"
  unfolding leave_room_def by (intro eff_intro)
lemma eff_get_members [eff_intro]: "steps R (get_members r)"
  unfolding get_members_def by (intro eff_intro)
lemma eff_get_user_rooms [eff_intro]: "steps R (get_user_rooms u)"
  unfolding get_user_rooms_def by (intro eff_intro)
lemma eff_route_room_message [eff_intro]: "steps R (route_room_message r p u)"
  unfolding route_room_message_def route_to_member_def queue_for_member_def by (intro eff_intro)

lemma eff_makedirs [eff_intro]: "steps R (makedirs p)"
  by (simp add: steps_def makedirs_def R_refl eff_dirs)
lemma eff_register_file [eff_intro]: "steps R (register_file base m)"
  unfolding register_file_def by (intro eff_intro)
lemma eff_get_chunk [eff_intro]: "steps R (get_chunk base f i)"
  by (auto simp: steps_def get_chunk_def Let_def R_refl split: option.split)
lemma eff_is_complete [eff_intro]: "steps R (is_complete f)"
  unfolding is_complete_def by (intro eff_intro)

end

locale server_effect = packet_effect R for R :: "server \<Rightarrow> server \<Rightarrow> bool" +
  assumes eff_files: "R s (s\<lparr>fs_files := f\<rparr>)"
    and eff_chunks: "db_step (db s) d \<Longrightarrow> R s (s\<lparr>db := d\<rparr>)"
begin

lemmas [eff_intro] = eff_files

lemma eff_chunk_statements [eff_intro]: "steps R (dbm (add_chunk i f n c))" "steps R (dbm (delete_file f))"
  by (simp_all add: steps_def eff_chunks step_add_chunk step_delete_file)

lemma eff_write_file [eff_intro]: "steps R (write_file p d)"
  by (simp add: steps_def write_file_def R_refl eff_files)
lemma eff_rmtree [eff_intro]: "steps R (rmtree p)"
proof (rule stepsI)
  fix s :: server
  have "R s (s\<lparr>fs_files := f\<rparr>)" "R (s\<lparr>fs_files := f\<rparr>) (s\<lparr>fs_files := f, fs_dirs := ds\<rparr>)" for f ds
    by (rule eff_files, rule eff_dirs)
  then show "R s (snd (rmtree p s))" unfolding rmtree_def by (auto intro: R_trans)
qed
lemma eff_store_chunk [eff_intro]: "steps R (store_chunk base f i d c)"
  unfolding store_chunk_def by (intro eff_intro)
lemma eff_delete_file_data [eff_intro]: "steps R (delete_file_data base f)"
  unfolding delete_file_data_def Let_def by (intro eff_intro)
lemma eff_cleanup_expired [eff_intro]: "steps R (cleanup_expired base)"
  unfolding cleanup_expired_def by (intro eff_intro)

end

section \<open>Instances\<close>

text \<open>Accounts persist: a user keeps id, password hash and public key.\<close>

definition keeps_keys :: "server \<Rightarrow> server \<Rightarrow> bool" where
  "keeps_keys s t \<longleftrightarrow> (db_ok (db s) \<longrightarrow> db_ok (db t))"

definition keeps_accounts :: "server \<Rightarrow> server \<Rightarrow> bool" where
  "keeps_accounts s t \<longleftrightarrow> (\<forall>u r. get_by_username u (db s) = Some r \<longrightarrow>
     (\<exists>r'. get_by_username u (db t) = Some r' \<and> u_id r' = u_id r \<and> u_password r' = u_password r \<and>
        u_public_key r' = u_public_key r))"

definition out_grows :: "server \<Rightarrow> server \<Rightarrow> bool" where
  "out_grows s t \<longleftrightarrow> prefix (outbox s) (outbox t) \<and> clock t = clock s \<and> broken t = broken s"

lemma accounts_step:
  assumes "db_step d d'" "get_by_username u d = Some r"
  shows "\<exists>r'. get_by_username u d' = Some r' \<and> u_id r' = u_id r \<and> u_password r' = u_password r \<and>
    u_public_key r' = u_public_key r"
  using assms(1)
proof cases
  case (step_create_user i n h t k)
  then have "get_by_username n d = None"
    by (auto simp: create_user_def get_by_username_def find_None_image split: if_splits)
  then have "u \<noteq> n" using assms(2) by auto
  then show ?thesis using assms(2) get_by_username_create [OF step_create_user, of u] by simp
next
  case (step_update_last_seen n t)
  then show ?thesis using assms(2) by (simp add: get_by_username_last_seen)
qed (use assms(2) in \<open>auto simp: get_by_username_def create_session_def insert_room_def
      delete_session_def db_enqueue_def clear_queue_def insert_member_def
      delete_member_def create_file_def add_chunk_def delete_file_def split: if_splits\<close>)

lemma call_ops_frame:
  "users (db (snd (call_invite i a b n s))) = users (db s)"
  "users (db (snd (call_accept i n s))) = users (db s)"
  "users (db (snd (call_decline i s))) = users (db s)"
  "users (db (snd (call_end i u s))) = users (db s)"
  "users (db (snd (relay_audio i u d s))) = users (db s)"
  by (simp_all add: call_invite_def call_accept_def call_decline_def call_end_def relay_audio_def
      prog_simps create_call_def update_call_status_def db_end_call_def split: option.split)

lemma call_ops_keys:
  "keeps_keys s (snd (call_invite i a b n s))" "keeps_keys s (snd (call_accept i n s))"
  "keeps_keys s (snd (call_decline i s))" "keeps_keys s (snd (call_end i u s))"
  "keeps_keys s (snd (relay_audio i u d s))"
  by (auto simp: call_invite_def call_accept_def call_decline_def call_end_def relay_audio_def
      prog_simps keeps_keys_def intro: db_keeps split: option.split sum.split)

lemma call_ops_out:
  "out_grows s (snd (call_invite i a b n s))" "out_grows s (snd (call_accept i n s))"
  "out_grows s (snd (call_decline i s))" "out_grows s (snd (call_end i u s))"
  "out_grows s (snd (relay_audio i u d s))"
  by (auto simp: call_invite_def call_accept_def call_decline_def call_end_def relay_audio_def
      prog_simps out_grows_def split: option.split sum.split)

interpretation keys: server_effect keeps_keys
  by unfold_locales (auto simp: keeps_keys_def steps_def intro: db_ok_step
      dest: call_ops_keys [unfolded keeps_keys_def, rule_format])

interpretation callseff: server_effect keeps_calls
  by unfold_locales (auto simp: keeps_calls_def calls_ok_def get_call_def call_sessions_step
      intro: calls_intro)

lemma keeps_accounts_same: "users (db t) = users (db s) \<Longrightarrow> keeps_accounts s t"
  by (simp add: keeps_accounts_def get_by_username_def)

lemma keeps_accounts_trans: "keeps_accounts s t \<Longrightarrow> keeps_accounts t u \<Longrightarrow> keeps_accounts s u"
  unfolding keeps_accounts_def by metis

interpretation accts: server_effect keeps_accounts
proof unfold_locales
  show db: "db_step (db s) d \<Longrightarrow> keeps_accounts s (s\<lparr>db := d\<rparr>)" for s d
    by (auto simp: keeps_accounts_def dest: accounts_step)
  then show "db_step (db s) d \<Longrightarrow> keeps_accounts s (s\<lparr>db := d\<rparr>)" for s d .
  show "keeps_accounts s t \<Longrightarrow> keeps_accounts t u \<Longrightarrow> keeps_accounts s u" for s t u
    by (rule keeps_accounts_trans)
qed (auto simp: steps_def call_ops_frame intro: keeps_accounts_same)

interpretation outs: server_effect out_grows
  by unfold_locales ((simp add: steps_def call_ops_out; fail) | auto simp: out_grows_def)+

end
