(* ===== verification/Tcp_Server.thy ===== *)
theory Tcp_Server
  imports Server_Effects
begin

text \<open>
  The file transfer server (\<^verbatim>\<open>server/tcp_server.py\<close>): chunk frames, uploads and downloads. A connection is
  the bytes the client sends (until it closes) and the bytes written to it. The locale \<open>framing\<close> is the
  contract of a self-delimiting wire format; the chunk frame of the protocol is one.
\<close>

section \<open>Self-delimiting frames\<close>

locale framing =
  fixes enc :: "'a \<Rightarrow> bytes" and dec :: "bytes \<Rightarrow> ('a \<times> bytes) option" and good :: "'a \<Rightarrow> bool"
  assumes dec_enc: "good x \<Longrightarrow> dec (enc x @ r) = Some (x, r)"
    and dec_Nil: "dec [] = None"
begin

lemma enc_cancel: "good x \<Longrightarrow> good y \<Longrightarrow> enc x @ r = enc y @ s \<Longrightarrow> x = y \<and> r = s"
proof -
  assume g: "good x" "good y" and e: "enc x @ r = enc y @ s"
  from e have "dec (enc x @ r) = dec (enc y @ s)" by (rule arg_cong)
  then show "x = y \<and> r = s" unfolding dec_enc [OF g(1)] dec_enc [OF g(2)] by blast
qed

lemma enc_not_Nil: "good x \<Longrightarrow> enc x \<noteq> []"
  using dec_enc [of x "[]"] dec_Nil by auto

lemma unique_decoding:
  "\<lbrakk>\<forall>x \<in> set xs. good x; \<forall>y \<in> set ys. good y; concat (map enc xs) = concat (map enc ys)\<rbrakk> \<Longrightarrow> xs = ys"
proof (induction xs arbitrary: ys)
  case Nil
  then show ?case by (cases ys) (auto dest: enc_not_Nil)
next
  case (Cons x xs)
  then obtain y ys' where ys: "ys = y # ys'" using enc_not_Nil [of x] by (cases ys) auto
  then have "x = y \<and> concat (map enc xs) = concat (map enc ys')"
    by (intro enc_cancel) (use Cons.prems in \<open>simp_all\<close>)
  moreover have "xs = ys'"
    by (rule Cons.IH) (use Cons.prems ys calculation in \<open>simp_all\<close>)
  ultimately show ?case using ys by simp
qed

end

section \<open>Chunk frames\<close>

definition CHUNK_HEADER_SIZE :: nat where "CHUNK_HEADER_SIZE = 72"
definition CHECKSUM_LEN :: nat where "CHECKSUM_LEN = 64"

text \<open>A frame: chunk index, checksum text, data.\<close>

type_synonym frame = "nat \<times> string \<times> bytes"

datatype frame_read = Short | Bad exn bytes | Frame nat string bytes bytes

definition read_frame :: "bytes \<Rightarrow> frame_read" where
  "read_frame inp =
    (if length inp < CHUNK_HEADER_SIZE then Short
     else
       let header = take CHUNK_HEADER_SIZE inp; rest = drop CHUNK_HEADER_SIZE inp;
           chunk_index = be_val (take 4 header); data_length = be_val (take 4 (drop 4 header))
       in case ascii_decode (take CHECKSUM_LEN (drop 8 header)) of
            Inl e \<Rightarrow> Bad e rest
          | Inr checksum \<Rightarrow>
              (if length rest < data_length then Short
               else Frame chunk_index (py_strip checksum) (take data_length rest) (drop data_length rest)))"

fun frame_bytes :: "frame \<Rightarrow> bytes" where
  "frame_bytes (i, checksum, data) =
     be_bytes 4 i @ be_bytes 4 (length data) @ map (\<lambda>c. byte_of (of_char c)) checksum @ data"

definition dec_frame :: "bytes \<Rightarrow> (frame \<times> bytes) option" where
  "dec_frame inp = (case read_frame inp of Frame i ck d rest \<Rightarrow> Some ((i, ck, d), rest) | _ \<Rightarrow> None)"

text \<open>A frame the protocol can carry: 32-bit numbers and 64 printable ASCII characters.\<close>

fun good_frame :: "frame \<Rightarrow> bool" where
  "good_frame (i, checksum, data) \<longleftrightarrow> i < 2 ^ 32 \<and> length data < 2 ^ 32 \<and> length checksum = 64 \<and>
     (\<forall>c \<in> set checksum. (of_char c :: nat) < 128 \<and> \<not> py_space c)"

lemma read_frame_bytes:
  assumes "good_frame (i, ck, d)"
  shows "read_frame (frame_bytes (i, ck, d) @ r) = Frame i ck d r"
proof -
  let ?c = "map (\<lambda>c. byte_of (of_char c)) ck"
  have len: "length ck = 64" and i: "i < 256 ^ 4" "length d < 256 ^ 4"
    and ck: "\<forall>c \<in> set ck. (of_char c :: nat) < 128" "\<forall>c \<in> set ck. \<not> py_space c" using assms by auto
  have "ascii_encode ck = Inr ?c" using ck(1) by (simp add: ascii_encode_def)
  then have dec: "ascii_decode ?c = Inr ck" by (rule ascii_roundtrip)
  have strip: "py_strip ck = ck"
    using ck(2) len by (intro py_strip_id) (cases ck; auto)
  have "take 72 (frame_bytes (i, ck, d) @ r) = be_bytes 4 i @ be_bytes 4 (length d) @ ?c"
    "drop 72 (frame_bytes (i, ck, d) @ r) = d @ r" using len by simp_all
  then show ?thesis
    using len dec strip by (simp add: read_frame_def CHUNK_HEADER_SIZE_def CHECKSUM_LEN_def Let_def
        be_val_bytes_id [OF i(1)] be_val_bytes_id [OF i(2)] del: frame_bytes.simps)
      (simp add: len)
qed

interpretation fr: framing frame_bytes dec_frame good_frame
proof unfold_locales
  show "dec_frame (frame_bytes x @ r) = Some (x, r)" if "good_frame x" for x r
    using that read_frame_bytes by (cases x) (simp add: dec_frame_def del: frame_bytes.simps good_frame.simps)
qed (simp add: dec_frame_def read_frame_def CHUNK_HEADER_SIZE_def)

lemma read_frame_shorter: "read_frame inp = Frame i ck d rest \<Longrightarrow> length rest < length inp"
  by (auto simp: read_frame_def CHUNK_HEADER_SIZE_def Let_def split: if_splits sum.splits)

section \<open>Connections\<close>

type_synonym tcp = "server \<times> bytes \<times> bytes"
type_synonym 'a tcp_prog = "(tcp, 'a) prog"

definition srv :: "'a server_prog \<Rightarrow> 'a tcp_prog" where
  "srv m = (\<lambda>(s, inp, out). case m s of (r, s') \<Rightarrow> (r, (s', inp, out)))"

definition tcp_write :: "bytes \<Rightarrow> unit tcp_prog" where
  "tcp_write bs = (\<lambda>(s, inp, out). (Inr (), (s, inp, out @ bs)))"

text \<open>\<^verbatim>\<open>readline\<close>: up to and including the newline, or everything; a line over 64 KiB raises.\<close>

definition readline :: "bytes tcp_prog" where
  "readline = (\<lambda>(s, inp, out).
     let l = takeWhile (\<lambda>b. b \<noteq> 10) inp; n = length l + 1 in
     if 65536 < length l then (Inl ValueError, (s, inp, out))
     else (Inr (take n inp), (s, drop n inp, out)))"

definition text_bytes :: "string \<Rightarrow> bytes" where
  "text_bytes s = utf8_encode s"

definition newline :: string where "newline = [CHR 0x0A]"

section \<open>Uploads\<close>

text \<open>Fifty lookups; the sleeps between them are no steps of an atomic run.\<close>

primrec poll_file :: "nat \<Rightarrow> string \<Rightarrow> file_row option server_prog" where
  "poll_file 0 fid = ret None"
| "poll_file (Suc n) fid = bnd (dbq (get_file fid)) (\<lambda>f. case f of
     Some f \<Rightarrow> ret (Some f) | None \<Rightarrow> poll_file n fid)"

function recv_chunks :: "string \<Rightarrow> string \<Rightarrow> int \<Rightarrow> tcp \<Rightarrow> (exn + bool) \<times> tcp" where
  "recv_chunks base fid expected (s, inp, out) =
    (if \<not> count_delivered fid (db s) < expected then (Inr True, (s, inp, out))
     else case read_frame inp of
       Short \<Rightarrow> (Inr False, (s, [], out))
     | Bad e rest \<Rightarrow> (Inl e, (s, rest, out))
     | Frame i checksum data rest \<Rightarrow>
         (case store_chunk base fid (int i) data checksum s of
           (Inl e, s') \<Rightarrow> (Inl e, (s', rest, out))
         | (Inr _, s') \<Rightarrow> recv_chunks base fid expected (s', rest, out @ text_bytes (''ACK'' @ newline))))"
  by pat_completeness auto
termination
  by (relation "measure (\<lambda>(base, fid, expected, s, inp, out). length inp)") (auto dest: read_frame_shorter)

declare recv_chunks.simps [simp del]

definition notify_recipient :: "file_row \<Rightarrow> string \<Rightarrow> unit server_prog" where
  "notify_recipient f fid =
    (if f_recipient f = [] then ret ()
     else bnd (make_packet ''FILE_DONE'' [(''file_id'', JStr fid), (''name'', JStr (f_name f)),
            (''size'', JInt (f_size f)), (''uploader'', JStr (f_uploader f)),
            (''encrypted_key'', opt_json (f_encrypted_key f))]) (\<lambda>pkt.
       bnd (router_get (f_recipient f)) (\<lambda>w. case w of
         Some w \<Rightarrow> attempt (ws_send w pkt) (\<lambda>_. ret ())
       | None \<Rightarrow>
           bnd (lift_result (case parse_packet pkt of Inl e \<Rightarrow> Inl e
              | Inr (JObj d) \<Rightarrow> item_str d ''id'' | Inr _ \<Rightarrow> Inl TypeError)) (\<lambda>i.
           offline_enqueue i (f_recipient f) pkt))))"

definition join_commas :: "string list \<Rightarrow> string" where
  "join_commas xs = concat (case xs of [] \<Rightarrow> [] | y # ys \<Rightarrow> y # map (\<lambda>z. '','' @ z) ys)"

definition have_line :: "int list \<Rightarrow> string" where
  "have_line is = ''HAVE '' @ join_commas (map int_str is) @ newline"

definition process_upload :: "string \<Rightarrow> string \<Rightarrow> unit tcp_prog" where
  "process_upload base file_id =
    (if length file_id \<noteq> 36 then ret ()
     else bnd (srv (poll_file 50 file_id)) (\<lambda>meta. case meta of
       None \<Rightarrow> ret ()
     | Some f \<Rightarrow>
         bnd (srv (dbq (get_chunks file_id))) (\<lambda>existing.
         thn (tcp_write (text_bytes (have_line (sort (map c_index existing)))))
         (bnd (recv_chunks base file_id (f_total_chunks f)) (\<lambda>complete.
          if \<not> complete then ret ()
          else thn (tcp_write (text_bytes (''DONE'' @ newline)))
            (srv (notify_recipient f file_id)))))))"

section \<open>Downloads\<close>

definition send_chunk :: "string \<Rightarrow> string \<Rightarrow> chunk_row \<Rightarrow> bool tcp_prog" where
  "send_chunk base file_id c =
    bnd (srv (get_chunk base file_id (c_index c))) (\<lambda>data. case data of
      None \<Rightarrow> ret False
    | Some data \<Rightarrow>
        bnd (lift_result (ascii_encode (c_checksum c))) (\<lambda>checksum.
        if length checksum \<noteq> CHECKSUM_LEN then ret False
        else
          bnd (lift_result (pack_be32 (c_index c))) (\<lambda>i.
          bnd (lift_result (pack_be32 (int (length data)))) (\<lambda>n.
          thn (tcp_write (i @ n))
          (thn (tcp_write checksum)
          (thn (tcp_write data) (ret True)))))))"

primrec send_chunks :: "string \<Rightarrow> string \<Rightarrow> chunk_row list \<Rightarrow> unit tcp_prog" where
  "send_chunks base file_id [] = ret ()"
| "send_chunks base file_id (c # cs) = bnd (send_chunk base file_id c) (\<lambda>ok.
     if ok then send_chunks base file_id cs else ret ())"

definition process_download :: "string \<Rightarrow> string \<Rightarrow> unit tcp_prog" where
  "process_download base file_id =
    (if length file_id \<noteq> 36 then ret ()
     else bnd (srv (dbq (get_file file_id))) (\<lambda>meta. case meta of
       None \<Rightarrow> ret ()
     | Some _ \<Rightarrow> bnd (srv (dbq (get_chunks file_id))) (send_chunks base file_id)))"

definition process_request :: "string \<Rightarrow> unit tcp_prog" where
  "process_request base =
    bnd readline (\<lambda>id_line.
    if id_line = [] then ret ()
    else bnd (lift_result (utf8_decode id_line)) (\<lambda>text.
      let line = py_strip text in
      if starts_with line ''DOWNLOAD ''
      then process_download base (py_strip (remove_prefix line ''DOWNLOAD ''))
      else process_upload base line))"

definition handle_client :: "string \<Rightarrow> bytes \<Rightarrow> server \<Rightarrow> server \<times> bytes" where
  "handle_client base inp s =
    (case attempt (process_request base) (\<lambda>_. ret ()) (s, inp, []) of (_, (s', _, out)) \<Rightarrow> (s', out))"

section \<open>Receiving a sequence of frames\<close>

definition id_at :: "server \<Rightarrow> nat \<Rightarrow> string" where
  "id_at s p = uuid4_str (map (\<lambda>i. entropy s (p + i)) [0..<16])"

text \<open>The next \<open>n\<close> identifiers the process will draw.\<close>

definition ids_for :: "server \<Rightarrow> nat \<Rightarrow> string list" where
  "ids_for s n = map (\<lambda>k. id_at s (epos s + 16 * k)) [0..<n]"

lemma ids_for_Suc:
  "entropy t = entropy s \<Longrightarrow> epos t = epos s + 16 \<Longrightarrow> ids_for s (Suc n) = next_id s # ids_for t n"
  unfolding ids_for_def by (subst upt_conv_Cons) (simp_all add: map_Suc_upt [symmetric] next_id_def id_at_def
      add.assoc add.commute add.left_commute del: map_Suc_upt upt_Suc)

fun frame_row :: "string \<Rightarrow> string \<Rightarrow> frame \<Rightarrow> chunk_row" where
  "frame_row fid cid (i, ck, d) =
     \<lparr>c_id = cid, c_file_id = fid, c_index = int i, c_checksum = ck, c_delivered = 1\<rparr>"

definition chunk_keys :: "database \<Rightarrow> (string \<times> int) set" where
  "chunk_keys d = (\<lambda>c. (c_file_id c, c_index c)) ` set (chunks d)"

text \<open>The disk can take the chunks of a file.\<close>

definition ready :: "string \<Rightarrow> string \<Rightarrow> server \<Rightarrow> bool" where
  "ready base fid s \<longleftrightarrow> CHR 0x00 \<notin> set (file_dir base fid) \<and> fs_files s (file_dir base fid) = None \<and>
     (\<forall>i. chunk_path base fid i \<notin> fs_dirs s)"

lemma chunk_path_not_dir:
  "plain_base base \<Longrightarrow> plain_id fid \<Longrightarrow> chunk_path base fid i \<noteq> file_dir base fid"
  by (simp add: chunk_path_plain file_dir_plain)

lemma store_chunk_ready:
  assumes "plain_base base" "plain_id fid" "ready base fid s"
    and "next_id s \<notin> c_id ` set (chunks (db s))" "(fid, i) \<notin> chunk_keys (db s)"
  shows "\<exists>t. store_chunk base fid i d ck s = (Inr (), t) \<and> ready base fid t \<and>
    entropy t = entropy s \<and> epos t = epos s + 16 \<and> files (db t) = files (db s) \<and>
    chunks (db t) = chunks (db s) @ [\<lparr>c_id = next_id s, c_file_id = fid, c_index = i, c_checksum = ck,
       c_delivered = 1\<rparr>] \<and>
    fs_files t = (fs_files s)(chunk_path base fid i \<mapsto> d)"
  using assms chunk_path_not_dir [OF assms(1,2)]
  by (simp add: store_chunk_app ready_def add_chunk_def chunk_keys_def not_sym [OF chunk_path_not_dir])

lemma count_delivered_snoc:
  "chunks d' = chunks d @ [\<lparr>c_id = x, c_file_id = fid, c_index = i, c_checksum = ck, c_delivered = 1\<rparr>] \<Longrightarrow>
    count_delivered fid d' = count_delivered fid d + 1"
  by (simp add: count_delivered_def)

definition ack :: bytes where "ack = text_bytes (''ACK'' @ newline)"

lemma recv_chunks_frames:
  assumes "plain_base base" "plain_id fid" "ready base fid s"
    and "\<forall>f \<in> set fs. good_frame f" "distinct (map fst fs)"
    and "\<forall>f \<in> set fs. (fid, int (fst f)) \<notin> chunk_keys (db s)"
    and "distinct (ids_for s (length fs))" "set (ids_for s (length fs)) \<inter> c_id ` set (chunks (db s)) = {}"
    and "expected = count_delivered fid (db s) + int (length fs)"
  shows "\<exists>t. recv_chunks base fid expected (s, concat (map frame_bytes fs) @ r, out) =
      (Inr True, (t, r, out @ concat (replicate (length fs) ack))) \<and>
    files (db t) = files (db s) \<and>
    chunks (db t) = chunks (db s) @ map2 (frame_row fid) (ids_for s (length fs)) fs \<and>
    (\<forall>(i, ck, d) \<in> set fs. fs_files t (chunk_path base fid (int i)) = Some d) \<and>
    (\<forall>j. (\<forall>f \<in> set fs. int (fst f) \<noteq> j) \<longrightarrow>
       fs_files t (chunk_path base fid j) = fs_files s (chunk_path base fid j))"
  using assms(3-9)
proof (induction fs arbitrary: s out)
  case Nil
  then show ?case by (simp add: recv_chunks.simps [of _ _ _ s] ids_for_def)
next
  case (Cons f fs)
  obtain i ck d where f: "f = (i, ck, d)" by (metis prod_cases3)
  have nx: "next_id s \<notin> c_id ` set (chunks (db s))"
    using Cons.prems(6) by (auto simp: ids_for_Suc [of "s\<lparr>epos := epos s + 16\<rparr>"])
  obtain t where t: "store_chunk base fid (int i) d ck s = (Inr (), t)" "ready base fid t"
    "entropy t = entropy s" "epos t = epos s + 16" "files (db t) = files (db s)"
    "chunks (db t) = chunks (db s) @ [\<lparr>c_id = next_id s, c_file_id = fid, c_index = int i,
       c_checksum = ck, c_delivered = 1\<rparr>]"
    "fs_files t = (fs_files s)(chunk_path base fid (int i) \<mapsto> d)"
    using store_chunk_ready [OF assms(1,2) Cons.prems(1) nx, of "int i" d ck] Cons.prems(4) f by auto
  have ids: "ids_for s (length (f # fs)) = next_id s # ids_for t (length fs)"
    using ids_for_Suc [OF t(3,4)] by simp
  have "\<exists>u. recv_chunks base fid expected (t, concat (map frame_bytes fs) @ r, out @ ack) =
      (Inr True, (u, r, (out @ ack) @ concat (replicate (length fs) ack))) \<and>
    files (db u) = files (db t) \<and>
    chunks (db u) = chunks (db t) @ map2 (frame_row fid) (ids_for t (length fs)) fs \<and>
    (\<forall>(i, ck, d) \<in> set fs. fs_files u (chunk_path base fid (int i)) = Some d) \<and>
    (\<forall>j. (\<forall>f \<in> set fs. int (fst f) \<noteq> j) \<longrightarrow>
       fs_files u (chunk_path base fid j) = fs_files t (chunk_path base fid j))"
  proof (rule Cons.IH)
    show "\<forall>f \<in> set fs. (fid, int (fst f)) \<notin> chunk_keys (db t)"
      using Cons.prems(3,4) f t(6) by (auto simp: chunk_keys_def)
    show "distinct (ids_for t (length fs))" using Cons.prems(5) ids by simp
    show "set (ids_for t (length fs)) \<inter> c_id ` set (chunks (db t)) = {}"
      using Cons.prems(5,6) ids t(6) by auto
    show "expected = count_delivered fid (db t) + int (length fs)"
      using Cons.prems(7) count_delivered_snoc [OF t(6)] by simp
  qed (use Cons.prems t(2) in auto)
  then obtain u where u: "recv_chunks base fid expected (t, concat (map frame_bytes fs) @ r, out @ ack) =
      (Inr True, (u, r, (out @ ack) @ concat (replicate (length fs) ack)))"
    "files (db u) = files (db t)"
    "chunks (db u) = chunks (db t) @ map2 (frame_row fid) (ids_for t (length fs)) fs"
    "\<forall>(i, ck, d) \<in> set fs. fs_files u (chunk_path base fid (int i)) = Some d"
    "\<forall>j. (\<forall>f \<in> set fs. int (fst f) \<noteq> j) \<longrightarrow>
       fs_files u (chunk_path base fid j) = fs_files t (chunk_path base fid j)" by blast
  have rd: "read_frame (concat (map frame_bytes (f # fs)) @ r) = Frame i ck d (concat (map frame_bytes fs) @ r)"
    using read_frame_bytes [of i ck d "concat (map frame_bytes fs) @ r"] Cons.prems(2) f
    by (simp del: frame_bytes.simps)
  have "recv_chunks base fid expected (s, concat (map frame_bytes (f # fs)) @ r, out) =
      recv_chunks base fid expected (t, concat (map frame_bytes fs) @ r, out @ ack)"
    using Cons.prems(7) rd t(1) by (subst recv_chunks.simps) (simp add: ack_def)
  moreover have "fs_files u (chunk_path base fid (int i)) = Some d"
    using u(5) t(7) Cons.prems(3) f by (metis fun_upd_same distinct.simps(2) fst_conv image_eqI list.map(2) list.set_map of_nat_eq_iff)
  moreover have "fs_files u (chunk_path base fid j) = fs_files s (chunk_path base fid j)"
    if "\<forall>g \<in> set (f # fs). int (fst g) \<noteq> j" for j
    using u(5) t(7) that f chunk_path_inj [OF assms(1,2,2), of "int i" j] by auto
  ultimately show ?case using u t ids f by auto
qed

section \<open>Sending the stored chunks\<close>

fun row_frame :: "chunk_row \<Rightarrow> bytes \<Rightarrow> frame" where
  "row_frame c data = (nat (c_index c), c_checksum c, data)"

lemma send_chunk_row:
  assumes "fs_files s (chunk_path base fid (c_index c)) = Some data"
    and "good_frame (row_frame c data)" "0 \<le> c_index c"
  shows "send_chunk base fid c (s, inp, out) =
    (Inr True, (s, inp, out @ frame_bytes (row_frame c data)))"
proof -
  have "ascii_encode (c_checksum c) = Inr (map (\<lambda>c. byte_of (of_char c)) (c_checksum c))"
    using assms(2) by (simp add: ascii_encode_def)
  then show ?thesis using assms
    by (simp add: send_chunk_def prog_simps srv_def get_chunk_def tcp_write_def pack_be32_def
        CHECKSUM_LEN_def nat_less_iff)
qed

lemma send_chunks_rows:
  assumes "\<forall>c \<in> set cs. fs_files s (chunk_path base fid (c_index c)) = Some (data (c_index c)) \<and>
      good_frame (row_frame c (data (c_index c))) \<and> 0 \<le> c_index c"
  shows "send_chunks base fid cs (s, inp, out) =
    (Inr (), (s, inp, out @ concat (map (\<lambda>c. frame_bytes (row_frame c (data (c_index c)))) cs)))"
  using assms
proof (induction cs arbitrary: out)
  case (Cons c cs)
  then show ?case using send_chunk_row [of s base fid c "data (c_index c)" inp out]
    by (simp add: bnd_app del: row_frame.simps frame_bytes.simps good_frame.simps)
qed simp

section \<open>Requests\<close>

text \<open>The ids the clients use: 36 printable ASCII characters without a slash.\<close>

definition printable_id :: "string \<Rightarrow> bool" where
  "printable_id f \<longleftrightarrow> length f = 36 \<and>
     (\<forall>c \<in> set f. 33 \<le> (of_char c :: nat) \<and> (of_char c :: nat) < 127 \<and> c \<noteq> CHR ''/'')"

lemma printable_plain: "printable_id f \<Longrightarrow> plain_id f"
  unfolding printable_id_def plain_id_def by (metis list.size(3) zero_neq_numeral)

lemma printable_char: "33 \<le> (of_char c :: nat) \<Longrightarrow> (of_char c :: nat) < 127 \<Longrightarrow> \<not> py_space c"
  by (simp add: py_space_def Let_def)

lemma printable_strip: "(\<forall>c \<in> set s. 33 \<le> (of_char c :: nat) \<and> (of_char c :: nat) < 127) \<Longrightarrow> py_strip s = s"
proof (rule py_strip_id)
  assume *: "\<forall>c \<in> set s. 33 \<le> (of_char c :: nat) \<and> (of_char c :: nat) < 127"
  have "\<not> py_space c" if "c \<in> set s" for c
    using * that printable_char [of c] by blast
  then show "s = [] \<or> \<not> py_space (hd s) \<and> \<not> py_space (last s)" by (cases s) auto
qed

lemma rstrip_newline: "py_rstrip (s @ newline) = py_rstrip s"
  by (simp add: py_rstrip_def newline_def py_space_def)

lemma printable_strip_line:
  assumes "\<forall>c \<in> set s. 32 \<le> (of_char c :: nat) \<and> (of_char c :: nat) < 127"
    and "s \<noteq> []" "\<not> py_space (hd s)" "\<not> py_space (last s)"
  shows "py_strip (s @ newline) = s"
proof -
  have "dropWhile py_space (s @ newline) = s @ newline"
    using assms(2,3) by (cases s) auto
  moreover have "dropWhile py_space (rev s) = rev s" using assms(2,4) by (cases s rule: rev_cases) auto
  ultimately show ?thesis
    using rstrip_newline [of s] by (simp add: py_strip_def py_lstrip_def py_rstrip_def)
qed

lemma ascii_char_bytes: "(of_char c :: nat) < 128 \<Longrightarrow> utf8_char c = [byte_of (of_char c)]"
  by (simp add: utf8_char_def)

lemma ascii_text_bytes: "\<forall>c \<in> set s. (of_char c :: nat) < 128 \<Longrightarrow> utf8_encode s = map (\<lambda>c. byte_of (of_char c)) s"
  by (induction s) (simp_all add: utf8_encode_def ascii_char_bytes)

lemma readline_text:
  assumes "\<forall>c \<in> set s. 32 \<le> (of_char c :: nat) \<and> (of_char c :: nat) < 127" "length s \<le> 65536"
  shows "readline (st, utf8_encode (s @ newline) @ r, out) = (Inr (utf8_encode (s @ newline)), (st, r, out))"
proof -
  let ?b = "map (\<lambda>c. byte_of (of_char c)) s"
  have b: "utf8_encode (s @ newline) = ?b @ [10]"
    using assms(1) ascii_text_bytes [of s]
    by (force simp: utf8_encode_append newline_def utf8_encode_def utf8_char_def byte_of_def)
  have "byte_of (of_char c) \<noteq> 10" if "c \<in> set s" for c
  proof
    assume "byte_of (of_char c) = 10"
    then have "unat (byte_of (of_char c)) = 10" by simp
    then show False using assms(1) that by fastforce
  qed
  then have "takeWhile (\<lambda>b. b \<noteq> 10) (?b @ 10 # r) = ?b" by (auto simp: takeWhile_append)
  then show ?thesis using assms(2) by (simp add: readline_def b Let_def)
qed

lemma request_line:
  assumes "\<forall>c \<in> set l. 32 \<le> (of_char c :: nat) \<and> (of_char c :: nat) < 127" "length l \<le> 65536"
    and "l \<noteq> []" "\<not> py_space (hd l)" "\<not> py_space (last l)"
  shows "process_request base (s, utf8_encode (l @ newline) @ r, []) =
    (if starts_with l ''DOWNLOAD '' then process_download base (py_strip (remove_prefix l ''DOWNLOAD ''))
     else process_upload base l) (s, r, [])"
proof -
  have "utf8_encode (l @ newline) \<noteq> []"
    using utf8_roundtrip [of "l @ newline"] by (auto simp: newline_def)
  then show ?thesis
    by (simp add: process_request_def bnd_app readline_text [OF assms(1,2)] utf8_roundtrip
        printable_strip_line [OF assms(1,3-5)])
qed

lemma printable_not_space: "printable_id f \<Longrightarrow> c \<in> set f \<Longrightarrow> \<not> py_space c"
  unfolding printable_id_def using printable_char [of c] by blast

lemma printable_hd_last: "printable_id f \<Longrightarrow> f \<noteq> [] \<and> \<not> py_space (hd f) \<and> \<not> py_space (last f)"
  using printable_not_space [of f] by (cases f) (auto simp: printable_id_def)

lemma printable_no_command:
  assumes "printable_id f" shows "\<not> starts_with f ''DOWNLOAD ''"
proof
  assume "starts_with f ''DOWNLOAD ''"
  then have "set (take (length ''DOWNLOAD '') f) = set ''DOWNLOAD ''"
    unfolding starts_with_def by (rule arg_cong)
  then have "CHR '' '' \<in> set (take (length ''DOWNLOAD '') f)" by (simp only: list.set) simp
  then have "CHR '' '' \<in> set f" by (rule in_set_takeD)
  then have "33 \<le> (of_char (CHR '' '') :: nat)" using assms unfolding printable_id_def by blast
  then show False by simp
qed

lemma upload_request:
  assumes "printable_id fid"
  shows "process_request base (s, utf8_encode (fid @ newline) @ r, []) = process_upload base fid (s, r, [])"
  using request_line [of fid base s r] assms printable_hd_last [OF assms] printable_no_command [OF assms]
  by (force simp: printable_id_def)

lemma download_request:
  assumes "printable_id fid"
  shows "process_request base (s, utf8_encode ((''DOWNLOAD '' @ fid) @ newline) @ r, []) =
    process_download base fid (s, r, [])"
proof -
  have "py_strip fid = fid" using assms by (intro printable_strip) (auto simp: printable_id_def)
  then show ?thesis
    using request_line [of "''DOWNLOAD '' @ fid" base s r] assms printable_hd_last [OF assms]
      remove_prefix_append [of "''DOWNLOAD ''" fid] starts_with_append [of "''DOWNLOAD ''" fid]
    by (force simp: printable_id_def py_space_def)
qed

end
