(* ===== verification/Tcp_Properties.thy ===== *)
theory Tcp_Properties
  imports Tcp_Server
begin

text \<open>
  The file transfer end to end: what is uploaded as frames is what a download returns, sorted by chunk
  index, and the allowed effects of the transfer server.
\<close>

section \<open>Sorting by a key\<close>

lemma map_insort_key: "map f (insort_key (\<lambda>x. g (f x)) x xs) = insort_key g (f x) (map f xs)"
  by (induction xs) auto

lemma map_sort_key: "map f (sort_key (\<lambda>x. g (f x)) xs) = sort_key g (map f xs)"
  by (induction xs) (simp_all add: map_insort_key)

lemma insort_key_int: "insort_key (\<lambda>x. int (k x)) x xs = insort_key k x xs"
  by (induction xs) auto

lemma sort_key_int: "sort_key (\<lambda>x. int (k x)) xs = sort_key k xs"
  by (induction xs) (simp_all add: insort_key_int)

section \<open>The upload\<close>

lemma notify_frame:
  "fst (notify_recipient f fid s) = r \<Longrightarrow> snd (notify_recipient f fid s) = t \<Longrightarrow>
     fs_files t = fs_files s \<and> chunks (db t) = chunks (db s) \<and> files (db t) = files (db s)"
  by (auto simp: notify_recipient_def prog_simps db_enqueue_def split: option.splits sum.splits json.splits)

lemma poll_file_Suc: "get_file fid (db s) = Some f \<Longrightarrow> poll_file (Suc n) fid s = (Inr (Some f), s)"
  by (simp add: prog_simps)

lemma poll_file_found: "get_file fid (db s) = Some f \<Longrightarrow> 0 < n \<Longrightarrow> poll_file n fid s = (Inr (Some f), s)"
  using poll_file_Suc by (cases n) simp_all

lemma no_chunks:
  assumes "get_chunks fid d = []"
  shows "count_delivered fid d = 0" "(fid, i) \<notin> chunk_keys d" "filter (\<lambda>c. c_file_id c = fid) (chunks d) = []"
proof -
  have "set (get_chunks fid d) = {}" using assms by simp
  then have no: "\<forall>c \<in> set (chunks d). c_file_id c \<noteq> fid" by (auto simp: get_chunks_def)
  then show "filter (\<lambda>c. c_file_id c = fid) (chunks d) = []" by (simp add: filter_empty_conv)
  show "(fid, i) \<notin> chunk_keys d" using no by (auto simp: chunk_keys_def)
  have "filter (\<lambda>c. c_file_id c = fid \<and> c_delivered c = 1) (chunks d) = []"
    using no by (simp add: filter_empty_conv)
  then show "count_delivered fid d = 0" by (simp add: count_delivered_def)
qed

definition upload_ok :: "string \<Rightarrow> string \<Rightarrow> frame list \<Rightarrow> server \<Rightarrow> bool" where
  "upload_ok base fid fs s \<longleftrightarrow> plain_base base \<and> printable_id fid \<and> ready base fid s \<and>
     (\<exists>f. get_file fid (db s) = Some f \<and> f_total_chunks f = int (length fs)) \<and>
     get_chunks fid (db s) = [] \<and> (\<forall>f \<in> set fs. good_frame f) \<and> distinct (map fst fs) \<and>
     distinct (ids_for s (length fs)) \<and> set (ids_for s (length fs)) \<inter> c_id ` set (chunks (db s)) = {}"

lemma upload_effect:
  assumes "upload_ok base fid fs s"
    and "handle_client base (utf8_encode (fid @ newline) @ concat (map frame_bytes fs)) s = (t, out)"
  shows "out = text_bytes (have_line []) @ concat (replicate (length fs) ack) @ text_bytes (''DONE'' @ newline)
    \<and> files (db t) = files (db s)
    \<and> chunks (db t) = chunks (db s) @ map2 (frame_row fid) (ids_for s (length fs)) fs
    \<and> (\<forall>(i, ck, d) \<in> set fs. fs_files t (chunk_path base fid (int i)) = Some d)"
proof -
  from assms(1) obtain f where f: "get_file fid (db s) = Some f" "f_total_chunks f = int (length fs)"
    and a: "plain_base base" "printable_id fid" "ready base fid s" "get_chunks fid (db s) = []"
      "\<forall>f \<in> set fs. good_frame f" "distinct (map fst fs)" "distinct (ids_for s (length fs))"
      "set (ids_for s (length fs)) \<inter> c_id ` set (chunks (db s)) = {}"
    by (auto simp: upload_ok_def)
  have len: "length fid = 36" using a(2) by (simp add: printable_id_def)
  obtain u where u: "recv_chunks base fid (int (length fs))
        (s, concat (map frame_bytes fs) @ [], text_bytes (have_line [])) =
      (Inr True, (u, [], text_bytes (have_line []) @ concat (replicate (length fs) ack)))"
    "files (db u) = files (db s)"
    "chunks (db u) = chunks (db s) @ map2 (frame_row fid) (ids_for s (length fs)) fs"
    "\<forall>(i, ck, d) \<in> set fs. fs_files u (chunk_path base fid (int i)) = Some d"
    using recv_chunks_frames [OF a(1) printable_plain [OF a(2)] a(3,5,6) _ a(7,8),
        of "int (length fs)" "[]" "text_bytes (have_line [])"] no_chunks [OF a(4)] by auto
  obtain r v where v: "notify_recipient f fid u = (r, v)" by fastforce
  have "process_upload base fid (s, concat (map frame_bytes fs), []) =
      (r, (v, [], text_bytes (have_line []) @ concat (replicate (length fs) ack) @ text_bytes (''DONE'' @ newline)))"
    using u(1) v a(4) f len
    by (simp add: process_upload_def prog_simps srv_def poll_file_found tcp_write_def)
  then have "t = v \<and> out = text_bytes (have_line []) @ concat (replicate (length fs) ack) @ text_bytes (''DONE'' @ newline)"
    using assms(2) upload_request [OF a(2), of base s "concat (map frame_bytes fs)"]
    by (auto simp: handle_client_def prog_simps split: sum.splits)
  then show ?thesis using u(2-4) notify_frame [of f fid u r v] v by simp
qed

section \<open>The download\<close>

lemma stored_rows:
  assumes "chunks d' = chunks d @ map2 (frame_row fid) ids fs" "get_chunks fid d = []"
  shows "get_chunks fid d' = map (\<lambda>(i, f). frame_row fid i f) (sort_key (\<lambda>(i, f). fst f) (zip ids fs))"
proof -
  have 1: "filter (\<lambda>c. c_file_id c = fid) (map2 (frame_row fid) ids fs) = map2 (frame_row fid) ids fs"
    by (auto simp: filter_id_conv set_zip)
  have 2: "(\<lambda>z. c_index ((\<lambda>(i, f). frame_row fid i f) z)) = (\<lambda>z. int ((\<lambda>(i, f). fst f) z))"
    by (auto simp: fun_eq_iff)
  show ?thesis
    unfolding get_chunks_def assms(1) filter_append 1 no_chunks(3) [OF assms(2)]
    using map_sort_key [of "\<lambda>(i, f). frame_row fid i f" c_index "zip ids fs"]
    by (simp only: 2 sort_key_int append_Nil)
qed

lemma download_effect:
  assumes "printable_id fid" "get_file fid (db s) = Some f"
    and "get_chunks fid (db s) = map (\<lambda>(i, f). frame_row fid i f) (sort_key (\<lambda>(i, f). fst f) (zip ids fs))"
    and "length ids = length fs" "\<forall>f \<in> set fs. good_frame f"
    and "\<forall>(i, ck, d) \<in> set fs. fs_files s (chunk_path base fid (int i)) = Some d"
  shows "handle_client base (utf8_encode ((''DOWNLOAD '' @ fid) @ newline)) s =
    (s, concat (map frame_bytes (sort_key fst fs)))"
proof -
  let ?zs = "sort_key (\<lambda>(i, f). fst f) (zip ids fs)"
  let ?data = "\<lambda>i. the (fs_files s (chunk_path base fid i))"
  have z: "row_frame (frame_row fid i g) (?data (c_index (frame_row fid i g))) = g \<and>
      fs_files s (chunk_path base fid (c_index (frame_row fid i g))) = Some (?data (c_index (frame_row fid i g))) \<and>
      good_frame g \<and> 0 \<le> c_index (frame_row fid i g)" if "(i, g) \<in> set ?zs" for i g
  proof -
    obtain n ck d where g: "g = (n, ck, d)" by (metis prod_cases3)
    have "g \<in> set fs" using that by (auto dest: set_zip_rightD)
    then show ?thesis using assms(5,6) g by auto
  qed
  have "send_chunks base fid (get_chunks fid (db s)) (s, [], []) = (Inr (), (s, [], [] @ concat
      (map (\<lambda>c. frame_bytes (row_frame c (?data (c_index c)))) (get_chunks fid (db s)))))"
    unfolding assms(3) by (rule send_chunks_rows) (use z in \<open>fastforce simp del: row_frame.simps frame_row.simps good_frame.simps\<close>)
  moreover have "map (\<lambda>c. frame_bytes (row_frame c (?data (c_index c)))) (get_chunks fid (db s)) =
      map frame_bytes (map snd ?zs)"
    unfolding assms(3) map_map by (rule map_cong [OF refl]) (use z in \<open>auto simp del: row_frame.simps frame_row.simps frame_bytes.simps\<close>)
  moreover have "map snd ?zs = sort_key fst fs"
    using map_sort_key [of snd fst "zip ids fs"] assms(4) by (simp add: split_def)
  ultimately have "process_download base fid (s, [], []) =
      (Inr (), (s, [], concat (map frame_bytes (sort_key fst fs))))"
    using assms(1,2) by (simp add: process_download_def printable_id_def prog_simps srv_def)
  then show ?thesis
    using download_request [OF assms(1), of base s "[]"] by (simp add: handle_client_def attempt_app)
qed

lemma upload_then_download:
  assumes "upload_ok base fid fs s"
    and "handle_client base (utf8_encode (fid @ newline) @ concat (map frame_bytes fs)) s = (t, out)"
  shows "out = text_bytes (have_line []) @ concat (replicate (length fs) ack) @ text_bytes (''DONE'' @ newline) \<and>
    handle_client base (utf8_encode ((''DOWNLOAD '' @ fid) @ newline)) t =
      (t, concat (map frame_bytes (sort_key fst fs)))"
proof -
  note up = upload_effect [OF assms]
  have a: "printable_id fid" "get_chunks fid (db s) = []" "\<forall>f \<in> set fs. good_frame f"
    using assms(1) by (auto simp: upload_ok_def)
  obtain f where "get_file fid (db s) = Some f" using assms(1) by (auto simp: upload_ok_def)
  then have "get_file fid (db t) = Some f" using up by (simp add: get_file_def)
  moreover have "get_chunks fid (db t) =
      map (\<lambda>(i, f). frame_row fid i f) (sort_key (\<lambda>(i, f). fst f) (zip (ids_for s (length fs)) fs))"
    using up a(2) by (intro stored_rows) auto
  ultimately show ?thesis
    using up a by (intro conjI download_effect) (auto simp: ids_for_def)
qed

text \<open> What is uploaded is what is downloaded. If a registered file's chunks are sent in any order as
  well-formed frames with distinct indices, the server acknowledges each and answers DONE, and a later
  download of the file returns exactly those frames, in index order. \<close>

theorem upload_download_roundtrip:
  assumes "upload_ok base fid fs s"
    and "handle_client base (utf8_encode (fid @ newline) @ concat (map frame_bytes fs)) s = (t, out)"
  shows "out = text_bytes (have_line []) @ concat (replicate (length fs) ack) @ text_bytes (''DONE'' @ newline) \<and>
    handle_client base (utf8_encode ((''DOWNLOAD '' @ fid) @ newline)) t =
      (t, concat (map frame_bytes (sort_key fst fs)))"
  using upload_then_download [OF assms] .

text \<open> The frame format is self-delimiting: two lists of well-formed frames with the same bytes on the
  wire are equal, so a downloader recovers exactly the frames that were stored. \<close>

theorem frames_unique:
  assumes "\<forall>f \<in> set fs. good_frame f" "\<forall>g \<in> set gs. good_frame g"
    and "concat (map frame_bytes fs) = concat (map frame_bytes gs)"
  shows "fs = gs"
  using assms by (rule fr.unique_decoding)

section \<open>A concrete transfer\<close>

definition demo_id :: string where "demo_id = replicate 36 (CHR ''a'')"
definition demo_sum :: string where "demo_sum = replicate 64 (CHR ''0'')"
definition demo_frames :: "frame list" where
  "demo_frames = [(1, demo_sum, [5]), (0, demo_sum, [7, 8])]"

definition demo_server :: server where
  "demo_server = (boot byte_of 100 0)\<lparr>db := empty_db\<lparr>files := [\<lparr>f_id = demo_id, f_name = ''n'',
     f_size = 3, f_total_chunks = 2, f_uploader = ''alice'', f_recipient = ''bob'', f_encrypted_key = None,
     f_created_at = 1, f_expires_at = Some 1000\<rparr>]\<rparr>\<rparr>"

lemma demo_good: "\<forall>f \<in> set demo_frames. good_frame f"
  by (simp add: demo_frames_def demo_sum_def py_space_def)

lemma demo_ids: "distinct (ids_for demo_server 2)"
proof -
  have "id_at demo_server 0 \<noteq> id_at demo_server 16"
    unfolding id_at_def demo_server_def boot_def by code_simp
  then show ?thesis by (simp add: ids_for_def upt_conv_Cons numeral_2_eq_2 demo_server_def boot_def)
qed

lemma demo_ok: "upload_ok ''/srv'' demo_id demo_frames demo_server"
proof -
  have "printable_id demo_id" by (simp add: printable_id_def demo_id_def)
  moreover have "ready ''/srv'' demo_id demo_server"
    by (simp add: ready_def demo_server_def boot_def file_dir_def path_join_def demo_id_def)
  moreover have len: "length demo_frames = 2" by (simp add: demo_frames_def)
  moreover have "get_file demo_id (db demo_server) \<noteq> None \<and> chunks (db demo_server) = [] \<and>
      f_total_chunks (the (get_file demo_id (db demo_server))) = 2"
    by (simp add: get_file_def demo_server_def empty_db_def)
  moreover have "distinct (map fst demo_frames)" by (simp add: demo_frames_def)
  ultimately show ?thesis
    using demo_good demo_ids unfolding upload_ok_def len by (auto simp: plain_base_def get_chunks_def)
qed

lemma upload_download_roundtrip_witness:
  "let t = fst (handle_client ''/srv'' (utf8_encode (demo_id @ newline) @ concat (map frame_bytes demo_frames)) demo_server)
   in snd (handle_client ''/srv'' (utf8_encode ((''DOWNLOAD '' @ demo_id) @ newline)) t) =
        frame_bytes (0, demo_sum, [7, 8]) @ frame_bytes (1, demo_sum, [5])"
proof -
  obtain t out where h: "handle_client ''/srv'' (utf8_encode (demo_id @ newline) @ concat (map frame_bytes demo_frames)) demo_server = (t, out)"
    by fastforce
  show ?thesis
    using upload_download_roundtrip [OF demo_ok h] h
    by (simp add: demo_frames_def del: frame_bytes.simps utf8_encode_append append.simps append_assoc)
qed

lemma frames_unique_witness:
  "concat (map frame_bytes demo_frames) \<noteq> concat (map frame_bytes (rev demo_frames))"
proof
  assume "concat (map frame_bytes demo_frames) = concat (map frame_bytes (rev demo_frames))"
  then have "demo_frames = rev demo_frames" by (intro frames_unique) (use demo_good in auto)
  then show False by (simp add: demo_frames_def)
qed

section \<open>Allowed effects\<close>

text \<open>An effect order of the server is one of a connection.\<close>

definition on_server :: "(server \<Rightarrow> server \<Rightarrow> bool) \<Rightarrow> tcp \<Rightarrow> tcp \<Rightarrow> bool" where
  "on_server R a b \<longleftrightarrow> R (fst a) (fst b)"

sublocale packet_effect \<subseteq> conn: effect_order "on_server R"
  by unfold_locales (auto simp: on_server_def intro: R_refl R_trans)

context packet_effect
begin

lemma conn_srv: "steps R m \<Longrightarrow> steps (on_server R) (srv m)"
  by (auto simp: steps_def on_server_def srv_def split_def)

lemma conn_write: "steps (on_server R) (tcp_write bs)" "steps (on_server R) readline"
  by (auto simp: steps_def on_server_def tcp_write_def readline_def Let_def R_refl)

lemma eff_poll_file [eff_intro]: "steps R (poll_file n fid)"
proof (induction n)
  case 0
  then show ?case unfolding poll_file.simps by (intro eff_intro)
next
  case (Suc n)
  show ?case unfolding poll_file.simps by (intro eff_intro Suc)
qed

lemma eff_notify [eff_intro]: "steps R (notify_recipient f fid)"
  unfolding notify_recipient_def by (intro eff_intro)

end

context server_effect
begin

lemma conn_recv_chunks: "steps (on_server R) (recv_chunks base fid expected)"
proof -
  have "R s (fst (snd (recv_chunks base fid expected (s, inp, out))))" for s inp out
  proof (induction base fid expected "(s, inp, out)" arbitrary: s inp out rule: recv_chunks.induct)
    case (1 base fid expected s inp out)
    have st: "R s s'" if "store_chunk base fid i d ck s = (r, s')" for i d ck r s'
      using eff_store_chunk that by (rule stepsD)
    show ?case
    proof (cases "count_delivered fid (db s) < expected \<and> (\<exists>i ck d rest. read_frame inp = Frame i ck d rest)")
      case True
      then obtain i ck d rest where rd: "read_frame inp = Frame i ck d rest" by blast
      obtain r s' where sc: "store_chunk base fid (int i) d ck s = (r, s')" by fastforce
      show ?thesis
      proof (cases r)
        case (Inr u)
        then show ?thesis using True rd sc st [OF sc] "1" [OF _ rd sc [symmetric] Inr]
          by (subst recv_chunks.simps) (auto intro: R_trans)
      qed (use True rd sc st [OF sc] in \<open>subst recv_chunks.simps, simp\<close>)
    next
      case False
      then show ?thesis by (subst recv_chunks.simps) (auto simp: R_refl split: frame_read.split)
    qed
  qed
  then show ?thesis by (simp add: steps_def on_server_def)
qed

lemmas conn_rules = conn.steps_rules conn_srv conn_write conn_recv_chunks

lemma conn_process_upload: "steps (on_server R) (process_upload base fid)"
  unfolding process_upload_def by (intro conn_rules eff_intro)

lemma conn_send_chunks: "steps (on_server R) (send_chunks base fid cs)"
proof (induction cs)
  case Nil
  then show ?case unfolding send_chunks.simps by (intro conn_rules)
next
  case (Cons c cs)
  show ?case unfolding send_chunks.simps send_chunk_def by (intro conn_rules eff_intro Cons)
qed

lemma conn_process_request: "steps (on_server R) (process_request base)"
  unfolding process_request_def process_download_def
  by (intro conn_rules eff_intro conn_process_upload conn_send_chunks)

lemma eff_handle_client: "R s (fst (handle_client base inp s))"
proof -
  have "steps (on_server R) (attempt (process_request base) (\<lambda>_. ret ()))"
    by (intro conn_rules conn_process_request)
  then show ?thesis
    by (auto simp: handle_client_def steps_def on_server_def split_def)
qed

end

end
