(* ===== verification/Crypto.thy ===== *)
theory Crypto
  imports Protocol Sha256
begin

text \<open>
  The client's cryptography (\<^verbatim>\<open>client/crypto/\<close>: \<^verbatim>\<open>encrypt.py\<close>, \<^verbatim>\<open>file_crypto.py\<close>, \<^verbatim>\<open>audio_crypto.py\<close>, \<^verbatim>\<open>keygen.py\<close>).
  The third-party primitives (X25519, HKDF, AES-GCM, Argon2id) are the fields of \<open>crypto\<close>, an argument
  of every definition that uses one; \<open>crypto_ok\<close> states what their documentation promises and the code
  relies on.
\<close>

section \<open>The primitives\<close>

record crypto =
  c_pub :: "bytes \<Rightarrow> bytes"
  c_exchange :: "bytes \<Rightarrow> bytes \<Rightarrow> exn + bytes"
  c_hkdf :: "bytes \<Rightarrow> bytes \<Rightarrow> bytes \<Rightarrow> bytes"
  c_enc :: "bytes \<Rightarrow> bytes \<Rightarrow> bytes \<Rightarrow> bytes"
  c_dec :: "bytes \<Rightarrow> bytes \<Rightarrow> bytes \<Rightarrow> exn + bytes"
  c_argon2 :: "bytes \<Rightarrow> bytes \<Rightarrow> bytes"

text \<open>
  X25519 agreement commutes and a public key has 32 bytes; a derived key has 32 bytes; AES-GCM adds 16
  bytes and decrypts what it encrypted under the same key and nonce.
\<close>

definition crypto_ok :: "crypto \<Rightarrow> bool" where
  "crypto_ok C \<longleftrightarrow>
    (\<forall>a b. length a = 32 \<longrightarrow> length b = 32 \<longrightarrow> length (c_pub C a) = 32 \<and>
       (\<exists>k. c_exchange C a (c_pub C b) = Inr k \<and> c_exchange C b (c_pub C a) = Inr k)) \<and>
    (\<forall>salt info k. length (c_hkdf C salt info k) = 32) \<and> (\<forall>p salt. length (c_argon2 C p salt) = 32) \<and>
    (\<forall>k n p. length (c_enc C k n p) = length p + 16 \<and> c_dec C k n (c_enc C k n p) = Inr p)"

lemma crypto_enc: "crypto_ok C \<Longrightarrow> length (c_enc C k n p) = length p + 16"
  and crypto_dec: "crypto_ok C \<Longrightarrow> c_dec C k n (c_enc C k n p) = Inr p"
  by (simp_all add: crypto_ok_def)

definition NONCE_LEN :: nat where "NONCE_LEN = 12"
definition TAG_LEN :: nat where "TAG_LEN = 16"
definition KEY_LEN :: nat where "KEY_LEN = 32"
definition SALT_LEN :: nat where "SALT_LEN = 16"

text \<open>\<^verbatim>\<open>data[:-16]\<close> and \<^verbatim>\<open>data[-16:]\<close>.\<close>

definition cut_tag :: "bytes \<Rightarrow> bytes \<times> bytes" where
  "cut_tag bs = (take (length bs - TAG_LEN) bs, drop (length bs - TAG_LEN) bs)"

lemma cut_tag_append: "cut_tag bs = (c, t) \<Longrightarrow> c @ t = bs"
  by (auto simp: cut_tag_def)

lemma cut_tag_length: "cut_tag bs = (c, t) \<Longrightarrow> 16 \<le> length bs \<Longrightarrow> length t = 16"
  by (auto simp: cut_tag_def TAG_LEN_def)

section \<open>Messages\<close>

definition HKDF_SALT :: bytes where "HKDF_SALT = utf8_encode ''ChatterTerminal-v1''"
definition HKDF_INFO :: bytes where "HKDF_INFO = utf8_encode ''message-key''"

definition ecdh_and_derive :: "crypto \<Rightarrow> bytes \<Rightarrow> bytes \<Rightarrow> exn + bytes" where
  "ecdh_and_derive C private_key peer_public_key =
    sbnd (c_exchange C private_key peer_public_key) (\<lambda>shared. Inr (c_hkdf C HKDF_SALT HKDF_INFO shared))"

definition encrypt_message :: "crypto \<Rightarrow> string \<Rightarrow> bytes \<Rightarrow> ('e env_scheme, packet) prog" where
  "encrypt_message C plaintext recipient =
    bnd (urandom KEY_LEN) (\<lambda>eph_private.
    let eph_public = c_pub C eph_private in
    bnd (lift_result (ecdh_and_derive C eph_private recipient)) (\<lambda>key.
    bnd (urandom NONCE_LEN) (\<lambda>nonce.
    let (ciphertext, auth_tag) = cut_tag (c_enc C key nonce (utf8_encode plaintext)) in
    ret [(''ephemeral_pubkey'', JStr (b64_encode eph_public)),
         (''ciphertext'', JStr (b64_encode ciphertext)),
         (''nonce'', JStr (b64_encode nonce)),
         (''auth_tag'', JStr (b64_encode auth_tag))])))"

text \<open>A base64 field; every failure is reported as \<^verbatim>\<open>ValueError\<close>.\<close>

definition b64_field :: "packet \<Rightarrow> string \<Rightarrow> exn + bytes" where
  "b64_field payload k =
    (case sbnd (item_str payload k) b64_decode of Inl e \<Rightarrow> Inl ValueError | Inr bs \<Rightarrow> Inr bs)"

definition as_value_error :: "exn + 'a \<Rightarrow> exn + 'a" where
  "as_value_error r = (case r of Inl e \<Rightarrow> Inl ValueError | Inr a \<Rightarrow> Inr a)"

definition decrypt_message :: "crypto \<Rightarrow> packet \<Rightarrow> bytes \<Rightarrow> exn + string" where
  "decrypt_message C payload private_key =
    sbnd (b64_field payload ''ephemeral_pubkey'') (\<lambda>eph_public.
    sbnd (b64_field payload ''ciphertext'') (\<lambda>ciphertext.
    sbnd (b64_field payload ''nonce'') (\<lambda>nonce.
    sbnd (b64_field payload ''auth_tag'') (\<lambda>auth_tag.
    if length nonce \<noteq> NONCE_LEN then Inl ValueError
    else if length auth_tag \<noteq> TAG_LEN then Inl ValueError
    else sbnd (ecdh_and_derive C private_key eph_public) (\<lambda>key.
      sbnd (as_value_error (c_dec C key nonce (ciphertext @ auth_tag))) utf8_decode)))))"

section \<open>File chunks\<close>

definition generate_file_key :: "('e env_scheme, bytes) prog" where
  "generate_file_key = urandom 32"

definition encrypt_chunk ::
  "crypto \<Rightarrow> bytes \<Rightarrow> bytes \<Rightarrow> ('e env_scheme, bytes \<times> bytes \<times> bytes) prog" where
  "encrypt_chunk C data key =
    (if length key \<noteq> 32 then raise ValueError
     else bnd (urandom NONCE_LEN) (\<lambda>nonce.
       let (ciphertext, tag) = cut_tag (c_enc C key nonce data) in ret (ciphertext, nonce, tag)))"

definition decrypt_chunk :: "crypto \<Rightarrow> bytes \<Rightarrow> bytes \<Rightarrow> bytes \<Rightarrow> bytes \<Rightarrow> exn + bytes" where
  "decrypt_chunk C ciphertext nonce tag key =
    (if length key \<noteq> 32 then Inl ValueError
     else if length nonce \<noteq> NONCE_LEN then Inl ValueError
     else if length tag \<noteq> TAG_LEN then Inl ValueError
     else as_value_error (c_dec C key nonce (ciphertext @ tag)))"

definition chunk_checksum :: "bytes \<Rightarrow> string" where
  "chunk_checksum data = sha256_hex data"

section \<open>Audio packets\<close>

text \<open>\<^verbatim>\<open>struct.pack("<Q", seq & 0xFFFFFFFFFFFFFFFF)\<close> and four zero bytes.\<close>

definition seq_to_nonce :: "int \<Rightarrow> bytes" where
  "seq_to_nonce seq = le_bytes 8 (nat (seq mod 2 ^ 64)) @ [0, 0, 0, 0]"

definition encrypt_packet :: "crypto \<Rightarrow> bytes \<Rightarrow> bytes \<Rightarrow> int \<Rightarrow> exn + bytes \<times> bytes" where
  "encrypt_packet C frame key seq =
    (if length key \<noteq> 32 then Inl ValueError
     else let nonce = seq_to_nonce seq in Inr (nonce, c_enc C key nonce frame))"

definition decrypt_packet :: "crypto \<Rightarrow> bytes \<Rightarrow> bytes \<Rightarrow> bytes \<Rightarrow> exn + bytes" where
  "decrypt_packet C ciphertext_with_tag nonce key =
    (if length key \<noteq> 32 then Inl ValueError
     else if length nonce \<noteq> NONCE_LEN then Inl ValueError
     else as_value_error (c_dec C key nonce ciphertext_with_tag))"

definition derive_call_key :: "crypto \<Rightarrow> bytes \<Rightarrow> string \<Rightarrow> bytes" where
  "derive_call_key C shared_secret session_id =
     c_hkdf C (utf8_encode session_id) (utf8_encode ''audio-key'') shared_secret"

section \<open>Key pairs and the private key at rest\<close>

definition generate_keypair :: "crypto \<Rightarrow> ('e env_scheme, bytes \<times> bytes) prog" where
  "generate_keypair C = bnd (urandom KEY_LEN) (\<lambda>priv. ret (priv, c_pub C priv))"

definition public_from_private :: "crypto \<Rightarrow> bytes \<Rightarrow> exn + bytes" where
  "public_from_private C priv = (if length priv \<noteq> 32 then Inl ValueError else Inr (c_pub C priv))"

definition derive_key :: "crypto \<Rightarrow> string \<Rightarrow> bytes \<Rightarrow> bytes" where
  "derive_key C password salt = c_argon2 C (utf8_encode password) salt"

definition encrypt_private_key :: "crypto \<Rightarrow> bytes \<Rightarrow> string \<Rightarrow> ('e env_scheme, string) prog" where
  "encrypt_private_key C private_key password =
    (if length private_key \<noteq> 32 then raise ValueError
     else
       bnd (urandom SALT_LEN) (\<lambda>salt.
       bnd (urandom NONCE_LEN) (\<lambda>nonce.
       ret (b64_encode (salt @ nonce @ c_enc C (derive_key C password salt) nonce private_key)))))"

definition decrypt_private_key :: "crypto \<Rightarrow> string \<Rightarrow> string \<Rightarrow> exn + bytes" where
  "decrypt_private_key C encrypted password =
    sbnd (as_value_error (b64_decode encrypted)) (\<lambda>blob.
    if length blob \<noteq> SALT_LEN + NONCE_LEN + 32 + 16 then Inl ValueError
    else
      let salt = take SALT_LEN blob; nonce = take NONCE_LEN (drop SALT_LEN blob);
          ciphertext_with_tag = drop (SALT_LEN + NONCE_LEN) blob
      in as_value_error (c_dec C (derive_key C password salt) nonce ciphertext_with_tag))"

section \<open>Round trips\<close>

lemma length_urandom: "urandom n s = (Inr bs, s') \<Longrightarrow> length bs = n"
  by (auto simp: urandom_def)

lemma urandom_Inr: "\<exists>bs. urandom n s = (Inr bs, s\<lparr>epos := epos s + n\<rparr>) \<and> length bs = n"
  by (simp add: urandom_def)

lemma b64_encode_not_Nil: "bs \<noteq> [] \<Longrightarrow> b64_encode bs \<noteq> []"
  by (cases bs rule: b64_encode.cases) auto

text \<open>
  What \<open>encrypt_message\<close> produces, and that any object with the same four fields decrypts to the text.
\<close>

lemma encrypt_message_sealed:
  assumes "crypto_ok C" "length priv = 32"
  obtains eph c n t where
    "encrypt_message C plaintext (c_pub C priv) s =
      (Inr [(''ephemeral_pubkey'', JStr eph), (''ciphertext'', JStr c), (''nonce'', JStr n),
            (''auth_tag'', JStr t)], s\<lparr>epos := epos s + 44\<rparr>)"
    and "eph \<noteq> []"
    and "\<And>payload. dget payload ''ephemeral_pubkey'' = Some (JStr eph) \<Longrightarrow>
      dget payload ''ciphertext'' = Some (JStr c) \<Longrightarrow> dget payload ''nonce'' = Some (JStr n) \<Longrightarrow>
      dget payload ''auth_tag'' = Some (JStr t) \<Longrightarrow> decrypt_message C payload priv = Inr plaintext"
proof -
  obtain e where e: "urandom KEY_LEN s = (Inr e, s\<lparr>epos := epos s + 32\<rparr>)" "length e = 32"
    using urandom_Inr [of KEY_LEN s] by (auto simp: KEY_LEN_def)
  obtain n where n: "urandom NONCE_LEN (s\<lparr>epos := epos s + 32\<rparr>) = (Inr n, s\<lparr>epos := epos s + 44\<rparr>)" "length n = 12"
    using urandom_Inr [of NONCE_LEN "s\<lparr>epos := epos s + 32\<rparr>"] by (auto simp: NONCE_LEN_def)
  obtain k where k: "c_exchange C e (c_pub C priv) = Inr k" "c_exchange C priv (c_pub C e) = Inr k"
    using assms(1,2) e(2) unfolding crypto_ok_def by blast
  let ?key = "c_hkdf C HKDF_SALT HKDF_INFO k"
  obtain c t where ct: "cut_tag (c_enc C ?key n (utf8_encode plaintext)) = (c, t)" by fastforce
  have t: "length t = 16" using cut_tag_length [OF ct] crypto_enc [OF assms(1)] by simp
  have app: "c @ t = c_enc C ?key n (utf8_encode plaintext)" using ct by (rule cut_tag_append)
  have "length (c_pub C e) = 32" using assms e(2) unfolding crypto_ok_def by blast
  then have ne: "b64_encode (c_pub C e) \<noteq> []" by (intro b64_encode_not_Nil) auto
  show ?thesis
    by (rule that [of "b64_encode (c_pub C e)" "b64_encode c" "b64_encode n" "b64_encode t"])
      (use e n k ct t app ne crypto_dec [OF assms(1)] in
        \<open>auto simp: encrypt_message_def decrypt_message_def prog_simps ecdh_and_derive_def b64_field_def
          item_str_def b64_roundtrip NONCE_LEN_def TAG_LEN_def as_value_error_def utf8_roundtrip\<close>)
qed

text \<open> A message encrypted to a public key is decrypted by the private key, whatever the text and the
  random bytes drawn. \<close>

theorem message_roundtrip:
  assumes "crypto_ok C" "length priv = 32"
    and "encrypt_message C plaintext (c_pub C priv) s = (r, s')"
  shows "\<exists>payload. r = Inr payload \<and> decrypt_message C payload priv = Inr plaintext"
  by (rule encrypt_message_sealed [OF assms(1,2), of plaintext s]) (use assms(3) in auto)

text \<open> A file chunk encrypted under a 32-byte key decrypts to the same bytes, its ciphertext has the length
  of the chunk, and a key, nonce or tag of the wrong length is rejected. \<close>

theorem chunk_roundtrip:
  assumes "crypto_ok C" "encrypt_chunk C data key s = (r, s')"
  shows "(if length key = 32
      then \<exists>c n t. r = Inr (c, n, t) \<and> length c = length data \<and> decrypt_chunk C c n t key = Inr data
      else r = Inl ValueError) \<and>
    (length key \<noteq> 32 \<or> length n' \<noteq> 12 \<or> length t' \<noteq> 16 \<longrightarrow> decrypt_chunk C c' n' t' key = Inl ValueError)"
proof -
  obtain n s1 where n: "urandom NONCE_LEN s = (Inr n, s1)" "length n = 12"
    using urandom_Inr [of NONCE_LEN s] by (auto simp: NONCE_LEN_def)
  obtain c t where ct: "cut_tag (c_enc C key n data) = (c, t)" by fastforce
  have "length t = 16" using cut_tag_length [OF ct] crypto_enc [OF assms(1)] by simp
  moreover have app: "c @ t = c_enc C key n data" using ct by (rule cut_tag_append)
  moreover have "length c = length data"
    using arg_cong [OF app, of length] calculation(1) crypto_enc [OF assms(1)] by simp
  ultimately have "length key = 32 \<longrightarrow> decrypt_chunk C c n t key = Inr data"
    using n crypto_dec [OF assms(1)] by (simp add: decrypt_chunk_def NONCE_LEN_def TAG_LEN_def as_value_error_def)
  moreover have "r = (if length key = 32 then Inr (c, n, t) else Inl ValueError)"
    using assms(2) n ct by (simp add: encrypt_chunk_def prog_simps split: if_splits)
  moreover have "length key \<noteq> 32 \<or> length n' \<noteq> 12 \<or> length t' \<noteq> 16 \<Longrightarrow> decrypt_chunk C c' n' t' key = Inl ValueError"
    by (auto simp: decrypt_chunk_def NONCE_LEN_def TAG_LEN_def)
  ultimately show ?thesis using \<open>length c = length data\<close> by auto
qed

lemma encrypt_private_key_unlocks:
  assumes "crypto_ok C" "length priv = 32"
  obtains blob s' where "encrypt_private_key C priv password s = (Inr blob, s')" "s' = s\<lparr>epos := epos s + 28\<rparr>"
    "blob \<noteq> []" "decrypt_private_key C blob password = Inr priv"
proof -
  obtain a where a: "urandom SALT_LEN s = (Inr a, s\<lparr>epos := epos s + 16\<rparr>)" "length a = 16"
    using urandom_Inr [of SALT_LEN s] by (auto simp: SALT_LEN_def)
  obtain n where n: "urandom NONCE_LEN (s\<lparr>epos := epos s + 16\<rparr>) = (Inr n, s\<lparr>epos := epos s + 28\<rparr>)" "length n = 12"
    using urandom_Inr [of NONCE_LEN "s\<lparr>epos := epos s + 16\<rparr>"] by (auto simp: NONCE_LEN_def)
  let ?blob = "b64_encode (a @ n @ c_enc C (derive_key C password a) n priv)"
  show ?thesis
    by (rule that [of ?blob "s\<lparr>epos := epos s + 28\<rparr>"])
      (use assms a n crypto_enc [OF assms(1)] crypto_dec [OF assms(1)] in
        \<open>auto simp: encrypt_private_key_def decrypt_private_key_def prog_simps b64_roundtrip
          SALT_LEN_def NONCE_LEN_def as_value_error_def Let_def intro!: b64_encode_not_Nil\<close>)
qed

lemma decrypt_private_key_length:
  "length blob \<noteq> 76 \<Longrightarrow> decrypt_private_key C (b64_encode blob) password = Inl ValueError"
  by (simp add: decrypt_private_key_def b64_roundtrip as_value_error_def SALT_LEN_def NONCE_LEN_def)

text \<open> The private key at rest: what \<open>encrypt_private_key\<close> stores under a password, that password recovers;
  a blob of any other length is rejected. \<close>

theorem private_key_roundtrip:
  assumes "crypto_ok C" "length priv = 32" "encrypt_private_key C priv password s = (r, s')"
  shows "(\<exists>text. r = Inr text \<and> decrypt_private_key C text password = Inr priv) \<and>
    (length blob \<noteq> 76 \<longrightarrow> decrypt_private_key C (b64_encode blob) password = Inl ValueError)"
  using encrypt_private_key_unlocks [OF assms(1,2), of password s] assms(3) decrypt_private_key_length
  by (metis prod.inject)

text \<open> Audio nonces are 12 bytes, distinct for all sequence numbers below 2^64, repeat after that, and
  depend on nothing but the number: the two parties of a call, who count from the same start under the same
  key, encrypt their \<open>i\<close>-th packets under one key and nonce. A packet decrypts to its frame. \<close>

theorem audio_nonces:
  assumes "crypto_ok C" "length key = 32"
  shows "length (seq_to_nonce i) = 12 \<and>
    (0 \<le> i \<and> i < 2 ^ 64 \<and> 0 \<le> j \<and> j < 2 ^ 64 \<longrightarrow> (seq_to_nonce i = seq_to_nonce j \<longleftrightarrow> i = j)) \<and>
    seq_to_nonce (i + 2 ^ 64) = seq_to_nonce i \<and>
    (\<exists>n c c'. encrypt_packet C frame key i = Inr (n, c) \<and> encrypt_packet C frame' key i = Inr (n, c') \<and>
       decrypt_packet C c n key = Inr frame)"
proof -
  have "le_bytes 8 (nat i) = le_bytes 8 (nat j) \<longleftrightarrow> i = j" if "0 \<le> i" "i < 2 ^ 64" "0 \<le> j" "j < 2 ^ 64"
    using that le_bytes_inj [of 8 "nat i" "nat j"] by (auto simp: nat_less_iff)
  then show ?thesis
    using assms crypto_dec [OF assms(1)]
    by (auto simp: seq_to_nonce_def encrypt_packet_def decrypt_packet_def NONCE_LEN_def as_value_error_def Let_def)
qed

section \<open>The hypotheses hold of concrete primitives\<close>

definition toy :: crypto where
  "toy = \<lparr>c_pub = (\<lambda>a. a), c_exchange = (\<lambda>a b. Inr (map2 (XOR) a b)), c_hkdf = (\<lambda>_ _ k. replicate 32 7),
     c_enc = (\<lambda>_ _ p. p @ replicate 16 0), c_dec = (\<lambda>_ _ c. Inr (take (length c - 16) c)),
     c_argon2 = (\<lambda>_ _. replicate 32 3)\<rparr>"

lemma map2_xor_commute: "map2 (XOR) a b = map2 (XOR) b (a :: bytes)"
proof (induction a arbitrary: b)
  case (Cons x a)
  then show ?case by (cases b) (auto simp: xor.commute)
qed simp

lemma toy_ok: "crypto_ok toy"
  using map2_xor_commute by (auto simp: crypto_ok_def toy_def)

definition toy_env :: env where
  "toy_env = \<lparr>clock = 0, mono = 0, entropy = byte_of, epos = 0\<rparr>"

lemma message_roundtrip_witness:
  "\<exists>payload. fst (encrypt_message toy ''hello'' (c_pub toy (replicate 32 9)) toy_env) = Inr payload \<and>
     decrypt_message toy payload (replicate 32 9) = Inr ''hello''"
proof -
  obtain r s' where e: "encrypt_message toy ''hello'' (c_pub toy (replicate 32 9)) toy_env = (r, s')" by fastforce
  show ?thesis using message_roundtrip [OF toy_ok _ e] e by simp
qed

lemma chunk_roundtrip_witness:
  "\<exists>c n t. fst (encrypt_chunk toy [1, 2, 3] (replicate 32 1) toy_env) = Inr (c, n, t) \<and>
     decrypt_chunk toy c n t (replicate 32 1) = Inr [1, 2, 3]"
proof -
  obtain r s' where e: "encrypt_chunk toy [1, 2, 3] (replicate 32 1) toy_env = (r, s')" by fastforce
  show ?thesis using chunk_roundtrip [OF toy_ok e, of "[]" "[]" "[]"] e by auto
qed

lemma private_key_roundtrip_witness:
  "\<exists>text. fst (encrypt_private_key toy (replicate 32 9) ''pw'' toy_env) = Inr text \<and>
     decrypt_private_key toy text ''pw'' = Inr (replicate 32 9)"
proof -
  obtain r s' where e: "encrypt_private_key toy (replicate 32 9) ''pw'' toy_env = (r, s')" by fastforce
  show ?thesis using private_key_roundtrip [OF toy_ok _ e, of "[]"] e by auto
qed

lemma audio_nonces_witness:
  "seq_to_nonce 0 \<noteq> seq_to_nonce 1 \<and> (\<exists>n c c'. encrypt_packet toy [5] (replicate 32 1) 0 = Inr (n, c) \<and>
     encrypt_packet toy [6] (replicate 32 1) 0 = Inr (n, c'))"
  using audio_nonces [OF toy_ok, of "replicate 32 1" 0 1 "[5]" "[6]"] by auto

end
