(* ===== verification/Fingerprint.thy ===== *)
theory Fingerprint
  imports Crypto "HOL-Library.List_Lexorder"
begin

text \<open>
  Safety numbers and key fingerprints (\<^verbatim>\<open>client/crypto/fingerprint.py\<close>). Byte strings are ordered
  lexicographically, as Python orders \<^verbatim>\<open>bytes\<close>.
\<close>

definition pubkey_fingerprint :: "bytes \<Rightarrow> string" where
  "pubkey_fingerprint public_key = sha256_hex public_key"

text \<open>Groups of \<open>n\<close> characters joined by spaces.\<close>

function groups :: "nat \<Rightarrow> string \<Rightarrow> string list" where
  "groups n s = (if s = [] \<or> n = 0 then [] else take n s # groups n (drop n s))"
  by pat_completeness auto
termination by (relation "measure (\<lambda>(n, s). length s)") auto

declare groups.simps [simp del]

fun join_spaces :: "string list \<Rightarrow> string" where
  "join_spaces [] = []"
| "join_spaces [g] = g"
| "join_spaces (g # gs) = g @ '' '' @ join_spaces gs"

definition format_fingerprint :: "string \<Rightarrow> string" where
  "format_fingerprint hex_fp = join_spaces (groups 4 hex_fp)"

definition hex_to_nat :: "string \<Rightarrow> nat" where
  "hex_to_nat s = foldl (\<lambda>a c. a * 16 + (case hex_val c of Some d \<Rightarrow> d | None \<Rightarrow> 0)) 0 s"

definition safety_value :: "bytes \<Rightarrow> bytes \<Rightarrow> nat" where
  "safety_value my_pub their_pub = (case sort [my_pub, their_pub] of
     [first, second] \<Rightarrow> hex_to_nat (take 16 (sha256_hex (first @ second))) | _ \<Rightarrow> 0)"

definition safety_number :: "bytes \<Rightarrow> bytes \<Rightarrow> string" where
  "safety_number my_pub their_pub =
     join_spaces (groups 4 (take 20 (zfill 20 (nat_str (safety_value my_pub their_pub)))))"

section \<open>Lemmas\<close>

lemma hex_to_nat_bound: "hex_to_nat s < 16 ^ length s"
proof (induction s rule: rev_induct)
  case (snoc c s)
  have d: "(case hex_val c of Some d \<Rightarrow> d | None \<Rightarrow> 0) < 16"
    by (auto simp: hex_val_def Let_def)
  have "hex_to_nat s * 16 + (case hex_val c of Some d \<Rightarrow> d | None \<Rightarrow> 0) < (hex_to_nat s + 1) * 16"
    using d by simp
  also have "\<dots> \<le> 16 ^ length s * 16" using snoc by (intro mult_right_mono) auto
  finally show ?case by (simp add: hex_to_nat_def)
qed (simp add: hex_to_nat_def)

lemma safety_value_bound: "safety_value a b < 2 ^ 64"
proof -
  have "hex_to_nat (take 16 (sha256_hex x)) < 2 ^ 64" for x
    using hex_to_nat_bound [of "take 16 (sha256_hex x)"] by simp
  then show ?thesis by (auto simp: safety_value_def split: list.split)
qed

lemma digits_length: "length (zfill 20 (nat_str (safety_value a b))) = 20"
proof -
  have "safety_value a b < 10 ^ 20" using safety_value_bound [of a b] by simp
  then show ?thesis by (intro length_zfill length_nat_str) auto
qed

lemma groups_step: "s \<noteq> [] \<Longrightarrow> groups 4 s = take 4 s # groups 4 (drop 4 s)"
  by (subst groups.simps) simp

lemma groups_4:
  assumes "length s = 20"
  shows "groups 4 s = [take 4 s, take 4 (drop 4 s), take 4 (drop 8 s), take 4 (drop 12 s), take 4 (drop 16 s)]"
proof -
  have "groups 4 (drop k s) = take 4 (drop k s) # groups 4 (drop (k + 4) s)" if "k < 20" for k
    using that assms groups_step [of "drop k s"] by (simp add: add.commute)
  from this [of 0] this [of 4] this [of 8] this [of 12] this [of 16]
  have "groups 4 s = [take 4 s, take 4 (drop 4 s), take 4 (drop 8 s), take 4 (drop 12 s), take 4 (drop 16 s)]
      @ groups 4 (drop 20 s)" by simp
  moreover have "groups 4 (drop 20 s) = []" using assms by (subst groups.simps) simp
  ultimately show ?thesis by simp
qed

lemma take_groups: "length x = 20 \<Longrightarrow>
    x = take 4 x @ take 4 (drop 4 x) @ take 4 (drop 8 x) @ take 4 (drop 12 x) @ take 4 (drop 16 x)"
proof -
  assume "length x = 20"
  have "take 4 (drop k x) @ drop (k + 4) x = drop k x" for k
    by (metis add.commute append_take_drop_id drop_drop)
  from this [of 0] this [of 4] this [of 8] this [of 12] this [of 16] show ?thesis
    using \<open>length x = 20\<close> by simp
qed

lemma join_groups_inj:
  assumes "length s = 20" "length t = 20" "join_spaces (groups 4 s) = join_spaces (groups 4 t)"
  shows "s = t"
proof -
  have "take 4 s = take 4 t" "take 4 (drop 4 s) = take 4 (drop 4 t)" "take 4 (drop 8 s) = take 4 (drop 8 t)"
    "take 4 (drop 12 s) = take 4 (drop 12 t)" "take 4 (drop 16 s) = take 4 (drop 16 t)"
    using assms by (simp_all add: groups_4)
  then show ?thesis using take_groups [OF assms(1)] take_groups [OF assms(2)] by metis
qed

lemma padded_inj:
  assumes "length x = 20" "length y = 20"
    and "join_spaces (groups 4 (take 20 x)) = join_spaces (groups 4 (take 20 y))"
  shows "x = y"
proof -
  have "take 20 x = x" "take 20 y = y" using assms(1,2) by (auto intro: take_all)
  then show ?thesis using join_groups_inj [OF assms(1,2)] assms(3) by argo
qed

lemma safety_number_commute: "safety_number a b = safety_number b a"
proof -
  have "sort [a, b] = sort [b, a]" by (auto simp: not_less intro: antisym)
  then show ?thesis by (simp add: safety_number_def safety_value_def)
qed

lemma safety_number_length: "length (safety_number a b) = 24"
proof -
  define z where "z = zfill 20 (nat_str (safety_value a b))"
  have "length z = 20" by (simp add: z_def digits_length)
  then show ?thesis unfolding safety_number_def z_def [symmetric] by (simp add: groups_4)
qed

section \<open>Properties\<close>

text \<open> Both parties of a conversation see the same safety number, whichever side computes it; it has five
  groups of four digits, and two pairs of keys show the same number exactly when the first 64 bits of the
  hashes of their sorted keys agree. \<close>

theorem safety_number_agrees:
  "safety_number a b = safety_number b a \<and> length (safety_number a b) = 24 \<and>
   (safety_number a b = safety_number c d \<longleftrightarrow> safety_value a b = safety_value c d)"
proof (intro conjI safety_number_commute safety_number_length)
  have "safety_value a b = safety_value c d" if "safety_number a b = safety_number c d"
  proof -
    have "zfill 20 (nat_str (safety_value a b)) = zfill 20 (nat_str (safety_value c d))"
      by (rule padded_inj [OF digits_length digits_length that [unfolded safety_number_def]])
    from arg_cong [OF this, of dec_val] show ?thesis by simp
  qed
  then show "safety_number a b = safety_number c d \<longleftrightarrow> safety_value a b = safety_value c d"
    unfolding safety_number_def by metis
qed

end
