(* ===== verification/Client_Db.thy ===== *)
theory Client_Db
  imports Fingerprint "HOL-Library.Char_ord" "HOL-Library.Multiset"
begin

text \<open>
  The client's SQLite database (\<^verbatim>\<open>client/db/\<close>: \<^verbatim>\<open>schema.py\<close>, \<^verbatim>\<open>messages.py\<close>, \<^verbatim>\<open>contacts.py\<close>,
  \<^verbatim>\<open>files.py\<close>, \<^verbatim>\<open>calls.py\<close>, \<^verbatim>\<open>rooms.py\<close>): one row record per table, a table as the list of its rows in
  \<^verbatim>\<open>rowid\<close> order, one function per statement. \<^verbatim>\<open>ORDER BY ... DESC\<close> is a stable descending sort; text is
  compared by code point. A statement whose source name another theory uses has a suffix
  (\<open>save_message\<close> is \<^verbatim>\<open>messages.save\<close>, \<open>get_message_history\<close> is \<^verbatim>\<open>messages.get_history\<close>).
\<close>

section \<open>Tables\<close>

record account_row =
  a_id :: string
  a_username :: string
  a_private_key :: "string option"
  a_public_key :: "string option"
  a_server_url :: string
  a_session_token :: "string option"

record contact_row =
  ct_username :: string
  ct_public_key :: "string option"
  ct_fingerprint :: "string option"
  ct_verified :: int
  ct_added_at :: int
  ct_status :: string

record message_row =
  msg_id :: string
  msg_from_user :: string
  msg_to_user :: string
  msg_plaintext :: "string option"
  msg_timestamp :: int
  msg_delivered :: int
  msg_read_status :: int
  msg_edited :: int
  msg_deleted :: int
  msg_reply_to :: "string option"

record local_room_row =
  lr_id :: string
  lr_name :: string
  lr_last_message :: "string option"
  lr_unread_count :: int

record local_file_row =
  lf_id :: string
  lf_name :: string
  lf_size :: int
  lf_total_chunks :: int
  lf_from_user :: string
  lf_to_user :: string
  lf_local_path :: string
  lf_timestamp :: int
  lf_direction :: string
  lf_received_chunks :: int
  lf_complete :: int
  lf_file_key :: "string option"

record local_call_row =
  lc_id :: string
  lc_from_user :: string
  lc_to_user :: string
  lc_started_at :: int
  lc_ended_at :: "int option"
  lc_duration :: "int option"
  lc_status :: string
  lc_relay_used :: int

record client_db =
  account :: "account_row list"
  contacts :: "contact_row list"
  messages :: "message_row list"
  local_rooms :: "local_room_row list"
  local_files :: "local_file_row list"
  local_calls :: "local_call_row list"

text \<open>\<^verbatim>\<open>init_db\<close> on a new file, and \<^verbatim>\<open>clear_local_data\<close>.\<close>

definition init_client_db :: client_db where
  "init_client_db = \<lparr>account = [], contacts = [], messages = [], local_rooms = [], local_files = [],
     local_calls = []\<rparr>"

definition clear_local_data :: "client_db \<Rightarrow> client_db" where
  "clear_local_data d = d\<lparr>account := [], contacts := [], messages := [], local_rooms := [],
     local_files := [], local_calls := []\<rparr>"

section \<open>Selecting and updating rows\<close>

definition update_rows :: "('r \<Rightarrow> bool) \<Rightarrow> ('r \<Rightarrow> 'r) \<Rightarrow> 'r list \<Rightarrow> 'r list" where
  "update_rows P f rows = map (\<lambda>r. if P r then f r else r) rows"

text \<open>\<^verbatim>\<open>INSERT OR IGNORE\<close> on a table with a primary key.\<close>

definition insert_or_ignore :: "('r \<Rightarrow> string) \<Rightarrow> 'r \<Rightarrow> 'r list \<Rightarrow> 'r list" where
  "insert_or_ignore key r rows = (if key r \<in> key ` set rows then rows else rows @ [r])"

text \<open>\<^verbatim>\<open>ORDER BY f DESC\<close>, stable, and \<^verbatim>\<open>LIMIT\<close>, where a negative bound is none.\<close>

definition order_desc :: "('r \<Rightarrow> 'k::linorder) \<Rightarrow> 'r list \<Rightarrow> 'r list" where
  "order_desc f rows = rev (sort_key f (rev rows))"

definition limit_rows :: "int \<Rightarrow> 'r list \<Rightarrow> 'r list" where
  "limit_rows n rows = (if n < 0 then rows else take (nat n) rows)"

section \<open>Messages\<close>

definition save_message ::
  "string \<Rightarrow> string \<Rightarrow> string \<Rightarrow> string option \<Rightarrow> int \<Rightarrow> int \<Rightarrow> client_db \<Rightarrow> client_db" where
  "save_message i from_user to_user plaintext ts delivered d = d\<lparr>messages := insert_or_ignore msg_id
     \<lparr>msg_id = i, msg_from_user = from_user, msg_to_user = to_user, msg_plaintext = plaintext,
      msg_timestamp = ts, msg_delivered = delivered, msg_read_status = 0, msg_edited = 0,
      msg_deleted = 0, msg_reply_to = None\<rparr> (messages d)\<rparr>"

definition mark_delivered :: "string \<Rightarrow> client_db \<Rightarrow> client_db" where
  "mark_delivered i d = d\<lparr>messages :=
     update_rows (\<lambda>m. msg_id m = i) (\<lambda>m. m\<lparr>msg_delivered := 1\<rparr>) (messages d)\<rparr>"

definition mark_read_by_id :: "string \<Rightarrow> client_db \<Rightarrow> client_db" where
  "mark_read_by_id i d = d\<lparr>messages :=
     update_rows (\<lambda>m. msg_id m = i) (\<lambda>m. m\<lparr>msg_read_status := 1\<rparr>) (messages d)\<rparr>"

definition edit_message :: "string \<Rightarrow> string option \<Rightarrow> client_db \<Rightarrow> client_db" where
  "edit_message i plaintext d = d\<lparr>messages := update_rows (\<lambda>m. msg_id m = i)
     (\<lambda>m. m\<lparr>msg_plaintext := plaintext, msg_edited := 1\<rparr>) (messages d)\<rparr>"

definition delete_message :: "string \<Rightarrow> client_db \<Rightarrow> client_db" where
  "delete_message i d = d\<lparr>messages :=
     update_rows (\<lambda>m. msg_id m = i) (\<lambda>m. m\<lparr>msg_deleted := 1\<rparr>) (messages d)\<rparr>"

definition in_conversation :: "string \<Rightarrow> string \<Rightarrow> message_row \<Rightarrow> bool" where
  "in_conversation peer self_user m \<longleftrightarrow>
     (msg_from_user m = self_user \<and> msg_to_user m = peer) \<or>
     (msg_from_user m = peer \<and> msg_to_user m = self_user)"

text \<open>\<^verbatim>\<open>ORDER BY timestamp DESC, rowid DESC LIMIT ?\<close>, reversed.\<close>

definition latest_messages :: "int \<Rightarrow> message_row list \<Rightarrow> message_row list" where
  "latest_messages limit rows = rev (limit_rows limit (rev (sort_key msg_timestamp rows)))"

definition get_message_history :: "string \<Rightarrow> string \<Rightarrow> int \<Rightarrow> client_db \<Rightarrow> message_row list" where
  "get_message_history peer self_user limit d =
     latest_messages limit (filter (in_conversation peer self_user) (messages d))"

definition get_room_history :: "string \<Rightarrow> int \<Rightarrow> client_db \<Rightarrow> message_row list" where
  "get_room_history room_id limit d =
     latest_messages limit (filter (\<lambda>m. msg_to_user m = room_id) (messages d))"

definition unread_from :: "string \<Rightarrow> string \<Rightarrow> message_row \<Rightarrow> bool" where
  "unread_from peer self_user m \<longleftrightarrow>
     msg_from_user m = peer \<and> msg_to_user m = self_user \<and> msg_read_status m = 0"

definition mark_read :: "string \<Rightarrow> string \<Rightarrow> client_db \<Rightarrow> client_db" where
  "mark_read peer self_user d = d\<lparr>messages :=
     update_rows (unread_from peer self_user) (\<lambda>m. m\<lparr>msg_read_status := 1\<rparr>) (messages d)\<rparr>"

definition unread_count :: "string \<Rightarrow> string \<Rightarrow> client_db \<Rightarrow> nat" where
  "unread_count peer self_user d = length (filter (unread_from peer self_user) (messages d))"

section \<open>The account\<close>

definition get_account :: "client_db \<Rightarrow> account_row option" where
  "get_account d = (case account d of [] \<Rightarrow> None | a # _ \<Rightarrow> Some a)"

definition save_account :: "string \<Rightarrow> string \<Rightarrow> string \<Rightarrow> string \<Rightarrow> string option \<Rightarrow> string option
    \<Rightarrow> client_db \<Rightarrow> client_db" where
  "save_account uid username server_url token private_key public_key d = d\<lparr>account :=
     [\<lparr>a_id = uid, a_username = username, a_private_key = private_key, a_public_key = public_key,
       a_server_url = server_url, a_session_token = Some token\<rparr>]\<rparr>"

definition update_token :: "string \<Rightarrow> client_db \<Rightarrow> client_db" where
  "update_token token d =
     d\<lparr>account := map (\<lambda>a. a\<lparr>a_session_token := Some token\<rparr>) (account d)\<rparr>"

definition clear_session_token :: "client_db \<Rightarrow> client_db" where
  "clear_session_token d = d\<lparr>account := map (\<lambda>a. a\<lparr>a_session_token := None\<rparr>) (account d)\<rparr>"

definition store_my_keys :: "string \<Rightarrow> string \<Rightarrow> client_db \<Rightarrow> client_db" where
  "store_my_keys private_key_encrypted public_key_b64 d = d\<lparr>account := map (\<lambda>a.
     a\<lparr>a_private_key := Some private_key_encrypted, a_public_key := Some public_key_b64\<rparr>) (account d)\<rparr>"

definition get_my_keys :: "client_db \<Rightarrow> string option \<times> string option" where
  "get_my_keys d = (case get_account d of None \<Rightarrow> (None, None)
     | Some a \<Rightarrow> (a_private_key a, a_public_key a))"

section \<open>Contacts\<close>

definition add_contact :: "string \<Rightarrow> string option \<Rightarrow> int \<Rightarrow> client_db \<Rightarrow> client_db" where
  "add_contact username public_key ts d = d\<lparr>contacts := insert_or_ignore ct_username
     \<lparr>ct_username = username, ct_public_key = public_key, ct_fingerprint = None, ct_verified = 0,
      ct_added_at = ts, ct_status = ''offline''\<rparr> (contacts d)\<rparr>"

definition set_status :: "string \<Rightarrow> string \<Rightarrow> client_db \<Rightarrow> client_db" where
  "set_status username status d = d\<lparr>contacts :=
     update_rows (\<lambda>c. ct_username c = username) (\<lambda>c. c\<lparr>ct_status := status\<rparr>) (contacts d)\<rparr>"

text \<open>\<^verbatim>\<open>ORDER BY status DESC, username ASC\<close>.\<close>

definition all_contacts :: "client_db \<Rightarrow> contact_row list" where
  "all_contacts d = order_desc ct_status (sort_key ct_username (contacts d))"

definition key_fingerprint :: "string \<Rightarrow> string option" where
  "key_fingerprint public_key_b64 = (case b64_decode public_key_b64 of
     Inl e \<Rightarrow> None | Inr bs \<Rightarrow> Some (pubkey_fingerprint bs))"

definition store_public_key :: "string \<Rightarrow> string \<Rightarrow> int \<Rightarrow> client_db \<Rightarrow> client_db" where
  "store_public_key username public_key_b64 ts d =
    (let d1 = add_contact username None ts d
     in d1\<lparr>contacts := update_rows (\<lambda>c. ct_username c = username)
       (\<lambda>c. c\<lparr>ct_public_key := Some public_key_b64,
         ct_fingerprint := key_fingerprint public_key_b64\<rparr>) (contacts d1)\<rparr>)"

definition find_contact :: "string \<Rightarrow> client_db \<Rightarrow> contact_row option" where
  "find_contact username d = List.find (\<lambda>c. ct_username c = username) (contacts d)"

definition contact_public_key :: "string \<Rightarrow> client_db \<Rightarrow> string option" where
  "contact_public_key username d = Option.bind (find_contact username d) ct_public_key"

definition set_verified :: "string \<Rightarrow> bool \<Rightarrow> client_db \<Rightarrow> client_db" where
  "set_verified username verified d = d\<lparr>contacts := update_rows (\<lambda>c. ct_username c = username)
     (\<lambda>c. c\<lparr>ct_verified := (if verified then 1 else 0)\<rparr>) (contacts d)\<rparr>"

text \<open>\<^verbatim>\<open>DELETE FROM contacts WHERE username=?\<close>, as the router of \<^verbatim>\<open>ONLINE_LIST\<close> runs it.\<close>

definition delete_contact :: "string \<Rightarrow> client_db \<Rightarrow> client_db" where
  "delete_contact username d = d\<lparr>contacts := filter (\<lambda>c. ct_username c \<noteq> username) (contacts d)\<rparr>"

section \<open>File transfers\<close>

text \<open>
  \<^verbatim>\<open>INSERT OR IGNORE ... ON CONFLICT(id) DO UPDATE\<close>: SQLite runs the update on a conflict of the key.
\<close>

definition save_file :: "string \<Rightarrow> string \<Rightarrow> int \<Rightarrow> int \<Rightarrow> string \<Rightarrow> string \<Rightarrow> string \<Rightarrow> int \<Rightarrow> string
    \<Rightarrow> string option \<Rightarrow> client_db \<Rightarrow> client_db" where
  "save_file i name sz chunk_total from_user to_user path ts direction file_key d = d\<lparr>local_files :=
    (if i \<in> lf_id ` set (local_files d)
     then update_rows (\<lambda>f. lf_id f = i)
       (\<lambda>f. f\<lparr>lf_name := name, lf_size := sz, lf_total_chunks := chunk_total, lf_from_user := from_user,
         lf_to_user := to_user, lf_local_path := path, lf_timestamp := ts, lf_direction := direction,
         lf_file_key := (case file_key of None \<Rightarrow> lf_file_key f | Some k \<Rightarrow> Some k)\<rparr>) (local_files d)
     else local_files d @ [\<lparr>lf_id = i, lf_name = name, lf_size = sz, lf_total_chunks = chunk_total,
         lf_from_user = from_user, lf_to_user = to_user, lf_local_path = path, lf_timestamp = ts,
         lf_direction = direction, lf_received_chunks = 0, lf_complete = 0,
         lf_file_key = file_key\<rparr>])\<rparr>"

definition get_recent_files :: "int \<Rightarrow> client_db \<Rightarrow> local_file_row list" where
  "get_recent_files limit d = limit_rows limit (order_desc lf_timestamp (local_files d))"

definition get_local_file :: "string \<Rightarrow> client_db \<Rightarrow> local_file_row option" where
  "get_local_file i d = List.find (\<lambda>f. lf_id f = i) (local_files d)"

text \<open>
  \<^verbatim>\<open>update_file(id, **kwargs)\<close>: the columns the client's handlers set.
\<close>

datatype file_column = Received_chunks int | Complete int

primrec set_column :: "file_column \<Rightarrow> local_file_row \<Rightarrow> local_file_row" where
  "set_column (Received_chunks n) f = f\<lparr>lf_received_chunks := n\<rparr>"
| "set_column (Complete n) f = f\<lparr>lf_complete := n\<rparr>"

definition update_file :: "string \<Rightarrow> file_column list \<Rightarrow> client_db \<Rightarrow> exn + client_db" where
  "update_file i kwargs d = (if kwargs = [] then Inl ValueError
     else Inr (d\<lparr>local_files := update_rows (\<lambda>f. lf_id f = i) (fold set_column kwargs) (local_files d)\<rparr>))"

definition get_pending_receives :: "string \<Rightarrow> client_db \<Rightarrow> local_file_row list" where
  "get_pending_receives self_user d = sort_key lf_timestamp (filter (\<lambda>f. lf_to_user f = self_user \<and>
     lf_direction f = ''recv'' \<and> lf_complete f = 0) (local_files d))"

definition mark_complete :: "string \<Rightarrow> string \<Rightarrow> client_db \<Rightarrow> client_db" where
  "mark_complete i path d = d\<lparr>local_files := update_rows (\<lambda>f. lf_id f = i)
     (\<lambda>f. f\<lparr>lf_complete := 1, lf_local_path := path\<rparr>) (local_files d)\<rparr>"

section \<open>Calls and rooms\<close>

definition save_call :: "string \<Rightarrow> string \<Rightarrow> string \<Rightarrow> int \<Rightarrow> string \<Rightarrow> client_db \<Rightarrow> client_db" where
  "save_call i from_user to_user started_at status d = d\<lparr>local_calls := insert_or_ignore lc_id
     \<lparr>lc_id = i, lc_from_user = from_user, lc_to_user = to_user, lc_started_at = started_at,
      lc_ended_at = None, lc_duration = None, lc_status = status, lc_relay_used = 0\<rparr> (local_calls d)\<rparr>"

definition end_local_call :: "string \<Rightarrow> int \<Rightarrow> int \<Rightarrow> string \<Rightarrow> bool \<Rightarrow> client_db \<Rightarrow> client_db" where
  "end_local_call i ended_at duration status relay_used d = d\<lparr>local_calls :=
     update_rows (\<lambda>c. lc_id c = i) (\<lambda>c. c\<lparr>lc_ended_at := Some ended_at, lc_duration := Some duration,
       lc_status := status, lc_relay_used := (if relay_used then 1 else 0)\<rparr>) (local_calls d)\<rparr>"

definition get_call_history :: "string \<Rightarrow> int \<Rightarrow> client_db \<Rightarrow> local_call_row list" where
  "get_call_history self_user limit d = limit_rows limit (order_desc lc_started_at
     (filter (\<lambda>c. lc_from_user c = self_user \<or> lc_to_user c = self_user) (local_calls d)))"

definition save_room :: "string \<Rightarrow> string \<Rightarrow> string option \<Rightarrow> client_db \<Rightarrow> client_db" where
  "save_room room_id name last_message d = d\<lparr>local_rooms :=
    (if room_id \<in> lr_id ` set (local_rooms d)
     then update_rows (\<lambda>r. lr_id r = room_id) (\<lambda>r. r\<lparr>lr_name := name, lr_last_message :=
         (case last_message of None \<Rightarrow> lr_last_message r | Some t \<Rightarrow> Some t)\<rparr>) (local_rooms d)
     else local_rooms d @ [\<lparr>lr_id = room_id, lr_name = name, lr_last_message = last_message,
         lr_unread_count = 0\<rparr>])\<rparr>"

definition delete_room :: "string \<Rightarrow> client_db \<Rightarrow> client_db" where
  "delete_room room_id d = d\<lparr>local_rooms := filter (\<lambda>r. lr_id r \<noteq> room_id) (local_rooms d)\<rparr>"

definition all_rooms :: "client_db \<Rightarrow> local_room_row list" where
  "all_rooms d = sort_key lr_name (local_rooms d)"

definition update_last_message :: "string \<Rightarrow> string option \<Rightarrow> client_db \<Rightarrow> client_db" where
  "update_last_message room_id txt d = d\<lparr>local_rooms := update_rows (\<lambda>r. lr_id r = room_id)
     (\<lambda>r. r\<lparr>lr_last_message := txt\<rparr>) (local_rooms d)\<rparr>"

section \<open>The invariant\<close>

text \<open>
  The declared keys, at most one account, and every stored fingerprint is the one of the stored key.
\<close>

definition fingerprint_ok :: "contact_row \<Rightarrow> bool" where
  "fingerprint_ok c \<longleftrightarrow> ct_fingerprint c = None \<or>
     ct_fingerprint c = Option.bind (ct_public_key c) key_fingerprint"

definition local_ok :: "client_db \<Rightarrow> bool" where
  "local_ok d \<longleftrightarrow> length (account d) \<le> 1 \<and> distinct (map ct_username (contacts d)) \<and>
     distinct (map msg_id (messages d)) \<and> distinct (map lr_id (local_rooms d)) \<and>
     distinct (map lf_id (local_files d)) \<and> distinct (map lc_id (local_calls d)) \<and>
     list_all fingerprint_ok (contacts d)"

named_theorems local_intro \<comment> \<open>statements that keep the invariant\<close>

lemma map_update_rows [simp]: "(\<And>r. key (f r) = key r) \<Longrightarrow> map key (update_rows P f rows) = map key rows"
  by (simp add: update_rows_def)

lemma set_update_rows: "set (update_rows P f rows) = (\<lambda>r. if P r then f r else r) ` set rows"
  by (simp add: update_rows_def)

lemma list_all_update_rows:
  "list_all Q rows \<Longrightarrow> (\<And>r. Q r \<Longrightarrow> P r \<Longrightarrow> Q (f r)) \<Longrightarrow> list_all Q (update_rows P f rows)"
  by (induction rows) (auto simp: update_rows_def)

lemma distinct_insert_or_ignore:
  "distinct (map key rows) \<Longrightarrow> distinct (map key (insert_or_ignore key r rows))"
  by (simp add: insert_or_ignore_def)

lemma distinct_map_filter: "distinct (map key rows) \<Longrightarrow> distinct (map key (filter P rows))"
  by (induction rows) auto

lemma list_all_insert_or_ignore: "list_all Q rows \<Longrightarrow> Q r \<Longrightarrow> list_all Q (insert_or_ignore key r rows)"
  by (simp add: insert_or_ignore_def)

lemma list_all_filter: "list_all Q rows \<Longrightarrow> list_all Q (filter P rows)"
  by (auto simp: list_all_iff)

lemma local_ok_init [simp]: "local_ok init_client_db"
  by (simp add: local_ok_def init_client_db_def)

lemma local_ok_clear [local_intro]: "local_ok d \<Longrightarrow> local_ok (clear_local_data d)"
  by (simp add: local_ok_def clear_local_data_def)

lemma set_column_id [simp]: "lf_id (fold set_column kwargs f) = lf_id f"
proof (induction kwargs arbitrary: f)
  case (Cons c kwargs)
  then show ?case by (cases c) simp_all
qed simp

lemma local_ok_messages [local_intro]:
  assumes "local_ok d"
  shows "local_ok (save_message i u v txt ts n d)" "local_ok (mark_delivered i d)"
    "local_ok (mark_read_by_id i d)" "local_ok (edit_message i txt d)" "local_ok (delete_message i d)"
    "local_ok (mark_read p u d)"
  using assms by (simp_all add: local_ok_def save_message_def mark_delivered_def mark_read_by_id_def
      edit_message_def delete_message_def mark_read_def distinct_insert_or_ignore)

lemma local_ok_account [local_intro]:
  assumes "local_ok d"
  shows "local_ok (save_account i u s t pk k d)" "local_ok (update_token t d)"
    "local_ok (clear_session_token d)" "local_ok (store_my_keys p q d)"
  using assms by (simp_all add: local_ok_def save_account_def update_token_def clear_session_token_def
      store_my_keys_def)

lemma fingerprint_ok_updates [simp]:
  "fingerprint_ok (c\<lparr>ct_status := st\<rparr>) = fingerprint_ok c"
  "fingerprint_ok (c\<lparr>ct_verified := v\<rparr>) = fingerprint_ok c"
  by (simp_all add: fingerprint_ok_def)

lemma local_ok_add_contact: "local_ok d \<Longrightarrow> local_ok (add_contact u k ts d)"
  by (simp add: local_ok_def add_contact_def distinct_insert_or_ignore list_all_insert_or_ignore
      fingerprint_ok_def)

lemma local_ok_store_public_key: "local_ok d \<Longrightarrow> local_ok (store_public_key u k ts d)"
proof -
  assume "local_ok d"
  then have "local_ok (add_contact u None ts d)" by (rule local_ok_add_contact)
  then show ?thesis
    by (simp add: store_public_key_def Let_def local_ok_def list_all_update_rows fingerprint_ok_def)
qed

lemma local_ok_contacts [local_intro]:
  assumes "local_ok d"
  shows "local_ok (add_contact u k ts d)" "local_ok (set_status u st d)"
    "local_ok (store_public_key u key ts d)" "local_ok (set_verified u b d)" "local_ok (delete_contact u d)"
proof -
  show "local_ok (add_contact u k ts d)" "local_ok (store_public_key u key ts d)"
    using assms by (simp_all add: local_ok_add_contact local_ok_store_public_key)
  show "local_ok (set_status u st d)" "local_ok (set_verified u b d)" "local_ok (delete_contact u d)"
    using assms by (auto simp: local_ok_def set_status_def set_verified_def delete_contact_def
        intro!: distinct_map_filter list_all_filter list_all_update_rows)
qed

lemma local_ok_files [local_intro]:
  assumes "local_ok d"
  shows "local_ok (save_file i n sz tot u v p ts dir k d)" "local_ok (mark_complete i p d)"
  using assms by (simp_all add: local_ok_def save_file_def mark_complete_def)

lemma local_ok_update_file [local_intro]: "local_ok d \<Longrightarrow> update_file i kw d = Inr d' \<Longrightarrow> local_ok d'"
  by (auto simp: local_ok_def update_file_def split: if_splits)

lemma local_ok_calls_rooms [local_intro]:
  assumes "local_ok d"
  shows "local_ok (save_call i u v t st d)" "local_ok (end_local_call i t l st b d)"
    "local_ok (save_room r n m d)" "local_ok (delete_room r d)" "local_ok (update_last_message r txt d)"
  using assms by (simp_all add: local_ok_def save_call_def end_local_call_def save_room_def
      delete_room_def update_last_message_def distinct_insert_or_ignore distinct_map_filter)

section \<open>Statements as steps\<close>

inductive local_step :: "client_db \<Rightarrow> client_db \<Rightarrow> bool" where
  local_clear: "local_step d (clear_local_data d)"
| local_save_message: "local_step d (save_message i u v txt ts n d)"
| local_mark_delivered: "local_step d (mark_delivered i d)"
| local_mark_read_by_id: "local_step d (mark_read_by_id i d)"
| local_edit_message: "local_step d (edit_message i txt d)"
| local_delete_message: "local_step d (delete_message i d)"
| local_mark_read: "local_step d (mark_read p u d)"
| local_save_account: "local_step d (save_account i u s t pk k d)"
| local_update_token: "local_step d (update_token t d)"
| local_clear_token: "local_step d (clear_session_token d)"
| local_store_my_keys: "local_step d (store_my_keys p q d)"
| local_add_contact: "local_step d (add_contact u ko ts d)"
| local_set_status: "local_step d (set_status u st d)"
| local_store_public_key: "local_step d (store_public_key u key ts d)"
| local_set_verified: "local_step d (set_verified u b d)"
| local_delete_contact: "local_step d (delete_contact u d)"
| local_save_file: "local_step d (save_file i nm sz tot u v p ts dir ko d)"
| local_update_file: "update_file i kw d = Inr d' \<Longrightarrow> local_step d d'"
| local_mark_complete: "local_step d (mark_complete i p d)"
| local_save_call: "local_step d (save_call i u v ts st d)"
| local_end_call: "local_step d (end_local_call i ts du st b d)"
| local_save_room: "local_step d (save_room r nm m d)"
| local_delete_room: "local_step d (delete_room r d)"
| local_update_last_message: "local_step d (update_last_message r ko d)"

lemma local_ok_step: "local_step d d' \<Longrightarrow> local_ok d \<Longrightarrow> local_ok d'"
  by (erule local_step.cases) (auto intro: local_intro)

lemma local_ok_steps: "local_step\<^sup>*\<^sup>* d d' \<Longrightarrow> local_ok d \<Longrightarrow> local_ok d'"
  by (induction rule: rtranclp_induct) (auto intro: local_ok_step)

section \<open>Ordering lemmas\<close>

lemma latest_messages_drop:
  "latest_messages (int n) rows = drop (length rows - n) (sort_key msg_timestamp rows)"
  by (simp add: latest_messages_def limit_rows_def take_rev)

lemma find_Some_distinct:
  "distinct (map key rows) \<Longrightarrow> r \<in> set rows \<Longrightarrow> key r = k \<Longrightarrow> List.find (\<lambda>r. key r = k) rows = Some r"
  by (induction rows) (auto simp: image_iff)

lemma find_update_rows:
  "(\<And>r. key (f r) = key r) \<Longrightarrow>
   List.find (\<lambda>r. key r = k) (update_rows (\<lambda>r. key r = k) f rows) = map_option f (List.find (\<lambda>r. key r = k) rows)"
  by (induction rows) (auto simp: update_rows_def)

lemma find_insert_or_ignore:
  "List.find (\<lambda>r. key r = k) (insert_or_ignore key row rows) = (case List.find (\<lambda>r. key r = k) rows of
     Some r \<Rightarrow> Some r | None \<Rightarrow> if key row = k then Some row else None)"
  by (induction rows) (auto simp: insert_or_ignore_def split: option.splits)

section \<open>Properties\<close>

text \<open> The local database is consistent after any sequence of statements: ids are unique, there is at
  most one account, and every stored fingerprint is the fingerprint of the stored key. \<close>

theorem local_db_invariant:
  assumes "local_step\<^sup>*\<^sup>* init_client_db d"
  shows "local_ok d"
  using assms by (rule local_ok_steps) simp

theorem local_db_invariant_witness:
  "local_ok (store_public_key ''bob'' ''AAAA'' 5 (add_contact ''bob'' None 3 init_client_db))"
  by (rule local_db_invariant) (blast intro: local_step.intros rtranclp.intros)

text \<open> C29: The history of a conversation is its latest messages, as many as the limit allows, in the order
  of their timestamps: what is left out is not newer than anything shown. \<close>

theorem history_shows_latest:
  assumes "get_message_history peer self_user (int n) d = shown"
  defines "conv \<equiv> filter (in_conversation peer self_user) (messages d)"
  shows "length shown = min n (length conv) \<and> sorted (map msg_timestamp shown) \<and>
    (\<exists>older. mset (older @ shown) = mset conv \<and>
       (\<forall>m\<in>set older. \<forall>m'\<in>set shown. msg_timestamp m \<le> msg_timestamp m'))"
proof -
  define k where "k = length conv - n"
  have shown: "shown = drop k (sort_key msg_timestamp conv)"
    using assms by (simp add: get_message_history_def latest_messages_drop k_def)
  let ?older = "take k (sort_key msg_timestamp conv)"
  have split: "?older @ shown = sort_key msg_timestamp conv" by (simp add: shown)
  then have "sorted (map msg_timestamp ?older @ map msg_timestamp shown)"
    by (metis map_append sorted_sort_key)
  then have "sorted (map msg_timestamp shown)"
    "\<forall>m\<in>set ?older. \<forall>m'\<in>set shown. msg_timestamp m \<le> msg_timestamp m'"
    by (auto simp: sorted_append)
  moreover have "mset (?older @ shown) = mset conv" unfolding split by simp
  moreover have "length shown = min n (length conv)" by (simp add: shown k_def)
  ultimately show ?thesis by blast
qed

definition demo_messages :: client_db where
  "demo_messages = save_message ''m3'' ''bob'' ''ann'' (Some ''c'') 7 1
     (save_message ''m2'' ''ann'' ''bob'' (Some ''b'') 9 0
     (save_message ''m1'' ''bob'' ''ann'' (Some ''a'') 5 1 init_client_db))"

lemmas demo_messages_eval = demo_messages_def save_message_def insert_or_ignore_def init_client_db_def

theorem history_shows_latest_witness:
  "map msg_id (get_message_history ''bob'' ''ann'' 2 demo_messages) = [''m3'', ''m2''] \<and>
   length (get_message_history ''bob'' ''ann'' 2 demo_messages) = 2"
proof
  show "map msg_id (get_message_history ''bob'' ''ann'' 2 demo_messages) = [''m3'', ''m2'']"
    by (simp add: demo_messages_eval get_message_history_def in_conversation_def latest_messages_def
        limit_rows_def sort_key_def)
  have "length (filter (in_conversation ''bob'' ''ann'') (messages demo_messages)) = 3"
    by (simp add: demo_messages_eval in_conversation_def)
  then show "length (get_message_history ''bob'' ''ann'' 2 demo_messages) = 2"
    using history_shows_latest [of "''bob''" "''ann''" 2 demo_messages] by simp
qed

text \<open> A new key for a verified contact replaces the key and its fingerprint and leaves the contact
  marked as verified: the mark no longer says anything about the key in use. \<close>

theorem key_change_keeps_verified:
  assumes "find_contact u d = Some c" "ct_verified c = 1"
  shows "find_contact u (store_public_key u key ts d) =
    Some (c\<lparr>ct_public_key := Some key, ct_fingerprint := key_fingerprint key\<rparr>) \<and>
    contact_public_key u (store_public_key u key ts d) = Some key \<and>
    map_option ct_verified (find_contact u (store_public_key u key ts d)) = Some 1"
proof -
  have "find_contact u (store_public_key u key ts d) =
      Some (c\<lparr>ct_public_key := Some key, ct_fingerprint := key_fingerprint key\<rparr>)"
    using assms by (simp add: find_contact_def store_public_key_def add_contact_def Let_def find_update_rows
        find_insert_or_ignore)
  then show ?thesis using assms by (simp add: contact_public_key_def)
qed

theorem key_change_keeps_verified_witness:
  "contact_public_key ''bob'' (store_public_key ''bob'' ''k2'' 9
     (set_verified ''bob'' True (add_contact ''bob'' (Some ''k1'') 3 init_client_db))) = Some ''k2''"
proof -
  have "find_contact ''bob'' (set_verified ''bob'' True (add_contact ''bob'' (Some ''k1'') 3 init_client_db))
    = Some \<lparr>ct_username = ''bob'', ct_public_key = Some ''k1'', ct_fingerprint = None, ct_verified = 1,
        ct_added_at = 3, ct_status = ''offline''\<rparr>"
    by (simp add: find_contact_def set_verified_def add_contact_def insert_or_ignore_def update_rows_def
        init_client_db_def)
  from key_change_keeps_verified [OF this, of "''k2''" 9] show ?thesis by simp
qed

end
