(* ===== verification/Client_State.thy ===== *)
theory Client_State
  imports Client_Db
begin

text \<open>
  The state of the client process that its handlers share, and their primitive effects: the user name,
  the unlocked private key (\<^verbatim>\<open>crypto_ctx\<close>), the local database and the queue of outgoing packets
  (\<^verbatim>\<open>WSClient._send_q\<close>, which takes any number of packets and never fails). The locale \<open>client_effect\<close>
  is a preorder that allows these effects; its instances say that every handler keeps the database
  consistent and only adds to the queue.
\<close>

record client = env +
  me :: string
  ctx :: "bytes option"
  cdb :: client_db
  send_q :: "string list"

type_synonym ('e, 'a) client_prog = "('e client_scheme, 'a) prog"

section \<open>Primitive effects\<close>

text \<open>\<^verbatim>\<open>WSClient.send\<close> and \<^verbatim>\<open>send_pkt\<close>.\<close>

definition q_send :: "string \<Rightarrow> ('e, unit) client_prog" where
  "q_send data = modify (\<lambda>s. s\<lparr>send_q := send_q s @ [data]\<rparr>)"

definition send_pkt :: "msg_type \<Rightarrow> (string \<times> json) list \<Rightarrow> ('e, unit) client_prog" where
  "send_pkt ty kwargs = bnd (make_packet (type_str ty) kwargs) q_send"

definition cq :: "(client_db \<Rightarrow> 'a) \<Rightarrow> ('e, 'a) client_prog" where
  "cq f = gets (\<lambda>s. f (cdb s))"

definition cm :: "(client_db \<Rightarrow> client_db) \<Rightarrow> ('e, unit) client_prog" where
  "cm f = modify (\<lambda>s. s\<lparr>cdb := f (cdb s)\<rparr>)"

definition cx :: "(client_db \<Rightarrow> exn + client_db) \<Rightarrow> ('e, unit) client_prog" where
  "cx f = (\<lambda>s. case f (cdb s) of Inl e \<Rightarrow> (Inl e, s) | Inr d \<Rightarrow> (Inr (), s\<lparr>cdb := d\<rparr>))"

lemma q_send_app [simp, prog_simps]: "q_send data s = (Inr (), s\<lparr>send_q := send_q s @ [data]\<rparr>)"
  by (simp add: q_send_def)

lemma send_pkt_app [simp, prog_simps]:
  "send_pkt ty kwargs s = (Inr (), s\<lparr>epos := epos s + 16, send_q := send_q s @
     [json_dumps (JObj (packet_fields (type_str ty) (next_id s) (clock s) kwargs))]\<rparr>)"
  by (simp add: send_pkt_def bnd_app)

lemma cq_app [simp, prog_simps]: "cq f s = (Inr (f (cdb s)), s)" by (simp add: cq_def)
lemma cm_app [simp, prog_simps]: "cm f s = (Inr (), s\<lparr>cdb := f (cdb s)\<rparr>)" by (simp add: cm_def)
lemma cx_app [prog_simps]:
  "cx f s = (case f (cdb s) of Inl e \<Rightarrow> (Inl e, s) | Inr d \<Rightarrow> (Inr (), s\<lparr>cdb := d\<rparr>))"
  by (simp add: cx_def)

text \<open>\<^verbatim>\<open>add_contact(username)\<close> and \<^verbatim>\<open>store_public_key\<close> read the clock.\<close>

definition c_add_contact :: "string \<Rightarrow> ('e, unit) client_prog" where
  "c_add_contact username = bnd now (\<lambda>t. cm (add_contact username None t))"

definition c_store_public_key :: "string \<Rightarrow> string \<Rightarrow> ('e, unit) client_prog" where
  "c_store_public_key username key = bnd now (\<lambda>t. cm (store_public_key username key t))"

section \<open>Reading packets\<close>

text \<open>\<^verbatim>\<open>pkt.get(k, {})\<close> used as a dictionary.\<close>

fun as_obj :: "json \<Rightarrow> exn + packet" where
  "as_obj (JObj kvs) = Inr kvs"
| "as_obj _ = Inl AttributeError"

definition obj_field :: "packet \<Rightarrow> string \<Rightarrow> exn + packet" where
  "obj_field pkt k = as_obj (jget_or pkt k (JObj []))"

text \<open>
  A value bound to an integer column: a text that is no number would be stored as text; the model
  raises.
\<close>

fun sql_number :: "json \<Rightarrow> exn + int" where
  "sql_number (JInt i) = sql_int i"
| "sql_number (JBool b) = Inr (if b then 1 else 0)"
| "sql_number (JStr s) = sbnd (int_of_str s) sql_int"
| "sql_number _ = Inl TypeError"

text \<open>A value bound to a text column declared \<^verbatim>\<open>NOT NULL\<close> or compared with one.\<close>

definition sql_key :: "json \<Rightarrow> exn + string" where
  "sql_key v = sbnd (opt_text v) (\<lambda>t. case t of Some t \<Rightarrow> Inr t | None \<Rightarrow> Inl IntegrityError)"

lemma sql_key_str [simp]: "sql_key (JStr s) = Inr s" by (simp add: sql_key_def)

section \<open>What a handler may do\<close>

named_theorems ceff_intro \<comment> \<open>client programs made of allowed effects\<close>

locale client_effect = effect_order R for R :: "'e client_scheme \<Rightarrow> 'e client_scheme \<Rightarrow> bool" +
  assumes ceff_entropy: "R s (s\<lparr>epos := e\<rparr>)"
    and ceff_send: "R s (s\<lparr>send_q := send_q s @ [m]\<rparr>)"
    and ceff_db: "local_step (cdb s) d \<Longrightarrow> R s (s\<lparr>cdb := d\<rparr>)"
begin

lemmas [ceff_intro] = steps_rules

lemma ceff_now [ceff_intro]: "steps R now" and ceff_new_id [ceff_intro]: "steps R new_id"
  and ceff_make_packet [ceff_intro]: "steps R (make_packet ty kw)"
  and ceff_urandom [ceff_intro]: "steps R (urandom n)"
  by (simp_all add: steps_def R_refl ceff_entropy urandom_def)

lemma ceff_q_send [ceff_intro]: "steps R (q_send m)"
  by (simp add: steps_def ceff_send)

lemma ceff_send_pkt [ceff_intro]: "steps R (send_pkt ty kw)"
  unfolding send_pkt_def by (intro ceff_intro)

lemma ceff_cq [ceff_intro]: "steps R (cq q)"
  by (simp add: steps_def R_refl)

lemma ceff_cm: "(\<And>d. local_step d (f d)) \<Longrightarrow> steps R (cm f)"
  by (simp add: steps_def ceff_db)

lemma ceff_cx: "(\<And>d d'. f d = Inr d' \<Longrightarrow> local_step d d') \<Longrightarrow> steps R (cx f)"
  by (simp add: steps_def cx_def R_refl ceff_db split: sum.split)

lemmas [ceff_intro] = ceff_cm [OF local_clear] ceff_cm [OF local_save_message] ceff_cm [OF local_mark_delivered]
  ceff_cm [OF local_mark_read_by_id] ceff_cm [OF local_edit_message] ceff_cm [OF local_delete_message]
  ceff_cm [OF local_mark_read] ceff_cm [OF local_save_account] ceff_cm [OF local_update_token]
  ceff_cm [OF local_clear_token] ceff_cm [OF local_store_my_keys] ceff_cm [OF local_add_contact]
  ceff_cm [OF local_set_status] ceff_cm [OF local_store_public_key] ceff_cm [OF local_set_verified]
  ceff_cm [OF local_delete_contact] ceff_cm [OF local_save_file] ceff_cx [OF local_update_file]
  ceff_cm [OF local_mark_complete] ceff_cm [OF local_save_call] ceff_cm [OF local_end_call]
  ceff_cm [OF local_save_room] ceff_cm [OF local_delete_room] ceff_cm [OF local_update_last_message]

lemma ceff_add_contact [ceff_intro]: "steps R (c_add_contact u)"
  and ceff_store_key [ceff_intro]: "steps R (c_store_public_key u k)"
  unfolding c_add_contact_def c_store_public_key_def by (intro ceff_intro)+

lemma ceff_encrypt_message [ceff_intro]: "steps R (encrypt_message C t k)"
  unfolding encrypt_message_def Let_def by (intro ceff_intro)

lemma ceff_keys [ceff_intro]: "steps R (generate_keypair C)" "steps R (encrypt_private_key C k p)"
  "steps R generate_file_key" "steps R (encrypt_chunk C data key)"
  unfolding generate_keypair_def encrypt_private_key_def generate_file_key_def encrypt_chunk_def Let_def
  by (intro ceff_intro)+

end

definition keeps_local :: "'e client_scheme \<Rightarrow> 'e client_scheme \<Rightarrow> bool" where
  "keeps_local s t \<longleftrightarrow> (local_ok (cdb s) \<longrightarrow> local_ok (cdb t))"

definition sends_more :: "'e client_scheme \<Rightarrow> 'e client_scheme \<Rightarrow> bool" where
  "sends_more s t \<longleftrightarrow> (\<exists>ps. send_q t = send_q s @ ps)"

interpretation localeff: client_effect keeps_local
  by unfold_locales (auto simp: keeps_local_def intro: local_ok_step)

interpretation sendeff: client_effect sends_more
  by unfold_locales (auto simp: sends_more_def)

section \<open>A client for the examples\<close>

definition client_boot :: "string \<Rightarrow> bytes option \<Rightarrow> int \<Rightarrow> client" where
  "client_boot user key t = \<lparr>clock = t, mono = 0, entropy = byte_of, epos = 0, me = user, ctx = key,
     cdb = init_client_db, send_q = []\<rparr>"

end
