(* ===== verification/Message_Handler.thy ===== *)
theory Message_Handler
  imports Client_State
begin

text \<open>
  The client's message handler (\<^verbatim>\<open>client/handlers/message.py\<close>): sending, receiving, acknowledging, editing
  and deleting direct messages. The callback of \<open>msg_handle_incoming\<close> is an argument; a placeholder's
  dash is written as its UTF-8 bytes, which is what the database stores.
\<close>

section \<open>Texts\<close>

definition em_dash :: string where
  "em_dash = [CHR 0xE2, CHR 0x80, CHR 0x94]"

definition decryption_failed :: string where
  "decryption_failed = ''[encrypted '' @ em_dash @ '' decryption failed]''"

definition encrypted_locked :: string where
  "encrypted_locked = ''[encrypted '' @ em_dash @ '' locked]''"

section \<open>Outbound\<close>

text \<open>The payload: encrypted when the key is unlocked and the recipient's key is known, else plain.\<close>

definition outgoing_payload :: "crypto \<Rightarrow> string \<Rightarrow> string \<Rightarrow> ('e, json) client_prog" where
  "outgoing_payload C to_user txt =
    bnd (gets ctx) (\<lambda>key.
    if key = None then ret (JObj [(''text'', JStr txt)])
    else bnd (cq (contact_public_key to_user)) (\<lambda>pubkey. case pubkey of
      None \<Rightarrow> ret (JObj [(''text'', JStr txt)])
    | Some k \<Rightarrow>
        if k = [] then ret (JObj [(''text'', JStr txt)])
        else bnd (lift_result (b64_decode k)) (\<lambda>recipient.
          bnd (encrypt_message C txt recipient) (\<lambda>payload.
          ret (JObj (dset ''encrypted'' (JBool True) payload))))))"

definition msg_send :: "crypto \<Rightarrow> string \<Rightarrow> string \<Rightarrow> ('e, string) client_prog" where
  "msg_send C to_user txt =
    bnd new_id (\<lambda>mid.
    bnd now (\<lambda>ts.
    bnd (gets me) (\<lambda>self.
    bnd (outgoing_payload C to_user txt) (\<lambda>payload.
    thn (send_pkt MESSAGE [(''id'', JStr mid), (''from'', JStr self), (''to'', JStr to_user),
          (''payload'', payload), (''timestamp'', JInt ts)])
    (thn (cm (save_message mid self to_user (Some txt) ts 0))
    (thn (c_add_contact to_user)
    (ret mid)))))))"

section \<open>Inbound\<close>

text \<open>\<^verbatim>\<open>pkt.get(k) or new_id()\<close> and \<^verbatim>\<open>pkt.get(k) or now()\<close>.\<close>

definition id_or_new :: "packet \<Rightarrow> string \<Rightarrow> ('e env_scheme, json) prog" where
  "id_or_new pkt k = (if truthy (jget pkt k) then ret (jget pkt k) else bnd new_id (\<lambda>i. ret (JStr i)))"

definition time_or_now :: "packet \<Rightarrow> string \<Rightarrow> ('e env_scheme, json) prog" where
  "time_or_now pkt k = (if truthy (jget pkt k) then ret (jget pkt k) else bnd now (\<lambda>t. ret (JInt t)))"

text \<open>The text of an incoming message; a failed decryption is a text, not an error.\<close>

definition incoming_text :: "crypto \<Rightarrow> bytes option \<Rightarrow> packet \<Rightarrow> json" where
  "incoming_text C key payload =
    (if truthy (jget payload ''ephemeral_pubkey'') then
       (case key of
          Some k \<Rightarrow> (case decrypt_message C payload k of
              Inr t \<Rightarrow> JStr t | Inl e \<Rightarrow> JStr decryption_failed)
        | None \<Rightarrow> JStr encrypted_locked)
     else jget_or payload ''text'' (JStr []))"

text \<open>\<^verbatim>\<open>save(mid, sender, to, text, ts, delivered=1)\<close> with values taken from a packet.\<close>

definition save_incoming :: "json \<Rightarrow> json \<Rightarrow> string \<Rightarrow> json \<Rightarrow> json \<Rightarrow> ('e, unit) client_prog" where
  "save_incoming mid sender to_user txt ts =
    bnd (lift_result (sql_key mid)) (\<lambda>i.
    bnd (lift_result (sql_key sender)) (\<lambda>u.
    bnd (lift_result (opt_text txt)) (\<lambda>t.
    bnd (lift_result (sql_number ts)) (\<lambda>n.
    cm (save_message i u to_user t n 1)))))"

definition msg_handle_incoming ::
  "crypto \<Rightarrow> (packet \<Rightarrow> ('e, unit) client_prog) \<Rightarrow> packet \<Rightarrow> ('e, unit) client_prog" where
  "msg_handle_incoming C callback pkt =
    (let sender = jget_or pkt ''from'' (JStr []) in
     bnd (id_or_new pkt ''id'') (\<lambda>mid.
     bnd (time_or_now pkt ''timestamp'') (\<lambda>ts.
     bnd (lift_result (obj_field pkt ''payload'')) (\<lambda>payload.
     bnd (gets ctx) (\<lambda>key.
     let txt = incoming_text C key payload in
     whenp (truthy sender)
       (bnd (gets me) (\<lambda>self.
        thn (save_incoming mid sender self txt ts)
        (thn (bnd (lift_result (sql_key sender)) c_add_contact)
        (callback (dset ''_plaintext'' txt pkt))))))))))"

definition with_msg_id :: "packet \<Rightarrow> (string \<Rightarrow> ('e, unit) client_prog) \<Rightarrow> ('e, unit) client_prog" where
  "with_msg_id pkt f =
    whenp (truthy (jget pkt ''msg_id'')) (bnd (lift_result (sql_key (jget pkt ''msg_id''))) f)"

definition is_delivery_status :: "json \<Rightarrow> exn + bool" where
  "is_delivery_status v = (case v of
     JStr st \<Rightarrow> Inr (st = ''delivered'' \<or> st = ''queued'')
   | JList xs \<Rightarrow> Inl TypeError | JObj kvs \<Rightarrow> Inl TypeError | _ \<Rightarrow> Inr False)"

definition msg_handle_delivery :: "packet \<Rightarrow> ('e, unit) client_prog" where
  "msg_handle_delivery pkt = with_msg_id pkt (\<lambda>i.
     bnd (lift_result (is_delivery_status (jget pkt ''status''))) (\<lambda>b. whenp b (cm (mark_delivered i))))"

definition msg_handle_read :: "packet \<Rightarrow> ('e, unit) client_prog" where
  "msg_handle_read pkt = with_msg_id pkt (\<lambda>i. cm (mark_read_by_id i))"

text \<open>An edit is not guarded: a failed decryption raises and leaves the message as it was.\<close>

definition msg_handle_edit :: "crypto \<Rightarrow> packet \<Rightarrow> ('e, unit) client_prog" where
  "msg_handle_edit C pkt =
    with_msg_id pkt (\<lambda>i.
      bnd (lift_result (obj_field pkt ''payload'')) (\<lambda>payload.
      bnd (gets ctx) (\<lambda>key.
      bnd (lift_result
            (if truthy (jget payload ''ephemeral_pubkey'') then
               (case key of Some k \<Rightarrow> map_sum id JStr (decrypt_message C payload k)
                | None \<Rightarrow> Inr (JStr encrypted_locked))
             else Inr (jget_or payload ''text'' (JStr [])))) (\<lambda>txt.
      bnd (lift_result (opt_text txt)) (\<lambda>t. cm (edit_message i t))))))"

definition msg_handle_delete :: "packet \<Rightarrow> ('e, unit) client_prog" where
  "msg_handle_delete pkt = with_msg_id pkt (\<lambda>i. cm (delete_message i))"

section \<open>Editing, deleting, history\<close>

definition msg_edit :: "crypto \<Rightarrow> string \<Rightarrow> string \<Rightarrow> string \<Rightarrow> ('e, unit) client_prog" where
  "msg_edit C mid to_user new_text =
    bnd (outgoing_payload C to_user new_text) (\<lambda>payload.
    bnd (gets me) (\<lambda>self.
    bnd now (\<lambda>ts.
    thn (send_pkt MESSAGE_EDIT [(''msg_id'', JStr mid), (''from'', JStr self), (''to'', JStr to_user),
          (''payload'', payload), (''timestamp'', JInt ts)])
    (cm (edit_message mid (Some new_text))))))"

definition msg_delete :: "string \<Rightarrow> string \<Rightarrow> ('e, unit) client_prog" where
  "msg_delete mid to_user =
    bnd (gets me) (\<lambda>self.
    bnd now (\<lambda>ts.
    thn (send_pkt MESSAGE_DELETE [(''msg_id'', JStr mid), (''from'', JStr self), (''to'', JStr to_user),
          (''timestamp'', JInt ts)])
    (cm (delete_message mid))))"

definition msg_history :: "string \<Rightarrow> ('e, message_row list) client_prog" where
  "msg_history peer = bnd (gets me) (\<lambda>self. cq (get_message_history peer self 100))"

section \<open>Allowed effects\<close>

context client_effect begin

lemma ceff_outgoing [ceff_intro]: "steps R (outgoing_payload C u t)"
  unfolding outgoing_payload_def by (intro ceff_intro)

lemma ceff_id_or_new [ceff_intro]: "steps R (id_or_new pkt k)"
  and ceff_time_or_now [ceff_intro]: "steps R (time_or_now pkt k)"
  unfolding id_or_new_def time_or_now_def by (intro ceff_intro)+

lemma ceff_save_incoming [ceff_intro]: "steps R (save_incoming mid sender u t ts)"
  unfolding save_incoming_def by (intro ceff_intro)

lemma ceff_msg_send [ceff_intro]: "steps R (msg_send C u t)"
  unfolding msg_send_def by (intro ceff_intro)

lemma ceff_msg_incoming [ceff_intro]: "(\<And>p. steps R (cb p)) \<Longrightarrow> steps R (msg_handle_incoming C cb pkt)"
  unfolding msg_handle_incoming_def Let_def by (intro ceff_intro)

lemma ceff_with_msg_id: "(\<And>i. steps R (f i)) \<Longrightarrow> steps R (with_msg_id pkt f)"
  unfolding with_msg_id_def by (intro ceff_intro)

lemma ceff_msg_handlers [ceff_intro]:
  "steps R (msg_handle_delivery pkt)" "steps R (msg_handle_read pkt)" "steps R (msg_handle_edit C pkt)"
  "steps R (msg_handle_delete pkt)" "steps R (msg_edit C i u t)" "steps R (msg_delete i u)"
  unfolding msg_handle_delivery_def msg_handle_read_def msg_handle_edit_def msg_handle_delete_def
    msg_edit_def msg_delete_def Let_def
  by (intro ceff_intro ceff_with_msg_id)+

end

section \<open>What the handlers do\<close>

text \<open>Sending with an unlocked key to a pinned one: the packet carries a payload only that key opens.\<close>

lemma msg_send_sealed:
  assumes "crypto_ok C" "length priv = 32" "ctx s \<noteq> None"
    and key: "contact_public_key u (cdb s) = Some (b64_encode (c_pub C priv))"
  obtains payload i s' where
    "msg_send C u txt s = (Inr (next_id s), s')"
    and "send_q s' = send_q s @ [json_dumps (JObj (packet_fields ''MESSAGE'' i (clock s)
      [(''id'', JStr (next_id s)), (''from'', JStr (me s)), (''to'', JStr u), (''payload'', JObj payload),
       (''timestamp'', JInt (clock s))]))]"
    and "cdb s' = add_contact u None (clock s) (save_message (next_id s) (me s) u (Some txt) (clock s) 0 (cdb s))"
    and "json_wf (JObj payload)" and "incoming_text C (Some priv) payload = JStr txt"
    and "dget payload ''text'' = None"
proof -
  let ?s1 = "s\<lparr>epos := epos s + 16\<rparr>"
  obtain k where k: "ctx s = Some k" using assms(3) by auto
  obtain eph c n t where enc: "encrypt_message C txt (c_pub C priv) ?s1 =
        (Inr [(''ephemeral_pubkey'', JStr eph), (''ciphertext'', JStr c), (''nonce'', JStr n),
            (''auth_tag'', JStr t)], ?s1\<lparr>epos := epos ?s1 + 44\<rparr>)"
      "eph \<noteq> []"
    and dec: "\<And>payload. dget payload ''ephemeral_pubkey'' = Some (JStr eph) \<Longrightarrow>
      dget payload ''ciphertext'' = Some (JStr c) \<Longrightarrow> dget payload ''nonce'' = Some (JStr n) \<Longrightarrow>
      dget payload ''auth_tag'' = Some (JStr t) \<Longrightarrow> decrypt_message C payload priv = Inr txt"
    using encrypt_message_sealed [OF assms(1,2), of "txt" ?s1] by metis
  let ?p = "[(''ephemeral_pubkey'', JStr eph), (''ciphertext'', JStr c), (''nonce'', JStr n),
            (''auth_tag'', JStr t), (''encrypted'', JBool True)]"
  have ne: "b64_encode (c_pub C priv) \<noteq> []"
    using assms(1,2) by (intro b64_encode_not_Nil) (auto simp: crypto_ok_def)
  have out: "outgoing_payload C u txt ?s1 = (Inr (JObj ?p), s\<lparr>epos := epos s + 60\<rparr>)"
    using enc k key ne by (simp add: outgoing_payload_def prog_simps b64_roundtrip)
  show ?thesis
  proof (rule that [of "snd (msg_send C u txt s)" "next_id (s\<lparr>epos := epos s + 60\<rparr>)" ?p])
    show "msg_send C u txt s = (Inr (next_id s), snd (msg_send C u txt s))"
      using out by (simp add: msg_send_def prog_simps c_add_contact_def)
    show "send_q (snd (msg_send C u txt s)) = send_q s @ [json_dumps (JObj (packet_fields ''MESSAGE''
        (next_id (s\<lparr>epos := epos s + 60\<rparr>)) (clock s)
        [(''id'', JStr (next_id s)), (''from'', JStr (me s)), (''to'', JStr u), (''payload'', JObj ?p),
         (''timestamp'', JInt (clock s))]))]"
      using out by (simp add: msg_send_def prog_simps c_add_contact_def)
    show "cdb (snd (msg_send C u txt s)) = add_contact u None (clock s)
        (save_message (next_id s) (me s) u (Some txt) (clock s) 0 (cdb s))"
      using out by (simp add: msg_send_def prog_simps c_add_contact_def)
    show "incoming_text C (Some priv) ?p = JStr txt"
      using dec [of ?p] enc(2) by (simp add: incoming_text_def jget_def)
  qed simp_all
qed

lemma incoming_stores:
  assumes "dget pkt ''id'' = Some (JStr i)" "i \<noteq> []" "dget pkt ''from'' = Some (JStr u)" "u \<noteq> []"
    and "dget pkt ''timestamp'' = Some (JInt ts)" "0 < ts" "ts < 2 ^ 63"
    and "dget pkt ''payload'' = Some (JObj p)" "incoming_text C (ctx s) p = JStr txt"
  shows "msg_handle_incoming C cb pkt s = cb (dset ''_plaintext'' (JStr txt) pkt)
    (s\<lparr>cdb := add_contact u None (clock s) (save_message i u (me s) (Some txt) ts 1 (cdb s))\<rparr>)"
  using assms by (simp add: msg_handle_incoming_def prog_simps id_or_new_def time_or_now_def jget_def
      jget_or_def obj_field_def save_incoming_def c_add_contact_def whenp_def sql_int_def Let_def)

lemma messages_add_contact [simp]: "messages (add_contact u k t d) = messages d"
  by (simp add: add_contact_def)

lemma messages_save_new: "i \<notin> msg_id ` set (messages d) \<Longrightarrow>
    messages (save_message i u v t ts n d) = messages d @ [\<lparr>msg_id = i, msg_from_user = u, msg_to_user = v,
      msg_plaintext = t, msg_timestamp = ts, msg_delivered = n, msg_read_status = 0, msg_edited = 0,
      msg_deleted = 0, msg_reply_to = None\<rparr>]"
  and messages_save_old: "i \<in> msg_id ` set (messages d) \<Longrightarrow> messages (save_message i u v t ts n d) = messages d"
  by (simp_all add: save_message_def insert_or_ignore_def)

lemma save_incoming_id:
  "save_incoming (JStr i) sender u t ts s = (Inr (), s') \<Longrightarrow> i \<in> msg_id ` set (messages (cdb s'))"
  by (auto simp: save_incoming_def prog_simps save_message_def insert_or_ignore_def split: sum.splits)

lemma save_incoming_again:
  "i \<in> msg_id ` set (messages (cdb s)) \<Longrightarrow> messages (cdb (snd (save_incoming (JStr i) sender u t ts s))) = messages (cdb s)"
  by (auto simp: save_incoming_def prog_simps messages_save_old split: sum.splits)

section \<open>Properties\<close>

text \<open> A packet handled twice is stored once: the second time, whenever it comes, the message table does not
  change. So a message that is both delivered and replayed from the offline queue appears once, and a later
  packet cannot overwrite a message by reusing its id. \<close>

theorem redelivery_stores_once:
  assumes "dget pkt ''id'' = Some (JStr i)" "i \<noteq> []" "i \<in> msg_id ` set (messages (cdb s))"
  shows "messages (cdb (snd (msg_handle_incoming C (\<lambda>_. ret ()) pkt s))) = messages (cdb s)"
proof -
  have save: "messages (cdb s') = messages (cdb s)" if "save_incoming (JStr i) sender u t ts s = (r, s')"
    for sender u t ts r s'
    using save_incoming_again [OF assms(3), of sender u t ts] that by simp
  show ?thesis
    using assms(1,2)
    by (auto simp: msg_handle_incoming_def prog_simps id_or_new_def time_or_now_def jget_def Let_def
        c_add_contact_def whenp_def split: sum.splits prod.splits dest: save)
qed

definition bob_client :: client where
  "bob_client = (client_boot ''bob'' None 50)\<lparr>cdb :=
     save_message ''m1'' ''bob'' ''ann'' (Some ''yes'') 40 1 init_client_db\<rparr>"

lemmas bob_client_eval = bob_client_def client_boot_def save_message_def insert_or_ignore_def init_client_db_def

lemma redelivery_stores_once_witness:
  "messages (cdb (snd (msg_handle_incoming toy (\<lambda>_. ret ()) [(''id'', JStr ''m1''), (''from'', JStr ''ann''),
     (''payload'', JObj [(''text'', JStr ''no'')])] bob_client))) = messages (cdb bob_client)"
  by (rule redelivery_stores_once [where i = "''m1''"]) (simp_all add: bob_client_eval)

text \<open> An edit is not checked against the author. Any packet with the id of a stored message rewrites it,
  whoever sent the packet and whoever wrote the message: the text becomes the packet's, the recorded author
  stays, and no other message changes. \<close>

theorem edit_rewrites_any_author:
  assumes "dget pkt ''msg_id'' = Some (JStr (msg_id m))" "msg_id m \<noteq> []"
    and "dget pkt ''payload'' = Some (JObj [(''text'', JStr x)])"
    and "m \<in> set (messages (cdb s))" "dget pkt ''from'' \<noteq> Some (JStr (msg_from_user m))"
  shows "(m\<lparr>msg_plaintext := Some x, msg_edited := 1\<rparr>) \<in> set (messages (cdb (snd (msg_handle_edit C pkt s)))) \<and>
    filter (\<lambda>m'. msg_id m' \<noteq> msg_id m) (messages (cdb (snd (msg_handle_edit C pkt s)))) =
    filter (\<lambda>m'. msg_id m' \<noteq> msg_id m) (messages (cdb s))"
proof -
  have e: "messages (cdb (snd (msg_handle_edit C pkt s))) = update_rows (\<lambda>m'. msg_id m' = msg_id m)
      (\<lambda>m'. m'\<lparr>msg_plaintext := Some x, msg_edited := 1\<rparr>) (messages (cdb s))"
    using assms by (simp add: msg_handle_edit_def with_msg_id_def prog_simps jget_def jget_or_def obj_field_def
        whenp_def edit_message_def)
  have "filter (\<lambda>m'. msg_id m' \<noteq> i) (update_rows (\<lambda>m'. msg_id m' = i)
      (\<lambda>m'. m'\<lparr>msg_plaintext := Some x, msg_edited := 1\<rparr>) ms) = filter (\<lambda>m'. msg_id m' \<noteq> i) ms" for i ms
    by (induction ms) (auto simp: update_rows_def)
  then show ?thesis using assms(4) unfolding e by (force simp: set_update_rows)
qed

lemma edit_rewrites_any_author_witness:
  "map msg_from_user (messages (cdb bob_client)) = [''bob''] \<and>
   (\<exists>m \<in> set (messages (cdb (snd (msg_handle_edit toy [(''msg_id'', JStr ''m1''), (''from'', JStr ''eve''),
     (''payload'', JObj [(''text'', JStr ''no'')])] bob_client)))). msg_plaintext m = Some ''no'')"
proof
  show "map msg_from_user (messages (cdb bob_client)) = [''bob'']" by (simp add: bob_client_eval)
  let ?m = "hd (messages (cdb bob_client))"
  have m: "?m \<in> set (messages (cdb bob_client))" "msg_id ?m = ''m1''" "msg_from_user ?m = ''bob''"
    by (simp_all add: bob_client_eval)
  let ?pkt = "[(''msg_id'', JStr ''m1''), (''from'', JStr ''eve''), (''payload'', JObj [(''text'', JStr ''no'')])]"
  have "(?m\<lparr>msg_plaintext := Some ''no'', msg_edited := 1\<rparr>)
      \<in> set (messages (cdb (snd (msg_handle_edit toy ?pkt bob_client))))"
    using edit_rewrites_any_author [of ?pkt ?m "''no''" bob_client toy] m by simp
  then show "\<exists>m \<in> set (messages (cdb (snd (msg_handle_edit toy ?pkt bob_client)))). msg_plaintext m = Some ''no''"
    by (rule bexI [rotated]) simp
qed

end
