(* ===== verification/Room_Handler.thy ===== *)
theory Room_Handler
  imports Message_Handler
begin

text \<open>
  The client's room handler (\<^verbatim>\<open>client/handlers/room.py\<close>). \<open>pending\<close> maps a request id to the responses pushed
  for it; its event is set when there is one. While a request waits, the connection's task goes on handling
  packets: \<open>inbox\<close> is what arrives before the timeout and \<open>deliver\<close> the router they are given to, whose
  exceptions the connection logs. What the router owes a waiting request is the locale \<open>responder\<close>.
\<close>

record room_client = client +
  pending :: "(string \<times> packet list) list"

type_synonym ('e, 'a) room_prog = "('e room_client_scheme, 'a) prog"

section \<open>Waiting for a response\<close>

definition resolve_pending :: "string \<Rightarrow> packet \<Rightarrow> (string \<times> packet list) list \<Rightarrow> (string \<times> packet list) list" where
  "resolve_pending req_id result p = (case dget p req_id of
     Some container \<Rightarrow> dset req_id (container @ [result]) p
   | None \<Rightarrow> p)"

text \<open>\<^verbatim>\<open>handle_room_info\<close> and \<^verbatim>\<open>handle_members_list\<close>.\<close>

definition handle_response :: "packet \<Rightarrow> ('e, unit) room_prog" where
  "handle_response pkt = (case jget_or pkt ''req_id'' (JStr []) of
     JStr req_id \<Rightarrow> modify (\<lambda>s. s\<lparr>pending := resolve_pending req_id pkt (pending s)\<rparr>)
   | JList xs \<Rightarrow> raise TypeError | JObj kvs \<Rightarrow> raise TypeError | _ \<Rightarrow> ret ())"

definition event_set :: "string \<Rightarrow> 'e room_client_scheme \<Rightarrow> bool" where
  "event_set req_id s = (case dget (pending s) req_id of Some (x # xs) \<Rightarrow> True | _ \<Rightarrow> False)"

primrec wait_event ::
  "(packet \<Rightarrow> ('e, unit) room_prog) \<Rightarrow> string \<Rightarrow> packet list \<Rightarrow> ('e, bool) room_prog" where
  "wait_event deliver req_id [] = ret False"
| "wait_event deliver req_id (p # ps) =
    thn (attempt (deliver p) (\<lambda>_. ret ()))
    (bnd (gets (event_set req_id)) (\<lambda>b. if b then ret True else wait_event deliver req_id ps))"

text \<open>\<^verbatim>\<open>try: m finally: f\<close> for an \<open>f\<close> that cannot raise.\<close>

definition finally_do :: "('s, 'a) prog \<Rightarrow> ('s \<Rightarrow> 's) \<Rightarrow> ('s, 'a) prog" where
  "finally_do m f = (\<lambda>s. case m s of (r, t) \<Rightarrow> (r, f t))"

text \<open>A request: register the waiter, send, wait, take the first response (\<open>None\<close> on a timeout) and unregister.\<close>

definition request ::
  "(packet \<Rightarrow> ('e, unit) room_prog) \<Rightarrow> msg_type \<Rightarrow> (string \<times> json) list \<Rightarrow> packet list
    \<Rightarrow> ('e, packet option) room_prog" where
  "request deliver ty kw inbox =
    bnd new_id (\<lambda>req_id.
    thn (modify (\<lambda>s. s\<lparr>pending := dset req_id [] (pending s)\<rparr>))
    (finally_do
      (bnd (gets me) (\<lambda>self.
       thn (send_pkt ty ((''req_id'', JStr req_id) # kw @ [(''from'', JStr self)]))
       (bnd (wait_event deliver req_id inbox) (\<lambda>arrived.
        if \<not> arrived then ret None
        else gets (\<lambda>s. case dget (pending s) req_id of Some (x # xs) \<Rightarrow> Some x | _ \<Rightarrow> Some [])))))
      (\<lambda>s. s\<lparr>pending := dpop req_id (pending s)\<rparr>)))"

section \<open>Room life cycle\<close>

definition room_create ::
  "(packet \<Rightarrow> ('e, unit) room_prog) \<Rightarrow> string \<Rightarrow> packet list \<Rightarrow> ('e, packet) room_prog" where
  "room_create deliver name inbox =
    bnd (request deliver ROOM_CREATE [(''name'', JStr name)] inbox) (\<lambda>r. case r of
      None \<Rightarrow> raise TimeoutError | Some pkt \<Rightarrow> ret pkt)"

definition room_join ::
  "(packet \<Rightarrow> ('e, unit) room_prog) \<Rightarrow> string \<Rightarrow> packet list \<Rightarrow> ('e, json) room_prog" where
  "room_join deliver room_id inbox =
    bnd (request deliver ROOM_JOIN [(''room_id'', JStr room_id)] inbox) (\<lambda>r. case r of
      None \<Rightarrow> ret (JBool False) | Some pkt \<Rightarrow> ret (jget_or pkt ''success'' (JBool False)))"

definition room_leave :: "string \<Rightarrow> ('e, unit) room_prog" where
  "room_leave room_id =
    bnd (gets me) (\<lambda>self. send_pkt ROOM_LEAVE [(''room_id'', JStr room_id), (''from'', JStr self)])"

definition room_get_members ::
  "(packet \<Rightarrow> ('e, unit) room_prog) \<Rightarrow> string \<Rightarrow> packet list \<Rightarrow> ('e, json) room_prog" where
  "room_get_members deliver room_id inbox =
    bnd (request deliver ROOM_MEMBERS [(''room_id'', JStr room_id)] inbox) (\<lambda>r. case r of
      None \<Rightarrow> ret (JList []) | Some pkt \<Rightarrow> ret (jget_or pkt ''members'' (JList [])))"

section \<open>Messaging\<close>

fun as_list :: "json \<Rightarrow> exn + json list" where
  "as_list (JList xs) = Inr xs"
| "as_list _ = Inl TypeError"

text \<open>One payload per other member whose key is stored, in the order of the member list.\<close>

primrec seal_for_members ::
  "crypto \<Rightarrow> string \<Rightarrow> json list \<Rightarrow> (string \<times> json) list \<Rightarrow> ('e, (string \<times> json) list) client_prog" where
  "seal_for_members C txt [] payloads = ret payloads"
| "seal_for_members C txt (m # ms) payloads =
    bnd (lift_result (as_str TypeError m)) (\<lambda>member.
    bnd (gets me) (\<lambda>self.
    if member = self then seal_for_members C txt ms payloads
    else bnd (cq (contact_public_key member)) (\<lambda>key. case key of
      None \<Rightarrow> seal_for_members C txt ms payloads
    | Some k \<Rightarrow>
        if k = [] then seal_for_members C txt ms payloads
        else bnd (lift_result (b64_decode k)) (\<lambda>pub.
          bnd (encrypt_message C txt pub) (\<lambda>enc.
          seal_for_members C txt ms
            (dset member (JObj (dset ''encrypted'' (JBool True) enc)) payloads))))))"

definition room_packet :: "string \<Rightarrow> string \<Rightarrow> string \<times> json \<Rightarrow> int \<Rightarrow> ('e, unit) client_prog" where
  "room_packet mid room_id body ts =
    bnd (gets me) (\<lambda>self. send_pkt ROOM_MESSAGE [(''id'', JStr mid), (''room_id'', JStr room_id),
      (''from'', JStr self), body, (''timestamp'', JInt ts)])"

definition room_send_message ::
  "crypto \<Rightarrow> (packet \<Rightarrow> ('e, unit) room_prog) \<Rightarrow> string \<Rightarrow> string \<Rightarrow> packet list \<Rightarrow> ('e, string) room_prog" where
  "room_send_message C deliver room_id txt inbox =
    bnd new_id (\<lambda>mid.
    bnd now (\<lambda>ts.
    bnd (gets ctx) (\<lambda>key.
    bnd (if key = None then ret []
         else bnd (room_get_members deliver room_id inbox) (\<lambda>members.
           bnd (lift_result (as_list members)) (\<lambda>ms. seal_for_members C txt ms []))) (\<lambda>payloads.
    thn (room_packet mid room_id
          (if payloads \<noteq> [] then (''payloads'', JObj payloads)
           else (''payload'', JObj [(''text'', JStr txt)])) ts)
    (ret mid)))))"

text \<open>The inbound handler: the callback's exceptions are logged.\<close>

definition room_handle_incoming :: "(packet \<Rightarrow> ('e, unit) client_prog) \<Rightarrow> packet \<Rightarrow> ('e, unit) client_prog" where
  "room_handle_incoming callback pkt = attempt (callback pkt) (\<lambda>_. ret ())"

section \<open>Allowed effects\<close>

locale room_effect = client_effect R for R :: "'e room_client_scheme \<Rightarrow> 'e room_client_scheme \<Rightarrow> bool" +
  assumes reff_pending: "R s (s\<lparr>pending := p\<rparr>)"
begin

lemmas [ceff_intro] = reff_pending

lemma reff_finally: "steps R m \<Longrightarrow> (\<And>s. R s (f s)) \<Longrightarrow> steps R (finally_do m f)"
  unfolding steps_def finally_do_def by (simp split: prod.split) (metis R_trans snd_conv)

lemma reff_handle_response [ceff_intro]: "steps R (handle_response pkt)"
  unfolding handle_response_def by (auto split: json.split intro!: ceff_intro)

lemma reff_wait: "(\<And>p. steps R (deliver p)) \<Longrightarrow> steps R (wait_event deliver q ps)"
  by (induction ps) (auto intro!: ceff_intro)

lemma reff_request [ceff_intro]: "(\<And>p. steps R (deliver p)) \<Longrightarrow> steps R (request deliver ty kw inbox)"
  unfolding request_def by (intro ceff_intro reff_finally reff_wait)

lemma reff_rooms [ceff_intro]:
  "(\<And>p. steps R (deliver p)) \<Longrightarrow> steps R (room_create deliver n inbox)"
  "(\<And>p. steps R (deliver p)) \<Longrightarrow> steps R (room_join deliver r inbox)"
  "(\<And>p. steps R (deliver p)) \<Longrightarrow> steps R (room_get_members deliver r inbox)"
  "steps R (room_leave r)"
  unfolding room_create_def room_join_def room_get_members_def room_leave_def by (intro ceff_intro; assumption?)+

lemma reff_seal [ceff_intro]: "steps R (seal_for_members C t ms ps)"
  by (induction ms arbitrary: ps) (auto intro!: ceff_intro split: option.split)

lemma reff_room_packet [ceff_intro]: "steps R (room_packet i r b t)"
  unfolding room_packet_def by (intro ceff_intro)

lemma reff_room_send [ceff_intro]:
  "(\<And>p. steps R (deliver p)) \<Longrightarrow> steps R (room_send_message C deliver r t inbox)"
  unfolding room_send_message_def by (intro ceff_intro; assumption?)+

end

section \<open>What the router owes a waiting request\<close>

text \<open>
  \<open>response_id p\<close> is the request id a packet answers. While \<open>up\<close> holds (the handlers exist), the router
  pushes every response to its waiter, if there is one, and touches no other waiter; it may raise
  afterwards. Then a request returns the first response that carries its own id among the packets that
  arrive in time, and leaves no waiter behind.
\<close>

definition response_id :: "packet \<Rightarrow> string option" where
  "response_id p = (if jget p ''type'' = JStr ''ROOM_INFO'' \<or> jget p ''type'' = JStr ''ROOM_MEMBERS_LIST''
     then (case jget_or p ''req_id'' (JStr []) of JStr r \<Rightarrow> Some r | _ \<Rightarrow> None) else None)"

definition resolved :: "packet \<Rightarrow> (string \<times> packet list) list \<Rightarrow> (string \<times> packet list) list" where
  "resolved p pend = (case response_id p of Some r \<Rightarrow> resolve_pending r p pend | None \<Rightarrow> pend)"

locale responder =
  fixes deliver :: "packet \<Rightarrow> ('e, unit) room_prog" and up :: "'e room_client_scheme \<Rightarrow> bool"
  assumes deliver_resolves: "up s \<Longrightarrow> pending (snd (deliver p s)) = resolved p (pending s)"
    and deliver_up: "up s \<Longrightarrow> up (snd (deliver p s))"
    and up_entropy: "up s \<Longrightarrow> up (s\<lparr>epos := e\<rparr>)" and up_send: "up s \<Longrightarrow> up (s\<lparr>send_q := q\<rparr>)"
    and up_pending: "up s \<Longrightarrow> up (s\<lparr>pending := w\<rparr>)"
begin

lemma wait_event_pending:
  assumes "up s" "dget (pending s) r = Some []"
  shows "\<exists>b t. wait_event deliver r inbox s = (Inr b, t) \<and> (b \<longleftrightarrow> List.find (\<lambda>p. response_id p = Some r) inbox \<noteq> None) \<and>
    dget (pending t) r = Some (case List.find (\<lambda>p. response_id p = Some r) inbox of None \<Rightarrow> [] | Some p \<Rightarrow> [p])"
  using assms
proof (induction inbox arbitrary: s)
  case (Cons p inbox)
  obtain q t where d: "deliver p s = (q, t)" by (cases "deliver p s")
  then have pt: "pending t = resolved p (pending s)" and ut: "up t"
    using deliver_resolves [OF Cons.prems(1), of p] deliver_up [OF Cons.prems(1), of p] by simp_all
  have a: "attempt (deliver p) (\<lambda>_. ret ()) s = (Inr (), t)"
    using d by (simp add: prog_simps split: sum.split)
  show ?case
  proof (cases "response_id p = Some r")
    case True
    then have "dget (pending t) r = Some [p]"
      using pt Cons.prems by (simp add: resolved_def resolve_pending_def)
    then show ?thesis using a True by (auto simp: thn_app bnd_app event_set_def)
  next
    case False
    then have "dget (pending t) r = Some []"
      using pt Cons.prems by (auto simp: resolved_def resolve_pending_def split: option.splits)
    then show ?thesis using a False Cons.IH [OF ut] by (simp add: thn_app bnd_app event_set_def)
  qed
qed auto

lemma request_spec:
  assumes "up s"
  shows "\<exists>t. request deliver ty kw inbox s =
     (Inr (List.find (\<lambda>p. response_id p = Some (next_id s)) inbox), t) \<and> dget (pending t) (next_id s) = None"
proof -
  let ?r = "next_id s"
  let ?s0 = "s\<lparr>epos := epos s + 16, pending := dset ?r [] (pending s)\<rparr>"
  define s1 where "s1 = snd (send_pkt ty ((''req_id'', JStr ?r) # kw @ [(''from'', JStr (me s))]) ?s0)"
  have sp: "send_pkt ty ((''req_id'', JStr ?r) # kw @ [(''from'', JStr (me s))]) ?s0 = (Inr (), s1)"
    by (simp add: s1_def)
  have p: "dget (pending s1) ?r = Some []" by (simp add: s1_def)
  have u: "up s1" using assms by (simp add: s1_def up_entropy up_send up_pending)
  obtain b t where w: "wait_event deliver ?r inbox s1 = (Inr b, t)"
      "b \<longleftrightarrow> List.find (\<lambda>p. response_id p = Some ?r) inbox \<noteq> None"
      "dget (pending t) ?r = Some (case List.find (\<lambda>p. response_id p = Some ?r) inbox of None \<Rightarrow> [] | Some p \<Rightarrow> [p])"
    using wait_event_pending [OF u p, of inbox] by blast
  from w(1) show ?thesis
    using w(2,3) sp
    by (cases "List.find (\<lambda>p. response_id p = Some ?r) inbox")
      (simp_all add: request_def finally_do_def thn_app bnd_app del: send_pkt_app)
qed

end

end
