(* ===== verification/File_Handler.thy ===== *)
theory File_Handler
  imports Room_Handler
begin

text \<open>
  The client's file transfers (\<^verbatim>\<open>client/handlers/file.py\<close>): sending, resuming, receiving, cancelling, and
  the inbound packets. \<open>disk\<close> and \<open>folders\<close> are the file system; paths are already resolved
  (\<^verbatim>\<open>os.path.abspath\<close>). A TCP connection is the bytes the server sends on it, or \<open>None\<close> when it cannot be
  opened; what the client writes is returned. A connection that breaks is one whose bytes end early.
\<close>

record file_client = room_client +
  disk :: "string \<Rightarrow> bytes option"
  folders :: "string set"
  active :: "(string \<times> bytes \<times> int) list"

type_synonym ('e, 'a) file_prog = "('e file_client_scheme, 'a) prog"
type_synonym 'e progress = "string \<Rightarrow> int \<Rightarrow> int \<Rightarrow> ('e, unit) file_prog"

definition CHUNK_SIZE :: nat where "CHUNK_SIZE = 512 * 1024"

section \<open>Chunks\<close>

text \<open>\<^verbatim>\<open>raw[offset : offset + n]\<close> for \<^verbatim>\<open>offset\<close> in steps of \<open>n\<close>.\<close>

function chunks_of :: "nat \<Rightarrow> bytes \<Rightarrow> bytes list" where
  "chunks_of n bs = (if bs = [] \<or> n = 0 then [] else take n bs # chunks_of n (drop n bs))"
  by pat_completeness auto
termination by (relation "measure (\<lambda>(n, bs). length bs)") auto

declare chunks_of.simps [simp del]

definition split_file :: "bytes \<Rightarrow> bytes list" where
  "split_file raw = (let cs = chunks_of CHUNK_SIZE raw in if cs = [] then [[]] else cs)"

text \<open>The payload of a chunk on the wire: nonce, tag, ciphertext.\<close>

definition chunk_payload :: "bytes \<times> bytes \<times> bytes \<Rightarrow> bytes" where
  "chunk_payload r = (case r of (ciphertext, nonce, tag) \<Rightarrow> nonce @ tag @ ciphertext)"

definition split_payload :: "bytes \<Rightarrow> bytes \<times> bytes \<times> bytes" where
  "split_payload p = (drop 28 p, take 12 p, take 16 (drop 12 p))"

section \<open>Reading from the server\<close>

text \<open>\<^verbatim>\<open>readline\<close>: a line with its newline, or what is left at the end.\<close>

definition net_line :: "bytes \<Rightarrow> exn + bytes \<times> bytes" where
  "net_line inp =
    (let l = takeWhile (\<lambda>b. b \<noteq> 10) inp; n = length l + 1 in
     if 65536 < length l then Inl ValueError else Inr (take n inp, drop n inp))"

definition bytes_space :: "byte \<Rightarrow> bool" where
  "bytes_space b = (let n = unat b in (9 \<le> n \<and> n \<le> 13) \<or> n = 32)"

definition bytes_strip :: "bytes \<Rightarrow> bytes" where
  "bytes_strip bs = rev (dropWhile bytes_space (rev (dropWhile bytes_space bs)))"

definition ack_text :: bytes where "ack_text = utf8_encode ''ACK''"
definition done_text :: bytes where "done_text = utf8_encode ''DONE''"

text \<open>The indices of the line \<^verbatim>\<open>HAVE i,j,...\<close>; any other line counts as none.\<close>

fun split_all :: "char \<Rightarrow> string \<Rightarrow> string list" where
  "split_all c [] = [[]]"
| "split_all c (x # xs) = (if x = c then [] # split_all c xs
     else (case split_all c xs of y # ys \<Rightarrow> (x # y) # ys | [] \<Rightarrow> [[x]]))"

primrec all_ints :: "string list \<Rightarrow> exn + int list" where
  "all_ints [] = Inr []"
| "all_ints (x # xs) = (if x = [] then all_ints xs
     else sbnd (int_of_str x) (\<lambda>i. sbnd (all_ints xs) (\<lambda>is. Inr (i # is))))"

definition parse_have :: "bytes \<Rightarrow> exn + int list" where
  "parse_have line =
    (if take 5 line = utf8_encode ''HAVE '' then
       sbnd (utf8_decode line) (\<lambda>t.
         let payload = py_strip (remove_prefix t ''HAVE '') in
         if payload = [] then Inr [] else map_sum id remdups (all_ints (split_all (CHR '','') payload)))
     else Inr [])"

section \<open>Uploading\<close>

text \<open>
  One connection: \<open>u_in\<close> is still to be read, \<open>u_out\<close> is written, \<open>u_sent\<close> is the count of chunks the
  server has. A run ends with \<open>True\<close> (the function returns) or \<open>False\<close> (the loop goes on).
\<close>

record 'e upload =
  u_client :: "'e file_client_scheme"
  u_in :: bytes
  u_out :: bytes
  u_sent :: int

definition up :: "('e, 'a) file_prog \<Rightarrow> ('e upload, 'a) prog" where
  "up m = (\<lambda>u. case m (u_client u) of (r, s) \<Rightarrow> (r, u\<lparr>u_client := s\<rparr>))"

definition up_write :: "bytes \<Rightarrow> ('e upload, unit) prog" where
  "up_write bs = modify (\<lambda>u. u\<lparr>u_out := u_out u @ bs\<rparr>)"

definition up_line :: "('e upload, bytes) prog" where
  "up_line = (\<lambda>u. case net_line (u_in u) of
     Inl e \<Rightarrow> (Inl e, u) | Inr (l, rest) \<Rightarrow> (Inr l, u\<lparr>u_in := rest\<rparr>))"

definition up_ack :: "'e progress \<Rightarrow> string \<Rightarrow> int \<Rightarrow> ('e upload, bool) prog" where
  "up_ack progress file_id chunk_total =
    bnd up_line (\<lambda>ack.
    if bytes_strip ack \<noteq> ack_text \<and> bytes_strip ack \<noteq> done_text then raise OSError
    else
      thn (modify (\<lambda>u. u\<lparr>u_sent := u_sent u + 1\<rparr>))
      (bnd (gets u_sent) (\<lambda>sent.
       thn (up (cx (update_file file_id [Received_chunks sent])))
       (thn (up (progress file_id sent chunk_total))
       (ret (bytes_strip ack = done_text))))))"

definition up_chunk :: "crypto \<Rightarrow> 'e progress \<Rightarrow> string \<Rightarrow> bytes \<Rightarrow> int \<Rightarrow> int \<Rightarrow> bytes \<Rightarrow> ('e upload, bool) prog" where
  "up_chunk C progress file_id file_key chunk_total idx plaintext =
    (let checksum = chunk_checksum plaintext in
     bnd (up (encrypt_chunk C plaintext file_key)) (\<lambda>r.
     let payload = chunk_payload r in
     bnd (lift_result (pack_be32 idx)) (\<lambda>i.
     bnd (lift_result (pack_be32 (int (length payload)))) (\<lambda>n.
     bnd (lift_result (ascii_encode checksum)) (\<lambda>ck.
     thn (up_write (i @ n @ ck @ payload)) (up_ack progress file_id chunk_total))))))"

primrec up_chunks ::
  "crypto \<Rightarrow> 'e progress \<Rightarrow> string \<Rightarrow> bytes \<Rightarrow> int \<Rightarrow> int list \<Rightarrow> int \<Rightarrow> bytes list \<Rightarrow> ('e upload, bool) prog" where
  "up_chunks C progress file_id file_key chunk_total have_idx idx [] =
     bnd up_line (\<lambda>done_line. ret (bytes_strip done_line = [] \<or> bytes_strip done_line = done_text))"
| "up_chunks C progress file_id file_key chunk_total have_idx idx (c # cs) =
    (if idx \<in> set have_idx then
       bnd (gets u_sent) (\<lambda>sent.
       thn (up (progress file_id sent chunk_total))
       (up_chunks C progress file_id file_key chunk_total have_idx (idx + 1) cs))
     else
       bnd (up_chunk C progress file_id file_key chunk_total idx c) (\<lambda>finished.
       if finished then ret True
       else up_chunks C progress file_id file_key chunk_total have_idx (idx + 1) cs))"

definition up_connection ::
  "crypto \<Rightarrow> 'e progress \<Rightarrow> string \<Rightarrow> bytes list \<Rightarrow> bytes \<Rightarrow> int \<Rightarrow> ('e upload, bool) prog" where
  "up_connection C progress file_id chunks file_key chunk_total =
    thn (up_write (utf8_encode (file_id @ [CHR 0x0A])))
    (bnd up_line (\<lambda>line.
     bnd (lift_result (parse_have line)) (\<lambda>have_idx.
     thn (modify (\<lambda>u. u\<lparr>u_sent := int (length have_idx)\<rparr>))
     (up_chunks C progress file_id file_key chunk_total have_idx 0 chunks))))"

text \<open>
  The attempts: \<open>left\<close> are left after this many; connection errors are retried until the last, a
  refused connection and any other error are raised at once. The result is what was written on each.
\<close>

fun upload_chunks ::
  "crypto \<Rightarrow> 'e progress \<Rightarrow> string \<Rightarrow> bytes list \<Rightarrow> bytes \<Rightarrow> int \<Rightarrow> nat \<Rightarrow> int \<Rightarrow> bytes option list
    \<Rightarrow> ('e, bytes list) file_prog" where
  "upload_chunks C progress file_id chunks file_key chunk_total 0 sent conns = ret []"
| "upload_chunks C progress file_id chunks file_key chunk_total (Suc left) sent conns =
    (if \<not> sent < chunk_total then ret []
     else case conns of
       [] \<Rightarrow> raise OSError
     | None # conns \<Rightarrow> raise OSError
     | Some inp # conns \<Rightarrow> (\<lambda>s.
        case up_connection C progress file_id chunks file_key chunk_total
            \<lparr>u_client = s, u_in = inp, u_out = [], u_sent = sent\<rparr> of
          (Inr True, u) \<Rightarrow> (Inr [u_out u], u_client u)
        | (Inr False, u) \<Rightarrow> bnd (upload_chunks C progress file_id chunks file_key chunk_total left (u_sent u) conns)
            (\<lambda>outs. ret (u_out u # outs)) (u_client u)
        | (Inl e, u) \<Rightarrow>
            (if (e = OSError \<or> e = IncompleteReadError) \<and> left \<noteq> 0
             then bnd (upload_chunks C progress file_id chunks file_key chunk_total left (u_sent u) conns)
               (\<lambda>outs. ret (u_out u # outs)) (u_client u)
             else (Inl e, u_client u))))"

section \<open>Sending\<close>

definition read_disk :: "string \<Rightarrow> ('e, bytes) file_prog" where
  "read_disk p = (\<lambda>s. case disk s p of None \<Rightarrow> (Inl FileNotFoundError, s) | Some bs \<Rightarrow> (Inr bs, s))"

definition file_send ::
  "crypto \<Rightarrow> 'e progress \<Rightarrow> string \<Rightarrow> string \<Rightarrow> bytes option list \<Rightarrow> ('e, string \<times> bytes list) file_prog" where
  "file_send C progress to_user filepath conns =
    bnd (read_disk filepath) (\<lambda>raw.
    bnd new_id (\<lambda>file_id.
    bnd now (\<lambda>ts.
    let filename = path_base filepath; chunks = split_file raw; n = int (length chunks) in
    bnd generate_file_key (\<lambda>file_key.
    let file_key_b64 = b64_encode file_key in
    bnd (cq (contact_public_key to_user)) (\<lambda>key. case key of
      None \<Rightarrow> raise ValueError
    | Some k \<Rightarrow>
      if k = [] then raise ValueError
      else
      bnd (lift_result (b64_decode k)) (\<lambda>pub.
      bnd (encrypt_message C file_key_b64 pub) (\<lambda>encrypted_key.
      bnd (gets me) (\<lambda>self.
      thn (cm (save_file file_id filename (int (length raw)) n self to_user filepath ts ''send'' (Some file_key_b64)))
      (thn (modify (\<lambda>s. s\<lparr>active := dset file_id (file_key, n) (active s)\<rparr>))
      (thn (send_pkt FILE_INIT [(''file_id'', JStr file_id), (''from'', JStr self), (''to'', JStr to_user),
          (''name'', JStr filename), (''size'', JInt (int (length raw))), (''total_chunks'', JInt n),
          (''encrypted_key'', JObj encrypted_key), (''timestamp'', JInt ts)])
      (bnd (upload_chunks C progress file_id chunks file_key n 3 0 conns) (\<lambda>outs.
      bnd now (\<lambda>ts'.
      thn (send_pkt FILE_DONE [(''file_id'', JStr file_id), (''from'', JStr self), (''to'', JStr to_user),
          (''timestamp'', JInt ts')])
      (thn (cx (update_file file_id [Complete 1]))
      (thn (modify (\<lambda>s. s\<lparr>active := dpop file_id (active s)\<rparr>))
      (ret (file_id, outs)))))))))))))))))"

definition file_resume ::
  "crypto \<Rightarrow> 'e progress \<Rightarrow> string \<Rightarrow> bytes option list \<Rightarrow> ('e, bytes list) file_prog" where
  "file_resume C progress file_id conns =
    bnd (cq (get_local_file file_id)) (\<lambda>record. case record of
      None \<Rightarrow> raise FileNotFoundError
    | Some f \<Rightarrow>
      if lf_direction f \<noteq> ''send'' then raise FileNotFoundError
      else bnd (gets (\<lambda>s. disk s (lf_local_path f))) (\<lambda>content. case content of
        None \<Rightarrow> raise FileNotFoundError
      | Some raw \<Rightarrow>
        if lf_file_key f = None \<or> lf_file_key f = Some [] then raise ValueError
        else
          bnd (lift_result (b64_decode (the (lf_file_key f)))) (\<lambda>file_key.
          bnd (upload_chunks C progress file_id (split_file raw) file_key (lf_total_chunks f) 3 0 conns) (\<lambda>outs.
          thn (cx (update_file file_id [Complete 1])) (ret outs)))))"

section \<open>Receiving\<close>

text \<open>One chunk of the download: index, checksum text, payload, rest.\<close>

definition net_frame :: "bytes \<Rightarrow> exn + int \<times> string \<times> bytes \<times> bytes" where
  "net_frame inp =
    (if length inp < 72 then Inl IncompleteReadError
     else
       let chunk_index = be_val (take 4 inp); data_len = be_val (take 4 (drop 4 inp)); rest = drop 72 inp in
       sbnd (ascii_decode (take 64 (drop 8 inp))) (\<lambda>expected.
       if length rest < data_len then Inl IncompleteReadError
       else Inr (int chunk_index, expected, take data_len rest, drop data_len rest)))"

primrec recv_loop ::
  "crypto \<Rightarrow> 'e progress \<Rightarrow> string \<Rightarrow> bytes \<Rightarrow> int \<Rightarrow> nat \<Rightarrow> bytes \<Rightarrow> (int \<times> bytes) list
    \<Rightarrow> ('e, (int \<times> bytes) list) file_prog" where
  "recv_loop C progress file_id file_key chunk_total 0 inp received = ret received"
| "recv_loop C progress file_id file_key chunk_total (Suc n) inp received =
    bnd (lift_result (net_frame inp)) (\<lambda>(idx, expected, payload, rest).
    let (ciphertext, nonce, tag) = split_payload payload in
    bnd (lift_result (decrypt_chunk C ciphertext nonce tag file_key)) (\<lambda>plaintext.
    if chunk_checksum plaintext \<noteq> expected then raise ValueError
    else
      let received = dset idx plaintext received in
      thn (cx (update_file file_id [Received_chunks (int (length received))]))
      (thn (progress file_id (int (length received)) chunk_total)
      (recv_loop C progress file_id file_key chunk_total n rest received))))"

text \<open>\<^verbatim>\<open>os.makedirs\<close>, and \<^verbatim>\<open>open(path, "wb")\<close>, which needs the folder and must not name one.\<close>

definition make_folder :: "string \<Rightarrow> ('e, unit) file_prog" where
  "make_folder p = (\<lambda>s. if CHR 0x00 \<in> set p then (Inl ValueError, s)
     else if disk s p \<noteq> None then (Inl OSError, s)
     else (Inr (), s\<lparr>folders := insert p (folders s)\<rparr>))"

definition write_disk :: "string \<Rightarrow> bytes \<Rightarrow> ('e, unit) file_prog" where
  "write_disk p data = (\<lambda>s. if CHR 0x00 \<in> set p then (Inl ValueError, s)
     else if p = [] \<or> last p = CHR ''/'' \<or> p \<in> folders s \<or> path_dir p \<notin> folders s then (Inl OSError, s)
     else (Inr (), s\<lparr>disk := (disk s)(p \<mapsto> data)\<rparr>))"

text \<open>The metadata of an offer, from the packet or from the local record.\<close>

record offer =
  of_name :: json
  of_total_chunks :: json
  of_from_user :: json
  of_file_key :: json

definition stored_key :: "string \<Rightarrow> ('e, exn + string) client_prog" where
  "stored_key file_id = bnd (cq (get_local_file file_id)) (\<lambda>f. ret (case f of
     None \<Rightarrow> Inr [] | Some f \<Rightarrow> (case lf_file_key f of Some k \<Rightarrow> Inr k | None \<Rightarrow> Inl TypeError)))"

definition file_receive ::
  "crypto \<Rightarrow> 'e progress \<Rightarrow> string \<Rightarrow> string \<Rightarrow> offer \<Rightarrow> bytes option \<Rightarrow> ('e, string) file_prog" where
  "file_receive C progress downloads_dir file_id meta conn =
    bnd (lift_result (py_int (of_total_chunks meta))) (\<lambda>chunk_total.
    bnd (if truthy (of_file_key meta) then ret (as_str TypeError (of_file_key meta))
         else stored_key file_id) (\<lambda>key_text.
    bnd (lift_result (sbnd key_text b64_decode)) (\<lambda>file_key.
    bnd (lift_result (as_str TypeError (of_from_user meta))) (\<lambda>from_user.
    let dest_dir = path_join downloads_dir from_user in
    thn (make_folder dest_dir)
    (bnd (lift_result (as_str TypeError (of_name meta))) (\<lambda>filename.
     let dest_path = path_join dest_dir filename in
     case conn of
       None \<Rightarrow> raise OSError
     | Some inp \<Rightarrow>
         bnd (recv_loop C progress file_id file_key chunk_total (nat chunk_total) inp []) (\<lambda>received.
         thn (write_disk dest_path (concat (map snd (sort_key fst received))))
         (thn (cm (mark_complete file_id dest_path))
         (ret dest_path)))))))))"

section \<open>Cancelling and inbound packets\<close>

definition file_cancel :: "string \<Rightarrow> ('e, unit) file_prog" where
  "file_cancel file_id =
    bnd (gets me) (\<lambda>self.
    bnd now (\<lambda>ts.
    thn (send_pkt FILE_CANCEL [(''file_id'', JStr file_id), (''from'', JStr self), (''timestamp'', JInt ts)])
    (thn (attempt (cx (update_file file_id [Complete (- 1)])) (\<lambda>_. ret ()))
    (modify (\<lambda>s. s\<lparr>active := dpop file_id (active s)\<rparr>)))))"

text \<open>
  The file key of an offer: the plain field, else the envelope opened with the unlocked private key.
\<close>

definition offered_key :: "crypto \<Rightarrow> packet \<Rightarrow> bytes option \<Rightarrow> exn + json" where
  "offered_key C pkt key =
    (let plain = jget_or pkt ''file_key'' (JStr []); envelope = jget pkt ''encrypted_key'' in
     if \<not> truthy plain \<and> truthy envelope then
       (case key of
          None \<Rightarrow> Inl ValueError
        | Some k \<Rightarrow> sbnd (as_obj envelope) (\<lambda>e. map_sum id JStr (decrypt_message C e k)))
     else Inr plain)"

text \<open>\<^verbatim>\<open>INSERT OR IGNORE\<close> skips a row whose name or sender is null.\<close>

definition save_offer :: "string \<Rightarrow> string option \<Rightarrow> int \<Rightarrow> int \<Rightarrow> string option \<Rightarrow> int \<Rightarrow> string option
    \<Rightarrow> ('e, unit) client_prog" where
  "save_offer fid name sz n sender ts file_key = (case (name, sender) of
     (Some name, Some sender) \<Rightarrow>
       bnd (gets me) (\<lambda>self. cm (save_file fid name sz n sender self [] ts ''recv'' file_key))
   | _ \<Rightarrow> ret ())"

definition handle_file_init ::
  "crypto \<Rightarrow> (string \<Rightarrow> offer \<Rightarrow> ('e, unit) file_prog) \<Rightarrow> packet \<Rightarrow> ('e, unit) file_prog" where
  "handle_file_init C on_receive pkt =
    bnd new_id (\<lambda>fresh.
    let file_id = jget_or pkt ''file_id'' (JStr fresh); from_user = jget_or pkt ''from'' (JStr []);
        filename = jget_or pkt ''name'' (JStr ''unknown'') in
    bnd (lift_result (py_int (jget_or pkt ''size'' (JInt 0)))) (\<lambda>size.
    bnd (lift_result (py_int (jget_or pkt ''total_chunks'' (JInt 1)))) (\<lambda>chunk_total.
    bnd (time_or_now pkt ''timestamp'') (\<lambda>ts.
    bnd (gets ctx) (\<lambda>key.
    bnd (lift_result (offered_key C pkt key)) (\<lambda>file_key.
    bnd (gets me) (\<lambda>self.
    bnd (lift_result (sql_key file_id)) (\<lambda>fid.
    bnd (lift_result (opt_text filename)) (\<lambda>name.
    bnd (lift_result (sql_int size)) (\<lambda>sz.
    bnd (lift_result (sql_int chunk_total)) (\<lambda>n.
    bnd (lift_result (opt_text from_user)) (\<lambda>sender.
    bnd (lift_result (sql_number ts)) (\<lambda>t.
    bnd (lift_result (opt_text file_key)) (\<lambda>k.
    thn (save_offer fid name sz n sender t k)
    (bnd (lift_result (if truthy file_key then sbnd (as_str TypeError file_key) b64_decode else Inr [])) (\<lambda>raw_key.
     thn (modify (\<lambda>s. s\<lparr>active := dset fid (raw_key, chunk_total) (active s)\<rparr>))
     (thn (attempt (on_receive fid \<lparr>of_name = filename, of_total_chunks = JInt chunk_total,
              of_from_user = from_user, of_file_key = file_key\<rparr>) (\<lambda>_. ret ()))
     (bnd now (\<lambda>ts'.
      send_pkt FILE_ACK [(''file_id'', file_id), (''to'', from_user), (''from'', JStr self),
        (''timestamp'', JInt ts')])))))))))))))))))))"

definition file_handle_incoming ::
  "crypto \<Rightarrow> (string \<Rightarrow> offer \<Rightarrow> ('e, unit) file_prog) \<Rightarrow> packet \<Rightarrow> ('e, unit) file_prog" where
  "file_handle_incoming C on_receive pkt =
    (if jget pkt ''type'' = JStr ''FILE_INIT'' then handle_file_init C on_receive pkt
     else if jget pkt ''type'' = JStr ''FILE_CANCEL'' then
       (let file_id = jget_or pkt ''file_id'' (JStr []) in
        thn (attempt (bnd (lift_result (sql_key file_id)) (\<lambda>i. cx (update_file i [Complete (- 1)]))) (\<lambda>_. ret ()))
        (bnd (lift_result (as_str TypeError file_id)) (\<lambda>i.
         modify (\<lambda>s. s\<lparr>active := dpop i (active s)\<rparr>))))
     else ret ())"

section \<open>Allowed effects\<close>

locale file_effect = client_effect R for R :: "'e file_client_scheme \<Rightarrow> 'e file_client_scheme \<Rightarrow> bool" +
  assumes feff_disk: "R s (s\<lparr>disk := f\<rparr>)" and feff_folders: "R s (s\<lparr>folders := g\<rparr>)"
    and feff_active: "R s (s\<lparr>active := a\<rparr>)"

text \<open>A connection may do to its client what the client's programs may do.\<close>

sublocale file_effect \<subseteq> upl: effect_order "\<lambda>u v. R (u_client u) (u_client v)"
  by unfold_locales (auto intro: R_refl R_trans)

context file_effect begin

lemmas [ceff_intro] = feff_disk feff_folders feff_active

lemma feff_up: "steps R m \<Longrightarrow> steps (\<lambda>u v. R (u_client u) (u_client v)) (up m)"
  by (auto simp: steps_def up_def split: prod.split) (metis snd_conv)

lemma feff_connection:
  assumes "\<And>i n t. steps R (progress i n t)"
  shows "steps (\<lambda>u v. R (u_client u) (u_client v)) (up_connection C progress fid chunks key n)"
proof -
  have w: "steps (\<lambda>u v. R (u_client u) (u_client v)) (up_write bs)"
    "steps (\<lambda>u v. R (u_client u) (u_client v)) up_line"
    "steps (\<lambda>u v. R (u_client u) (u_client v)) (modify (\<lambda>u. u\<lparr>u_sent := f u\<rparr>))"
    "steps (\<lambda>u v. R (u_client u) (u_client v)) (gets g)" for bs f g
    by (auto simp: steps_def up_write_def up_line_def R_refl split: sum.split)
  have c: "steps (\<lambda>u v. R (u_client u) (u_client v)) (up_chunk C progress fid key n i p)" for i p
    unfolding up_chunk_def up_ack_def Let_def
    by (intro upl.steps_rules w feff_up assms ceff_intro)
  have "steps (\<lambda>u v. R (u_client u) (u_client v)) (up_chunks C progress fid key n have_idx i cs)" for have_idx i cs
    by (induction cs arbitrary: i)
      (auto intro!: upl.steps_rules w c feff_up assms)
  then show ?thesis unfolding up_connection_def by (intro upl.steps_rules w)
qed

lemma feff_upload [ceff_intro]:
  assumes "\<And>i n t. steps R (progress i n t)"
  shows "steps R (upload_chunks C progress fid chunks key n left sent conns)"
proof (induction left arbitrary: sent conns)
  case (Suc left)
  have "R s (snd (upload_chunks C progress fid chunks key n (Suc left) sent (Some inp # conns') s))" for s inp conns'
  proof -
    obtain r u where c: "up_connection C progress fid chunks key n
        \<lparr>u_client = s, u_in = inp, u_out = [], u_sent = sent\<rparr> = (r, u)" by fastforce
    have 1: "R s (u_client u)" using stepsD [OF feff_connection [OF assms] c] by simp
    moreover have "steps R (bnd (upload_chunks C progress fid chunks key n left (u_sent u) conns')
        (\<lambda>outs. ret (u_out u # outs)))"
      by (rule steps_bnd [OF Suc steps_ret])
    then have "R (u_client u) (snd (bnd (upload_chunks C progress fid chunks key n left (u_sent u) conns')
        (\<lambda>outs. ret (u_out u # outs)) (u_client u)))"
      by (simp add: steps_def)
    ultimately show ?thesis using c R_refl by (auto split: sum.split bool.split intro: R_trans)
  qed
  then show ?case by (cases conns rule: list.exhaust; cases "hd conns") (auto simp: steps_def R_refl)
qed (simp add: steps_ret)

lemma feff_disk_ops [ceff_intro]: "steps R (read_disk p)" "steps R (make_folder p)" "steps R (write_disk p data)"
  by (auto simp: steps_def read_disk_def make_folder_def write_disk_def R_refl feff_disk feff_folders
      split: option.split)

lemma feff_records [ceff_intro]: "steps R (stored_key i)" "steps R (save_offer i nm sz n u t k)"
  unfolding stored_key_def save_offer_def by (intro ceff_intro)+

lemma feff_cancel [ceff_intro]: "steps R (file_cancel i)"
  unfolding file_cancel_def by (intro ceff_intro)

lemma feff_send [ceff_intro]:
  "(\<And>i n t. steps R (progress i n t)) \<Longrightarrow> steps R (file_send C progress u p conns)"
  unfolding file_send_def Let_def by (intro ceff_intro; assumption?)

lemma feff_resume [ceff_intro]:
  "(\<And>i n t. steps R (progress i n t)) \<Longrightarrow> steps R (file_resume C progress i conns)"
  unfolding file_resume_def by (intro ceff_intro; assumption?)

lemma feff_recv_loop [ceff_intro]:
  assumes "\<And>i n t. steps R (progress i n t)"
  shows "steps R (recv_loop C progress i k t n inp rs)"
  by (induction n arbitrary: inp rs) (auto simp: Let_def intro!: ceff_intro assms split: prod.split)

lemma feff_receive [ceff_intro]:
  "(\<And>i n t. steps R (progress i n t)) \<Longrightarrow> steps R (file_receive C progress dl i m conn)"
  unfolding file_receive_def Let_def by (intro ceff_intro; assumption?)

lemma feff_incoming [ceff_intro]:
  assumes "\<And>i m. steps R (on_receive i m)"
  shows "steps R (handle_file_init C on_receive pkt)" "steps R (file_handle_incoming C on_receive pkt)"
proof -
  show 1: "steps R (handle_file_init C on_receive pkt)"
    unfolding handle_file_init_def Let_def by (intro ceff_intro assms)
  show "steps R (file_handle_incoming C on_receive pkt)"
    unfolding file_handle_incoming_def Let_def by (intro ceff_intro 1)
qed

end

end
