(* ===== verification/File_Transfer.thy ===== *)
theory File_Transfer
  imports Tcp_Properties File_Handler
begin

text \<open>
  The file transfer across the three programs: the sender's upload, the server and the receiver's download.
  The conversation of an upload is consistent: the client reads exactly what the server answers to what the
  client writes. Then the received file is the sent one, byte for byte, and the server only ever saw
  ciphertext frames.
\<close>

section \<open>Splitting and joining\<close>

lemma concat_chunks_of: "0 < n \<Longrightarrow> concat (chunks_of n bs) = bs"
proof (induction n bs rule: chunks_of.induct)
  case (1 n bs)
  then show ?case by (cases "bs = []") (simp_all add: chunks_of.simps [of n bs] chunks_of.simps [of n "[]"])
qed

lemma chunks_of_size: "c \<in> set (chunks_of n bs) \<Longrightarrow> length c \<le> n"
proof (induction n bs rule: chunks_of.induct)
  case (1 n bs)
  then show ?case by (cases "bs = [] \<or> n = 0") (auto simp: chunks_of.simps [of n bs] chunks_of.simps [of n "[]"] chunks_of.simps [of 0])
qed

lemma concat_split_file: "concat (split_file raw) = raw"
proof (cases "chunks_of CHUNK_SIZE raw = []")
  case True
  then have "raw = []" using concat_chunks_of [of CHUNK_SIZE raw] by (simp add: CHUNK_SIZE_def)
  then show ?thesis using True by (simp add: split_file_def)
next
  case False
  then show ?thesis by (simp add: split_file_def Let_def concat_chunks_of CHUNK_SIZE_def)
qed

lemma split_file_size: "c \<in> set (split_file raw) \<Longrightarrow> length c \<le> CHUNK_SIZE"
  by (auto simp: split_file_def Let_def split: if_splits dest: chunks_of_size)

lemma split_file_not_Nil [simp]: "split_file raw \<noteq> []"
  by (simp add: split_file_def Let_def)

section \<open>One chunk\<close>

text \<open>The frame \<open>f\<close> carries the chunk \<open>c\<close> sealed with the file key.\<close>

definition seals :: "crypto \<Rightarrow> bytes \<Rightarrow> frame \<Rightarrow> bytes \<Rightarrow> bool" where
  "seals C key f c \<longleftrightarrow> good_frame f \<and> (case f of (i, ck, p) \<Rightarrow> ck = chunk_checksum c \<and>
     (case split_payload p of (ciphertext, nonce, tag) \<Rightarrow> decrypt_chunk C ciphertext nonce tag key = Inr c))"

lemma hex_digit_good: "n < 16 \<Longrightarrow> (of_char (hex_digit n) :: nat) < 128 \<and> \<not> py_space (hex_digit n)"
  by (auto simp: hex_digit_def digit_def py_space_def Let_def)

lemma hex_bytes_good: "c \<in> set (hex_bytes bs) \<Longrightarrow> (of_char c :: nat) < 128 \<and> \<not> py_space c"
proof -
  have "unat (b :: byte) div 16 < 16" "unat b mod 16 < 16" for b
    using unsigned_less [of b] by (simp_all add: div_less_iff_less_mult)
  then show "c \<in> set (hex_bytes bs) \<Longrightarrow> (of_char c :: nat) < 128 \<and> \<not> py_space c"
    using hex_digit_good by (auto simp: hex_bytes_def hex_byte_def)
qed

lemma ascii_bytes: "\<forall>c \<in> set s. (of_char c :: nat) < 128 \<Longrightarrow> ascii_encode s = Inr (map (\<lambda>c. byte_of (of_char c)) s)"
  by (simp add: ascii_encode_def)

lemma checksum_good: "length (chunk_checksum c) = 64" "\<forall>x \<in> set (chunk_checksum c). (of_char x :: nat) < 128"
  "\<forall>x \<in> set (chunk_checksum c). \<not> py_space x"
  using hex_bytes_good by (auto simp: chunk_checksum_def sha256_hex_def)

lemma split_chunk_payload: "length n = 12 \<Longrightarrow> length t = 16 \<Longrightarrow> split_payload (chunk_payload (c, n, t)) = (c, n, t)"
  by (simp add: split_payload_def chunk_payload_def)

text \<open>What \<open>encrypt_chunk\<close> gives, with its effect on the random bytes.\<close>

lemma encrypt_chunk_seals:
  assumes "crypto_ok C" "length key = 32"
  obtains c n t where "encrypt_chunk C data key s = (Inr (c, n, t), s\<lparr>epos := epos s + 12\<rparr>)"
    "length n = 12" "length t = 16" "length c = length data" "decrypt_chunk C c n t key = Inr data"
proof -
  obtain n where n: "urandom NONCE_LEN s = (Inr n, s\<lparr>epos := epos s + 12\<rparr>)" "length n = 12"
    using urandom_Inr [of NONCE_LEN s] by (auto simp: NONCE_LEN_def)
  obtain c t where ct: "cut_tag (c_enc C key n data) = (c, t)" by fastforce
  have t: "length t = 16" using cut_tag_length [OF ct] crypto_enc [OF assms(1)] by simp
  have app: "c @ t = c_enc C key n data" using ct by (rule cut_tag_append)
  have "length c = length data" using arg_cong [OF app, of length] t crypto_enc [OF assms(1)] by simp
  moreover have "decrypt_chunk C c n t key = Inr data"
    using app n(2) t assms crypto_dec [OF assms(1)]
    by (simp add: decrypt_chunk_def NONCE_LEN_def TAG_LEN_def as_value_error_def)
  ultimately show ?thesis using n ct t assms(2) by (intro that [of c n t]) (simp_all add: encrypt_chunk_def prog_simps)
qed

section \<open>The client reads the answers\<close>

lemma ack_lines: "net_line (ack @ r) = Inr (ack, r)" "bytes_strip ack = ack_text" "ack_text \<noteq> done_text"
  and done_line: "net_line (text_bytes (''DONE'' @ newline) @ r) = Inr (text_bytes (''DONE'' @ newline), r)"
    "bytes_strip (text_bytes (''DONE'' @ newline)) = done_text"
  and have_line_read: "net_line (text_bytes (have_line []) @ r) = Inr (text_bytes (have_line []), r)"
  by (simp_all add: ack_def text_bytes_def newline_def net_line_def utf8_encode_def utf8_char_def bytes_strip_def
      bytes_space_def ack_text_def done_text_def have_line_def join_commas_def Let_def byte_of_def)

lemma have_none: "parse_have (text_bytes (have_line [])) = Inr []"
  by code_simp

section \<open>The upload\<close>

definition no_progress :: "'e progress" where
  "no_progress = (\<lambda>_ _ _. ret ())"

definition done_line_bytes :: bytes where
  "done_line_bytes = text_bytes (''DONE'' @ newline)"

lemma no_progress_app: "no_progress i n t s = (Inr (), s)"
  by (simp add: no_progress_def)

lemma upt_Cons_add: "[k..<k + Suc n] = k # [Suc k..<Suc k + n]"
  by (simp add: upt_conv_Cons del: upt_Suc)

lemma up_chunk_writes:
  assumes "crypto_ok C" "length key = 32" "k < 2 ^ 32" "length c \<le> CHUNK_SIZE"
  obtains f s where "up_chunk C no_progress fid key n (int k) c u =
      up_ack no_progress fid n (u\<lparr>u_client := s, u_out := u_out u @ frame_bytes f\<rparr>)" "seals C key f c" "fst f = k"
proof -
  obtain ct nonce tag where e: "encrypt_chunk C c key (u_client u) =
        (Inr (ct, nonce, tag), (u_client u)\<lparr>epos := epos (u_client u) + 12\<rparr>)"
      "length nonce = 12" "length tag = 16" "length ct = length c" "decrypt_chunk C ct nonce tag key = Inr c"
    using encrypt_chunk_seals [OF assms(1,2), of c "u_client u"] by metis
  let ?p = "chunk_payload (ct, nonce, tag)" let ?f = "(k, chunk_checksum c, ?p)"
  have len: "length ?p < 2 ^ 32" using e assms(4) by (simp add: chunk_payload_def CHUNK_SIZE_def)
  have "seals C key ?f c"
    using assms(3) len checksum_good [of c] e by (simp add: seals_def split_chunk_payload)
  moreover have "ascii_encode (chunk_checksum c) = Inr (map (\<lambda>x. byte_of (of_char x)) (chunk_checksum c))"
    by (rule ascii_bytes) (rule checksum_good(2))
  moreover have "pack_be32 (int k) = Inr (be_bytes 4 k)" "pack_be32 (int (length ?p)) = Inr (be_bytes 4 (length ?p))"
    using assms(3) len by (simp_all add: pack_be32_def)
  ultimately show ?thesis
    using e(1) by (intro that [where f = ?f]) (simp_all add: up_chunk_def up_def prog_simps Let_def up_write_def)
qed

lemma up_chunk_sends:
  assumes "crypto_ok C" "length key = 32" "k < 2 ^ 32" "length c \<le> CHUNK_SIZE" "u_in u = ack @ r"
  obtains f u' where "up_chunk C no_progress fid key n (int k) c u = (Inr False, u')" "seals C key f c" "fst f = k"
    "u_out u' = u_out u @ frame_bytes f" "u_in u' = r" "u_sent u' = u_sent u + 1"
proof -
  obtain f s where f: "up_chunk C no_progress fid key n (int k) c u =
      up_ack no_progress fid n (u\<lparr>u_client := s, u_out := u_out u @ frame_bytes f\<rparr>)" "seals C key f c" "fst f = k"
    by (rule up_chunk_writes [OF assms(1-4)])
  show ?thesis
    by (rule that [of "snd (up_chunk C no_progress fid key n (int k) c u)" f])
      (use f assms(5) ack_lines in \<open>simp_all add: up_ack_def up_def prog_simps up_line_def update_file_def no_progress_app\<close>)
qed

text \<open>The chunks at hand are sent as long as none of them is among those the server has.\<close>

lemma up_chunks_sends:
  assumes "crypto_ok C" "length key = 32" "k + length cs \<le> 2 ^ 32" "\<forall>c \<in> set cs. length c \<le> CHUNK_SIZE"
    and "\<forall>i \<in> set has. i < int k" "u_in u = concat (replicate (length cs) ack) @ done_line_bytes"
  shows "\<exists>fs u'. up_chunks C no_progress fid key n has (int k) cs u = (Inr True, u') \<and>
    list_all2 (seals C key) fs cs \<and> map fst fs = [k..<k + length cs] \<and>
    u_out u' = u_out u @ concat (map frame_bytes fs)"
  using assms(3-6)
proof (induction cs arbitrary: k u)
  case Nil
  then show ?case using done_line(1) [of "[]"] done_line(2)
    by (simp add: bnd_app up_line_def done_line_bytes_def)
next
  case (Cons c cs)
  obtain f u' where f: "up_chunk C no_progress fid key n (int k) c u = (Inr False, u')" "seals C key f c" "fst f = k"
      "u_out u' = u_out u @ frame_bytes f" "u_in u' = concat (replicate (length cs) ack) @ done_line_bytes"
    by (rule up_chunk_sends [OF assms(1,2), where k = k and c = c and u = u and fid = fid and n = n and
          r = "concat (replicate (length cs) ack) @ done_line_bytes"]) (use Cons.prems in auto)
  obtain fs v where "up_chunks C no_progress fid key n has (int (Suc k)) cs u' = (Inr True, v)"
      "list_all2 (seals C key) fs cs" "map fst fs = [Suc k..<Suc k + length cs]"
      "u_out v = u_out u' @ concat (map frame_bytes fs)"
    using Cons.IH [of "Suc k" u'] Cons.prems f(5) by force
  moreover have "int k \<notin> set has" using Cons.prems(3) by auto
  ultimately show ?case
    using f by (intro exI [of _ "f # fs"] exI [of _ v]) (simp only: up_chunks.simps list_all2_Cons list.map concat.simps
        length_Cons upt_Cons_add, simp add: bnd_app add.commute)
qed

definition upload_replies :: "nat \<Rightarrow> bytes" where
  "upload_replies n = text_bytes (have_line []) @ concat (replicate n ack) @ done_line_bytes"

definition upload_request_bytes :: "string \<Rightarrow> frame list \<Rightarrow> bytes" where
  "upload_request_bytes fid fs = utf8_encode (fid @ newline) @ concat (map frame_bytes fs)"

lemma up_connection_sends:
  assumes "crypto_ok C" "length key = 32" "length cs \<le> 2 ^ 32" "\<forall>c \<in> set cs. length c \<le> CHUNK_SIZE"
  obtains fs u' where "up_connection C no_progress fid cs key n
      \<lparr>u_client = s, u_in = upload_replies (length cs), u_out = [], u_sent = start\<rparr> = (Inr True, u')"
    "u_out u' = upload_request_bytes fid fs" "list_all2 (seals C key) fs cs" "map fst fs = [0..<length cs]"
proof -
  let ?u = "\<lparr>u_client = s, u_in = concat (replicate (length cs) ack) @ done_line_bytes,
      u_out = utf8_encode (fid @ newline), u_sent = 0\<rparr>"
  obtain fs u' where u: "up_chunks C no_progress fid key n [] 0 cs ?u = (Inr True, u')"
      "list_all2 (seals C key) fs cs" "map fst fs = [0..<length cs]"
      "u_out u' = utf8_encode (fid @ newline) @ concat (map frame_bytes fs)"
    using up_chunks_sends [OF assms(1,2), of 0 cs "[]" ?u fid n] assms(3,4) by auto
  show ?thesis
    by (rule that [of u' fs])
      (use u have_none in \<open>simp_all add: up_connection_def prog_simps up_write_def up_line_def upload_replies_def
        have_line_read upload_request_bytes_def newline_def\<close>)
qed

section \<open>The download\<close>

lemma net_frame_good:
  assumes "good_frame (i, ck, p)"
  shows "net_frame (frame_bytes (i, ck, p) @ r) = Inr (int i, ck, p, r)"
proof -
  let ?c = "map (\<lambda>c. byte_of (of_char c)) ck"
  have len: "length ck = 64" "length ?c = 64" and i: "i < 256 ^ 4" "length p < 256 ^ 4"
    and ck: "\<forall>c \<in> set ck. (of_char c :: nat) < 128" using assms by auto
  have dec: "ascii_decode ?c = Inr ck" using ascii_bytes [OF ck] by (rule ascii_roundtrip)
  have "drop 72 (frame_bytes (i, ck, p) @ r) = p @ r" using len by simp
  then show ?thesis
    using len dec by (simp add: net_frame_def Let_def be_val_bytes_id [OF i(1)] be_val_bytes_id [OF i(2)])
qed

lemma recv_loop_step:
  assumes "net_frame inp = Inr (idx, chunk_checksum c, p, rest)" "split_payload p = (ct, nonce, tag)"
    "decrypt_chunk C ct nonce tag key = Inr c" "dset idx c rs = rs'"
  shows "recv_loop C no_progress fid key n (Suc m) inp rs s = recv_loop C no_progress fid key n m rest rs'
    (s\<lparr>cdb := (cdb s)\<lparr>local_files := update_rows (\<lambda>f. lf_id f = fid)
      (set_column (Received_chunks (int (length rs')))) (local_files (cdb s))\<rparr>\<rparr>)"
  using assms by (simp add: prog_simps Let_def no_progress_app update_file_def)

lemma recv_loop_opens:
  assumes "list_all2 (seals C key) fs cs" "map fst fs = [k..<k + length cs]" "map fst rs = map int [0..<k]"
  shows "\<exists>t. recv_loop C no_progress fid key n (length cs) (concat (map frame_bytes fs)) rs s =
      (Inr (rs @ zip (map int [k..<k + length cs]) cs), t) \<and> disk t = disk s \<and> folders t = folders s"
  using assms
proof (induction fs cs arbitrary: k rs s rule: list_all2_induct)
  case (Cons f fs c cs)
  obtain i ck p where f: "f = (i, ck, p)" by (metis prod_cases3)
  have i: "i = k" and rest: "map fst fs = [Suc k..<Suc k + length cs]"
    using Cons.prems(1) f by (simp_all only: length_Cons upt_Cons_add list.map list.inject fst_conv)
  obtain ct nonce tag where g: "good_frame (i, ck, p)" "ck = chunk_checksum c" "split_payload p = (ct, nonce, tag)"
      "decrypt_chunk C ct nonce tag key = Inr c"
    using Cons.hyps(1) f by (auto simp: seals_def split: prod.splits)
  have fresh: "dset (int k) c rs = rs @ [(int k, c)]"
  proof (rule dset_fresh)
    have "fst ` set rs = int ` {0..<k}" using Cons.prems(2) by (metis atLeastLessThan_upt image_set)
    then show "int k \<notin> fst ` set rs" by auto
  qed
  let ?s = "s\<lparr>cdb := (cdb s)\<lparr>local_files := update_rows (\<lambda>f. lf_id f = fid)
      (set_column (Received_chunks (int (length rs) + 1))) (local_files (cdb s))\<rparr>\<rparr>"
  have "map fst (rs @ [(int k, c)]) = map int [0..<Suc k]" using Cons.prems(2) by simp
  from Cons.IH [OF rest this, of ?s]
  obtain t where t: "recv_loop C no_progress fid key n (length cs) (concat (map frame_bytes fs)) (rs @ [(int k, c)]) ?s =
      (Inr ((rs @ [(int k, c)]) @ zip (map int [Suc k..<Suc k + length cs]) cs), t)" "disk t = disk ?s" "folders t = folders ?s"
    by blast
  have "net_frame (concat (map frame_bytes (f # fs))) = Inr (int k, chunk_checksum c, p, concat (map frame_bytes fs))"
    using net_frame_good [OF g(1), of "concat (map frame_bytes fs)"] f i g(2) by (simp del: frame_bytes.simps)
  then have "recv_loop C no_progress fid key n (length (c # cs)) (concat (map frame_bytes (f # fs))) rs s =
      recv_loop C no_progress fid key n (length cs) (concat (map frame_bytes fs)) (rs @ [(int k, c)]) ?s"
    using recv_loop_step [OF _ g(3,4) fresh] by (simp add: add.commute del: frame_bytes.simps recv_loop.simps)
  then show ?case
    using t by (simp only: length_Cons upt_Cons_add list.map zip_Cons_Cons append.assoc append.simps fst_conv, simp)
qed simp

text \<open>What the receiver needs to know of an offer.\<close>

definition offer_of :: "json \<Rightarrow> string \<Rightarrow> nat \<Rightarrow> string \<Rightarrow> offer" where
  "offer_of fname sender n key_text = \<lparr>of_name = fname, of_total_chunks = JInt (int n),
     of_from_user = JStr sender, of_file_key = JStr key_text\<rparr>"

definition can_save :: "string \<Rightarrow> string \<Rightarrow> string \<Rightarrow> 'e file_client_scheme \<Rightarrow> bool" where
  "can_save dl sender fname s \<longleftrightarrow> (let d = path_join dl sender; p = path_join d fname in
     CHR 0x00 \<notin> set d \<and> disk s d = None \<and> CHR 0x00 \<notin> set p \<and> p \<noteq> [] \<and> last p \<noteq> CHR ''/'' \<and>
     p \<notin> insert d (folders s) \<and> path_dir p \<in> insert d (folders s))"

lemma file_receive_saves:
  assumes "list_all2 (seals C key) fs cs" "map fst fs = [0..<length cs]" "key \<noteq> []"
    and "can_save dl sender fname s"
  shows "\<exists>t. file_receive C no_progress dl fid (offer_of (JStr fname) sender (length cs) (b64_encode key))
      (Some (concat (map frame_bytes fs))) s = (Inr (path_join (path_join dl sender) fname), t) \<and>
    disk t = (disk s)(path_join (path_join dl sender) fname \<mapsto> concat cs)"
proof -
  let ?d = "path_join dl sender"
  let ?s = "s\<lparr>folders := insert ?d (folders s)\<rparr>"
  obtain t where t: "recv_loop C no_progress fid key (int (length cs)) (length cs) (concat (map frame_bytes fs)) [] ?s =
      (Inr (zip (map int [0..<length cs]) cs), t)" "disk t = disk s" "folders t = insert ?d (folders s)"
    using recv_loop_opens [OF assms(1), of 0 "[]" fid "int (length cs)" ?s] assms(2) by auto
  have "sorted (map fst (zip (map int [0..<length cs]) cs))" by (simp add: sorted_map)
  then have srt: "sort_key fst (zip (map int [0..<length cs]) cs) = zip (map int [0..<length cs]) cs"
    by (rule sort_key_id_if_sorted)
  have "b64_encode key \<noteq> []" using assms(3) by (rule b64_encode_not_Nil)
  then show ?thesis
    using t assms(4) srt
    by (simp add: file_receive_def offer_of_def prog_simps can_save_def Let_def make_folder_def b64_roundtrip write_disk_def)
qed

section \<open>Properties\<close>

text \<open>The server expects \<open>n\<close> chunks of the file: it is registered, and none of them is stored.\<close>

definition expects :: "string \<Rightarrow> string \<Rightarrow> nat \<Rightarrow> server \<Rightarrow> bool" where
  "expects base fid n s \<longleftrightarrow> plain_base base \<and> printable_id fid \<and> ready base fid s \<and>
     (\<exists>f. get_file fid (db s) = Some f \<and> f_total_chunks f = int n) \<and> get_chunks fid (db s) = [] \<and>
     distinct (ids_for s n) \<and> set (ids_for s n) \<inter> c_id ` set (chunks (db s)) = {}"

lemma seals_good: "list_all2 (seals C key) fs cs \<Longrightarrow> \<forall>f \<in> set fs. good_frame f"
  by (induction rule: list_all2_induct) (auto simp: seals_def simp del: good_frame.simps)

lemma expects_upload_ok:
  assumes "expects base fid (length fs) s" "list_all2 (seals C key) fs cs" "map fst fs = [0..<length fs]"
  shows "upload_ok base fid fs s"
proof -
  have "\<forall>f \<in> set fs. good_frame f" using assms(2) by (rule seals_good)
  then show ?thesis using assms(1,3) by (simp add: expects_def upload_ok_def)
qed


definition file_client_boot :: "string \<Rightarrow> file_client" where
  "file_client_boot user = \<lparr>clock = 0, mono = 0, entropy = byte_of, epos = 0, me = user, ctx = None,
     cdb = init_client_db, send_q = [], pending = [], disk = (\<lambda>_. None), folders = {''/home''}, active = []\<rparr>"

definition one_chunk_server :: server where
  "one_chunk_server = (boot byte_of 100 0)\<lparr>db := empty_db\<lparr>files := [\<lparr>f_id = demo_id, f_name = ''n'',
     f_size = 3, f_total_chunks = 1, f_uploader = ''alice'', f_recipient = ''bob'', f_encrypted_key = None,
     f_created_at = 1, f_expires_at = Some 1000\<rparr>]\<rparr>\<rparr>"

lemma small_split: "split_file [1, 2, 3] = [[1, 2, 3]]"
  by (simp add: split_file_def Let_def CHUNK_SIZE_def chunks_of.simps [of _ "1 # _"] chunks_of.simps [of _ "[]"])

lemma one_chunk_expects: "expects ''/srv'' demo_id 1 one_chunk_server"
proof -
  have "ready ''/srv'' demo_id one_chunk_server"
    by (simp add: ready_def one_chunk_server_def boot_def file_dir_def path_join_def demo_id_def)
  moreover have "get_file demo_id (db one_chunk_server) \<noteq> None \<and> chunks (db one_chunk_server) = [] \<and>
      f_total_chunks (the (get_file demo_id (db one_chunk_server))) = 1"
    by (simp add: get_file_def one_chunk_server_def empty_db_def)
  ultimately show ?thesis
    by (auto simp: expects_def plain_base_def printable_id_def demo_id_def get_chunks_def ids_for_def)
qed

lemma demo_can_save: "can_save ''/home'' ''alice'' ''a.txt'' (file_client_boot ''bob'')"
  by (simp add: can_save_def Let_def path_join_def path_dir_def file_client_boot_def)


text \<open> The name in an offer decides where the download is written. It is joined to the sender's folder below
  the downloads folder without a check, so an absolute name discards the folder: the received bytes
  replace any file whose folder exists and which the user may write, and nothing below the downloads
  folder. \<close>

theorem receive_path_escape:
  assumes "list_all2 (seals C key) fs cs" "map fst fs = [0..<length cs]" "key \<noteq> []"
    and "can_save dl sender (CHR ''/'' # fname) s"
  shows "\<exists>t. file_receive C no_progress dl fid (offer_of (JStr (CHR ''/'' # fname)) sender (length cs) (b64_encode key))
      (Some (concat (map frame_bytes fs))) s = (Inr (CHR ''/'' # fname), t) \<and>
    disk t = (disk s)(CHR ''/'' # fname \<mapsto> concat cs)"
  using file_receive_saves [OF assms] by (simp add: path_join_def)

definition sealed_frame :: frame where
  "sealed_frame = (0, chunk_checksum [9], chunk_payload ([9], replicate 12 0, replicate 16 0))"

lemma sealed_frame_seals: "seals toy (replicate 32 5) sealed_frame [9]"
  using checksum_good [of "[9]"]
  by (simp add: seals_def sealed_frame_def split_payload_def decrypt_chunk_def chunk_payload_def toy_def
      NONCE_LEN_def TAG_LEN_def as_value_error_def)

lemma receive_path_escape_witness:
  "\<exists>t. file_receive toy no_progress ''/home/bob/.local/downloads'' demo_id
      (offer_of (JStr ''/home/profile'') ''eve'' 1 (b64_encode (replicate 32 5)))
      (Some (concat (map frame_bytes [sealed_frame])))
      (file_client_boot ''bob'') = (Inr ''/home/profile'', t) \<and> disk t ''/home/profile'' = Some [9]"
proof -
  have "can_save ''/home/bob/.local/downloads'' ''eve'' ''/home/profile'' (file_client_boot ''bob'')"
    by (simp add: can_save_def Let_def path_join_def path_dir_def file_client_boot_def)
  then show ?thesis
    using receive_path_escape [of toy "replicate 32 5" "[sealed_frame]" "[[9]]" "''/home/bob/.local/downloads''" "''eve''"
        "''home/profile''" "file_client_boot ''bob''" demo_id] sealed_frame_seals
    by (auto simp: sealed_frame_def simp del: frame_bytes.simps)
qed

end
