(* ===== verification/File_Resume.thy ===== *)
theory File_Resume
  imports File_Transfer
begin

text \<open>
  An upload that loses its connection (\<^verbatim>\<open>FileHandler._upload_chunks\<close>): the next attempt reads from the server's
  HAVE line which chunks it holds and sends the others only.
\<close>

section \<open>The HAVE line\<close>

lemma split_all_not_Nil: "split_all c s \<noteq> []"
  by (induction s) (auto split: list.split)

lemma split_all_word: "c \<notin> set w \<Longrightarrow> split_all c w = [w]"
  by (induction w) auto

lemma split_all_append: "c \<notin> set w \<Longrightarrow> split_all c (w @ c # s) = w # split_all c s"
  by (induction w) auto

lemma join_commas_Cons: "join_commas (w # v # ws) = w @ CHR '','' # join_commas (v # ws)"
  by (simp add: join_commas_def)

lemma split_all_join: "ws \<noteq> [] \<Longrightarrow> \<forall>w \<in> set ws. CHR '','' \<notin> set w \<Longrightarrow> split_all (CHR '','') (join_commas ws) = ws"
proof (induction ws)
  case (Cons w ws)
  then show ?case
    by (cases ws) (simp_all add: join_commas_Cons split_all_append, simp add: join_commas_def split_all_word)
qed simp

lemma nat_str_chars: "c \<in> set (nat_str n) \<Longrightarrow> is_digit c"
  using nat_str_digits by blast

lemma comma_not_digit [simp]: "\<not> is_digit (CHR '','')" "\<not> is_digit (CHR 0x0A)" "\<not> is_digit (CHR '' '')"
  by (simp_all add: is_digit_def)

lemma all_ints_nat_str: "all_ints (map nat_str ns) = Inr (map int ns)"
  by (induction ns) (simp_all add: int_of_nat_str)

lemma join_chars: "c \<in> set (join_commas (map nat_str ns)) \<Longrightarrow> is_digit c \<or> c = CHR '',''"
  by (cases ns) (auto simp: join_commas_def dest: nat_str_chars split: if_splits)

lemma join_not_Nil: "ns \<noteq> [] \<Longrightarrow> join_commas (map nat_str ns) \<noteq> []"
  by (cases ns) (simp_all add: join_commas_def)

lemma digit_or_comma: "is_digit c \<or> c = CHR '','' \<Longrightarrow> (of_char c :: nat) < 128 \<and> (of_char c :: nat) \<noteq> 10 \<and> \<not> py_space c"
  by (auto simp: is_digit_def py_space_def)

lemma strip_line:
  assumes "s \<noteq> []" "\<forall>c \<in> set s. \<not> py_space c"
  shows "py_strip (s @ newline) = s"
proof -
  have "py_strip (s @ newline) = py_strip s"
    using assms by (cases s) (simp_all add: py_strip_def py_lstrip_def py_rstrip_def newline_def py_space_def)
  then show ?thesis using assms py_strip_id [of s] by simp
qed

lemma parse_have_line: "distinct ns \<Longrightarrow> parse_have (text_bytes (have_line (map int ns))) = Inr (map int ns)"
proof (cases "ns = []")
  case False
  assume "distinct ns"
  let ?j = "join_commas (map nat_str ns)"
  have h: "have_line (map int ns) = ''HAVE '' @ ?j @ newline" by (simp add: have_line_def int_str_def comp_def)
  have "\<forall>c \<in> set ?j. \<not> py_space c" using join_chars digit_or_comma by blast
  then have st: "py_strip (?j @ newline) = ?j" using join_not_Nil [OF False] by (intro strip_line)
  have "CHR '','' \<notin> set (nat_str n)" for n using nat_str_chars comma_not_digit(1) by blast
  then have sp: "split_all (CHR '','') ?j = map nat_str ns" using False by (intro split_all_join) auto
  have "take 5 (text_bytes (''HAVE '' @ x)) = utf8_encode ''HAVE ''" for x
    by (simp add: text_bytes_def utf8_encode_def utf8_char_def)
  moreover have "utf8_decode (text_bytes x) = Inr x" for x by (simp add: text_bytes_def utf8_roundtrip)
  moreover have "remdups (map int ns) = map int ns" using \<open>distinct ns\<close> by (simp add: distinct_map)
  ultimately show ?thesis
    using st sp join_not_Nil [OF False] remove_prefix_append [of "''HAVE ''" "?j @ newline"]
    unfolding parse_have_def h by (simp add: all_ints_nat_str Let_def)
qed (simp add: have_none)

lemma have_line_text:
  "\<exists>l. text_bytes (have_line (map int ns)) = l @ [10] \<and> 10 \<notin> set l \<and> length l + 1 = length (have_line (map int ns))"
proof -
  let ?t = "''HAVE '' @ join_commas (map nat_str ns)"
  have c: "(of_char c :: nat) < 128 \<and> (of_char c :: nat) \<noteq> 10" if "c \<in> set ?t" for c
    using that join_chars digit_or_comma by auto
  have "utf8_encode ?t = map (\<lambda>c. byte_of (of_char c)) ?t" using c by (intro ascii_text_bytes) auto
  moreover have "byte_of (of_char c) \<noteq> 10" if "c \<in> set ?t" for c
  proof
    assume "byte_of (of_char c) = 10"
    then have "unat (byte_of (of_char c)) = unat (10 :: byte)" by (rule arg_cong)
    then show False using c [OF that] by simp
  qed
  moreover have h: "have_line (map int ns) = ?t @ newline" by (simp add: have_line_def int_str_def comp_def)
  moreover have "text_bytes (?t @ newline) = utf8_encode ?t @ [10]"
    by (simp only: text_bytes_def utf8_encode_append) (simp add: newline_def utf8_encode_def utf8_char_def byte_of_def)
  moreover have "length (?t @ newline) = length ?t + 1" by (simp add: newline_def)
  ultimately show ?thesis by (intro exI [of _ "utf8_encode ?t"]) (simp only:, force)
qed

lemma have_line_reads:
  assumes "length (have_line (map int ns)) \<le> 65537"
  shows "net_line (text_bytes (have_line (map int ns)) @ r) = Inr (text_bytes (have_line (map int ns)), r)"
proof -
  obtain l where l: "text_bytes (have_line (map int ns)) = l @ [10]" "10 \<notin> set l" "length l \<le> 65536"
    using have_line_text [of ns] assms by auto
  have "takeWhile (\<lambda>b. b \<noteq> 10) (l @ 10 # r) = l" using l(2) by (induction l) auto
  then show ?thesis using l by (simp add: net_line_def Let_def)
qed

section \<open>A connection that skips, and one that breaks\<close>

lemma up_no_progress: "up (no_progress i n t) u = (Inr (), u)"
  by (simp add: up_def no_progress_app)

lemma up_chunks_skip:
  "k \<le> length cs \<Longrightarrow> \<forall>i < k. int (a + i) \<in> set has \<Longrightarrow>
   up_chunks C no_progress fid key n has (int a) cs u = up_chunks C no_progress fid key n has (int (a + k)) (drop k cs) u"
proof (induction k arbitrary: a cs)
  case (Suc k)
  then obtain c cs' where cs: "cs = c # cs'" by (cases cs) auto
  have "\<forall>i < k. int (Suc a + i) \<in> set has" using Suc.prems(2) by (metis Suc_mono add_Suc_shift)
  then have "up_chunks C no_progress fid key n has (int (Suc a)) cs' u =
      up_chunks C no_progress fid key n has (int (Suc a + k)) (drop k cs') u"
    using Suc.IH [of cs' "Suc a"] Suc.prems(1) cs by simp
  moreover have "int a \<in> set has" using Suc.prems(2) by (metis add.right_neutral zero_less_Suc)
  ultimately show ?case using cs by (simp add: bnd_app thn_app up_no_progress add.commute)
qed simp

lemma up_chunks_broken:
  assumes "crypto_ok C" "length key = 32" "a + length cs \<le> 2 ^ 32" "\<forall>c \<in> set cs. length c \<le> CHUNK_SIZE"
    and "k < length cs" "u_in u = concat (replicate k ack)"
  shows "\<exists>fs u'. up_chunks C no_progress fid key n [] (int a) cs u = (Inl OSError, u') \<and>
    list_all2 (seals C key) fs (take (Suc k) cs) \<and> map fst fs = [a..<a + Suc k] \<and>
    u_out u' = u_out u @ concat (map frame_bytes fs) \<and> u_sent u' = u_sent u + int k"
  using assms(3-6)
proof (induction cs arbitrary: a k u)
  case (Cons c cs)
  have a: "a < 2 ^ 32" "length c \<le> CHUNK_SIZE" using Cons.prems(1,2) by auto
  show ?case
  proof (cases k)
    case 0
    obtain f s where "up_chunk C no_progress fid key n (int a) c u =
        up_ack no_progress fid n (u\<lparr>u_client := s, u_out := u_out u @ frame_bytes f\<rparr>)" "seals C key f c" "fst f = a"
      by (rule up_chunk_writes [OF assms(1,2) a])
    then show ?thesis
      using 0 Cons.prems(4)
      by (intro exI [of _ "[f]"])
        (simp add: bnd_app up_ack_def up_line_def net_line_def bytes_strip_def ack_text_def done_text_def raise_def
          utf8_encode_def utf8_char_def Let_def)
  next
    case (Suc j)
    obtain f v where f: "up_chunk C no_progress fid key n (int a) c u = (Inr False, v)" "seals C key f c" "fst f = a"
        "u_out v = u_out u @ frame_bytes f" "u_in v = concat (replicate j ack)" "u_sent v = u_sent u + 1"
      by (rule up_chunk_sends [OF assms(1,2) a, of u "concat (replicate j ack)" fid n]) (use Suc Cons.prems(4) in auto)
    obtain fs u' where "up_chunks C no_progress fid key n [] (int (Suc a)) cs v = (Inl OSError, u')"
        "list_all2 (seals C key) fs (take (Suc j) cs)" "map fst fs = [Suc a..<Suc a + Suc j]"
        "u_out u' = u_out v @ concat (map frame_bytes fs)" "u_sent u' = u_sent v + int j"
      using Cons.IH [of "Suc a" j v] Cons.prems Suc f(5) by auto
    then show ?thesis
      using f Suc by (intro exI [of _ "f # fs"] exI [of _ u'])
        (simp only: up_chunks.simps list_all2_Cons list.map concat.simps take_Suc_Cons upt_Cons_add,
          simp add: bnd_app add.commute)
  qed
qed simp

section \<open>Properties\<close>

text \<open> C20: An upload survives a lost connection. When the first connection breaks after \<open>k\<close> acknowledged chunks and
  the server, which may have stored the one in flight too, announces \<open>m\<close> chunks on the next, the client sends
  from there on only, and then returns. What the server holds after both connections is the whole file: every
  chunk of it, in order, sealed. \<close>

theorem upload_resumes:
  assumes "crypto_ok C" "length key = 32" "cs = split_file raw" "length cs \<le> 2 ^ 32"
    and "k < length cs" "k \<le> m" "m \<le> Suc k" "length (have_line (map int [0..<m])) \<le> 65537"
  shows "\<exists>fs1 fs2 t. upload_chunks C no_progress fid cs key (int (length cs)) 3 0
      [Some (text_bytes (have_line []) @ concat (replicate k ack)),
       Some (text_bytes (have_line (map int [0..<m])) @ concat (replicate (length cs - m) ack) @ done_line_bytes)] s =
      (Inr [upload_request_bytes fid fs1, upload_request_bytes fid fs2], t) \<and>
    map fst fs1 = [0..<Suc k] \<and> map fst fs2 = [m..<length cs] \<and> list_all2 (seals C key) (take m fs1 @ fs2) cs"
proof -
  let ?n = "int (length cs)" let ?req = "utf8_encode (fid @ newline)"
  let ?in1 = "text_bytes (have_line []) @ concat (replicate k ack)"
  let ?h = "text_bytes (have_line (map int [0..<m]))"
  let ?rest = "concat (replicate (length cs - m) ack) @ done_line_bytes"
  have small: "\<forall>c \<in> set cs. length c \<le> CHUNK_SIZE" using assms(3) split_file_size by blast
  let ?u = "\<lparr>u_client = s, u_in = concat (replicate k ack), u_out = ?req, u_sent = 0\<rparr>"
  obtain fs1 u1 where u1: "up_chunks C no_progress fid key ?n [] 0 cs ?u = (Inl OSError, u1)"
      "list_all2 (seals C key) fs1 (take (Suc k) cs)" "map fst fs1 = [0..<Suc k]"
      "u_out u1 = ?req @ concat (map frame_bytes fs1)" "u_sent u1 = int k"
    using up_chunks_broken [OF assms(1,2) _ small assms(5), of 0 ?u fid ?n] assms(4) by auto
  have c1: "up_connection C no_progress fid cs key ?n \<lparr>u_client = s, u_in = ?in1, u_out = [], u_sent = 0\<rparr> = (Inl OSError, u1)"
    using u1(1) have_none
    by (simp add: up_connection_def prog_simps up_write_def up_line_def have_line_read newline_def)
  let ?v = "\<lparr>u_client = u_client u1, u_in = ?rest, u_out = ?req, u_sent = int m\<rparr>"
  obtain fs2 u2 where u2: "up_chunks C no_progress fid key ?n (map int [0..<m]) (int m) (drop m cs) ?v = (Inr True, u2)"
      "list_all2 (seals C key) fs2 (drop m cs)" "map fst fs2 = [m..<m + length (drop m cs)]"
      "u_out u2 = ?req @ concat (map frame_bytes fs2)"
    using up_chunks_sends [OF assms(1,2), of m "drop m cs" "map int [0..<m]" ?v fid ?n] small assms(4-7)
    by (auto dest: in_set_dropD)
  have "up_chunks C no_progress fid key ?n (map int [0..<m]) 0 cs ?v = (Inr True, u2)"
    using up_chunks_skip [of m cs 0 "map int [0..<m]" C fid key ?n ?v] u2(1) assms(5-7) by simp
  then have c2: "up_connection C no_progress fid cs key ?n
      \<lparr>u_client = u_client u1, u_in = ?h @ ?rest, u_out = [], u_sent = int k\<rparr> = (Inr True, u2)"
    using have_line_reads [OF assms(8), of ?rest] parse_have_line [of "[0..<m]"]
    by (simp add: up_connection_def prog_simps up_write_def up_line_def newline_def)
  have "upload_chunks C no_progress fid cs key ?n 3 0 [Some ?in1, Some (?h @ ?rest)] s =
      (Inr [u_out u1, u_out u2], u_client u2)"
    using c1 c2 u1(5) assms(5) by (auto simp: eval_nat_numeral prog_simps)
  moreover have "list_all2 (seals C key) (take m fs1) (take m cs)"
    using list_all2_takeI [OF u1(2), of m] assms(7) by (simp add: min_absorb1)
  then have "list_all2 (seals C key) (take m fs1 @ fs2) (take m cs @ drop m cs)"
    using u2(2) by (rule list_all2_appendI)
  ultimately show ?thesis
    using u1(3,4) u2(3,4) assms(5-7)
    by (intro exI [of _ fs1] exI [of _ fs2]) (simp add: upload_request_bytes_def del: upt_Suc)
qed

lemma upload_resumes_witness:
  "\<exists>fs t. upload_chunks toy no_progress demo_id [[1, 2, 3]] (replicate 32 5) 1 3 0
     [Some (text_bytes (have_line [])), Some (text_bytes (have_line [0]) @ done_line_bytes)] (file_client_boot ''ann'') =
     (Inr [upload_request_bytes demo_id fs, upload_request_bytes demo_id []], t) \<and>
     list_all2 (seals toy (replicate 32 5)) fs [[1, 2, 3]]"
proof -
  have l: "length (have_line (map int [0..<1])) \<le> 65537"
    by (simp add: have_line_def join_commas_def int_str_def newline_def nat_str.simps [of 0])
  show ?thesis
    using upload_resumes [OF toy_ok _ refl, of "replicate 32 5" "[1, 2, 3]" 0 1 demo_id "file_client_boot ''ann''"] l
    by (auto simp: small_split)
qed

end
