(* ===== verification/Ws_Client.thy ===== *)
theory Ws_Client
  imports Prelude "HOL-Library.Multiset" "HOL-Library.Sublist"
begin

text \<open>
  The client's connection (\<^verbatim>\<open>client/connection/ws_client.py\<close>, \<^verbatim>\<open>reconnect.py\<close>): the reconnect loop of
  \<^verbatim>\<open>connect\<close> and the sender task as a step relation between the states the loop awaits in. The network
  decides which step is taken: an attempt succeeds, fails with an error the loop catches, or with one it
  does not; an open connection closes; a send succeeds or raises. \<open>c_put\<close>, \<open>c_wire\<close> and \<open>c_lost\<close> record
  what was queued, sent and dropped.
\<close>

section \<open>The delays\<close>

definition RECONNECT_DELAYS :: "nat list" where
  "RECONNECT_DELAYS = [2, 4, 8, 16, 32, 60]"

definition backoff_delay :: "int \<Rightarrow> nat" where
  "backoff_delay n0 =
    (let n = (if n0 < 0 then 0 else n0)
     in RECONNECT_DELAYS ! nat (min n (int (length RECONNECT_DELAYS) - 1)))"

lemma backoff_delay_nth: "backoff_delay (int n) = RECONNECT_DELAYS ! min n 5"
  by (auto simp: backoff_delay_def RECONNECT_DELAYS_def Let_def min_def intro!: arg_cong [of _ _ "(!) _"])

lemma backoff_delay_bounds: "2 \<le> backoff_delay n" "backoff_delay n \<le> 60"
proof -
  have "backoff_delay n = RECONNECT_DELAYS ! min (nat n) 5"
    by (auto simp: backoff_delay_def RECONNECT_DELAYS_def Let_def min_def intro!: arg_cong [of _ _ "(!) _"])
  moreover have "RECONNECT_DELAYS ! k \<in> set RECONNECT_DELAYS" if "k \<le> 5" for k
    using that by (intro nth_mem) (simp add: RECONNECT_DELAYS_def)
  ultimately have "backoff_delay n \<in> set RECONNECT_DELAYS" by simp
  then show "2 \<le> backoff_delay n" "backoff_delay n \<le> 60" by (auto simp: RECONNECT_DELAYS_def)
qed

section \<open>State\<close>

datatype mode = Idle | Connecting | Open | Sleeping nat | Stopped | Crashed

record ws_client =
  c_mode :: mode
  c_running :: bool
  c_connected :: bool
  c_attempt :: nat
  c_delay_idx :: nat
  c_queue :: "string list"
  c_put :: "string list"
  c_wire :: "string list"
  c_lost :: "string list"

definition ws_init :: ws_client where
  "ws_init = \<lparr>c_mode = Idle, c_running = False, c_connected = False, c_attempt = 0, c_delay_idx = 0,
     c_queue = [], c_put = [], c_wire = [], c_lost = []\<rparr>"

section \<open>Steps\<close>

definition connect_start :: "ws_client \<Rightarrow> ws_client" where
  "connect_start c = c\<lparr>c_running := True, c_delay_idx := 0, c_mode := Connecting\<rparr>"

definition connection_opened :: "ws_client \<Rightarrow> ws_client" where
  "connection_opened c = c\<lparr>c_connected := True, c_attempt := 0, c_delay_idx := 0, c_mode := Open\<rparr>"

text \<open>The \<^verbatim>\<open>finally\<close> block, then the end of the loop body.\<close>

definition connection_over :: "ws_client \<Rightarrow> ws_client" where
  "connection_over c =
    (let c = c\<lparr>c_connected := False\<rparr> in
     if \<not> c_running c then c\<lparr>c_mode := Stopped\<rparr>
     else c\<lparr>c_mode := Sleeping (backoff_delay (int (c_delay_idx c))), c_attempt := c_attempt c + 1,
       c_delay_idx := c_delay_idx c + 1\<rparr>)"

definition connection_crashed :: "ws_client \<Rightarrow> ws_client" where
  "connection_crashed c = c\<lparr>c_connected := False, c_mode := Crashed\<rparr>"

definition sleep_over :: "ws_client \<Rightarrow> ws_client" where
  "sleep_over c = c\<lparr>c_mode := (if c_running c then Connecting else Stopped)\<rparr>"

text \<open>One round of \<^verbatim>\<open>_sender\<close>; \<open>ok\<close> says whether the socket took the data.\<close>

definition sender_round :: "bool \<Rightarrow> ws_client \<Rightarrow> ws_client" where
  "sender_round ok c = (case c_queue c of
     [] \<Rightarrow> c
   | x # q \<Rightarrow> if c_connected c \<and> ok then c\<lparr>c_queue := q, c_wire := c_wire c @ [x]\<rparr>
              else c\<lparr>c_queue := q, c_lost := c_lost c @ [x]\<rparr>)"

definition ws_put :: "string \<Rightarrow> ws_client \<Rightarrow> ws_client" where
  "ws_put x c = c\<lparr>c_queue := c_queue c @ [x], c_put := c_put c @ [x]\<rparr>"

definition ws_stop :: "ws_client \<Rightarrow> ws_client" where
  "ws_stop c = c\<lparr>c_running := False\<rparr>"

inductive ws_step :: "ws_client \<Rightarrow> ws_client \<Rightarrow> bool" where
  start: "c_mode c = Idle \<Longrightarrow> ws_step c (connect_start c)"
| opened: "c_mode c = Connecting \<Longrightarrow> ws_step c (connection_opened c)"
| refused: "c_mode c = Connecting \<Longrightarrow> ws_step c (connection_over c)"
| closed: "c_mode c = Open \<Longrightarrow> ws_step c (connection_over c)"
| crashed: "c_mode c = Connecting \<or> c_mode c = Open \<Longrightarrow> ws_step c (connection_crashed c)"
| awake: "c_mode c = Sleeping d \<Longrightarrow> ws_step c (sleep_over c)"
| sender: "c_mode c = Open \<Longrightarrow> ws_step c (sender_round ok c)"
| put: "ws_step c (ws_put x c)"
| stop: "ws_step c (ws_stop c)"

inductive_cases ws_stepE: "ws_step c c'"

section \<open>Invariant\<close>

definition ws_ok :: "ws_client \<Rightarrow> bool" where
  "ws_ok c \<longleftrightarrow> c_attempt c = c_delay_idx c \<and> (c_connected c \<longleftrightarrow> c_mode c = Open) \<and>
     (c_mode c = Open \<or> c_mode c = Idle \<longrightarrow> c_delay_idx c = 0) \<and>
     (\<forall>d. c_mode c = Sleeping d \<longrightarrow> 0 < c_delay_idx c \<and> d = backoff_delay (int (c_delay_idx c - 1))) \<and>
     mset (c_put c) = mset (c_wire c) + mset (c_lost c) + mset (c_queue c) \<and>
     subseq (c_wire c @ c_queue c) (c_put c)"

lemma ws_ok_init: "ws_ok ws_init"
  by (simp add: ws_ok_def ws_init_def)

lemma subseq_drop_mid: "subseq (xs @ y # ys) zs \<Longrightarrow> subseq (xs @ ys) zs"
proof -
  have "subseq (xs @ ys) (xs @ y # ys)" by (simp add: list_emb_Cons subseq_append')
  then show "subseq (xs @ y # ys) zs \<Longrightarrow> subseq (xs @ ys) zs" by (rule subseq_order.order_trans)
qed

lemma ws_ok_step: "ws_step c c' \<Longrightarrow> ws_ok c \<Longrightarrow> ws_ok c'"
proof (induction rule: ws_step.induct)
  case (sender c ok)
  then show ?case
    by (auto simp: ws_ok_def sender_round_def dest: subseq_drop_mid split: list.split)
qed (auto simp: ws_ok_def connect_start_def connection_opened_def connection_over_def connection_crashed_def
    sleep_over_def ws_put_def ws_stop_def Let_def list_emb_append_mono simp flip: append_assoc)

lemma ws_ok_reachable: "ws_step\<^sup>*\<^sup>* ws_init c \<Longrightarrow> ws_ok c"
  by (induction rule: rtranclp_induct) (auto intro: ws_ok_init ws_ok_step)

lemma nothing_leaves_offline:
  "ws_step c c' \<Longrightarrow> c_mode c \<noteq> Open \<Longrightarrow> c_wire c' = c_wire c \<and> c_lost c' = c_lost c \<and> prefix (c_queue c) (c_queue c')"
  by (erule ws_stepE) (auto simp: connect_start_def connection_opened_def connection_over_def
      connection_crashed_def sleep_over_def ws_put_def ws_stop_def Let_def)

section \<open>Properties\<close>

text \<open> The reconnect schedule: after the \<open>n\<close>-th failure in a row the client sleeps the \<open>n\<close>-th delay of the
  list and the last one from then on, so between 2 and 60 seconds; a connection that opens starts the list
  again. \<close>

theorem reconnect_backoff:
  assumes "ws_step\<^sup>*\<^sup>* ws_init c"
  shows "(c_mode c = Open \<longrightarrow> c_attempt c = 0) \<and>
    (c_mode c = Sleeping d \<longrightarrow> 0 < c_attempt c \<and> d = [2, 4, 8, 16, 32, 60] ! min (c_attempt c - 1) 5 \<and>
       2 \<le> d \<and> d \<le> 60)"
proof -
  have "ws_ok c" using assms by (rule ws_ok_reachable)
  moreover have "d = [2, 4, 8, 16, 32, 60] ! min n 5 \<and> 2 \<le> d \<and> d \<le> 60" if "d = backoff_delay (int n)" for n
    unfolding that using backoff_delay_bounds [of "int n"] backoff_delay_nth [of n]
    by (simp add: RECONNECT_DELAYS_def)
  moreover have "0 < c_attempt c \<and> d = backoff_delay (int (c_attempt c - 1))" if "c_mode c = Sleeping d"
    using calculation(1) that by (simp add: ws_ok_def)
  moreover have "c_attempt c = 0" if "c_mode c = Open"
    using calculation(1) that by (simp add: ws_ok_def)
  ultimately show ?thesis by blast
qed

definition two_failures :: ws_client where
  "two_failures = connection_over (sleep_over (connection_over (connect_start ws_init)))"

lemma two_failures_reachable: "ws_step\<^sup>*\<^sup>* ws_init two_failures"
proof -
  let ?a = "connect_start ws_init" let ?b = "connection_over ?a" let ?c = "sleep_over ?b"
  note eval = connect_start_def connection_over_def sleep_over_def ws_init_def Let_def
  have "ws_step ws_init ?a" by (rule start) (simp add: eval)
  then have "ws_step\<^sup>*\<^sup>* ws_init ?a" by (rule r_into_rtranclp)
  moreover have "ws_step ?a ?b" by (rule refused) (simp add: eval)
  ultimately have "ws_step\<^sup>*\<^sup>* ws_init ?b" by (rule rtranclp.rtrancl_into_rtrancl)
  moreover have "ws_step ?b ?c" by (rule awake) (simp add: eval)
  ultimately have "ws_step\<^sup>*\<^sup>* ws_init ?c" by (rule rtranclp.rtrancl_into_rtrancl)
  moreover have "ws_step ?c two_failures" unfolding two_failures_def by (rule refused) (simp add: eval)
  ultimately show ?thesis by (rule rtranclp.rtrancl_into_rtrancl)
qed

lemma reconnect_backoff_witness: "c_mode two_failures = Sleeping 4"
proof -
  obtain d where d: "c_mode two_failures = Sleeping d" and a: "c_attempt two_failures = 2"
    by (simp add: two_failures_def sleep_over_def connection_over_def connect_start_def ws_init_def Let_def)
  then show ?thesis using reconnect_backoff [OF two_failures_reachable, of d] by simp
qed

text \<open> C23: The outgoing queue: what reaches the wire are queued packets, each at most once and in the order they
  were queued; every queued packet is on the wire, still waiting, or was dropped by a failed send; and while
  there is no open connection nothing leaves the queue. \<close>

theorem outgoing_in_order:
  assumes "ws_step\<^sup>*\<^sup>* ws_init c" "ws_step c c'"
  shows "subseq (c_wire c) (c_put c) \<and>
    mset (c_put c) = mset (c_wire c) + mset (c_lost c) + mset (c_queue c) \<and>
    (c_mode c \<noteq> Open \<longrightarrow> c_wire c' = c_wire c \<and> c_lost c' = c_lost c \<and> prefix (c_queue c) (c_queue c'))"
proof -
  have "subseq (c_wire c @ c_queue c) (c_put c)" "mset (c_put c) = mset (c_wire c) + mset (c_lost c) + mset (c_queue c)"
    using ws_ok_reachable [OF assms(1)] by (simp_all add: ws_ok_def)
  moreover have "subseq (c_wire c) (c_wire c @ c_queue c)" by (simp add: list_emb_append2 subseq_rev_drop_many)
  ultimately show ?thesis using nothing_leaves_offline [OF assms(2)] subseq_order.order_trans by blast
qed

lemma outgoing_in_order_witness:
  "prefix (c_queue two_failures) (c_queue (ws_put ''hi'' two_failures))"
proof -
  have "c_mode two_failures \<noteq> Open"
    by (simp add: two_failures_def sleep_over_def connection_over_def connect_start_def ws_init_def Let_def)
  then show ?thesis using outgoing_in_order [OF two_failures_reachable put [of two_failures "''hi''"]] by simp
qed

end
