(* ===== verification/Jitter_Buffer.thy ===== *)
theory Jitter_Buffer
  imports Encoding
begin

text \<open>
  The audio jitter buffer (\<^verbatim>\<open>client/audio/jitter_buffer.py\<close>): packets keyed by sequence number, popped in
  order. The buffer is a machine over pushes and pops; its output is the list of packets popped so
  far.
\<close>

section \<open>The buffer\<close>

record jitter =
  max_size :: int
  jbuf :: "(int \<times> bytes) list"
  next_seq :: int
  initialised :: bool
  popped :: bool

definition jitter_init :: "int \<Rightarrow> exn + jitter" where
  "jitter_init n = (if n < 1 then Inl ValueError
     else Inr \<lparr>max_size = n, jbuf = [], next_seq = 0, initialised = False, popped = False\<rparr>)"

definition advance_to_earliest :: "jitter \<Rightarrow> jitter" where
  "advance_to_earliest j = (if jbuf j = [] then j
     else let earliest = Min (set (map fst (jbuf j)))
          in if earliest > next_seq j then j\<lparr>next_seq := earliest\<rparr> else j)"

definition push :: "int \<Rightarrow> bytes \<Rightarrow> jitter \<Rightarrow> jitter" where
  "push seq frame j0 =
    (let j = (if \<not> initialised j0 then j0\<lparr>next_seq := seq, initialised := True\<rparr>
              else if \<not> popped j0 \<and> seq < next_seq j0 then j0\<lparr>next_seq := seq\<rparr> else j0)
     in if seq < next_seq j - 2 * max_size j then j
        else if dget (jbuf j) seq \<noteq> None then j
        else let j = j\<lparr>jbuf := dset seq frame (jbuf j)\<rparr>
             in if int (length (jbuf j)) > max_size j then advance_to_earliest j else j)"

definition pop :: "jitter \<Rightarrow> bytes option \<times> jitter" where
  "pop j0 =
    (if \<not> initialised j0 then (None, j0)
     else
       let j = (if int (length (jbuf j0)) \<ge> max_size j0 \<and> dget (jbuf j0) (next_seq j0) = None
                then advance_to_earliest j0 else j0)
       in case dget (jbuf j) (next_seq j) of
            Some frame \<Rightarrow> (Some frame, j\<lparr>jbuf := dpop (next_seq j) (jbuf j), next_seq := next_seq j + 1,
              popped := True\<rparr>)
          | None \<Rightarrow> (None, j))"

definition jitter_reset :: "jitter \<Rightarrow> jitter" where
  "jitter_reset j = j\<lparr>jbuf := [], next_seq := 0, initialised := False, popped := False\<rparr>"

definition jsize :: "jitter \<Rightarrow> int" where
  "jsize j = int (length (jbuf j))"

section \<open>Lemmas\<close>

lemma Min_keys: "jbuf j \<noteq> [] \<Longrightarrow> Min (set (map fst (jbuf j))) \<in> fst ` set (jbuf j)"
  using Min_in [of "set (map fst (jbuf j))"] by auto

lemma advance_same [simp]:
  "jbuf (advance_to_earliest j) = jbuf j" "max_size (advance_to_earliest j) = max_size j"
  "initialised (advance_to_earliest j) = initialised j" "popped (advance_to_earliest j) = popped j"
  by (simp_all add: advance_to_earliest_def Let_def)

lemma advance_next: "next_seq j \<le> next_seq (advance_to_earliest j)"
  by (auto simp: advance_to_earliest_def Let_def intro: less_imp_le)

lemma advance_stale:
  assumes "(q, f) \<in> set (jbuf j)" "q < next_seq j" shows "advance_to_earliest j = j"
proof -
  have "Min (set (map fst (jbuf j))) \<le> q" using assms(1) by (intro Min_le) force+
  then show ?thesis using assms by (auto simp: advance_to_earliest_def Let_def)
qed

lemma push_params [simp]: "max_size (push q f j) = max_size j" "popped (push q f j) = popped j"
  "initialised (push q f j)"
  by (auto simp: push_def Let_def)

lemma push_next: "popped j \<Longrightarrow> initialised j \<Longrightarrow> next_seq j \<le> next_seq (push q f j)"
  using advance_next [of "j\<lparr>jbuf := dset q f (jbuf j)\<rparr>"] by (auto simp: push_def Let_def)

lemma dset_new: "dget d k = None \<Longrightarrow> dset k v d = d @ [(k, v)]"
  by (intro dset_fresh) (simp add: map_of_eq_None_iff)

lemma push_buf: "set (jbuf (push q f j)) \<subseteq> insert (q, f) (set (jbuf j))"
  by (auto simp: push_def Let_def dset_new split: if_splits)

lemma delete_subset: "set (dpop k d) \<subseteq> set d"
  by (auto simp: AList.delete_eq)

lemma pop_Some:
  assumes "pop j = (Some f, j')"
  shows "(next_seq j' - 1, f) \<in> set (jbuf j)" "next_seq j < next_seq j'" "popped j'" "initialised j"
    "set (jbuf j') \<subseteq> set (jbuf j)" "initialised j'"
  using assms advance_next [of j]
  by (auto simp: pop_def Let_def dest!: map_of_SomeD dest: subsetD [OF delete_subset]
      split: if_splits option.splits)

lemma pop_None:
  assumes "pop j = (None, j')"
  shows "jbuf j' = jbuf j" "next_seq j \<le> next_seq j'" "popped j' = popped j" "initialised j' = initialised j"
  using assms advance_next [of j] by (auto simp: pop_def Let_def split: if_splits option.splits)

section \<open>Runs\<close>

datatype jevent = Push int bytes | Pop

text \<open>The buffer, the packets popped with their sequence numbers, and the packets pushed.\<close>

type_synonym jrun = "jitter \<times> (int \<times> bytes) list \<times> (int \<times> bytes) list"

fun jstep :: "jrun \<Rightarrow> jevent \<Rightarrow> jrun" where
  "jstep (j, outs, ins) (Push q f) = (push q f j, outs, ins @ [(q, f)])"
| "jstep (j, outs, ins) Pop = (case pop j of
     (Some f, j') \<Rightarrow> (j', outs @ [(next_seq j' - 1, f)], ins)
   | (None, j') \<Rightarrow> (j', outs, ins))"

fun jrun_ok :: "jrun \<Rightarrow> bool" where
  "jrun_ok (j, outs, ins) \<longleftrightarrow> set (jbuf j) \<subseteq> set ins \<and> set outs \<subseteq> set ins \<and>
     sorted_wrt (<) (map fst outs) \<and> (\<forall>q \<in> fst ` set outs. q < next_seq j) \<and>
     (outs \<noteq> [] \<longrightarrow> popped j \<and> initialised j)"

lemma jstep_ok: "jrun_ok S \<Longrightarrow> jrun_ok (jstep S e)"
proof -
  obtain j outs ins where S: "S = (j, outs, ins)" by (metis prod_cases3)
  assume ok: "jrun_ok S"
  show "jrun_ok (jstep S e)"
  proof (cases e)
    case (Push q f)
    have "next_seq j \<le> next_seq (push q f j)" if "outs \<noteq> []"
      using ok S that by (intro push_next) auto
    then have "\<forall>p \<in> fst ` set outs. p < next_seq (push q f j)"
      using ok S by (cases outs) force+
    then show ?thesis using ok S Push push_buf [of q f j] by auto
  next
    case Pop
    obtain r j' where p: "pop j = (r, j')" by fastforce
    show ?thesis
    proof (cases r)
      case None
      then show ?thesis using ok S Pop p pop_None [of j j'] by (force dest: order_less_le_trans)
    next
      case (Some f)
      have "\<forall>p \<in> fst ` set outs. p < next_seq j' - 1"
        using ok S pop_Some(2) [OF p [unfolded Some]] by force
      then show ?thesis using ok S Pop p Some pop_Some [OF p [unfolded Some]]
        by (auto simp: sorted_wrt_append)
    qed
  qed
qed

interpretation jit: machine jstep jrun_ok
  by unfold_locales (rule jstep_ok)

lemma jitter_init_ok: "jitter_init n = Inr j \<Longrightarrow> jrun_ok (j, [], [])"
  by (auto simp: jitter_init_def split: if_splits)

section \<open>Properties\<close>

text \<open> C18: Playback order: whatever order packets arrive and playback ticks interleave, the packets popped have
  strictly increasing sequence numbers, so none is played twice or out of order, and each one is a packet
  that was pushed under that number. \<close>

theorem jitter_in_order:
  assumes "jitter_init n = Inr j" "run jstep (j, [], []) es = (j', outs, ins)"
  shows "sorted_wrt (<) (map fst outs) \<and> set outs \<subseteq> set ins"
  using jit.inv_run [OF jitter_init_ok [OF assms(1)], of es] assms(2) by simp

lemma push_window:
  assumes "jitter_init n = Inr j" "distinct qs" "int (length qs) \<le> n"
  shows "\<exists>j'. run jstep (j, [], ins) (map (\<lambda>q. Push q (fr q)) qs) = (j', [], ins @ map (\<lambda>q. (q, fr q)) qs) \<and>
    jbuf j' = map (\<lambda>q. (q, fr q)) qs \<and> max_size j' = n \<and> \<not> popped j' \<and>
    (if qs = [] then \<not> initialised j' else initialised j' \<and> next_seq j' = Min (set qs))"
  using assms(2,3)
proof (induction qs rule: rev_induct)
  case Nil
  then show ?case using assms(1) by (auto simp: jitter_init_def split: if_splits)
next
  case (snoc q qs)
  then obtain j1 where j1: "run jstep (j, [], ins) (map (\<lambda>q. Push q (fr q)) qs) = (j1, [], ins @ map (\<lambda>q. (q, fr q)) qs)"
    "jbuf j1 = map (\<lambda>q. (q, fr q)) qs" "max_size j1 = n" "\<not> popped j1"
    "if qs = [] then \<not> initialised j1 else initialised j1 \<and> next_seq j1 = Min (set qs)" by auto
  have new: "dget (jbuf j1) q = None" using snoc.prems(1) j1(2) by (auto simp: map_of_eq_None_iff)
  have n: "1 \<le> n" using assms(1) by (auto simp: jitter_init_def split: if_splits)
  have "jbuf (push q (fr q) j1) = map (\<lambda>q. (q, fr q)) (qs @ [q]) \<and>
      next_seq (push q (fr q) j1) = Min (set (qs @ [q]))"
  proof (cases "qs = []")
    case True
    then show ?thesis using j1(2-5) new n snoc.prems(2) by (simp add: push_def Let_def dset_new)
  next
    case False
    define m where "m = Min (set qs)"
    have "Min (set (qs @ [q])) = min q m" using False by (simp add: m_def)
    moreover have "next_seq j1 = m" "initialised j1" using j1(5) False by (simp_all add: m_def)
    ultimately show ?thesis using j1(2-4) new n snoc.prems(2)
      by (simp add: push_def Let_def dset_new)
  qed
  then show ?case using j1 by (auto simp: run_append)
qed

lemma map_of_frames: "q \<in> set qs \<Longrightarrow> map_of (map (\<lambda>q. (q, fr q)) qs) q = Some (fr q)"
  by (induction qs) auto

lemma pop_window:
  assumes "initialised j" "distinct (map fst (jbuf j))" "next_seq j = m"
    and "\<forall>i < k. dget (jbuf j) (m + int i) = Some (fr (m + int i))"
  shows "\<exists>j'. run jstep (j, outs, ins) (replicate k Pop) =
    (j', outs @ map (\<lambda>i. (m + int i, fr (m + int i))) [0..<k], ins)"
  using assms
proof (induction k arbitrary: j m outs)
  case (Suc k)
  let ?j = "j\<lparr>jbuf := dpop m (jbuf j), next_seq := m + 1, popped := True\<rparr>"
  have "dget (jbuf j) m = Some (fr m)" using Suc.prems(4) [rule_format, of 0] by simp
  then have p: "pop j = (Some (fr m), ?j)" using Suc.prems(1,3) by (simp add: pop_def Let_def)
  have "\<exists>j'. run jstep (?j, outs @ [(m, fr m)], ins) (replicate k Pop) =
      (j', (outs @ [(m, fr m)]) @ map (\<lambda>i. (m + 1 + int i, fr (m + 1 + int i))) [0..<k], ins)"
  proof (rule Suc.IH)
    show "\<forall>i < k. dget (jbuf ?j) (m + 1 + int i) = Some (fr (m + 1 + int i))"
    proof (intro allI impI)
      fix i assume "i < k"
      then have "dget (jbuf j) (m + int (Suc i)) = Some (fr (m + int (Suc i)))"
        using Suc.prems(4) by blast
      then show "dget (jbuf ?j) (m + 1 + int i) = Some (fr (m + 1 + int i))" by (simp add: add.assoc)
    qed
  qed (use Suc.prems in \<open>simp_all add: distinct_dpop\<close>)
  then show ?case using p
    by (simp add: upt_conv_Cons map_Suc_upt [symmetric] add.assoc comp_def del: map_Suc_upt upt_Suc)
qed simp

text \<open> C17: Reordering is undone: if the \<open>k\<close> packets numbered \<open>m\<close> to \<open>m + k - 1\<close>, no more than the capacity,
  arrive in any order before playback starts, then \<open>k\<close> pops return all of them in sequence. \<close>

theorem jitter_reorders:
  assumes "jitter_init n = Inr j" "int k \<le> n" "distinct qs" "set qs = {m..<m + int k}"
  shows "\<exists>j' ins. run jstep (j, [], []) (map (\<lambda>q. Push q (fr q)) qs @ replicate k Pop) =
    (j', map (\<lambda>i. (m + int i, fr (m + int i))) [0..<k], ins)"
proof (cases "k = 0")
  case True
  then show ?thesis using assms(3,4) by simp
next
  case False
  have "int (length qs) = int k" using distinct_card [OF assms(3)] assms(4) by simp
  then obtain j1 where j1: "run jstep (j, [], []) (map (\<lambda>q. Push q (fr q)) qs) = (j1, [], [] @ map (\<lambda>q. (q, fr q)) qs)"
    "jbuf j1 = map (\<lambda>q. (q, fr q)) qs" "initialised j1" "next_seq j1 = Min (set qs)"
    using push_window [OF assms(1,3), of "[]" fr] assms(2) False by auto
  have "Min (set qs) = m" unfolding assms(4) using False by (intro Min_eqI) auto
  moreover have "\<forall>i < k. dget (jbuf j1) (m + int i) = Some (fr (m + int i))"
    using assms(4) j1(2) by (simp add: map_of_frames)
  moreover have "distinct (map fst (jbuf j1))" using assms(3) j1(2) by (simp add: comp_def)
  ultimately obtain j2 where "run jstep (j1, [], map (\<lambda>q. (q, fr q)) qs) (replicate k Pop) =
      (j2, [] @ map (\<lambda>i. (m + int i, fr (m + int i))) [0..<k], map (\<lambda>q. (q, fr q)) qs)"
    using pop_window [OF j1(3), of m k fr "[]"] j1(4) by blast
  then show ?thesis using j1(1) by (simp add: run_append)
qed

text \<open>A buffer that waits for a packet while it holds one from before the playback position.\<close>

definition stalled :: "jitter \<Rightarrow> bool" where
  "stalled j \<longleftrightarrow> initialised j \<and> popped j \<and> (\<exists>q f. (q, f) \<in> set (jbuf j) \<and> q < next_seq j) \<and>
     dget (jbuf j) (next_seq j) = None"

lemma stalled_push:
  assumes "stalled j" "q \<noteq> next_seq j"
  shows "stalled (push q f j) \<and> next_seq (push q f j) = next_seq j"
proof -
  obtain q0 f0 where old: "(q0, f0) \<in> set (jbuf j)" "q0 < next_seq j" using assms(1) by (auto simp: stalled_def)
  have "advance_to_earliest (j\<lparr>jbuf := jbuf j @ [(q, f)]\<rparr>) = j\<lparr>jbuf := jbuf j @ [(q, f)]\<rparr>"
    using old by (intro advance_stale [of q0 f0]) auto
  then show ?thesis
    using assms old by (auto simp: stalled_def push_def Let_def dset_new map_add_def)
qed

lemma stalled_pop:
  assumes "stalled j" shows "pop j = (None, j)"
proof -
  have "advance_to_earliest j = j" using assms by (auto simp: stalled_def intro: advance_stale)
  then show ?thesis using assms by (simp add: stalled_def pop_def Let_def)
qed

lemma stalled_run:
  assumes "stalled j" "\<forall>q f. Push q f \<in> set es \<longrightarrow> q \<noteq> next_seq j"
  shows "\<exists>j' ins'. run jstep (j, outs, ins) es = (j', outs, ins') \<and> stalled j' \<and> next_seq j' = next_seq j"
  using assms
proof (induction es arbitrary: j ins)
  case (Cons e es)
  show ?case
  proof (cases e)
    case (Push q f)
    then have "stalled (push q f j)" "next_seq (push q f j) = next_seq j"
      using stalled_push [OF Cons.prems(1), of q f] Cons.prems(2) by auto
    moreover have "\<forall>p g. Push p g \<in> set es \<longrightarrow> p \<noteq> next_seq (push q f j)"
      using Cons.prems(2) calculation(2) by auto
    ultimately obtain j' ins' where "run jstep (push q f j, outs, ins @ [(q, f)]) es = (j', outs, ins')"
      "stalled j'" "next_seq j' = next_seq (push q f j)" using Cons.IH by blast
    then show ?thesis using Push \<open>next_seq (push q f j) = next_seq j\<close> by auto
  next
    case Pop
    then show ?thesis using Cons.IH [OF Cons.prems(1)] Cons.prems stalled_pop [OF Cons.prems(1)] by simp
  qed
qed simp

text \<open> One late packet can silence a call for good. Once a packet older than the playback position is in the
  buffer, losing the next expected packet stops playback: however many later packets arrive and however often
  the buffer is asked, nothing is popped and the position never advances. \<close>

theorem late_packet_stalls:
  assumes "stalled j" "\<forall>q f. Push q f \<in> set es \<longrightarrow> q \<noteq> next_seq j"
    and "run jstep (j, outs, ins) es = (j', outs', ins')"
  shows "outs' = outs \<and> next_seq j' = next_seq j"
  using stalled_run [OF assms(1,2), of outs ins] assms(3) by auto

section \<open>The properties at concrete inputs\<close>

definition jit2 :: jitter where
  "jit2 = \<lparr>max_size = 2, jbuf = [], next_seq = 0, initialised = False, popped = False\<rparr>"

lemma jit2_init: "jitter_init 2 = Inr jit2"
  by (simp add: jitter_init_def jit2_def)

lemma jitter_in_order_witness:
  "sorted_wrt (<) (map fst (fst (snd (run jstep (jit2, [], [])
     [Push 7 [1], Push 6 [2], Pop, Push 9 [3], Pop, Push 8 [4], Pop, Pop]))))"
proof -
  obtain j' outs ins where r: "run jstep (jit2, [], [])
     [Push 7 [1], Push 6 [2], Pop, Push 9 [3], Pop, Push 8 [4], Pop, Pop] = (j', outs, ins)" by (metis prod_cases3)
  show ?thesis using jitter_in_order [OF jit2_init r] unfolding r by simp
qed

lemma jitter_reorders_witness:
  "fst (snd (run jstep (jit2, [], []) [Push 4 [4], Push 3 [3], Pop, Pop])) = [(3, [3]), (4, [4])]"
proof -
  have "set [4, 3] = {3..<3 + int 2}" by auto
  then show ?thesis
    using jitter_reorders [OF jit2_init, of 2 "[4, 3]" 3 "\<lambda>q. [of_int q]"]
    by (auto simp: numeral_2_eq_2)
qed

text \<open>Packet 5 is played, packet 4 arrives late, packet 6 is lost: 7, 8 and 9 are never played.\<close>

definition jit_late :: jitter where
  "jit_late = fst (run jstep (jit2, [], []) [Push 5 [5], Pop, Push 4 [4]])"

lemma jit_late_stalled: "stalled jit_late \<and> next_seq jit_late = 6"
proof -
  have "jit_late = \<lparr>max_size = 2, jbuf = [(4, [4])], next_seq = 6, initialised = True, popped = True\<rparr>"
    by (simp add: jit_late_def jit2_def push_def pop_def Let_def)
  from this [THEN arg_cong [of _ _ initialised]] this [THEN arg_cong [of _ _ popped]]
    this [THEN arg_cong [of _ _ jbuf]] this [THEN arg_cong [of _ _ next_seq]]
  have "initialised jit_late" "popped jit_late" "jbuf jit_late = [(4, [4])]" "next_seq jit_late = 6"
    by simp_all
  then show ?thesis by (simp add: stalled_def)
qed

lemma late_packet_stalls_witness:
  "fst (snd (run jstep (jit_late, [], []) [Push 7 [7], Pop, Push 8 [8], Pop, Push 9 [9], Pop, Pop, Pop])) = []"
proof -
  obtain j' outs ins where r: "run jstep (jit_late, [], [])
     [Push 7 [7], Pop, Push 8 [8], Pop, Push 9 [9], Pop, Pop, Pop] = (j', outs, ins)" by (metis prod_cases3)
  show ?thesis using late_packet_stalls [OF _ _ r] jit_late_stalled unfolding r by simp
qed

end
