(* ===== verification/Audio_Stream.thy ===== *)
theory Audio_Stream
  imports Crypto Jitter_Buffer
begin

text \<open>
  The encrypted audio stream of a call (\<^verbatim>\<open>client/audio/stream.py\<close>, \<^verbatim>\<open>codec.py\<close>): encode, encrypt, frame and
  send; receive, decrypt, reorder, decode and play. The Opus library is the argument \<open>codec\<close> (\<open>None\<close> when it
  is not installed), as a function of the frame; what the host's audio devices and sockets allow is
  \<open>audio_host\<close>. \<open>st_played\<close> is what was given to \<^verbatim>\<open>AudioEngine.play_frame\<close>.
\<close>

section \<open>The codec\<close>

record codec =
  opus_encode :: "bytes \<Rightarrow> exn + bytes"
  opus_decode :: "bytes \<Rightarrow> exn + bytes"

definition codec_encode :: "codec option \<Rightarrow> bytes \<Rightarrow> bytes" where
  "codec_encode opus pcm = (case opus of None \<Rightarrow> pcm
     | Some o1 \<Rightarrow> (case opus_encode o1 pcm of Inr encoded \<Rightarrow> encoded | Inl e \<Rightarrow> pcm))"

definition codec_decode :: "codec option \<Rightarrow> bytes \<Rightarrow> bytes" where
  "codec_decode opus encoded = (case opus of None \<Rightarrow> encoded
     | Some o1 \<Rightarrow> (case opus_decode o1 encoded of Inr pcm \<Rightarrow> pcm | Inl e \<Rightarrow> encoded))"

definition frame_size :: "int \<Rightarrow> int \<Rightarrow> int" where
  "frame_size sample_rate frame_duration_ms = sample_rate * frame_duration_ms div 1000"

section \<open>The stream\<close>

record audio_host =
  pyaudio :: bool
  udp_bind :: bool
  devices :: bool
  free_udp_port :: "exn + int"

datatype transport = Relay string | P2p

record stream =
  st_key :: bytes
  st_mode :: transport
  st_jitter :: jitter
  st_send_seq :: int
  st_recv_queue :: "bytes list"
  st_relay_queue :: "bytes list"
  st_muted :: bool
  st_active :: bool
  st_played :: "bytes list"

definition HEADER_LEN :: nat where "HEADER_LEN = 16"
definition QUEUE_MAX :: nat where "QUEUE_MAX = 128"

definition stream_jitter :: jitter where
  "stream_jitter = \<lparr>max_size = 8, jbuf = [], next_seq = 0, initialised = False, popped = False\<rparr>"

definition stream_init :: "bytes \<Rightarrow> transport \<Rightarrow> stream" where
  "stream_init call_key m = \<lparr>st_key = call_key, st_mode = m, st_jitter = stream_jitter, st_send_seq = 0,
     st_recv_queue = [], st_relay_queue = [], st_muted = False, st_active = False, st_played = []\<rparr>"

text \<open>The constructor's jitter buffer is \<^verbatim>\<open>JitterBuffer(size=8)\<close>.\<close>

lemma stream_jitter_init: "jitter_init 8 = Inr stream_jitter"
  by (simp add: jitter_init_def stream_jitter_def)

definition stream_start :: "audio_host \<Rightarrow> stream \<Rightarrow> exn + stream" where
  "stream_start host st =
    (if \<not> pyaudio host then Inl RuntimeError
     else if \<not> udp_bind host then Inl RuntimeError
     else if \<not> devices host then Inl OSError
     else Inr (st\<lparr>st_active := True, st_jitter := jitter_reset (st_jitter st), st_send_seq := 0\<rparr>))"

definition stream_stop :: "stream \<Rightarrow> stream" where
  "stream_stop st = st\<lparr>st_active := False, st_jitter := jitter_reset (st_jitter st)\<rparr>"

definition set_muted :: "bool \<Rightarrow> stream \<Rightarrow> stream" where
  "set_muted m st = st\<lparr>st_muted := m\<rparr>"

text \<open>\<^verbatim>\<open>put_nowait\<close> on a bounded queue: when it is full the new item is dropped.\<close>

definition put_nowait :: "bytes \<Rightarrow> bytes list \<Rightarrow> bytes list" where
  "put_nowait x q = (if length q < QUEUE_MAX then q @ [x] else q)"

definition feed :: "bytes \<Rightarrow> stream \<Rightarrow> stream" where
  "feed payload st = st\<lparr>st_relay_queue := put_nowait payload (st_relay_queue st)\<rparr>"

definition udp_received :: "bytes \<Rightarrow> stream \<Rightarrow> stream" where
  "udp_received data st = st\<lparr>st_recv_queue := put_nowait data (st_recv_queue st)\<rparr>"

section \<open>Sending\<close>

datatype outbound = ToServer string | ToPeer bytes

definition relay_msg :: "string \<Rightarrow> bytes \<Rightarrow> packet" where
  "relay_msg session_id payload = [(''type'', JStr ''CALL_RELAY''), (''session_id'', JStr session_id),
     (''data'', JStr (b64_encode payload))]"

definition audio_payload :: "int \<Rightarrow> bytes \<Rightarrow> bytes \<Rightarrow> bytes" where
  "audio_payload seq nonce ciphertext = le_bytes 4 (nat (seq mod 2 ^ 32)) @ nonce @ ciphertext"

text \<open>\<^verbatim>\<open>_send_frame\<close>: an exception sends nothing and is swallowed.\<close>

definition send_frame :: "crypto \<Rightarrow> codec option \<Rightarrow> bytes \<Rightarrow> stream \<Rightarrow> outbound option \<times> stream" where
  "send_frame C opus pcm st =
    (case encrypt_packet C (codec_encode opus pcm) (st_key st) (st_send_seq st) of
       Inl e \<Rightarrow> (None, st)
     | Inr (nonce, ciphertext) \<Rightarrow>
        (let payload = audio_payload (st_send_seq st) nonce ciphertext in
         (Some (case st_mode st of
             Relay session_id \<Rightarrow> ToServer (json_dumps (JObj (relay_msg session_id payload)))
           | P2p \<Rightarrow> ToPeer payload),
          st\<lparr>st_send_seq := (st_send_seq st + 1) mod 2 ^ 32\<rparr>)))"

definition capture_callback :: "crypto \<Rightarrow> codec option \<Rightarrow> bytes \<Rightarrow> stream \<Rightarrow> outbound option \<times> stream" where
  "capture_callback C opus pcm st = (if st_muted st then (None, st) else send_frame C opus pcm st)"

section \<open>Receiving\<close>

lemma pop_shrinks: "pop j = (Some f, j') \<Longrightarrow> length (jbuf j') < length (jbuf j)"
proof -
  have "length (dpop k d) < length d" if "dget d k = Some v" for k v and d :: "(int \<times> bytes) list"
    using that by (auto simp: AList.delete_eq dest!: map_of_SomeD intro!: length_filter_less)
  then show "pop j = (Some f, j') \<Longrightarrow> length (jbuf j') < length (jbuf j)"
    by (auto simp: pop_def Let_def split: if_splits option.splits)
qed

text \<open>Drain all in-order frames.\<close>

function drain :: "codec option \<Rightarrow> jitter \<Rightarrow> bytes list \<times> jitter" where
  "drain opus j = (case pop j of
     (None, j') \<Rightarrow> ([], j')
   | (Some f, j') \<Rightarrow> (case drain opus j' of (fs, k) \<Rightarrow> (codec_decode opus f # fs, k)))"
  by pat_completeness auto
termination by (relation "measure (\<lambda>(opus, j). length (jbuf j))") (auto intro: pop_shrinks [OF sym])

declare drain.simps [simp del]

definition receive_payload :: "crypto \<Rightarrow> codec option \<Rightarrow> bytes \<Rightarrow> stream \<Rightarrow> stream" where
  "receive_payload C opus payload st =
    (if length payload < HEADER_LEN then st
     else
       let seq = int (le_val (take 4 payload)); nonce = take 12 (drop 4 payload); ciphertext = drop 16 payload in
       case decrypt_packet C ciphertext nonce (st_key st) of
         Inl e \<Rightarrow> st
       | Inr encoded \<Rightarrow>
          (case drain opus (push seq encoded (st_jitter st)) of (pcms, j) \<Rightarrow>
            st\<lparr>st_jitter := j, st_played := st_played st @ pcms\<rparr>))"

text \<open>One round of \<^verbatim>\<open>_recv_loop\<close>; an empty queue is a timeout.\<close>

definition recv_round :: "crypto \<Rightarrow> codec option \<Rightarrow> stream \<Rightarrow> stream" where
  "recv_round C opus st =
    (if \<not> st_active st then st
     else case st_mode st of
       Relay session_id \<Rightarrow> (case st_relay_queue st of
          [] \<Rightarrow> st | p # ps \<Rightarrow> receive_payload C opus p (st\<lparr>st_relay_queue := ps\<rparr>))
     | P2p \<Rightarrow> (case st_recv_queue st of
          [] \<Rightarrow> st | p # ps \<Rightarrow> receive_payload C opus p (st\<lparr>st_recv_queue := ps\<rparr>)))"

section \<open>Runs\<close>

text \<open>The frames of a capture, with what each sends; and the payloads that arrive, each handled at once.\<close>

primrec send_frames :: "crypto \<Rightarrow> codec option \<Rightarrow> bytes list \<Rightarrow> stream \<Rightarrow> outbound option list \<times> stream" where
  "send_frames C opus [] st = ([], st)"
| "send_frames C opus (pcm # pcms) st = (case capture_callback C opus pcm st of
     (x, st) \<Rightarrow> (case send_frames C opus pcms st of (xs, st) \<Rightarrow> (x # xs, st)))"

definition receive_payloads :: "crypto \<Rightarrow> codec option \<Rightarrow> bytes list \<Rightarrow> stream \<Rightarrow> stream" where
  "receive_payloads C opus = fold (\<lambda>p st. recv_round C opus (feed p st))"

lemma recv_feed:
  "st_active st \<Longrightarrow> st_mode st = Relay sid \<Longrightarrow> st_relay_queue st = [] \<Longrightarrow>
   recv_round C opus (feed p st) = receive_payload C opus p st"
  by (cases st) (simp add: recv_round_def feed_def put_nowait_def QUEUE_MAX_def)

lemma length_seq_to_nonce [simp]: "length (seq_to_nonce i) = 12"
  by (simp add: seq_to_nonce_def)

lemma audio_payload_fields:
  assumes "0 \<le> i" "i < 2 ^ 32" "length n = 12"
  shows "int (le_val (take 4 (audio_payload i n c))) = i" "take 12 (drop 4 (audio_payload i n c)) = n"
    "drop 16 (audio_payload i n c) = c" "\<not> length (audio_payload i n c) < HEADER_LEN"
  using assms by (simp_all add: audio_payload_def le_val_bytes_id nat_less_iff HEADER_LEN_def)

text \<open>A receiver that plays everything it has: its buffer is empty and it waits for packet \<open>i\<close>.\<close>

definition caught_up :: "int \<Rightarrow> jitter \<Rightarrow> bool" where
  "caught_up i j \<longleftrightarrow> jbuf j = [] \<and> 1 \<le> max_size j \<and> (initialised j \<longrightarrow> next_seq j = i)"

lemma drain_next:
  assumes "caught_up i j"
  shows "\<exists>j'. drain opus (push i f j) = ([codec_decode opus f], j') \<and> caught_up (i + 1) j'"
proof -
  have p: "jbuf (push i f j) = [(i, f)]" "next_seq (push i f j) = i" "initialised (push i f j)"
    using assms by (auto simp: caught_up_def push_def Let_def advance_to_earliest_def)
  define j1 where "j1 = (push i f j)\<lparr>jbuf := [], next_seq := i + 1, popped := True\<rparr>"
  have "pop (push i f j) = (Some f, j1)" using p by (simp add: pop_def Let_def j1_def)
  moreover have c: "caught_up (i + 1) j1" using assms by (simp add: caught_up_def j1_def)
  moreover have "pop j1 = (None, j1)"
    using assms by (simp add: pop_def Let_def j1_def caught_up_def advance_to_earliest_def)
  ultimately have "drain opus (push i f j) = ([codec_decode opus f], j1)"
    by (subst drain.simps, simp, subst drain.simps, simp)
  then show ?thesis using c by blast
qed

lemma receive_next:
  assumes "crypto_ok C" "length (st_key st) = 32" "0 \<le> i" "i < 2 ^ 32" "caught_up i (st_jitter st)"
  shows "\<exists>j. receive_payload C opus (audio_payload i (seq_to_nonce i) (c_enc C (st_key st) (seq_to_nonce i) f)) st =
      st\<lparr>st_jitter := j, st_played := st_played st @ [codec_decode opus f]\<rparr> \<and> caught_up (i + 1) j"
proof -
  obtain j where "drain opus (push i f (st_jitter st)) = ([codec_decode opus f], j)" "caught_up (i + 1) j"
    using drain_next [OF assms(5)] by blast
  moreover have "decrypt_packet C (c_enc C (st_key st) (seq_to_nonce i) f) (seq_to_nonce i) (st_key st) = Inr f"
    using crypto_dec [OF assms(1)] assms(2) by (simp add: decrypt_packet_def NONCE_LEN_def as_value_error_def)
  ultimately show ?thesis
    using audio_payload_fields [OF assms(3,4), of "seq_to_nonce i"]
    by (intro exI [of _ j]) (simp add: receive_payload_def Let_def)
qed

text \<open>What the unmuted sender sends, in closed form.\<close>

definition sent_payload :: "crypto \<Rightarrow> codec option \<Rightarrow> bytes \<Rightarrow> int \<Rightarrow> bytes \<Rightarrow> bytes" where
  "sent_payload C opus key i pcm =
     audio_payload i (seq_to_nonce i) (c_enc C key (seq_to_nonce i) (codec_encode opus pcm))"

definition relay_text :: "string \<Rightarrow> bytes \<Rightarrow> outbound" where
  "relay_text sid payload = ToServer (json_dumps (JObj (relay_msg sid payload)))"

lemma send_frames_payloads:
  assumes "length (st_key st) = 32" "\<not> st_muted st" "st_mode st = Relay sid"
    and "0 \<le> st_send_seq st" "st_send_seq st + int (length pcms) \<le> 2 ^ 32"
  shows "fst (send_frames C opus pcms st) = map (\<lambda>(i, pcm). Some (relay_text sid (sent_payload C opus (st_key st) i pcm)))
    (zip (map (\<lambda>k. st_send_seq st + int k) [0..<length pcms]) pcms)"
  using assms
proof (induction pcms arbitrary: st)
  case (Cons pcm pcms)
  let ?i = "st_send_seq st"
  let ?st = "st\<lparr>st_send_seq := (?i + 1) mod 2 ^ 32\<rparr>"
  have c: "capture_callback C opus pcm st = (Some (relay_text sid (sent_payload C opus (st_key st) ?i pcm)), ?st)"
    using Cons.prems by (simp add: capture_callback_def send_frame_def encrypt_packet_def Let_def relay_text_def sent_payload_def)
  show ?case
  proof (cases "pcms = []")
    case False
    then have i: "(?i + 1) mod 2 ^ 32 = ?i + 1" using Cons.prems(4,5) by (cases pcms) auto
    have "fst (send_frames C opus pcms ?st) = map (\<lambda>(i, pcm). Some (relay_text sid (sent_payload C opus (st_key st) i pcm)))
        (zip (map (\<lambda>k. ?i + 1 + int k) [0..<length pcms]) pcms)"
      using Cons.IH [of ?st] Cons.prems i by simp
    then show ?thesis
      using c by (simp add: split_def upt_conv_Cons map_Suc_upt [symmetric] comp_def add.assoc del: upt_Suc map_Suc_upt)
  qed (use c in simp)
qed simp

lemma receive_sent:
  assumes "crypto_ok C" "length (st_key st) = 32" "st_active st" "st_mode st = Relay sid" "st_relay_queue st = []"
    and "0 \<le> i" "i + int (length pcms) \<le> 2 ^ 32" "caught_up i (st_jitter st)"
  shows "st_played (receive_payloads C opus (map (\<lambda>(i, pcm). sent_payload C opus' (st_key st) i pcm)
      (zip (map (\<lambda>k. i + int k) [0..<length pcms]) pcms)) st) =
    st_played st @ map (\<lambda>pcm. codec_decode opus (codec_encode opus' pcm)) pcms"
  using assms
proof (induction pcms arbitrary: i st)
  case (Cons pcm pcms)
  obtain j where j: "receive_payload C opus (sent_payload C opus' (st_key st) i pcm) st =
      st\<lparr>st_jitter := j, st_played := st_played st @ [codec_decode opus (codec_encode opus' pcm)]\<rparr>" "caught_up (i + 1) j"
    using receive_next [OF Cons.prems(1,2,6) _ Cons.prems(8)] Cons.prems(7) by (auto simp: sent_payload_def)
  have z: "zip (map (\<lambda>k. i + int k) [0..<length (pcm # pcms)]) (pcm # pcms) =
      (i, pcm) # zip (map (\<lambda>k. i + 1 + int k) [0..<length pcms]) pcms"
    by (simp add: upt_conv_Cons map_Suc_upt [symmetric] comp_def add.assoc del: upt_Suc map_Suc_upt)
  show ?case
    unfolding z using Cons.IH [of "st\<lparr>st_jitter := j, st_played := st_played st @ [codec_decode opus (codec_encode opus' pcm)]\<rparr>" "i + 1"]
      Cons.prems j by (simp add: receive_payloads_def recv_feed [OF Cons.prems(3-5)])
qed (simp add: receive_payloads_def)

section \<open>Properties\<close>

lemma stream_started:
  assumes "stream_start h (stream_init key m) = Inr st"
  shows "st_key st = key" "st_mode st = m" "st_active st" "\<not> st_muted st" "st_send_seq st = 0"
    "st_relay_queue st = []" "st_played st = []" "caught_up 0 (st_jitter st)"
  using assms by (auto simp: stream_start_def stream_init_def caught_up_def jitter_reset_def stream_jitter_def
      split: if_splits)

text \<open> A call carries the voice. With one key on both sides, the packets a started stream sends for its
  captured frames make the other side, started with whatever codec, play every frame once and in order:
  encoded and decoded, or unchanged when neither side has the codec. \<close>

theorem call_audio_in_order:
  assumes "crypto_ok C" "length key = 32" "length pcms \<le> 2 ^ 32"
    and "stream_start h (stream_init key (Relay sid)) = Inr a"
    and "stream_start h' (stream_init key (Relay sid)) = Inr b"
  shows "\<exists>payloads. fst (send_frames C opus pcms a) = map (\<lambda>p. Some (relay_text sid p)) payloads \<and>
    st_played (receive_payloads C opus' payloads b) = map (\<lambda>pcm. codec_decode opus' (codec_encode opus pcm)) pcms"
proof -
  note a = stream_started [OF assms(4)] and b = stream_started [OF assms(5)]
  let ?ps = "map (\<lambda>(i, pcm). sent_payload C opus key i pcm) (zip (map (\<lambda>k. 0 + int k) [0..<length pcms]) pcms)"
  have "fst (send_frames C opus pcms a) = map (\<lambda>p. Some (relay_text sid p)) ?ps"
    using send_frames_payloads [of a sid pcms C opus] a assms(2,3) by (simp add: split_def comp_def)
  moreover have "st_played (receive_payloads C opus' ?ps b) = [] @ map (\<lambda>pcm. codec_decode opus' (codec_encode opus pcm)) pcms"
    using receive_sent [OF assms(1), of b sid 0 pcms opus' opus] b assms(2,3) by simp
  ultimately show ?thesis by (intro exI [of _ ?ps]) simp
qed

definition good_host :: audio_host where
  "good_host = \<lparr>pyaudio = True, udp_bind = True, devices = True, free_udp_port = Inr 5000\<rparr>"

lemma good_host_starts: "\<exists>st. stream_start good_host (stream_init key m) = Inr st"
  by (simp add: stream_start_def good_host_def)

lemma call_audio_in_order_witness:
  "\<exists>a b payloads. stream_start good_host (stream_init (replicate 32 7) (Relay ''s'')) = Inr a \<and>
     fst (send_frames toy None [[1], [2], [3]] a) = map (\<lambda>p. Some (relay_text ''s'' p)) payloads \<and>
     st_played (receive_payloads toy None payloads b) = [[1], [2], [3]]"
proof -
  obtain a where a: "stream_start good_host (stream_init (replicate 32 7) (Relay ''s'')) = Inr a"
    using good_host_starts by blast
  show ?thesis
    using call_audio_in_order [OF toy_ok _ _ a a, of "[[1], [2], [3]]" None None] a
    by (auto simp: codec_encode_def codec_decode_def)
qed

end
