(* ===== verification/Call_Handler.thy ===== *)
theory Call_Handler
  imports File_Handler Audio_Stream
begin

text \<open>
  The client's calls (\<^verbatim>\<open>client/handlers/call.py\<close>): inviting, accepting, declining and ending, the mute and
  push-to-talk switches, and the inbound packets. The application gives no stream factory, so a started call
  uses \<open>stream\<close> in relay mode; a stream that cannot start leaves the call in text mode.
\<close>

record call_client = file_client +
  active_session :: "string option"
  call_start_ts :: int
  muted :: bool
  audio_stream :: "stream option"
  local_port :: int
  peer_ip :: json
  peer_port :: int
  ptt_enabled :: bool
  ephemeral_private :: "bytes option"
  voice_key :: "bytes option"

type_synonym ('e, 'a) call_prog = "('e call_client_scheme, 'a) prog"

section \<open>Keys\<close>

text \<open>\<^verbatim>\<open>_derive_call_key\<close>, with its own label.\<close>

definition call_key_of :: "crypto \<Rightarrow> bytes \<Rightarrow> bytes \<Rightarrow> string \<Rightarrow> exn + bytes" where
  "call_key_of C mine peer session_id =
    sbnd (c_exchange C mine peer) (\<lambda>shared.
    Inr (c_hkdf C (utf8_encode session_id) (utf8_encode ''call-key'') shared))"

text \<open>\<^verbatim>\<open>base64.b64decode(pub)\<close> and the key derivation, both inside one \<^verbatim>\<open>try\<close>.\<close>

definition try_call_key :: "crypto \<Rightarrow> bytes \<Rightarrow> json \<Rightarrow> json \<Rightarrow> exn + bytes" where
  "try_call_key C mine peer_b64 session_id =
    sbnd (sbnd (as_str TypeError peer_b64) b64_decode) (\<lambda>peer.
    sbnd (as_str AttributeError session_id) (\<lambda>sid. call_key_of C mine peer sid))"

section \<open>The audio stream\<close>

definition free_port :: "audio_host \<Rightarrow> ('e, int) call_prog" where
  "free_port host = lift_result (free_udp_port host)"

text \<open>\<^verbatim>\<open>_start_audio_stream\<close> without a factory: a missing key is replaced by random bytes; errors end in no stream.\<close>

definition start_audio_stream :: "audio_host \<Rightarrow> string \<Rightarrow> ('e, unit) call_prog" where
  "start_audio_stream host session_id =
    attempt
      (bnd (gets voice_key) (\<lambda>k.
       bnd (case k of Some k \<Rightarrow> ret k
            | None \<Rightarrow> bnd (urandom 32) (\<lambda>k. thn (modify (\<lambda>s. s\<lparr>voice_key := Some k\<rparr>)) (ret k))) (\<lambda>key.
       bnd (gets local_port) (\<lambda>p.
       bnd (if p \<noteq> 0 then ret p else free_port host) (\<lambda>_.
       bnd (lift_result (stream_start host (stream_init key (Relay session_id)))) (\<lambda>st.
       modify (\<lambda>s. s\<lparr>audio_stream := Some st\<rparr>)))))))
      (\<lambda>_. modify (\<lambda>s. s\<lparr>audio_stream := None\<rparr>))"

definition stop_audio_stream :: "('e, unit) call_prog" where
  "stop_audio_stream = modify (\<lambda>s. s\<lparr>audio_stream := None\<rparr>)"

section \<open>Outbound actions\<close>

definition client_call_invite :: "crypto \<Rightarrow> audio_host \<Rightarrow> string \<Rightarrow> ('e, string) call_prog" where
  "client_call_invite C host to_user =
    bnd new_id (\<lambda>session_id.
    bnd now (\<lambda>ts.
    bnd (generate_keypair C) (\<lambda>(private_key, public_key).
    thn (modify (\<lambda>s. s\<lparr>ephemeral_private := Some private_key\<rparr>))
    (bnd (free_port host) (\<lambda>port.
     bnd (gets me) (\<lambda>self.
     thn (send_pkt CALL_INVITE [(''session_id'', JStr session_id), (''from'', JStr self), (''to'', JStr to_user),
          (''local_port'', JInt port), (''timestamp'', JInt ts), (''ephemeral_pubkey'', JStr (b64_encode public_key))])
     (thn (modify (\<lambda>s. s\<lparr>active_session := Some session_id, call_start_ts := ts, local_port := port\<rparr>))
     (thn (cm (save_call session_id self to_user ts ''ringing''))
     (ret session_id)))))))))"

definition client_call_accept :: "crypto \<Rightarrow> audio_host \<Rightarrow> string \<Rightarrow> json \<Rightarrow> ('e, unit) call_prog" where
  "client_call_accept C host session_id caller_pubkey_b64 =
    bnd now (\<lambda>ts.
    bnd (generate_keypair C) (\<lambda>(private_key, public_key).
    thn (whenp (truthy caller_pubkey_b64)
          (attempt (bnd (lift_result (try_call_key C private_key caller_pubkey_b64 (JStr session_id))) (\<lambda>k.
              modify (\<lambda>s. s\<lparr>voice_key := Some k, ephemeral_private := Some private_key\<rparr>)))
            (\<lambda>_. ret ())))
    (bnd (free_port host) (\<lambda>port.
     bnd (gets me) (\<lambda>self.
     thn (send_pkt CALL_ACCEPT [(''session_id'', JStr session_id), (''from'', JStr self), (''local_port'', JInt port),
          (''timestamp'', JInt ts), (''ephemeral_pubkey'', JStr (b64_encode public_key))])
     (thn (modify (\<lambda>s. s\<lparr>active_session := Some session_id, call_start_ts := ts, local_port := port\<rparr>))
     (start_audio_stream host session_id)))))))"

definition client_call_decline :: "string \<Rightarrow> ('e, unit) call_prog" where
  "client_call_decline session_id =
    bnd (gets me) (\<lambda>self.
    bnd now (\<lambda>ts.
    send_pkt CALL_DECLINE [(''session_id'', JStr session_id), (''from'', JStr self), (''timestamp'', JInt ts)]))"

definition call_duration :: "int \<Rightarrow> int \<Rightarrow> int" where
  "call_duration start ended_at = (if start \<noteq> 0 then max 0 (ended_at - start) else 0)"

definition client_call_end :: "string \<Rightarrow> ('e, unit) call_prog" where
  "client_call_end session_id =
    thn stop_audio_stream
    (bnd now (\<lambda>ended_at.
     bnd (gets call_start_ts) (\<lambda>start.
     bnd (gets me) (\<lambda>self.
     thn (send_pkt CALL_END [(''session_id'', JStr session_id), (''from'', JStr self), (''timestamp'', JInt ended_at)])
     (thn (cm (end_local_call session_id ended_at (call_duration start ended_at) ''completed'' True))
     (modify (\<lambda>s. s\<lparr>active_session := None, call_start_ts := 0, voice_key := None, ephemeral_private := None\<rparr>)))))))"

definition call_mute :: "bool \<Rightarrow> ('e, unit) call_prog" where
  "call_mute m = modify (\<lambda>s. s\<lparr>muted := m, audio_stream := map_option (set_muted m) (audio_stream s)\<rparr>)"

definition push_to_talk :: "bool \<Rightarrow> ('e, unit) call_prog" where
  "push_to_talk enabled = thn (modify (\<lambda>s. s\<lparr>ptt_enabled := enabled\<rparr>)) (call_mute enabled)"

definition set_talking :: "bool \<Rightarrow> ('e, unit) call_prog" where
  "set_talking talking = bnd (gets ptt_enabled) (\<lambda>b. whenp b (call_mute (\<not> talking)))"

section \<open>Inbound packets\<close>

text \<open>\<^verbatim>\<open>a or b\<close> on JSON values.\<close>

definition py_or :: "json \<Rightarrow> json \<Rightarrow> json" where
  "py_or a b = (if truthy a then a else b)"

definition peer_address :: "packet \<Rightarrow> string \<Rightarrow> string \<Rightarrow> ('e, unit) call_prog" where
  "peer_address pkt ip_key port_key =
    thn (modify (\<lambda>s. s\<lparr>peer_ip := py_or (jget pkt ip_key) (JStr ''127.0.0.1'')\<rparr>))
    (bnd (lift_result (py_int (py_or (py_or (jget pkt port_key) (jget pkt ''local_port'')) (JInt 0)))) (\<lambda>p.
     modify (\<lambda>s. s\<lparr>peer_port := p\<rparr>)))"

definition handle_call_invite ::
  "(string \<Rightarrow> json \<Rightarrow> json \<Rightarrow> ('e, unit) call_prog) \<Rightarrow> packet \<Rightarrow> ('e, unit) call_prog" where
  "handle_call_invite on_incoming_call pkt =
    (let caller = jget_or pkt ''from'' (JStr []); caller_pub = jget pkt ''ephemeral_pubkey'' in
     bnd new_id (\<lambda>fresh.
     let session_id = jget_or pkt ''session_id'' (JStr fresh) in
     bnd (time_or_now pkt ''timestamp'') (\<lambda>ts.
     thn (peer_address pkt ''caller_ip'' ''caller_udp_port'')
     (bnd (gets me) (\<lambda>self.
      bnd (lift_result (sql_key session_id)) (\<lambda>sid.
      bnd (lift_result (sql_key caller)) (\<lambda>u.
      bnd (lift_result (sql_number ts)) (\<lambda>t.
      thn (cm (save_call sid u self t ''ringing''))
      (attempt (on_incoming_call sid caller caller_pub) (\<lambda>_. ret ()))))))))))"

definition handle_call_accept :: "crypto \<Rightarrow> audio_host \<Rightarrow> packet \<Rightarrow> ('e, unit) call_prog" where
  "handle_call_accept C host pkt =
    (let session_id = jget_or pkt ''session_id'' (JStr []); callee_pub = jget pkt ''ephemeral_pubkey'' in
     thn (peer_address pkt ''callee_ip'' ''callee_udp_port'')
     (bnd (gets ephemeral_private) (\<lambda>mine.
      thn (case mine of
             None \<Rightarrow> ret ()
           | Some m \<Rightarrow> whenp (m \<noteq> [] \<and> truthy callee_pub)
               (attempt (bnd (lift_result (try_call_key C m callee_pub session_id)) (\<lambda>k.
                  modify (\<lambda>s. s\<lparr>voice_key := Some k\<rparr>))) (\<lambda>_. ret ())))
      (bnd (lift_result (as_str TypeError session_id)) (start_audio_stream host)))))"

definition call_over :: "packet \<Rightarrow> (string \<Rightarrow> string \<Rightarrow> ('e, unit) call_prog) \<Rightarrow> string
    \<Rightarrow> ('e call_client_scheme \<Rightarrow> 'e call_client_scheme) \<Rightarrow> ('e, unit) call_prog" where
  "call_over pkt on_call_ended reason forget =
    bnd (lift_result (sql_key (jget_or pkt ''session_id'' (JStr [])))) (\<lambda>session_id.
    thn (modify (\<lambda>s. if active_session s = Some session_id then forget s else s))
    (attempt (on_call_ended session_id reason) (\<lambda>_. ret ())))"

definition handle_call_decline :: "(string \<Rightarrow> string \<Rightarrow> ('e, unit) call_prog) \<Rightarrow> packet \<Rightarrow> ('e, unit) call_prog" where
  "handle_call_decline on_call_ended pkt =
    bnd now (\<lambda>ended_at.
    thn (bnd (lift_result (sql_key (jget_or pkt ''session_id'' (JStr [])))) (\<lambda>session_id.
         cm (end_local_call session_id ended_at 0 ''declined'' False)))
    (call_over pkt on_call_ended ''declined''
      (\<lambda>s. s\<lparr>active_session := None, voice_key := None, ephemeral_private := None\<rparr>)))"

definition handle_call_end :: "(string \<Rightarrow> string \<Rightarrow> ('e, unit) call_prog) \<Rightarrow> packet \<Rightarrow> ('e, unit) call_prog" where
  "handle_call_end on_call_ended pkt =
    bnd now (\<lambda>ended_at.
    bnd (gets call_start_ts) (\<lambda>start.
    thn stop_audio_stream
    (thn (bnd (lift_result (sql_key (jget_or pkt ''session_id'' (JStr [])))) (\<lambda>session_id.
          cm (end_local_call session_id ended_at (call_duration start ended_at) ''completed'' True)))
     (call_over pkt on_call_ended ''ended''
       (\<lambda>s. s\<lparr>active_session := None, call_start_ts := 0, voice_key := None, ephemeral_private := None\<rparr>)))))"

definition handle_call_relay :: "packet \<Rightarrow> ('e, unit) call_prog" where
  "handle_call_relay pkt =
    modify (\<lambda>s. case audio_stream s of
        None \<Rightarrow> s
      | Some st \<Rightarrow> (let data = jget_or pkt ''data'' (JStr []) in
          if \<not> truthy data then s
          else (case sbnd (as_str TypeError data) b64_decode of
              Inl e \<Rightarrow> s | Inr audio \<Rightarrow> s\<lparr>audio_stream := Some (feed audio st)\<rparr>)))"

definition call_handle_incoming ::
  "crypto \<Rightarrow> audio_host \<Rightarrow> (string \<Rightarrow> json \<Rightarrow> json \<Rightarrow> ('e, unit) call_prog)
    \<Rightarrow> (string \<Rightarrow> string \<Rightarrow> ('e, unit) call_prog) \<Rightarrow> packet \<Rightarrow> ('e, unit) call_prog" where
  "call_handle_incoming C host on_incoming_call on_call_ended pkt =
    (if jget pkt ''type'' = JStr ''CALL_INVITE'' then handle_call_invite on_incoming_call pkt
     else if jget pkt ''type'' = JStr ''CALL_ACCEPT'' then handle_call_accept C host pkt
     else if jget pkt ''type'' = JStr ''CALL_DECLINE'' then handle_call_decline on_call_ended pkt
     else if jget pkt ''type'' = JStr ''CALL_END'' then handle_call_end on_call_ended pkt
     else if jget pkt ''type'' = JStr ''CALL_RELAY'' then handle_call_relay pkt
     else ret ())"

section \<open>Allowed effects\<close>

locale call_effect = file_effect R for R :: "'e call_client_scheme \<Rightarrow> 'e call_client_scheme \<Rightarrow> bool" +
  assumes cleff_session: "R s (s\<lparr>active_session := a\<rparr>)" and cleff_start: "R s (s\<lparr>call_start_ts := n\<rparr>)"
    and cleff_muted: "R s (s\<lparr>muted := b\<rparr>)" and cleff_stream: "R s (s\<lparr>audio_stream := st\<rparr>)"
    and cleff_port: "R s (s\<lparr>local_port := p\<rparr>)" and cleff_peer_ip: "R s (s\<lparr>peer_ip := j\<rparr>)"
    and cleff_peer_port: "R s (s\<lparr>peer_port := p\<rparr>)" and cleff_ptt: "R s (s\<lparr>ptt_enabled := b\<rparr>)"
    and cleff_private: "R s (s\<lparr>ephemeral_private := k\<rparr>)" and cleff_key: "R s (s\<lparr>voice_key := k\<rparr>)"
begin

lemmas cleff_fields = cleff_session cleff_start cleff_muted cleff_stream cleff_port cleff_peer_ip cleff_peer_port
  cleff_ptt cleff_private cleff_key

lemmas cleff_one [ceff_intro] = cleff_fields
  R_trans [OF cleff_muted cleff_stream] R_trans [OF cleff_key cleff_private]
  R_trans [OF R_trans [OF cleff_session cleff_start] cleff_port]
  R_trans [OF R_trans [OF R_trans [OF cleff_session cleff_start] cleff_key] cleff_private]
  R_trans [OF R_trans [OF cleff_session cleff_key] cleff_private]

lemma cleff_audio [ceff_intro]: "steps R (free_port h)" "steps R (start_audio_stream h i)" "steps R stop_audio_stream"
  "steps R (call_mute b)" "steps R (push_to_talk b)" "steps R (set_talking b)"
proof -
  show 1: "steps R (free_port h)" unfolding free_port_def by (intro ceff_intro)
  show "steps R (start_audio_stream h i)" unfolding start_audio_stream_def by (intro ceff_intro 1)
  show "steps R stop_audio_stream" unfolding stop_audio_stream_def by (intro ceff_intro)
  show 2: "steps R (call_mute b)" for b unfolding call_mute_def by (intro ceff_intro)
  show "steps R (push_to_talk b)" "steps R (set_talking b)"
    unfolding push_to_talk_def set_talking_def by (intro ceff_intro 2)+
qed

lemma cleff_outbound [ceff_intro]: "steps R (client_call_invite C h u)" "steps R (client_call_accept C h i j)"
  "steps R (client_call_decline i)" "steps R (client_call_end i)"
  unfolding client_call_invite_def client_call_accept_def client_call_decline_def client_call_end_def by (intro ceff_intro)+

lemma cleff_peer [ceff_intro]: "steps R (peer_address pkt a b)"
  unfolding peer_address_def by (intro ceff_intro)

lemma cleff_over:
  assumes "\<And>i r. steps R (cb i r)" "\<And>s. R s (f s)"
  shows "steps R (call_over pkt cb r f)"
  unfolding call_over_def by (intro ceff_intro assms) (simp add: assms R_refl)

lemma cleff_incoming [ceff_intro]:
  assumes "\<And>i c p. steps R (on_call i c p)" "\<And>i r. steps R (on_end i r)"
  shows "steps R (call_handle_incoming C h on_call on_end pkt)"
proof -
  have "steps R (handle_call_invite on_call pkt)"
    unfolding handle_call_invite_def Let_def by (intro ceff_intro assms)
  moreover have "steps R (handle_call_accept C h pkt)"
    unfolding handle_call_accept_def Let_def by (intro ceff_intro)
  moreover have "steps R (handle_call_decline on_end pkt)" "steps R (handle_call_end on_end pkt)"
    unfolding handle_call_decline_def handle_call_end_def by (intro ceff_intro cleff_over assms)+
  moreover have "steps R (handle_call_relay pkt)"
    by (auto simp: handle_call_relay_def steps_def Let_def R_refl cleff_stream split: option.split sum.split)
  ultimately show ?thesis unfolding call_handle_incoming_def by (simp add: steps_ret)
qed

end

section \<open>What the two parties derive\<close>

lemma generate_keypair_app:
  obtains a where "generate_keypair C s = (Inr (a, c_pub C a), s\<lparr>epos := epos s + 32\<rparr>)" "length a = 32"
  using urandom_Inr [of KEY_LEN s] by (auto simp: generate_keypair_def bnd_app KEY_LEN_def)

lemma call_key_of_agrees:
  assumes "crypto_ok C" "length a = 32" "length b = 32"
  obtains k where "call_key_of C a (c_pub C b) sid = Inr k" "call_key_of C b (c_pub C a) sid = Inr k" "length k = 32"
proof -
  obtain x where "c_exchange C a (c_pub C b) = Inr x" "c_exchange C b (c_pub C a) = Inr x"
    using assms unfolding crypto_ok_def by blast
  then show ?thesis using assms(1) by (intro that [of "c_hkdf C (utf8_encode sid) (utf8_encode ''call-key'') x"])
      (simp_all add: call_key_of_def crypto_ok_def)
qed

lemma try_call_key_str: "try_call_key C a (JStr (b64_encode p)) (JStr sid) = call_key_of C a p sid"
  by (simp add: try_call_key_def b64_roundtrip)

lemma pubkey_truthy: "crypto_ok C \<Longrightarrow> length a = 32 \<Longrightarrow> b64_encode (c_pub C a) \<noteq> []"
  by (intro b64_encode_not_Nil) (auto simp: crypto_ok_def)

text \<open>A host on which audio works, and the stream it starts.\<close>

definition host_ok :: "audio_host \<Rightarrow> bool" where
  "host_ok h \<longleftrightarrow> pyaudio h \<and> udp_bind h \<and> devices h \<and> (\<exists>p. free_udp_port h = Inr p)"

definition started :: "bytes \<Rightarrow> string \<Rightarrow> stream" where
  "started k sid = (stream_init k (Relay sid))\<lparr>st_active := True\<rparr>"

lemma stream_start_ok: "host_ok h \<Longrightarrow> stream_start h (stream_init k (Relay sid)) = Inr (started k sid)"
  by (simp add: stream_start_def host_ok_def started_def stream_init_def stream_jitter_def jitter_reset_def)

lemma start_audio_stream_ok:
  "host_ok h \<Longrightarrow> voice_key s \<noteq> None \<Longrightarrow>
   start_audio_stream h sid s = (Inr (), s\<lparr>audio_stream := Some (started (the (voice_key s)) sid)\<rparr>)"
  using stream_start_ok [of h "the (voice_key s)" sid]
  by (auto simp: start_audio_stream_def prog_simps free_port_def host_ok_def)

text \<open>The fields of the two packets, and the three operations on a working host in closed form.\<close>

abbreviation invite_fields :: "string \<Rightarrow> string \<Rightarrow> string \<Rightarrow> int \<Rightarrow> int \<Rightarrow> bytes \<Rightarrow> packet" where
  "invite_fields sid self u p ts pub \<equiv> [(''session_id'', JStr sid), (''from'', JStr self), (''to'', JStr u),
     (''local_port'', JInt p), (''timestamp'', JInt ts), (''ephemeral_pubkey'', JStr (b64_encode pub))]"

abbreviation accept_fields :: "string \<Rightarrow> string \<Rightarrow> int \<Rightarrow> int \<Rightarrow> bytes \<Rightarrow> packet" where
  "accept_fields sid self p ts pub \<equiv> [(''session_id'', JStr sid), (''from'', JStr self), (''local_port'', JInt p),
     (''timestamp'', JInt ts), (''ephemeral_pubkey'', JStr (b64_encode pub))]"

lemma invite_app:
  assumes "free_udp_port h = Inr p"
  obtains a i where "length a = 32" "client_call_invite C h u s = (Inr (next_id s),
    s\<lparr>epos := epos s + 64, ephemeral_private := Some a, active_session := Some (next_id s), call_start_ts := clock s,
      local_port := p, cdb := save_call (next_id s) (me s) u (clock s) ''ringing'' (cdb s),
      send_q := send_q s @ [json_dumps (JObj (packet_fields ''CALL_INVITE'' i (clock s)
        (invite_fields (next_id s) (me s) u p (clock s) (c_pub C a))))]\<rparr>)"
proof -
  let ?s = "s\<lparr>epos := epos s + 16\<rparr>"
  obtain a where a: "generate_keypair C ?s = (Inr (a, c_pub C a), ?s\<lparr>epos := epos ?s + 32\<rparr>)" "length a = 32"
    by (rule generate_keypair_app)
  show ?thesis
    by (rule that [of a "next_id (?s\<lparr>epos := epos ?s + 32\<rparr>)"])
      (use a assms in \<open>auto simp: client_call_invite_def prog_simps free_port_def packet_fields_def next_id_def ac_simps\<close>)
qed

lemma accept_app:
  assumes "crypto_ok C" "host_ok h" "length a = 32" "free_udp_port h = Inr p"
  obtains b k i where "length b = 32" "length k = 32" "call_key_of C a (c_pub C b) sid = Inr k"
    "client_call_accept C h sid (JStr (b64_encode (c_pub C a))) s = (Inr (),
      s\<lparr>epos := epos s + 48, voice_key := Some k, ephemeral_private := Some b, active_session := Some sid,
        call_start_ts := clock s, local_port := p, audio_stream := Some (started k sid),
        send_q := send_q s @ [json_dumps (JObj (packet_fields ''CALL_ACCEPT'' i (clock s)
          (accept_fields sid (me s) p (clock s) (c_pub C b))))]\<rparr>)"
proof -
  obtain b where b: "generate_keypair C s = (Inr (b, c_pub C b), s\<lparr>epos := epos s + 32\<rparr>)" "length b = 32"
    by (rule generate_keypair_app)
  obtain k where k: "call_key_of C a (c_pub C b) sid = Inr k" "call_key_of C b (c_pub C a) sid = Inr k" "length k = 32"
    using call_key_of_agrees [OF assms(1,3) b(2)] by metis
  have pub: "truthy (JStr (b64_encode (c_pub C a)))" using pubkey_truthy [OF assms(1,3)] by simp
  show ?thesis
    by (rule that [of b k "next_id (s\<lparr>epos := epos s + 32\<rparr>)"]) (use b k pub assms(4) in
      \<open>auto simp: client_call_accept_def start_audio_stream_ok [OF assms(2)] prog_simps free_port_def whenp_def
        try_call_key_str packet_fields_def next_id_def\<close>)
qed

lemma accepted_app:
  assumes "host_ok h" "ephemeral_private s = Some a" "length a = 32" "call_key_of C a peer sid = Inr k"
    and "b64_encode peer \<noteq> []" "dget pkt ''session_id'' = Some (JStr sid)"
    and "dget pkt ''ephemeral_pubkey'' = Some (JStr (b64_encode peer))"
    and "dget pkt ''callee_udp_port'' = Some (JInt p)" "p \<noteq> 0 \<or> dget pkt ''local_port'' = Some (JInt p)"
  shows "handle_call_accept C h pkt s = (Inr (), s\<lparr>peer_ip := py_or (jget pkt ''callee_ip'') (JStr ''127.0.0.1''),
    peer_port := p, voice_key := Some k, audio_stream := Some (started k sid)\<rparr>)"
proof -
  have "a \<noteq> []" using assms(3) by auto
  then show ?thesis
    using assms by (auto simp: handle_call_accept_def Let_def start_audio_stream_ok [OF assms(1)]
        jget_or_def jget_def prog_simps peer_address_def py_or_def whenp_def try_call_key_str)
qed

lemma invite_effect:
  assumes "host_ok h" "client_call_invite C h u s = (r, t)"
  obtains a inv where "r = Inr (next_id s)" "length a = 32" "ephemeral_private t = Some a"
    "active_session t = Some (next_id s)" "json_wf (JObj inv)"
    "send_q t = send_q s @ [json_dumps (JObj inv)]" "dget inv ''session_id'' = Some (JStr (next_id s))"
    "dget inv ''ephemeral_pubkey'' = Some (JStr (b64_encode (c_pub C a)))"
proof -
  obtain p where p: "free_udp_port h = Inr p" using assms(1) by (auto simp: host_ok_def)
  obtain a i where i: "length a = 32" "client_call_invite C h u s = (Inr (next_id s),
    s\<lparr>epos := epos s + 64, ephemeral_private := Some a, active_session := Some (next_id s), call_start_ts := clock s,
      local_port := p, cdb := save_call (next_id s) (me s) u (clock s) ''ringing'' (cdb s),
      send_q := send_q s @ [json_dumps (JObj (packet_fields ''CALL_INVITE'' i (clock s)
        (invite_fields (next_id s) (me s) u p (clock s) (c_pub C a))))]\<rparr>)"
    by (rule invite_app [OF p])
  show ?thesis
    by (rule that [of a "packet_fields ''CALL_INVITE'' i (clock s) (invite_fields (next_id s) (me s) u p (clock s) (c_pub C a))"])
      (use i assms(2) in \<open>auto simp: packet_fields_def\<close>)
qed

lemma accept_effect:
  assumes "crypto_ok C" "host_ok h" "length a = 32"
    and "client_call_accept C h sid (JStr (b64_encode (c_pub C a))) s = (r, t)"
  obtains b k acc where "r = Inr ()" "call_key_of C a (c_pub C b) sid = Inr k" "length b = 32" "length k = 32"
    "voice_key t = Some k" "audio_stream t = Some (started k sid)" "active_session t = Some sid"
    "muted t = muted s" "json_wf (JObj acc)" "send_q t = send_q s @ [json_dumps (JObj acc)]"
    "dget acc ''session_id'' = Some (JStr sid)"
    "dget acc ''ephemeral_pubkey'' = Some (JStr (b64_encode (c_pub C b)))"
proof -
  obtain p where p: "free_udp_port h = Inr p" using assms(2) by (auto simp: host_ok_def)
  obtain b k i where b: "length b = 32" "length k = 32" "call_key_of C a (c_pub C b) sid = Inr k"
    "client_call_accept C h sid (JStr (b64_encode (c_pub C a))) s = (Inr (),
      s\<lparr>epos := epos s + 48, voice_key := Some k, ephemeral_private := Some b, active_session := Some sid,
        call_start_ts := clock s, local_port := p, audio_stream := Some (started k sid),
        send_q := send_q s @ [json_dumps (JObj (packet_fields ''CALL_ACCEPT'' i (clock s)
          (accept_fields sid (me s) p (clock s) (c_pub C b))))]\<rparr>)"
    by (rule accept_app [OF assms(1-3) p])
  show ?thesis
    by (rule that [of b k "packet_fields ''CALL_ACCEPT'' i (clock s) (accept_fields sid (me s) p (clock s) (c_pub C b))"])
      (use b assms(4) in \<open>auto simp: packet_fields_def\<close>)
qed

lemma accepted_effect:
  assumes "host_ok h" "ephemeral_private s = Some a" "length a = 32" "call_key_of C a peer sid = Inr k"
    and "b64_encode peer \<noteq> []" "dget pkt ''session_id'' = Some (JStr sid)"
    and "dget pkt ''ephemeral_pubkey'' = Some (JStr (b64_encode peer))"
    and "dget pkt ''callee_udp_port'' = Some (JInt p)" "p \<noteq> 0"
  obtains t where "handle_call_accept C h pkt s = (Inr (), t)" "voice_key t = Some k"
    "audio_stream t = Some (started k sid)" "active_session t = active_session s" "send_q t = send_q s"
  using that accepted_app [OF assms(1-8)] assms(9) by simp

section \<open>Properties\<close>

text \<open> Caller and callee agree on a key. When the callee accepts the invitation the caller sent and the caller
  handles the acceptance (the server may add fields to it), both hold the same 32-byte key and both audio
  streams start in the same state. So each side's \<open>i\<close>-th packet is encrypted under the same key and the same
  sequence number. \<close>

theorem call_keys_agree:
  assumes "crypto_ok C" "host_ok h" "host_ok h'"
    and "client_call_invite C h u alice = (Inr sid, alice1)"
    and "json_loads (last (send_q alice1)) = Inr (JObj ivt)"
    and "client_call_accept C h' sid (jget ivt ''ephemeral_pubkey'') bob = (r, bob1)"
    and "json_loads (last (send_q bob1)) = Inr (JObj acc)"
    and "dget acc' ''session_id'' = dget acc ''session_id''"
    and "dget acc' ''ephemeral_pubkey'' = dget acc ''ephemeral_pubkey''"
    and "dget acc' ''callee_udp_port'' = Some (JInt p)" "p \<noteq> 0"
  shows "\<exists>k alice2. r = Inr () \<and> handle_call_accept C h acc' alice1 = (Inr (), alice2) \<and> length k = 32 \<and>
    voice_key alice2 = Some k \<and> voice_key bob1 = Some k \<and>
    audio_stream alice2 = Some (started k sid) \<and> audio_stream bob1 = Some (started k sid) \<and>
    active_session alice2 = Some sid \<and> active_session bob1 = Some sid"
proof -
  obtain a ivt0 where a0: "(Inr sid :: exn + string) = Inr (next_id alice)" and a: "length a = 32" "ephemeral_private alice1 = Some a"
      "active_session alice1 = Some (next_id alice)" "json_wf (JObj ivt0)" "send_q alice1 = send_q alice @ [json_dumps (JObj ivt0)]"
      "dget ivt0 ''ephemeral_pubkey'' = Some (JStr (b64_encode (c_pub C a)))"
    by (rule invite_effect [OF assms(2,4)])
  have ivt: "ivt = ivt0" using assms(5) a(5) json_loads_dumps [OF a(4)] by simp
  then have acc: "client_call_accept C h' sid (JStr (b64_encode (c_pub C a))) bob = (r, bob1)"
    using assms(6) a(6) ivt by (simp add: jget_def)
  obtain b k acc0 where b: "r = Inr ()" "call_key_of C a (c_pub C b) sid = Inr k" "length b = 32" "length k = 32"
      "voice_key bob1 = Some k" "audio_stream bob1 = Some (started k sid)" "active_session bob1 = Some sid"
      "json_wf (JObj acc0)" "send_q bob1 = send_q bob @ [json_dumps (JObj acc0)]"
      "dget acc0 ''session_id'' = Some (JStr sid)"
      "dget acc0 ''ephemeral_pubkey'' = Some (JStr (b64_encode (c_pub C b)))"
    by (rule accept_effect [OF assms(1,3) a(1) acc])
  have "acc = acc0" using assms(7) b(8,9) json_loads_dumps [OF b(8)] by simp
  obtain alice2 where "handle_call_accept C h acc' alice1 = (Inr (), alice2)" "voice_key alice2 = Some k"
      "audio_stream alice2 = Some (started k sid)" "active_session alice2 = active_session alice1"
    by (rule accepted_effect [OF assms(2) a(2,1) b(2) pubkey_truthy [OF assms(1) b(3)], of acc' p])
      (use assms(8-11) b(10,11) \<open>acc = acc0\<close> in auto)
  then show ?thesis using a0 a(3) b by auto
qed

text \<open> Push-to-talk does not reach a stream that does not exist yet. Switched on before a call is accepted, the
  handler counts as muted, but the stream the call starts is not: it encrypts and sends what the microphone
  captures. \<close>

theorem ptt_before_call_is_live:
  assumes "crypto_ok C" "host_ok h" "length a = 32" "audio_stream s = None"
    and "push_to_talk True s = (r, s1)"
    and "client_call_accept C h sid (JStr (b64_encode (c_pub C a))) s1 = (r', t)"
  shows "ptt_enabled s1 \<and> muted t \<and> (\<exists>st p st'. audio_stream t = Some st \<and> \<not> st_muted st \<and>
    capture_callback C opus pcm st = (Some p, st'))"
proof -
  have s1: "muted s1" "ptt_enabled s1"
    using assms(5) by (auto simp: push_to_talk_def call_mute_def prog_simps)
  obtain k where k: "length k = 32" "audio_stream t = Some (started k sid)" "muted t = muted s1"
    using accept_effect [OF assms(1-3,6)] by metis
  then show ?thesis
    using s1 by (simp add: started_def stream_init_def capture_callback_def send_frame_def encrypt_packet_def Let_def)
qed

text \<open> Any CALL_END packet silences the call in progress: the audio stream is stopped whatever session the
  packet names, while a packet for another session leaves the call active, with its key. \<close>

theorem foreign_end_stops_audio:
  assumes "jget pkt ''type'' = JStr ''CALL_END''" "dget pkt ''session_id'' = Some (JStr other)"
    and "active_session s = Some sid" "other \<noteq> sid"
    and "call_handle_incoming C h on_call (\<lambda>_ _. ret ()) pkt s = (r, t)"
  shows "r = Inr () \<and> audio_stream t = None \<and> active_session t = Some sid \<and> voice_key t = voice_key s"
  using assms by (auto simp: call_handle_incoming_def handle_call_end_def prog_simps stop_audio_stream_def
      jget_or_def call_over_def)

section \<open>The properties at concrete inputs\<close>

definition caller_client :: "string \<Rightarrow> call_client" where
  "caller_client user = \<lparr>clock = 9, mono = 0, entropy = byte_of, epos = 0, me = user, ctx = None,
     cdb = init_client_db, send_q = [], pending = [], disk = (\<lambda>_. None), folders = {}, active = [],
     active_session = None, call_start_ts = 0, muted = False, audio_stream = None, local_port = 0,
     peer_ip = JNull, peer_port = 0, ptt_enabled = False, ephemeral_private = None, voice_key = None\<rparr>"

lemma good_host_ok: "host_ok good_host"
  by (simp add: host_ok_def good_host_def)

lemma call_keys_agree_witness:
  "\<exists>sid alice1 ivt bob1 acc' alice2 k. client_call_invite toy good_host ''bob'' (caller_client ''alice'') = (Inr sid, alice1) \<and>
     json_loads (last (send_q alice1)) = Inr (JObj ivt) \<and>
     client_call_accept toy good_host sid (jget ivt ''ephemeral_pubkey'') (caller_client ''bob'') = (Inr (), bob1) \<and>
     handle_call_accept toy good_host acc' alice1 = (Inr (), alice2) \<and>
     voice_key alice2 = Some k \<and> voice_key bob1 = Some k"
proof -
  obtain r alice1 where i: "client_call_invite toy good_host ''bob'' (caller_client ''alice'') = (r, alice1)" by fastforce
  obtain a ivt where a: "r = Inr (next_id (caller_client ''alice''))" "length a = 32" "json_wf (JObj ivt)"
      "send_q alice1 = send_q (caller_client ''alice'') @ [json_dumps (JObj ivt)]"
      "dget ivt ''ephemeral_pubkey'' = Some (JStr (b64_encode (c_pub toy a)))"
    by (rule invite_effect [OF good_host_ok i])
  let ?sid = "next_id (caller_client ''alice'')"
  obtain r' bob1 where b: "client_call_accept toy good_host ?sid (jget ivt ''ephemeral_pubkey'') (caller_client ''bob'') = (r', bob1)"
    by fastforce
  then have b': "client_call_accept toy good_host ?sid (JStr (b64_encode (c_pub toy a))) (caller_client ''bob'') = (r', bob1)"
    using a(5) by (simp add: jget_def)
  obtain acc where acc: "json_wf (JObj acc)" "send_q bob1 = send_q (caller_client ''bob'') @ [json_dumps (JObj acc)]"
    by (rule accept_effect [OF toy_ok good_host_ok a(2) b'])
  have l: "json_loads (last (send_q alice1)) = Inr (JObj ivt)" "json_loads (last (send_q bob1)) = Inr (JObj acc)"
    using a(4) acc(2) json_loads_dumps [OF a(3)] json_loads_dumps [OF acc(1)] by simp_all
  show ?thesis
    using call_keys_agree [OF toy_ok good_host_ok good_host_ok i [unfolded a(1)] l(1) b l(2),
        of "dset ''callee_udp_port'' (JInt 5000) acc" 5000] i [unfolded a(1)] l(1) b
    by auto
qed

lemma ptt_before_call_is_live_witness:
  "\<exists>t st. snd (client_call_accept toy good_host ''s'' (JStr (b64_encode (replicate 32 4)))
      (snd (push_to_talk True (caller_client ''bob'')))) = t \<and> audio_stream t = Some st \<and>
    fst (capture_callback toy None [1] st) \<noteq> None"
proof -
  obtain r s1 where p: "push_to_talk True (caller_client ''bob'') = (r, s1)" by fastforce
  obtain r' t where a: "client_call_accept toy good_host ''s'' (JStr (b64_encode (c_pub toy (replicate 32 4)))) s1 = (r', t)"
    by fastforce
  have "audio_stream (caller_client ''bob'') = None" by (simp add: caller_client_def)
  from ptt_before_call_is_live [OF toy_ok good_host_ok _ this p a, where pcm = "[1]" and opus = None] show ?thesis
    using p a by (auto simp: toy_def)
qed

lemma foreign_end_stops_audio_witness:
  "audio_stream (snd (call_handle_incoming toy good_host (\<lambda>_ _ _. ret ()) (\<lambda>_ _. ret ())
      [(''type'', JStr ''CALL_END''), (''session_id'', JStr ''x'')]
      (caller_client ''bob''\<lparr>active_session := Some ''s'', audio_stream := Some (started [1] ''s'')\<rparr>))) = None"
proof -
  let ?s = "caller_client ''bob''\<lparr>active_session := Some ''s'', audio_stream := Some (started [1] ''s'')\<rparr>"
  let ?pkt = "[(''type'', JStr ''CALL_END''), (''session_id'', JStr ''x'')]"
  obtain r t where h: "call_handle_incoming toy good_host (\<lambda>_ _ _. ret ()) (\<lambda>_ _. ret ()) ?pkt ?s = (r, t)" by fastforce
  from foreign_end_stops_audio [OF _ _ _ _ h, of "''x''" "''s''"] show ?thesis
    unfolding h by (simp add: jget_def caller_client_def)
qed

end
