(* ===== verification/App_State.thy ===== *)
theory App_State
  imports Call_Handler
begin

text \<open>
  The state of the application (\<^verbatim>\<open>client/app.py\<close>, class \<^verbatim>\<open>App\<close>) and the helpers that its router and its
  commands share. The handlers are created together when a login succeeds; \<open>ready\<close> says that they exist, and
  \<open>me\<close> is both the application's and their user name. \<open>view\<close>, \<open>contact_items\<close> and \<open>unread\<close> are what the screen
  shows. The redraw flag and the age of the notice only drive the rendering and are left out. A notice that
  quotes an exception keeps only its fixed part.
\<close>

datatype chat_item = RoomItem local_room_row | ContactItem contact_row

record app = call_client +
  ready :: bool
  current_chat :: "string option"
  view :: "message_row list"
  contact_items :: "chat_item list"
  room_rows :: "local_room_row list"
  unread :: "(string \<times> nat) list"
  file_offers :: "(string \<times> offer) list"
  file_progress :: "(string \<times> int \<times> int) list"
  pending_calls :: "(string \<times> json \<times> json) list"
  auth_result :: "packet option"
  buf :: string
  cursor :: nat
  conn_status :: string
  reconnect_att :: nat
  notice :: string
  notice_ts :: int
  dirty :: bool
  running :: bool

type_synonym ('e, 'a) app_prog = "('e app_scheme, 'a) prog"

section \<open>Chats\<close>

definition room_key :: "string \<Rightarrow> string" where
  "room_key room_id = ''room:'' @ room_id"

definition is_room_chat :: "string \<Rightarrow> bool" where
  "is_room_chat chat_id \<longleftrightarrow> chat_id \<noteq> [] \<and> starts_with chat_id ''room:''"

definition room_id_from_key :: "string \<Rightarrow> string" where
  "room_id_from_key chat_id = remove_prefix chat_id ''room:''"

lemma room_key_room [simp]: "is_room_chat (room_key r)" "room_id_from_key (room_key r) = r"
  using remove_prefix_append [of "''room:''" r] by (simp_all add: room_key_def is_room_chat_def room_id_from_key_def)

text \<open>Whoever changes what the screen shows sets \<open>dirty\<close>.\<close>

definition mark_dirty :: "('e, unit) app_prog" where
  "mark_dirty = modify (\<lambda>s. s\<lparr>dirty := True\<rparr>)"

definition set_notice :: "string \<Rightarrow> ('e, unit) app_prog" where
  "set_notice msg = modify (\<lambda>s. s\<lparr>notice := msg, notice_ts := clock s, dirty := True\<rparr>)"

section \<open>Data helpers\<close>

definition chat_history :: "string \<Rightarrow> string \<Rightarrow> client_db \<Rightarrow> message_row list" where
  "chat_history chat self d =
    (if is_room_chat chat then get_room_history (room_id_from_key chat) 100 d
     else get_message_history chat self 100 d)"

definition load_messages :: "('e, unit) app_prog" where
  "load_messages = modify (\<lambda>s. case current_chat s of
     Some (c # cs) \<Rightarrow> s\<lparr>view := chat_history (c # cs) (me s) (cdb s), dirty := True\<rparr> | _ \<Rightarrow> s\<lparr>dirty := True\<rparr>)"

fun item_name :: "chat_item \<Rightarrow> string" where
  "item_name (RoomItem r) = room_key (lr_id r)"
| "item_name (ContactItem c) = ct_username c"

definition roster :: "string \<Rightarrow> client_db \<Rightarrow> contact_row list" where
  "roster self d = filter (\<lambda>c. ct_username c \<noteq> [] \<and> ct_username c \<noteq> self) (all_contacts d)"

definition note_unread :: "string \<Rightarrow> client_db \<Rightarrow> chat_item \<Rightarrow> (string \<times> nat) list \<Rightarrow> (string \<times> nat) list" where
  "note_unread self d i u = (if dget u (item_name i) \<noteq> None then u
     else dset (item_name i) (case i of RoomItem r \<Rightarrow> 0 | ContactItem c \<Rightarrow> unread_count (ct_username c) self d) u)"

definition refresh_contacts :: "('e, unit) app_prog" where
  "refresh_contacts = modify (\<lambda>s.
     let rooms = all_rooms (cdb s); items = map RoomItem rooms @ map ContactItem (roster (me s) (cdb s))
     in s\<lparr>room_rows := rooms, contact_items := items, unread := fold (note_unread (me s) (cdb s)) items (unread s), dirty := True\<rparr>)"

definition request_public_key :: "string \<Rightarrow> ('e, unit) client_prog" where
  "request_public_key username =
    bnd (gets me) (\<lambda>self. whenp (username \<noteq> [] \<and> username \<noteq> self)
      (send_pkt KEY_REQUEST [(''username'', JStr username)]))"

definition set_unread :: "string \<Rightarrow> nat \<Rightarrow> ('e, unit) app_prog" where
  "set_unread k n = modify (\<lambda>s. s\<lparr>unread := dset k n (unread s)\<rparr>)"

text \<open>What leaving a room does to the open chat.\<close>

definition close_room_chat :: "string \<Rightarrow> ('e, unit) app_prog" where
  "close_room_chat room_id = modify (\<lambda>s. if current_chat s = Some (room_key room_id)
     then s\<lparr>current_chat := None, view := []\<rparr> else s)"

section \<open>Callbacks\<close>

text \<open>\<^verbatim>\<open>_on_new_message\<close>, given a packet whose sender is stored, and \<^verbatim>\<open>_on_room_message\<close>.\<close>

definition on_new_message :: "packet \<Rightarrow> ('e, unit) app_prog" where
  "on_new_message pkt =
    bnd (lift_result (sql_key (jget_or pkt ''from'' (JStr [])))) (\<lambda>sender.
    thn (c_add_contact sender)
    (bnd (gets me) (\<lambda>self.
     bnd (gets current_chat) (\<lambda>chat.
     thn (if chat = Some sender then
            thn load_messages
            (thn (cm (mark_read sender self))
            (thn (send_pkt READ [(''to'', JStr sender), (''msg_id'', jget pkt ''id'')])
            (set_unread sender 0)))
          else
            bnd (cq (unread_count sender self)) (set_unread sender))
     refresh_contacts))))"

definition room_failed :: string where "room_failed = ''[encrypted - decryption failed]''"
definition room_locked :: string where "room_locked = ''[encrypted - locked]''"

definition room_text :: "crypto \<Rightarrow> bytes option \<Rightarrow> string \<Rightarrow> packet \<Rightarrow> exn + json" where
  "room_text C key self pkt =
    (let payloads = jget_or pkt ''payloads'' (JObj []) in
     if truthy payloads then
       sbnd (as_obj payloads) (\<lambda>ps. case (dget ps self, key) of
         (Some p, Some k) \<Rightarrow> Inr (JStr (case sbnd (as_obj p) (\<lambda>p. decrypt_message C p k) of
            Inr t \<Rightarrow> t | Inl e \<Rightarrow> room_failed))
       | _ \<Rightarrow> Inr (JStr room_locked))
     else sbnd (obj_field pkt ''payload'') (\<lambda>p. Inr (jget_or p ''text'' (JStr []))))"

definition on_room_message :: "crypto \<Rightarrow> packet \<Rightarrow> ('e, unit) app_prog" where
  "on_room_message C pkt =
    (let sender = jget_or pkt ''from'' (JStr []); room_id = jget_or pkt ''room_id'' (JStr []) in
     bnd (gets me) (\<lambda>self.
     bnd (gets ctx) (\<lambda>key.
     bnd (lift_result (room_text C key self pkt)) (\<lambda>txt.
     bnd (id_or_new pkt ''id'') (\<lambda>mid.
     bnd (time_or_now pkt ''timestamp'') (\<lambda>ts.
     thn (whenp (truthy room_id)
           (bnd (lift_result (sql_key room_id)) (\<lambda>r.
            thn (save_incoming mid sender r txt ts)
            (bnd (lift_result (opt_text txt)) (\<lambda>t. cm (update_last_message r t))))))
     (let k = room_key (py_str room_id) in
      bnd (gets current_chat) (\<lambda>chat.
      thn (if chat = Some k then load_messages
           else modify (\<lambda>s. s\<lparr>unread := dset k (case dget (unread s) k of Some n \<Rightarrow> n + 1 | None \<Rightarrow> 1) (unread s)\<rparr>))
      refresh_contacts))))))))"

definition on_file_offer :: "string \<Rightarrow> offer \<Rightarrow> ('e, unit) app_prog" where
  "on_file_offer file_id meta =
    thn (modify (\<lambda>s. s\<lparr>file_offers := dset file_id meta (file_offers s)\<rparr>))
    (set_notice (''File offer '' @ take 8 file_id @ '' from '' @ py_str (of_from_user meta) @ '': '' @ py_str (of_name meta)))"

text \<open>
  \<^verbatim>\<open>int((done / total) * 100)\<close> and ten cells for the bar; a negative number of repetitions gives no cells. Floats are
  reals here: where the quotient is no binary fraction the percentage that Python shows can be one less.
\<close>

definition py_trunc :: "real \<Rightarrow> int" where
  "py_trunc x = (if 0 \<le> x then \<lfloor>x\<rfloor> else \<lceil>x\<rceil>)"

definition percent :: "int \<Rightarrow> int \<Rightarrow> int" where
  "percent n m = (if m \<noteq> 0 then py_trunc (real_of_int n / real_of_int m * 100) else 100)"

definition progress_bar :: "int \<Rightarrow> string" where
  "progress_bar pct = (let filled = min 10 (py_trunc (real_of_int pct / 100 * 10)) in
     replicate (nat filled) CHR ''#'' @ replicate (nat (10 - filled)) CHR ''-'')"

definition on_file_progress :: "string \<Rightarrow> int \<Rightarrow> int \<Rightarrow> ('e, unit) app_prog" where
  "on_file_progress file_id n m =
    thn (modify (\<lambda>s. s\<lparr>file_progress := dset file_id (n, m) (file_progress s)\<rparr>))
    (let pct = percent n m in
     set_notice (''File '' @ take 8 file_id @ '' ['' @ progress_bar pct @ ''] '' @ int_str pct @ ''%''))"

definition on_incoming_call :: "string \<Rightarrow> json \<Rightarrow> json \<Rightarrow> ('e, unit) app_prog" where
  "on_incoming_call session_id caller caller_pubkey_b64 =
    thn (modify (\<lambda>s. s\<lparr>pending_calls := dset session_id (caller, caller_pubkey_b64) (pending_calls s)\<rparr>))
    (set_notice (''Incoming call from '' @ py_str caller @ '': /call accept '' @ session_id))"

definition on_call_ended :: "string \<Rightarrow> string \<Rightarrow> ('e, unit) app_prog" where
  "on_call_ended session_id reason =
    thn (modify (\<lambda>s. s\<lparr>pending_calls := dpop session_id (pending_calls s)\<rparr>))
    (set_notice (''Call '' @ take 8 session_id @ '' '' @ reason))"

section \<open>Allowed effects\<close>

locale app_effect = call_effect R for R :: "'e app_scheme \<Rightarrow> 'e app_scheme \<Rightarrow> bool" +
  assumes aeff_notice: "R s (s\<lparr>notice := m, notice_ts := clock s, dirty := True\<rparr>)"
    and aeff_view: "R s (s\<lparr>view := v, dirty := True\<rparr>)" and aeff_dirty: "R s (s\<lparr>dirty := True\<rparr>)"
    and aeff_chat: "R s (s\<lparr>current_chat := c, view := v, dirty := True\<rparr>)"
    and aeff_lists: "R s (s\<lparr>room_rows := rs, contact_items := its, unread := u, dirty := True\<rparr>)"
    and aeff_link: "R s (s\<lparr>conn_status := st, reconnect_att := n, dirty := True\<rparr>)"
    and aeff_offers: "R s (s\<lparr>file_offers := os\<rparr>)" and aeff_progress: "R s (s\<lparr>file_progress := ps\<rparr>)"
    and aeff_calls: "R s (s\<lparr>pending_calls := cs\<rparr>)" and aeff_auth: "R s (s\<lparr>auth_result := a\<rparr>)"
    and aeff_running: "R s (s\<lparr>running := b\<rparr>)"
begin

lemmas aeff_fields [ceff_intro] = aeff_notice aeff_view aeff_dirty aeff_link aeff_offers aeff_progress aeff_calls
  aeff_auth aeff_running

lemma aeff_mark [ceff_intro]: "steps R mark_dirty"
  unfolding mark_dirty_def by (intro ceff_intro)

lemma aeff_set_notice [ceff_intro]: "steps R (set_notice m)"
  unfolding set_notice_def by (intro ceff_intro)

lemma aeff_load [ceff_intro]: "steps R load_messages"
  by (auto simp: load_messages_def steps_def aeff_dirty aeff_view split: option.split list.split)

lemma aeff_refresh [ceff_intro]: "steps R refresh_contacts"
  by (simp add: refresh_contacts_def steps_def Let_def aeff_lists)

lemma aeff_request_key [ceff_intro]: "steps R (request_public_key u)"
  unfolding request_public_key_def by (intro ceff_intro)

text \<open>Some changes are visible only together with the refreshing that follows.\<close>

lemma aeff_unread_refresh: "steps R (thn (modify (\<lambda>s. s\<lparr>unread := f s\<rparr>)) refresh_contacts)"
  by (simp add: refresh_contacts_def steps_def Let_def thn_app aeff_lists)

lemma aeff_set_unread: "steps R (thn (set_unread k n) refresh_contacts)"
  unfolding set_unread_def by (rule aeff_unread_refresh)

lemma aeff_close_room: "steps R (thn (close_room_chat r) refresh_contacts)"
  using R_trans [OF aeff_chat aeff_lists]
  by (auto simp: refresh_contacts_def close_room_chat_def steps_def Let_def thn_app aeff_lists)

lemma aeff_unread_notice: "steps R (thn (set_unread k n) (set_notice m))"
proof -
  have "R s (s\<lparr>unread := u, dirty := True\<rparr>)" for s u
    using aeff_lists [where s = s and rs = "room_rows s" and its = "contact_items s" and u = u] by simp
  then show ?thesis using R_trans [OF _ aeff_notice]
    by (fastforce simp: set_unread_def set_notice_def steps_def thn_app)
qed

lemma aeff_unread_first: "steps R c \<Longrightarrow> steps R (thn (set_unread k n) (thn refresh_contacts c))"
  using steps_thn [OF aeff_set_unread, of c] by (simp only: thn_rest)

lemmas aeff_pairs [ceff_intro] = aeff_unread_refresh aeff_set_unread aeff_close_room aeff_unread_notice aeff_unread_first

lemma aeff_callbacks [ceff_intro]: "steps R (on_new_message pkt)" "steps R (on_room_message C pkt)"
  "steps R (on_file_offer i m)" "steps R (on_file_progress i n t)" "steps R (on_incoming_call i u k)"
  "steps R (on_call_ended i r)"
  unfolding on_new_message_def on_room_message_def on_file_offer_def on_file_progress_def on_incoming_call_def
    on_call_ended_def Let_def thn_rest
  by (intro ceff_intro)+

end

end
