(* ===== verification/App_Router.thy ===== *)
theory App_Router
  imports App_State
begin

text \<open>
  The application's router of server packets (\<^verbatim>\<open>App._on_server_message\<close>, \<^verbatim>\<open>_handle_synced_packet\<close>) and its
  connection callbacks. A packet of an unknown type is ignored. The router is the \<open>responder\<close> that the room
  handler's requests wait for.
\<close>

section \<open>Synchronised packets\<close>

definition call_types :: "msg_type set" where
  "call_types = {CALL_INVITE, CALL_ACCEPT, CALL_DECLINE, CALL_END, CALL_RELAY}"

definition file_types :: "msg_type set" where
  "file_types = {FILE_INIT, FILE_ACK, FILE_DONE, FILE_CANCEL}"

definition app_incoming :: "crypto \<Rightarrow> packet \<Rightarrow> ('e, unit) app_prog" where
  "app_incoming C pkt = msg_handle_incoming C on_new_message pkt"

definition app_room_incoming :: "crypto \<Rightarrow> packet \<Rightarrow> ('e, unit) app_prog" where
  "app_room_incoming C pkt = attempt (on_room_message C pkt) (\<lambda>_. ret ())"

definition app_file_incoming :: "crypto \<Rightarrow> packet \<Rightarrow> ('e, unit) app_prog" where
  "app_file_incoming C pkt = file_handle_incoming C on_file_offer pkt"

definition app_call_incoming :: "crypto \<Rightarrow> audio_host \<Rightarrow> packet \<Rightarrow> ('e, unit) app_prog" where
  "app_call_incoming C host pkt = call_handle_incoming C host on_incoming_call on_call_ended pkt"

definition handle_synced_packet :: "crypto \<Rightarrow> audio_host \<Rightarrow> packet \<Rightarrow> ('e, unit) app_prog" where
  "handle_synced_packet C host pkt =
    bnd (gets ready) (\<lambda>up.
    case packet_type pkt of
      None \<Rightarrow> ret ()
    | Some ty \<Rightarrow>
        if \<not> up then ret ()
        else if ty = MESSAGE then app_incoming C pkt
        else if ty = ROOM_MESSAGE then app_room_incoming C pkt
        else if ty = MESSAGE_EDIT then msg_handle_edit C pkt
        else if ty = MESSAGE_DELETE then msg_handle_delete pkt
        else if ty \<in> file_types then app_file_incoming C pkt
        else if ty \<in> call_types then app_call_incoming C host pkt
        else ret ())"

text \<open>Each element of a SYNC_RESPONSE is the text of a packet; one that fails is skipped.\<close>

definition handle_synced :: "crypto \<Rightarrow> audio_host \<Rightarrow> json \<Rightarrow> ('e, unit) app_prog" where
  "handle_synced C host raw =
    attempt
      (bnd (lift_result (sbnd (as_str TypeError raw) (\<lambda>t. sbnd (json_loads t) as_obj))) (handle_synced_packet C host))
      (\<lambda>_. ret ())"

section \<open>The router\<close>

definition online_user :: "string \<Rightarrow> json \<Rightarrow> ('e, unit) app_prog" where
  "online_user self v =
    whenp (truthy v \<and> v \<noteq> JStr self)
      (bnd (lift_result (sql_key v)) (\<lambda>u.
       thn (c_add_contact u)
       (thn (cm (set_status u ''online''))
       (request_public_key u))))"

definition app_status :: "packet \<Rightarrow> ('e, unit) app_prog" where
  "app_status pkt =
    bnd (lift_result (sql_key (jget_or pkt ''user'' (JStr [])))) (\<lambda>user.
    bnd (lift_result (sql_key (jget_or pkt ''status'' (JStr ''offline'')))) (\<lambda>status.
    thn (cm (set_status user status)) refresh_contacts))"

definition app_online_list :: "packet \<Rightarrow> ('e, unit) app_prog" where
  "app_online_list pkt =
    bnd (gets me) (\<lambda>self.
    bnd (lift_result (as_list (jget_or pkt ''users'' (JList [])))) (\<lambda>users.
    thn (for_each (online_user self) users)
    (thn (whenp (self \<noteq> []) (cm (delete_contact self)))
    refresh_contacts)))"

definition app_key_response :: "packet \<Rightarrow> ('e, unit) app_prog" where
  "app_key_response pkt =
    (if truthy (jget pkt ''success'') \<and> truthy (jget pkt ''username'') \<and> truthy (jget pkt ''public_key'') then
       bnd (lift_result (sql_key (jget pkt ''username''))) (\<lambda>u.
       bnd (lift_result (as_str TypeError (jget pkt ''public_key''))) (\<lambda>k.
       thn (c_store_public_key u k) refresh_contacts))
     else if truthy (jget pkt ''username'') then set_notice (''No public key for '' @ py_str (jget pkt ''username''))
     else ret ())"

definition apply_room_info :: "packet \<Rightarrow> ('e, unit) app_prog" where
  "apply_room_info pkt =
    bnd (lift_result (as_obj (py_or (jget pkt ''room'') (JObj [])))) (\<lambda>room.
    whenp (truthy (jget pkt ''success'') \<and> truthy (jget room ''id''))
      (bnd (lift_result (sql_key (jget room ''id''))) (\<lambda>r.
       thn (if truthy (jget pkt ''left'') then thn (cm (delete_room r)) (close_room_chat r)
            else bnd (lift_result (sql_key (jget_or room ''name'' (jget room ''id'')))) (\<lambda>nm. cm (save_room r nm None)))
       refresh_contacts)))"

definition app_room_info :: "packet \<Rightarrow> ('e, unit) app_prog" where
  "app_room_info pkt = bnd (gets ready) (\<lambda>up. thn (whenp up (handle_response pkt)) (apply_room_info pkt))"

definition app_typing :: "packet \<Rightarrow> ('e, unit) app_prog" where
  "app_typing pkt =
    bnd (gets current_chat) (\<lambda>chat.
    let sender = jget_or pkt ''from'' (JStr []); k = room_key (py_str (jget_or pkt ''room_id'' (JStr []))) in
    whenp (sender = opt_json chat \<or> chat = Some k) (set_notice (py_str sender @ '' is typing'')))"

definition app_file_done :: "packet \<Rightarrow> ('e, unit) app_prog" where
  "app_file_done pkt =
    bnd (lift_result (as_str TypeError (jget_or pkt ''file_id'' (JStr [])))) (\<lambda>i.
    set_notice (''File ready: '' @ take 8 i @ ''  /file accept '' @ i))"

definition route_packet :: "crypto \<Rightarrow> audio_host \<Rightarrow> packet \<Rightarrow> ('e, unit) app_prog" where
  "route_packet C host pkt =
    bnd (gets ready) (\<lambda>up.
    case packet_type pkt of
      None \<Rightarrow> ret ()
    | Some ty \<Rightarrow>
        if ty = AUTH_RESPONSE then modify (\<lambda>s. s\<lparr>auth_result := Some pkt\<rparr>)
        else if ty = MESSAGE then whenp up (app_incoming C pkt)
        else if ty = MESSAGE_EDIT then thn (whenp up (msg_handle_edit C pkt)) load_messages
        else if ty = MESSAGE_DELETE then thn (whenp up (msg_handle_delete pkt)) load_messages
        else if ty = SYNC_RESPONSE then
          whenp up (bnd (lift_result (as_list (jget_or pkt ''messages'' (JList [])))) (for_each (handle_synced C host)))
        else if ty = STATUS then app_status pkt
        else if ty = ONLINE_LIST then app_online_list pkt
        else if ty = KEY_RESPONSE then app_key_response pkt
        else if ty = DELIVERY then thn (whenp up (msg_handle_delivery pkt)) load_messages
        else if ty = READ then thn (whenp up (msg_handle_read pkt)) load_messages
        else if ty = ROOM_INFO then app_room_info pkt
        else if ty = ROOM_MEMBERS_LIST then whenp up (handle_response pkt)
        else if ty = ROOM_MESSAGE then whenp up (app_room_incoming C pkt)
        else if ty \<in> file_types then
          thn (whenp up (app_file_incoming C pkt)) (whenp (ty = FILE_DONE) (app_file_done pkt))
        else if ty \<in> call_types then whenp up (app_call_incoming C host pkt)
        else if ty = TYPING then app_typing pkt
        else if ty = ERROR then set_notice (''Server error: '' @ py_str (jget_or pkt ''error'' (JStr ''?'')))
        else ret ())"

text \<open>A packet that is handled without an exception makes the screen be drawn again.\<close>

definition app_route :: "crypto \<Rightarrow> audio_host \<Rightarrow> packet \<Rightarrow> ('e, unit) app_prog" where
  "app_route C host pkt = thn (route_packet C host pkt) mark_dirty"

lemma app_route_app:
  "app_route C h pkt s = (case route_packet C h pkt s of (Inl e, t) \<Rightarrow> (Inl e, t) | (Inr u, t) \<Rightarrow> (Inr (), t\<lparr>dirty := True\<rparr>))"
  by (simp add: app_route_def mark_dirty_def prog_simps split: prod.split sum.split)

section \<open>Connection callbacks\<close>

definition on_connect :: "nat \<Rightarrow> ('e, unit) app_prog" where
  "on_connect tries = modify (\<lambda>s. s\<lparr>conn_status := ''connecting'', reconnect_att := tries, dirty := True\<rparr>)"

definition on_disconnect :: "nat \<Rightarrow> ('e, unit) app_prog" where
  "on_disconnect tries =
    thn (modify (\<lambda>s. s\<lparr>conn_status := ''reconnecting'', dirty := True\<rparr>))
    (set_notice (''Disconnected. Reconnecting (attempt '' @ int_str (int (tries + 1)) @ '')''))"

section \<open>Allowed effects\<close>

context app_effect begin

lemma aeff_incoming [ceff_intro]: "steps R (app_incoming C pkt)" "steps R (app_room_incoming C pkt)"
  "steps R (app_file_incoming C pkt)" "steps R (app_call_incoming C h pkt)"
  unfolding app_incoming_def app_room_incoming_def app_file_incoming_def app_call_incoming_def
  by (intro ceff_intro)+

lemma aeff_synced [ceff_intro]: "steps R (handle_synced C h raw)"
  unfolding handle_synced_def handle_synced_packet_def by (intro ceff_intro)

lemma aeff_online_user [ceff_intro]: "steps R (online_user u v)"
  unfolding online_user_def by (intro ceff_intro)

lemma aeff_presence [ceff_intro]: "steps R (app_status pkt)" "steps R (app_online_list pkt)"
  "steps R (app_key_response pkt)" "steps R (app_typing pkt)" "steps R (app_file_done pkt)"
  unfolding app_status_def app_online_list_def app_key_response_def app_typing_def app_file_done_def Let_def
  by (intro ceff_intro)+

lemma aeff_connection [ceff_intro]: "steps R (on_connect n)" "steps R (on_disconnect n)"
proof -
  have "R s (s\<lparr>conn_status := st, dirty := True\<rparr>)" for s st using aeff_link [where s = s and st = st and n = "reconnect_att s"] by simp
  then show "steps R (on_connect n)" "steps R (on_disconnect n)"
    unfolding on_connect_def on_disconnect_def by (intro ceff_intro)+
qed

lemma aeff_room_info [ceff_intro]: "steps R (apply_room_info pkt)"
  unfolding apply_room_info_def thn_rest by (intro ceff_intro)

text \<open>Every packet, but for the responses it hands to the room handler.\<close>

lemma aeff_route:
  assumes "steps R (handle_response pkt)"
  shows "steps R (app_route C h pkt)"
proof -
  have "steps R (app_room_info pkt)" unfolding app_room_info_def by (intro ceff_intro assms)
  then show ?thesis unfolding app_route_def route_packet_def by (intro ceff_intro assms)
qed

end

end
