(* ===== verification/Auth_Screen.thy ===== *)
theory Auth_Screen
  imports Prelude
begin

text \<open>
  The keyboard side of the dialogs (\<^verbatim>\<open>client/ui/auth_screen.py\<close>, \<^verbatim>\<open>verify_screen.py\<close>): the login form, the
  prompt that unlocks the stored key, the confirmation of a safety number. A dialog consumes the keys that
  \<^verbatim>\<open>getch\<close> returns (-1 when there is none). What is drawn is in Dialog_View, but for the cursor motions that the
  code does not guard: \<^verbatim>\<open>curses\<close> raises when they leave the window.
\<close>

section \<open>Keys and the window\<close>

text \<open>The key codes of \<^verbatim>\<open>curses\<close>.\<close>

definition KEY_LEFT :: int where "KEY_LEFT = 260"
definition KEY_RIGHT :: int where "KEY_RIGHT = 261"
definition KEY_HOME :: int where "KEY_HOME = 262"
definition KEY_BACKSPACE :: int where "KEY_BACKSPACE = 263"
definition KEY_ENTER :: int where "KEY_ENTER = 343"
definition KEY_END :: int where "KEY_END = 360"

lemmas key_codes = KEY_LEFT_def KEY_RIGHT_def KEY_HOME_def KEY_BACKSPACE_def KEY_ENTER_def KEY_END_def

definition is_enter :: "int \<Rightarrow> bool" where "is_enter k \<longleftrightarrow> k = KEY_ENTER \<or> k = 10 \<or> k = 13"
definition is_backspace :: "int \<Rightarrow> bool" where "is_backspace k \<longleftrightarrow> k = KEY_BACKSPACE \<or> k = 127 \<or> k = 8"
definition is_char :: "int \<Rightarrow> bool" where "is_char k \<longleftrightarrow> 32 \<le> k \<and> k \<le> 126"

definition ord :: "char \<Rightarrow> int" where "ord c = int (of_char c)"
definition chr :: "int \<Rightarrow> char" where "chr k = char_of (nat k)"

lemma chr_ord [simp]: "chr (ord c) = c"
  by (simp add: ord_def chr_def)

lemma ord_chr: "is_char k \<Longrightarrow> ord (chr k) = k"
proof -
  assume "is_char k"
  then have "0 \<le> k" "nat k < 256" by (auto simp: is_char_def)
  then show ?thesis by (simp add: ord_def chr_def)
qed

record window =
  win_h :: int
  win_w :: int

definition in_window :: "window \<Rightarrow> int \<Rightarrow> int \<Rightarrow> bool" where
  "in_window win r c \<longleftrightarrow> 0 \<le> r \<and> r < win_h win \<and> 0 \<le> c \<and> c < win_w win"

text \<open>\<^verbatim>\<open>addstr\<close> of \<open>n\<close> characters at a position wraps at the line's end and raises at the window's.\<close>

definition addstr_fits :: "window \<Rightarrow> int \<Rightarrow> int \<Rightarrow> int \<Rightarrow> bool" where
  "addstr_fits win r c n \<longleftrightarrow> n = 0 \<or> n < (win_h win - r) * win_w win - c"

text \<open>A dialog waits for more keys, is done (with the keys it has not read) or has raised.\<close>

datatype 'a ui = Waiting | Done 'a "int list" | Failed exn

fun then_ui :: "'a ui \<Rightarrow> ('a \<Rightarrow> int list \<Rightarrow> 'b ui) \<Rightarrow> 'b ui" where
  "then_ui (Done a ks) f = f a ks"
| "then_ui Waiting f = Waiting"
| "then_ui (Failed e) f = Failed e"

lemma then_ui_cong [fundef_cong]:
  "m = m' \<Longrightarrow> (\<And>a ks. m' = Done a ks \<Longrightarrow> f a ks = g a ks) \<Longrightarrow> then_ui m f = then_ui m' g"
  by (cases m') simp_all

section \<open>The login form\<close>

datatype creds = Token string | Login string string | Register string string

fun get_line :: "window \<Rightarrow> int \<Rightarrow> int \<Rightarrow> string \<Rightarrow> int list \<Rightarrow> string ui" where
  "get_line win row col buf [] = Waiting"
| "get_line win row col buf (k # ks) =
    (if is_enter k then Done buf ks
     else if is_backspace k then
       (if buf = [] then get_line win row col buf ks
        else let buf = butlast buf in
          if addstr_fits win row col 40 \<and> addstr_fits win row col (int (length buf)) \<and>
             in_window win row (col + int (length buf))
          then get_line win row col buf ks else Failed CursesError)
     else if is_char k then
       (let buf = buf @ [chr k] in
        if in_window win row (col + int (length buf) - 1) then get_line win row col buf ks else Failed CursesError)
     else get_line win row col buf ks)"

definition prompt :: "window \<Rightarrow> int \<Rightarrow> int \<Rightarrow> int list \<Rightarrow> string ui" where
  "prompt win row col ks = (if in_window win row col then get_line win row col [] ks else Failed CursesError)"

fun choose_mode :: "int list \<Rightarrow> (string \<Rightarrow> string \<Rightarrow> creds) option ui" where
  "choose_mode [] = Waiting"
| "choose_mode (k # ks) =
    (if k = ord (CHR ''l'') \<or> k = ord (CHR ''L'') then Done (Some Login) ks
     else if k = ord (CHR ''r'') \<or> k = ord (CHR ''R'') then Done (Some Register) ks
     else if k = ord (CHR ''q'') \<or> k = ord (CHR ''Q'') \<or> k = 3 \<or> k = 27 then Done None ks
     else choose_mode ks)"

text \<open>The banner has twelve lines; each label is thirteen characters long.\<close>

definition form_row :: "window \<Rightarrow> int" where
  "form_row win = max ((win_h win - 12 - 10) div 2) 0 + 12 + 2 + 2"

definition form_col :: "window \<Rightarrow> int" where
  "form_col win = max ((win_w win - 40) div 2) 2 + 13"

lemma get_line_consumes: "get_line win row col buf ks = Done l ks' \<Longrightarrow> length ks' < length ks"
  by (induction win row col buf ks rule: get_line.induct) (auto simp: Let_def split: if_splits)

lemma prompt_consumes: "prompt win row col ks = Done l ks' \<Longrightarrow> length ks' < length ks"
  by (auto simp: prompt_def split: if_splits dest: get_line_consumes)

lemma choose_mode_consumes: "choose_mode ks = Done m ks' \<Longrightarrow> length ks' < length ks"
  by (induction ks rule: choose_mode.induct) (auto split: if_splits)

function show_auth :: "window \<Rightarrow> int list \<Rightarrow> creds option ui" where
  "show_auth win ks =
    then_ui (choose_mode ks) (\<lambda>mode ks. case mode of
      None \<Rightarrow> Done None ks
    | Some mk \<Rightarrow>
        then_ui (prompt win (form_row win + 2) (form_col win) ks) (\<lambda>username ks.
        then_ui (prompt win (form_row win + 4) (form_col win) ks) (\<lambda>password ks.
        if py_strip username = [] \<or> password = [] then show_auth win ks
        else Done (Some (mk (py_strip username) password)) ks)))"
  by pat_completeness auto
termination
  by (relation "measure (\<lambda>(win, ks). length ks)") (auto dest!: choose_mode_consumes prompt_consumes)

declare show_auth.simps [simp del]

section \<open>Unlocking and verifying\<close>

fun unlock_keys :: "string \<Rightarrow> int list \<Rightarrow> string option ui" where
  "unlock_keys buf [] = Waiting"
| "unlock_keys buf (k # ks) =
    (if k = 27 \<or> k = ord (CHR ''q'') \<or> k = ord (CHR ''Q'') \<or> k = 3 then Done None ks
     else if k = ord (CHR ''s'') \<or> k = ord (CHR ''S'') then Done (Some []) ks
     else if k = ord (CHR ''n'') \<or> k = ord (CHR ''N'') then Done None ks
     else if is_enter k then Done (Some buf) ks
     else if is_backspace k then unlock_keys (butlast buf) ks
     else if is_char k then unlock_keys (buf @ [chr k]) ks
     else unlock_keys buf ks)"

definition show_unlock :: "int list \<Rightarrow> string option ui" where
  "show_unlock ks = unlock_keys [] ks"

fun verify_keys :: "int list \<Rightarrow> bool ui" where
  "verify_keys [] = Waiting"
| "verify_keys (k # ks) =
    (if k = ord (CHR ''c'') \<or> k = ord (CHR ''C'') then Done True ks
     else if k = 27 then Done False ks
     else verify_keys ks)"

section \<open>Typing\<close>

definition printable :: "string \<Rightarrow> bool" where
  "printable s \<longleftrightarrow> (\<forall>c \<in> set s. is_char (ord c))"

lemma char_not_control: "is_char k \<Longrightarrow> \<not> is_enter k \<and> \<not> is_backspace k"
  by (simp add: is_char_def is_enter_def is_backspace_def key_codes)

lemma get_line_types:
  "printable s \<Longrightarrow> 0 \<le> row \<Longrightarrow> row < win_h win \<Longrightarrow> 0 \<le> col \<Longrightarrow> col + int (length buf + length s) \<le> win_w win \<Longrightarrow>
   get_line win row col buf (map ord s @ 10 # ks) = Done (buf @ s) ks"
proof (induction s arbitrary: buf)
  case (Cons c s)
  have c: "is_char (ord c)" using Cons.prems(1) by (simp add: printable_def)
  show ?case
    using char_not_control [OF c] c Cons.IH [of "buf @ [c]"] Cons.prems by (simp add: printable_def in_window_def Let_def)
qed (simp add: is_enter_def)

lemma prompt_types:
  "printable s \<Longrightarrow> 0 \<le> row \<Longrightarrow> row < win_h win \<Longrightarrow> 0 \<le> col \<Longrightarrow> col < win_w win \<Longrightarrow> col + int (length s) \<le> win_w win \<Longrightarrow>
   prompt win row col (map ord s @ 10 # ks) = Done s ks"
  by (simp add: prompt_def in_window_def get_line_types [of s row win col "[]" ks, simplified])

text \<open>The letters the prompt takes for itself.\<close>

definition prompt_keys :: string where
  "prompt_keys = ''qQsSnN''"

lemma ord_inj: "ord c = ord d \<longleftrightarrow> c = d"
  by (metis chr_ord)

lemma unlock_types:
  "printable s \<Longrightarrow> set s \<inter> set prompt_keys = {} \<Longrightarrow> unlock_keys buf (map ord s @ 10 # ks) = Done (Some (buf @ s)) ks"
proof (induction s arbitrary: buf)
  case Nil
  then show ?case by (simp add: ord_def is_enter_def)
next
  case (Cons c s)
  have c: "is_char (ord c)" using Cons.prems(1) by (simp add: printable_def)
  then have "ord c \<noteq> 27" "ord c \<noteq> 3" by (auto simp: is_char_def)
  moreover have "c \<notin> set prompt_keys" using Cons.prems(2) by simp
  ultimately show ?case
    using char_not_control [OF c] c Cons.IH [of "buf @ [c]"] Cons.prems by (simp add: printable_def ord_inj prompt_keys_def)
qed

lemma unlock_result:
  "unlock_keys buf ks = Done (Some pw) rest \<Longrightarrow> printable buf \<Longrightarrow> set buf \<inter> set prompt_keys = {} \<Longrightarrow>
   printable pw \<and> set pw \<inter> set prompt_keys = {}"
proof (induction buf ks rule: unlock_keys.induct)
  case (2 buf k ks)
  have b: "printable (butlast buf)" and b2: "set (butlast buf) \<inter> set prompt_keys = {}"
    using "2.prems"(2,3) by (auto simp: printable_def dest: in_set_butlastD)
  show ?case
  proof (cases "k \<in> {27, 3} \<union> ord ` set prompt_keys \<or> is_enter k \<or> is_backspace k \<or> \<not> is_char k")
    case True
    then show ?thesis
      using 2 b b2 by (auto simp: prompt_keys_def printable_def split: if_splits)
  next
    case False
    then have k: "is_char k" "k \<notin> ord ` set prompt_keys" by auto
    have o: "ord (chr k) = k" using k(1) by (rule ord_chr)
    then have "chr k \<notin> set prompt_keys" using k(2) by (metis imageI)
    then have "printable (buf @ [chr k])" "set (buf @ [chr k]) \<inter> set prompt_keys = {}"
      using k o "2.prems"(2,3) by (auto simp: printable_def)
    moreover have "unlock_keys (buf @ [chr k]) ks = Done (Some pw) rest"
      using "2.prems"(1) False by (simp add: prompt_keys_def)
    ultimately show ?thesis
      using "2.IH"(2) False by (simp add: prompt_keys_def)
  qed
qed simp

section \<open>Properties\<close>

text \<open> The login form returns what was typed: on a window of at least 21 lines, a mode key, a name, Enter, a
  password and Enter give exactly these credentials, as long as both fit on their line; keys typed after that
  are left for the application. \<close>

theorem login_form_returns_input:
  assumes "21 \<le> win_h win" "printable u" "printable p" "py_strip u \<noteq> []" "p \<noteq> []"
    and "form_col win + int (length u) \<le> win_w win" "form_col win + int (length p) \<le> win_w win"
  shows "show_auth win (ord (CHR ''l'') # map ord u @ 10 # map ord p @ 10 # ks) = Done (Some (Login (py_strip u) p)) ks \<and>
    show_auth win (ord (CHR ''r'') # map ord u @ 10 # map ord p @ 10 # ks) = Done (Some (Register (py_strip u) p)) ks"
proof -
  have r: "0 \<le> form_row win" "form_row win + 4 < win_h win" "0 \<le> form_col win"
    using assms(1) by (auto simp: form_row_def form_col_def)
  have c: "form_col win < win_w win" using assms(5,7) by (cases p) auto
  have "prompt win (form_row win + 2) (form_col win) (map ord u @ 10 # ks) = Done u ks" for ks
    using r c assms(2,6) by (intro prompt_types) auto
  moreover have "prompt win (form_row win + 4) (form_col win) (map ord p @ 10 # ks) = Done p ks" for ks
    using r c assms(3,7) by (intro prompt_types) auto
  ultimately show ?thesis using assms(4,5) by (subst (1 2) show_auth.simps) (simp add: ord_inj)
qed

lemma login_form_returns_input_witness:
  "show_auth \<lparr>win_h = 24, win_w = 80\<rparr> (ord (CHR ''l'') # map ord ''ann'' @ 10 # map ord ''secret'' @ 10 # [3]) =
     Done (Some (Login ''ann'' ''secret'')) [3]"
proof -
  have "py_strip ''ann'' = ''ann''" by code_simp
  then show ?thesis
    using login_form_returns_input [of "\<lparr>win_h = 24, win_w = 80\<rparr>" "''ann''" "''secret''" "[3]"]
    by (simp add: printable_def is_char_def ord_def form_col_def)
qed

text \<open> What the unlock prompt can return. A password can be entered there exactly if its characters are
  printable and none of them is one of the letters the prompt reads as commands (q, s, n, in either case): such
  a letter ends the dialog at once. So a key protected by any other password can never be unlocked after a
  login by token. \<close>

theorem unlock_prompt_passwords:
  "(\<exists>ks rest. show_unlock ks = Done (Some pw) rest) \<longleftrightarrow> printable pw \<and> set pw \<inter> set prompt_keys = {}"
proof
  assume "\<exists>ks rest. show_unlock ks = Done (Some pw) rest"
  then show "printable pw \<and> set pw \<inter> set prompt_keys = {}"
    using unlock_result [of "[]"] unfolding show_unlock_def by (force simp: printable_def [of "[]"])
next
  assume "printable pw \<and> set pw \<inter> set prompt_keys = {}"
  then have "show_unlock (map ord pw @ 10 # []) = Done (Some pw) []"
    using unlock_types [of pw "[]" "[]"] by (simp add: show_unlock_def)
  then show "\<exists>ks rest. show_unlock ks = Done (Some pw) rest" by blast
qed

text \<open>On a window of at most twenty lines the form cannot be used: the password's line is outside.\<close>

lemma small_window_fails:
  assumes "win_h win \<le> 20" "0 \<le> win_w win"
  shows "\<not> (\<exists>ks c rest. show_auth win ks = Done (Some c) rest)"
proof -
  have p: "prompt win (form_row win + 4) (form_col win) ks = Failed CursesError" for ks
    using assms by (simp add: prompt_def in_window_def form_row_def)
  have "show_auth win ks \<noteq> Done (Some c) rest" for ks c rest
    using p by (cases "choose_mode ks"; cases "prompt win (form_row win + 2) (form_col win) (case choose_mode ks of Done m k \<Rightarrow> k)")
      (subst show_auth.simps; auto split: option.split)+
  then show ?thesis by blast
qed

end
