(* ===== verification/Client_Auth.thy ===== *)
theory Client_Auth
  imports Client_State
begin

text \<open>
  The client's side of authentication (\<^verbatim>\<open>client/handlers/auth.py\<close>). \<open>reply\<close> is the AUTH_RESPONSE packet
  that \<^verbatim>\<open>handle\<close> is given while \<^verbatim>\<open>_wait\<close> waits, or \<open>None\<close> if none comes within its ten seconds. A result is
  the packet and the private key of the \<^verbatim>\<open>crypto_ctx\<close> the handler adds to it.
\<close>

type_synonym auth_reply = "packet \<times> bytes option"

definition auth_wait :: "packet option \<Rightarrow> ('e, packet) client_prog" where
  "auth_wait reply = (case reply of None \<Rightarrow> raise TimeoutError | Some pkt \<Rightarrow> ret pkt)"

definition succeeded :: "packet \<Rightarrow> bool" where
  "succeeded result = truthy (jget result ''success'')"

definition client_register ::
  "crypto \<Rightarrow> string \<Rightarrow> string \<Rightarrow> string \<Rightarrow> packet option \<Rightarrow> ('e, auth_reply) client_prog" where
  "client_register C server_url username password reply =
    bnd (generate_keypair C) (\<lambda>(private_key, public_key).
    let public_key_b64 = b64_encode public_key in
    bnd (encrypt_private_key C private_key password) (\<lambda>encrypted_private_key.
    thn (send_pkt AUTH_REGISTER [(''username'', JStr username), (''password'', JStr password),
          (''public_key'', JStr public_key_b64)])
    (bnd (auth_wait reply) (\<lambda>result.
     if \<not> succeeded result then ret (result, None)
     else
       bnd new_id (\<lambda>i.
       bnd (lift_result (item_str result ''token'')) (\<lambda>token.
       thn (cm (save_account i username server_url token (Some encrypted_private_key) (Some public_key_b64)))
       (ret (result, Some private_key))))))))"

text \<open>The stored key of the account logging in, and what unlocking it gives; a wrong password is no error.\<close>

definition own_keys :: "string \<Rightarrow> client_db \<Rightarrow> string option \<times> string option" where
  "own_keys username d = (case get_account d of
     Some a \<Rightarrow> (if a_username a = username \<and> a_private_key a \<noteq> None \<and> a_private_key a \<noteq> Some []
                then get_my_keys d else (None, None))
   | None \<Rightarrow> (None, None))"

definition unlock_key :: "crypto \<Rightarrow> string option \<Rightarrow> string \<Rightarrow> exn + bytes option" where
  "unlock_key C encrypted password = (case encrypted of
     None \<Rightarrow> Inr None
   | Some e \<Rightarrow> (case decrypt_private_key C e password of
       Inr k \<Rightarrow> Inr (Some k) | Inl x \<Rightarrow> if x = ValueError then Inr None else Inl x))"

definition client_login ::
  "crypto \<Rightarrow> string \<Rightarrow> string \<Rightarrow> string \<Rightarrow> packet option \<Rightarrow> ('e, auth_reply) client_prog" where
  "client_login C server_url username password reply =
    thn (send_pkt AUTH_LOGIN [(''username'', JStr username), (''password'', JStr password)])
    (bnd (auth_wait reply) (\<lambda>result.
     if \<not> succeeded result then ret (result, None)
     else
       bnd (cq (own_keys username)) (\<lambda>(encrypted, public_key_b64).
       bnd (lift_result (unlock_key C encrypted password)) (\<lambda>key.
       bnd new_id (\<lambda>i.
       bnd (lift_result (item_str result ''token'')) (\<lambda>token.
       thn (cm (save_account i username server_url token encrypted public_key_b64))
       (ret (result, key))))))))"

definition client_reauth :: "string \<Rightarrow> packet option \<Rightarrow> ('e, packet) client_prog" where
  "client_reauth token reply =
    thn (send_pkt AUTH_LOGIN [(''token'', JStr token)])
    (bnd (auth_wait reply) (\<lambda>result.
     if \<not> succeeded result then ret result
     else bnd (lift_result (item_str result ''token'')) (\<lambda>t. thn (cm (update_token t)) (ret result))))"

section \<open>Allowed effects\<close>

context client_effect begin

lemma ceff_auth [ceff_intro]: "steps R (client_register C u n p r)" "steps R (client_login C u n p r)"
  "steps R (client_reauth t r)"
  unfolding client_register_def client_login_def client_reauth_def auth_wait_def Let_def
  by (intro ceff_intro)+

end

section \<open>What the handlers do\<close>

lemma client_register_stores:
  assumes "crypto_ok C" "client_register C url u pw (Some result) s = (Inr (result', Some key), s1)"
  shows "\<exists>i t e pub. account (cdb s1) = [\<lparr>a_id = i, a_username = u, a_private_key = Some e,
      a_public_key = Some pub, a_server_url = url, a_session_token = Some t\<rparr>] \<and> e \<noteq> [] \<and>
    decrypt_private_key C e pw = Inr key \<and> pub = b64_encode (c_pub C key)"
proof -
  obtain priv s' where p: "urandom KEY_LEN s = (Inr priv, s')" "length priv = 32"
    using urandom_Inr [of KEY_LEN s] by (auto simp: KEY_LEN_def)
  obtain e s'' where e: "encrypt_private_key C priv pw s' = (Inr e, s'')" "e \<noteq> []"
      "decrypt_private_key C e pw = Inr priv"
    using encrypt_private_key_unlocks [OF assms(1) p(2), of pw s'] by metis
  show ?thesis
    using assms(2) p e
    by (auto simp: client_register_def generate_keypair_def prog_simps auth_wait_def Let_def save_account_def
        split: if_splits sum.splits)
qed

lemma client_login_same_user:
  assumes "account (cdb s) = [\<lparr>a_id = i, a_username = u, a_private_key = Some e, a_public_key = pub,
      a_server_url = url, a_session_token = t\<rparr>]" "e \<noteq> []" "decrypt_private_key C e pw = Inr key"
    and "succeeded result" "dget result ''token'' = Some (JStr tok)"
  shows "fst (client_login C url' u pw (Some result) s) = Inr (result, Some key) \<and>
    get_my_keys (cdb (snd (client_login C url' u pw (Some result) s))) = (Some e, pub)"
  using assms by (simp add: client_login_def prog_simps auth_wait_def own_keys_def unlock_key_def
      get_account_def get_my_keys_def item_str_def save_account_def)

section \<open>Properties\<close>

text \<open> C27: The key pair of a registration survives on the device: after a registration, a login of the same user
  with the same password unlocks the same private key, whatever was done in between that left the account row
  alone, and keeps the stored keys, the public one being that of the unlocked private key. \<close>

theorem registered_key_unlocks:
  assumes "crypto_ok C" "client_register C url u pw (Some result) s = (Inr (result', Some key), s1)"
    and "account (cdb s2) = account (cdb s1)"
    and "succeeded reply" "dget reply ''token'' = Some (JStr tok)"
  shows "fst (client_login C url u pw (Some reply) s2) = Inr (reply, Some key) \<and>
    get_my_keys (cdb (snd (client_login C url u pw (Some reply) s2))) = get_my_keys (cdb s1) \<and>
    snd (get_my_keys (cdb s1)) = Some (b64_encode (c_pub C key))"
proof -
  obtain i t e pub where a: "account (cdb s1) = [\<lparr>a_id = i, a_username = u, a_private_key = Some e,
      a_public_key = Some pub, a_server_url = url, a_session_token = Some t\<rparr>]" "e \<noteq> []"
      "decrypt_private_key C e pw = Inr key" "pub = b64_encode (c_pub C key)"
    using client_register_stores [OF assms(1,2)] by blast
  then show ?thesis
    using client_login_same_user [OF _ a(2,3) assms(4,5), of s2] assms(3)
    by (simp add: get_my_keys_def get_account_def)
qed

text \<open> A login of another user on the same device destroys the stored private key: the account row is replaced
  without keys, so the first user's key is gone from the device and no later login recovers it. \<close>

theorem other_login_erases_key:
  assumes "get_account (cdb s) = Some a" "a_username a \<noteq> u"
    and "succeeded reply" "dget reply ''token'' = Some (JStr tok)"
  shows "get_my_keys (cdb (snd (client_login C url u pw (Some reply) s))) = (None, None) \<and>
    fst (client_login C url (a_username a) pw' (Some reply) (snd (client_login C url u pw (Some reply) s))) =
      Inr (reply, None)"
  using assms by (simp add: client_login_def prog_simps auth_wait_def own_keys_def unlock_key_def
      get_account_def get_my_keys_def item_str_def save_account_def)

section \<open>Examples\<close>

definition ok_reply :: packet where
  "ok_reply = [(''success'', JBool True), (''token'', JStr ''t''), (''username'', JStr ''ann'')]"

lemma ok_reply_simps [simp]: "succeeded ok_reply" "dget ok_reply ''token'' = Some (JStr ''t'')"
  by (simp_all add: ok_reply_def succeeded_def jget_def)

lemma registered_key_unlocks_witness:
  "\<exists>key. fst (client_register toy ''ws'' ''ann'' ''pw'' (Some ok_reply) (client_boot ''ann'' None 5)) =
      Inr (ok_reply, Some key) \<and>
    fst (client_login toy ''ws'' ''ann'' ''pw'' (Some ok_reply)
      (snd (client_register toy ''ws'' ''ann'' ''pw'' (Some ok_reply) (client_boot ''ann'' None 5)))) =
      Inr (ok_reply, Some key)"
proof -
  let ?s = "client_boot ''ann'' None 5"
  obtain priv s' where p: "urandom KEY_LEN ?s = (Inr priv, s')" "length priv = 32"
    using urandom_Inr [of KEY_LEN ?s] by (auto simp: KEY_LEN_def)
  obtain e s'' where e: "encrypt_private_key toy priv ''pw'' s' = (Inr e, s'')"
    using encrypt_private_key_unlocks [OF toy_ok p(2), of "''pw''" s'] by metis
  obtain s1 where r: "client_register toy ''ws'' ''ann'' ''pw'' (Some ok_reply) ?s = (Inr (ok_reply, Some priv), s1)"
    using p e by (simp add: client_register_def generate_keypair_def prog_simps auth_wait_def Let_def item_str_def)
  show ?thesis
    using registered_key_unlocks [OF toy_ok r refl ok_reply_simps] r by simp
qed

lemma other_login_erases_key_witness:
  "get_my_keys (cdb (snd (client_login toy ''ws'' ''bob'' ''pw'' (Some ok_reply)
     ((client_boot ''ann'' None 5)\<lparr>cdb := save_account ''1'' ''ann'' ''ws'' ''t'' (Some ''k'') (Some ''p'')
        init_client_db\<rparr>)))) = (None, None)"
  using other_login_erases_key [of "(client_boot ''ann'' None 5)\<lparr>cdb := save_account ''1'' ''ann'' ''ws'' ''t''
      (Some ''k'') (Some ''p'') init_client_db\<rparr>" _ "''bob''" ok_reply]
  by (simp add: get_account_def save_account_def)

end
