(* ===== verification/App_Commands.thy ===== *)
theory App_Commands
  imports App_Router Auth_Screen Fingerprint Client_Auth
begin

text \<open>
  What the user does (\<^verbatim>\<open>client/app.py\<close>): the keys of the input line, the submitted text, the commands, and the
  login at the start. What reaches the program from outside while a command runs is its argument \<open>io\<close>: the
  packets that arrive while it waits (\<open>io_inbox\<close>), the file connections, the answer of the verification
  screen and the audio host.
\<close>

record io =
  io_inbox :: "packet list"
  io_uploads :: "bytes option list"
  io_download :: "bytes option"
  io_confirm :: bool
  io_downloads_dir :: string
  io_host :: audio_host

section \<open>Words\<close>

text \<open>\<^verbatim>\<open>s.split()\<close>, \<^verbatim>\<open>s.split(None, n)[n]\<close> where there is such a part, \<^verbatim>\<open>s.lower()\<close> and \<^verbatim>\<open>s.lstrip("@")\<close>.\<close>

function py_split :: "string \<Rightarrow> string list" where
  "py_split s = (let t = dropWhile py_space s in
     if t = [] then [] else takeWhile (\<lambda>c. \<not> py_space c) t # py_split (dropWhile (\<lambda>c. \<not> py_space c) t))"
  by pat_completeness auto

lemma drop_word_shorter:
  "dropWhile py_space s \<noteq> [] \<Longrightarrow> length (dropWhile (\<lambda>c. \<not> py_space c) (dropWhile py_space s)) < length s"
proof -
  let ?t = "dropWhile py_space s"
  assume t: "?t \<noteq> []"
  then have "\<not> py_space (hd ?t)" by (rule hd_dropWhile)
  then have "length (dropWhile (\<lambda>c. \<not> py_space c) ?t) < length ?t"
    using t by (cases ?t) (auto simp: less_Suc_eq_le length_dropWhile_le)
  then show ?thesis using length_dropWhile_le [of py_space s] by simp
qed

termination py_split
  by (relation "measure length") (use drop_word_shorter in auto)

declare py_split.simps [simp del]

primrec py_split_rest :: "nat \<Rightarrow> string \<Rightarrow> string" where
  "py_split_rest 0 s = py_lstrip s"
| "py_split_rest (Suc n) s = py_split_rest n (dropWhile (\<lambda>c. \<not> py_space c) (py_lstrip s))"

definition lower_char :: "char \<Rightarrow> char" where
  "lower_char c = (let n = (of_char c :: nat) in
     if (65 \<le> n \<and> n \<le> 90) \<or> (192 \<le> n \<and> n \<le> 222 \<and> n \<noteq> 215) then char_of (n + 32) else c)"

definition py_lower :: "string \<Rightarrow> string" where "py_lower s = map lower_char s"

definition strip_at :: "string \<Rightarrow> string" where "strip_at s = dropWhile (\<lambda>c. c = CHR ''@'') s"

text \<open>\<^verbatim>\<open>parts[i]\<close>, used where the length has been checked.\<close>

definition part :: "string list \<Rightarrow> nat \<Rightarrow> string" where
  "part parts i = (if i < length parts then parts ! i else [])"

text \<open>\<^verbatim>\<open>try: m except Exception as exc: self._set_notice(...)\<close>.\<close>

definition try_notice :: "string \<Rightarrow> ('e, unit) app_prog \<Rightarrow> ('e, unit) app_prog" where
  "try_notice msg m = attempt m (\<lambda>_. set_notice msg)"

section \<open>Rooms\<close>

definition open_chat :: "string \<Rightarrow> ('e, unit) app_prog" where
  "open_chat k = thn (modify (\<lambda>s. s\<lparr>current_chat := Some k\<rparr>)) load_messages"

definition room_create_command :: "crypto \<Rightarrow> io \<Rightarrow> string \<Rightarrow> ('e, unit) app_prog" where
  "room_create_command C io room_name =
    bnd (room_create (app_route C (io_host io)) room_name (io_inbox io)) (\<lambda>result.
    bnd (lift_result (obj_field result ''room'')) (\<lambda>room.
    if truthy (jget result ''success'') \<and> truthy (jget room ''id'') then
      bnd (lift_result (sql_key (jget room ''id''))) (\<lambda>r.
      bnd (lift_result (sql_key (jget_or room ''name'' (JStr room_name)))) (\<lambda>nm.
      thn (cm (save_room r nm None))
      (thn (open_chat (room_key r))
      (set_notice (''Created #'' @ nm @ '' id='' @ r)))))
    else set_notice (''Room create failed: '' @ py_str (jget_or result ''error'' (JStr ''?'')))))"

definition room_join_command :: "crypto \<Rightarrow> io \<Rightarrow> string \<Rightarrow> ('e, unit) app_prog" where
  "room_join_command C io room_id =
    bnd (room_join (app_route C (io_host io)) room_id (io_inbox io)) (\<lambda>success.
    if truthy success then thn (open_chat (room_key room_id)) (set_notice (''Joined room '' @ room_id))
    else set_notice (''Room not found: '' @ room_id))"

text \<open>The room a command without an argument is about: the open one.\<close>

definition target_room :: "string list \<Rightarrow> string option \<Rightarrow> string" where
  "target_room parts chat = (case chat of
     Some c \<Rightarrow> if is_room_chat c then room_id_from_key c else part parts 2
   | None \<Rightarrow> part parts 2)"

definition room_leave_command :: "string \<Rightarrow> ('e, unit) app_prog" where
  "room_leave_command room_id =
    thn (room_leave room_id)
    (thn (cm (delete_room room_id))
    (thn (close_room_chat room_id)
    (thn refresh_contacts
    (set_notice (''Left room '' @ room_id)))))"

primrec text_list :: "json list \<Rightarrow> exn + string list" where
  "text_list [] = Inr []"
| "text_list (v # vs) = sbnd (as_str TypeError v) (\<lambda>t. sbnd (text_list vs) (\<lambda>ts. Inr (t # ts)))"

text \<open>\<^verbatim>\<open>sep.join(ws)\<close>.\<close>

fun join_with :: "string \<Rightarrow> string list \<Rightarrow> string" where
  "join_with sep [] = []"
| "join_with sep [w] = w"
| "join_with sep (w # ws) = w @ sep @ join_with sep ws"

definition room_members_command :: "crypto \<Rightarrow> io \<Rightarrow> string \<Rightarrow> ('e, unit) app_prog" where
  "room_members_command C io room_id =
    bnd (room_get_members (app_route C (io_host io)) room_id (io_inbox io)) (\<lambda>members.
    bnd (lift_result (sbnd (as_list members) text_list)) (\<lambda>names.
    set_notice (''Members: '' @ join_with '', '' names)))"

definition room_command :: "crypto \<Rightarrow> io \<Rightarrow> string list \<Rightarrow> ('e, unit) app_prog" where
  "room_command C io parts =
    bnd (gets ready) (\<lambda>up.
    if \<not> up \<or> length parts < 2 then set_notice ''Usage: /room create|join|open|leave|members''
    else
      let action = py_lower (part parts 1) in
      bnd (gets (\<lambda>s. target_room parts (current_chat s))) (\<lambda>r.
      if action \<in> {''create'', ''join'', ''open''} \<and> length parts < 3 then set_notice (''Usage: /room '' @ action @ (if action = ''create'' then '' <name>'' else '' <room_id>''))
      else if action \<in> {''leave'', ''members''} \<and> r = [] then set_notice (''Usage: /room '' @ action @ '' <room_id>'')
      else
        thn (if action = ''create'' then room_create_command C io (join_with '' '' (drop 2 parts))
             else if action = ''join'' then room_join_command C io (part parts 2)
             else if action = ''open'' then
               thn (open_chat (room_key (part parts 2)))
               (thn (set_unread (room_key (part parts 2)) 0) (set_notice (''Opened room '' @ part parts 2)))
             else if action = ''leave'' then room_leave_command r
             else if action = ''members'' then room_members_command C io r
             else set_notice ''Usage: /room create|join|open|leave|members'')
        refresh_contacts))"

section \<open>Files\<close>

definition stored_offer :: "local_file_row \<Rightarrow> offer" where
  "stored_offer f = \<lparr>of_name = JStr (lf_name f), of_total_chunks = JInt (lf_total_chunks f),
     of_from_user = JStr (lf_from_user f), of_file_key = opt_json (lf_file_key f)\<rparr>"

definition find_offer :: "string \<Rightarrow> 'e app_scheme \<Rightarrow> offer option" where
  "find_offer file_id s = (case dget (file_offers s) file_id of
     Some m \<Rightarrow> Some m | None \<Rightarrow> map_option stored_offer (get_local_file file_id (cdb s)))"

definition file_accept_command :: "crypto \<Rightarrow> io \<Rightarrow> string \<Rightarrow> ('e, unit) app_prog" where
  "file_accept_command C io file_id =
    bnd (gets (find_offer file_id)) (\<lambda>meta. case meta of
      None \<Rightarrow> set_notice (''Unknown file: '' @ take 8 file_id)
    | Some m \<Rightarrow> try_notice ''Download failed: ''
        (bnd (file_receive C on_file_progress (io_downloads_dir io) file_id m (io_download io)) (\<lambda>dest.
         set_notice (''Saved file: '' @ dest))))"

definition file_label :: "local_file_row \<Rightarrow> string" where
  "file_label f = take 8 (lf_id f) @ '' '' @ lf_direction f @ '' '' @
     (if lf_complete f = 1 then ''done'' else ''pending'') @ '' '' @ lf_name f"

definition file_command :: "crypto \<Rightarrow> io \<Rightarrow> string list \<Rightarrow> string \<Rightarrow> ('e, unit) app_prog" where
  "file_command C io parts txt =
    bnd (gets ready) (\<lambda>up.
    if \<not> up \<or> length parts < 2 then set_notice ''Usage: /file send|accept|resume|cancel|list''
    else
      let action = py_lower (part parts 1); file_id = part parts 2 in
      if action = ''send'' then
        (if length parts < 4 then set_notice ''Usage: /file send @user <path>''
         else try_notice ''File send failed: ''
           (bnd (file_send C on_file_progress (strip_at file_id) (py_split_rest 3 txt) (io_uploads io)) (\<lambda>(i, outs).
            set_notice (''File sent: '' @ take 8 i))))
      else if action = ''accept'' \<or> action = ''download'' then
        (if length parts < 3 then set_notice ''Usage: /file accept <file_id>'' else file_accept_command C io file_id)
      else if action = ''resume'' then
        (if length parts < 3 then set_notice ''Usage: /file resume <file_id>''
         else try_notice ''Resume failed: ''
           (thn (file_resume C on_file_progress file_id (io_uploads io)) (set_notice (''Resumed file: '' @ take 8 file_id))))
      else if action = ''cancel'' then
        (if length parts < 3 then set_notice ''Usage: /file cancel <file_id>''
         else thn (file_cancel file_id) (set_notice (''Cancelled file: '' @ take 8 file_id)))
      else if action = ''list'' then
        bnd (cq (get_recent_files 20)) (\<lambda>files.
        set_notice (if files = [] then ''No file transfers.'' else join_with '' | '' (map file_label (take 3 files))))
      else set_notice ''Usage: /file send|accept|resume|cancel|list'')"

section \<open>Calls\<close>

text \<open>The session a command names, or the first pending one.\<close>

definition pending_session :: "string list \<Rightarrow> 'e app_scheme \<Rightarrow> string" where
  "pending_session parts s = (if 3 \<le> length parts then part parts 2
     else (case pending_calls s of [] \<Rightarrow> [] | (k, v) # _ \<Rightarrow> k))"

definition switched_off :: "string list \<Rightarrow> bool" where
  "switched_off parts \<longleftrightarrow> 3 \<le> length parts \<and> py_lower (part parts 2) \<in> {''off'', ''0'', ''false''}"

definition call_accept_command :: "crypto \<Rightarrow> io \<Rightarrow> string \<Rightarrow> ('e, unit) app_prog" where
  "call_accept_command C io session_id =
    bnd (gets (\<lambda>s. dget (pending_calls s) session_id)) (\<lambda>c. case c of
      None \<Rightarrow> set_notice ''No pending call.''
    | Some (caller, pub) \<Rightarrow>
        if session_id = [] then set_notice ''No pending call.''
        else
          thn (client_call_accept C (io_host io) session_id pub)
          (thn (modify (\<lambda>s. s\<lparr>pending_calls := dpop session_id (pending_calls s)\<rparr>))
          (set_notice (''Call accepted: '' @ take 8 session_id))))"

definition call_label :: "string \<Rightarrow> local_call_row \<Rightarrow> string" where
  "call_label self c = take 8 (lc_id c) @ '' '' @
     (if lc_from_user c = self then lc_to_user c else lc_from_user c) @ '' '' @ lc_status c"

definition call_command :: "crypto \<Rightarrow> io \<Rightarrow> string list \<Rightarrow> ('e, unit) app_prog" where
  "call_command C io parts =
    bnd (gets ready) (\<lambda>up.
    if \<not> up \<or> length parts < 2 then set_notice ''Usage: /call start|accept|decline|end|mute|unmute|ptt|talk|history''
    else
      let action = py_lower (part parts 1); target = strip_at (part parts 2) in
      if action = ''start'' \<or> action = ''invite'' then
        (if length parts < 3 then set_notice ''Usage: /call start @user''
         else try_notice ''Call failed: ''
           (bnd (client_call_invite C (io_host io) target) (\<lambda>i. set_notice (''Calling '' @ target @ '': '' @ take 8 i))))
      else if action = ''accept'' then bnd (gets (pending_session parts)) (call_accept_command C io)
      else if action = ''decline'' then
        bnd (gets (pending_session parts)) (\<lambda>i.
        if i = [] then set_notice ''No pending call.''
        else thn (client_call_decline i)
          (thn (modify (\<lambda>s. s\<lparr>pending_calls := dpop i (pending_calls s)\<rparr>))
          (set_notice (''Call declined: '' @ take 8 i))))
      else if action = ''end'' then
        bnd (gets (\<lambda>s. if 3 \<le> length parts then Some (part parts 2) else active_session s)) (\<lambda>i. case i of
          Some (c # cs) \<Rightarrow> thn (client_call_end (c # cs)) (set_notice (''Call ended: '' @ take 8 (c # cs)))
        | _ \<Rightarrow> set_notice ''No active call.'')
      else if action = ''mute'' then thn (call_mute True) (set_notice ''Call muted'')
      else if action = ''unmute'' then thn (call_mute False) (set_notice ''Call unmuted'')
      else if action = ''ptt'' then
        thn (push_to_talk (\<not> switched_off parts))
        (set_notice (if switched_off parts then ''Push-to-talk off'' else ''Push-to-talk on''))
      else if action = ''talk'' then
        thn (set_talking (\<not> switched_off parts))
        (set_notice (if switched_off parts then ''Push-to-talk muted'' else ''Talking''))
      else if action = ''history'' then
        bnd (gets me) (\<lambda>self.
        bnd (cq (get_call_history self 20)) (\<lambda>rows.
        set_notice (if rows = [] then ''No call history.'' else join_with '' | '' (map (call_label self) (take 3 rows)))))
      else set_notice ''Usage: /call start|accept|decline|end|mute|unmute|ptt|talk|history'')"

section \<open>Verification, edits, deletions\<close>

definition verify_command :: "io \<Rightarrow> string list \<Rightarrow> ('e, unit) app_prog" where
  "verify_command io parts =
    (if length parts < 2 then set_notice ''Usage: /verify @username''
     else
       let username = strip_at (part parts 1) in
       bnd (cq (\<lambda>d. (snd (get_my_keys d), contact_public_key username d))) (\<lambda>(mine, theirs).
       if mine = None \<or> mine = Some [] then set_notice ''No local public key found. Register/login with keys first.''
       else if theirs = None \<or> theirs = Some [] then
         thn (request_public_key username)
         (set_notice (''Fetching public key for '' @ username @ ''. Try /verify again.''))
       else
         (case sbnd (b64_decode (the mine)) (\<lambda>a. sbnd (b64_decode (the theirs)) (\<lambda>b. Inr (safety_number a b))) of
            Inl e \<Rightarrow> set_notice ''Could not compute safety number: ''
          | Inr num \<Rightarrow>
              if io_confirm io then
                thn (cm (set_verified username True))
                (thn refresh_contacts (set_notice (username @ '' verified'')))
              else set_notice ''Verification cancelled'')))"

text \<open>An edit or a deletion of a room message names the room and carries the text as it is.\<close>

definition edit_command :: "crypto \<Rightarrow> string list \<Rightarrow> string \<Rightarrow> ('e, unit) app_prog" where
  "edit_command C parts txt =
    (if length parts < 3 then set_notice ''Usage: /edit <message_id> <new text>''
     else
       let mid = part parts 1; new_text = py_split_rest 2 txt in
       bnd (gets (\<lambda>s. (current_chat s, me s, ready s))) (\<lambda>(chat, self, up). case chat of
         Some (c # cs) \<Rightarrow>
           if is_room_chat (c # cs) then
             thn (send_pkt MESSAGE_EDIT [(''msg_id'', JStr mid), (''room_id'', JStr (room_id_from_key (c # cs))),
               (''payload'', JObj [(''text'', JStr new_text)]), (''from'', JStr self)])
             (thn (cm (edit_message mid (Some new_text))) load_messages)
           else try_else (whenp up (msg_edit C mid (c # cs) new_text)) (\<lambda>_. set_notice ''Edit failed: '') (\<lambda>_. load_messages)
       | _ \<Rightarrow> set_notice ''Open a chat first.''))"

definition delete_command :: "string list \<Rightarrow> ('e, unit) app_prog" where
  "delete_command parts =
    (if length parts < 2 then set_notice ''Usage: /delete <message_id>''
     else
       let mid = part parts 1 in
       bnd (gets (\<lambda>s. (current_chat s, me s, ready s))) (\<lambda>(chat, self, up). case chat of
         Some (c # cs) \<Rightarrow>
           thn (if is_room_chat (c # cs) then
                  thn (send_pkt MESSAGE_DELETE [(''msg_id'', JStr mid),
                    (''room_id'', JStr (room_id_from_key (c # cs))), (''from'', JStr self)])
                  (cm (delete_message mid))
                else whenp up (msg_delete mid (c # cs)))
           load_messages
       | _ \<Rightarrow> set_notice ''Open a chat first.''))"

section \<open>The command line\<close>

definition dm_command :: "string list \<Rightarrow> ('e, unit) app_prog" where
  "dm_command parts =
    (if length parts < 2 then set_notice ''Usage: /dm @username''
     else
       let target = strip_at (part parts 1) in
       bnd (gets me) (\<lambda>self.
       if target = self then set_notice ''You cannot open a DM with yourself.''
       else
         thn (c_add_contact target)
         (thn (request_public_key target)
         (thn (open_chat target)
         (thn (cm (mark_read target self))
         (thn (set_unread target 0)
         (thn refresh_contacts
         (set_notice (''Opened chat with '' @ target)))))))))"

definition logout_command :: "('e, unit) app_prog" where
  "logout_command =
    bnd (cq get_account) (\<lambda>a.
    thn (case Option.bind a a_session_token of
           Some (c # cs) \<Rightarrow> send_pkt AUTH_LOGOUT [(''token'', JStr (c # cs))] | _ \<Rightarrow> ret ())
    (thn (cm clear_session_token)
    (thn (set_notice ''Logged out. Restart the client to choose another account.'')
    (modify (\<lambda>s. s\<lparr>running := False\<rparr>)))))"

definition run_command :: "crypto \<Rightarrow> io \<Rightarrow> string \<Rightarrow> ('e, unit) app_prog" where
  "run_command C io txt =
    (let parts = py_split txt; cmd = py_lower (part parts 0) in
     if cmd = ''/dm'' then dm_command parts
     else if cmd = ''/room'' then room_command C io parts
     else if cmd = ''/file'' then file_command C io parts txt
     else if cmd = ''/call'' then call_command C io parts
     else if cmd = ''/verify'' then verify_command io parts
     else if cmd = ''/edit'' then edit_command C parts txt
     else if cmd = ''/delete'' then delete_command parts
     else if cmd \<in> {''/quit'', ''/exit'', ''/q''} then modify (\<lambda>s. s\<lparr>running := False\<rparr>)
     else if cmd = ''/logout'' then logout_command
     else if cmd = ''/online'' then thn (send_pkt STATUS []) (set_notice ''Fetching online users'')
     else if cmd = ''/clear'' then modify (\<lambda>s. s\<lparr>view := [], dirty := True\<rparr>)
     else if cmd = ''/help'' then set_notice ''/dm  /room  /file  /call  /verify @user  /edit  /delete  /logout''
     else set_notice (''Unknown command: '' @ cmd @ ''   /help for list''))"

text \<open>A message that could not be sent is put back on the input line.\<close>

definition put_back :: "string \<Rightarrow> string \<Rightarrow> ('e, unit) app_prog" where
  "put_back msg txt = thn (set_notice msg) (modify (\<lambda>s. s\<lparr>buf := txt, cursor := length txt\<rparr>))"

definition submit_message :: "crypto \<Rightarrow> io \<Rightarrow> string \<Rightarrow> ('e, unit) app_prog" where
  "submit_message C io txt =
    bnd (gets (\<lambda>s. (current_chat s, me s, ready s))) (\<lambda>(chat, self, up). case chat of
      Some (c # cs) \<Rightarrow>
        if \<not> up then set_notice ''Not connected yet.''
        else if is_room_chat (c # cs) then
          let room_id = room_id_from_key (c # cs) in
          try_else (room_send_message C (app_route C (io_host io)) room_id txt (io_inbox io))
            (\<lambda>_. put_back ''Room message not sent: '' txt) (\<lambda>mid.
            bnd now (\<lambda>ts.
            thn (cm (save_message mid self room_id (Some txt) ts 0))
            (thn (cm (update_last_message room_id (Some txt))) load_messages)))
        else try_else (msg_send C (c # cs) txt) (\<lambda>_. put_back ''Message not sent: '' txt) (\<lambda>_. load_messages)
    | _ \<Rightarrow> set_notice ''No chat open. Use /dm @username to start a chat.'')"

definition submit :: "crypto \<Rightarrow> io \<Rightarrow> ('e, unit) app_prog" where
  "submit C io =
    bnd (gets (\<lambda>s. py_strip (buf s))) (\<lambda>txt.
    thn (modify (\<lambda>s. s\<lparr>buf := [], cursor := 0, dirty := True\<rparr>))
    (if txt = [] then ret ()
     else if starts_with txt ''/'' then run_command C io txt
     else submit_message C io txt))"

section \<open>Keys\<close>

definition erase_before :: "'e app_scheme \<Rightarrow> 'e app_scheme" where
  "erase_before s = (if cursor s > 0
     then s\<lparr>buf := take (cursor s - 1) (buf s) @ drop (cursor s) (buf s), cursor := cursor s - 1, dirty := True\<rparr>
     else s\<lparr>dirty := True\<rparr>)"

definition type_char :: "char \<Rightarrow> 'e app_scheme \<Rightarrow> 'e app_scheme" where
  "type_char c s = s\<lparr>buf := take (cursor s) (buf s) @ [c] @ drop (cursor s) (buf s), cursor := cursor s + 1, dirty := True\<rparr>"

definition send_typing :: "('e, unit) app_prog" where
  "send_typing =
    bnd (gets (\<lambda>s. (current_chat s, me s, ready s))) (\<lambda>(chat, self, up). case chat of
      Some (c # cs) \<Rightarrow> whenp up (send_pkt TYPING
        [if is_room_chat (c # cs) then (''room_id'', JStr (room_id_from_key (c # cs))) else (''to'', JStr (c # cs)),
         (''from'', JStr self)])
    | _ \<Rightarrow> ret ())"

definition handle_key :: "crypto \<Rightarrow> io \<Rightarrow> int \<Rightarrow> ('e, unit) app_prog" where
  "handle_key C io key =
    (if key = 3 then modify (\<lambda>s. s\<lparr>running := False\<rparr>)
     else if key \<in> {KEY_ENTER, 10, 13} then submit C io
     else if key \<in> {KEY_BACKSPACE, 127, 8} then modify erase_before
     else if key = KEY_LEFT then modify (\<lambda>s. s\<lparr>cursor := cursor s - 1, dirty := True\<rparr>)
     else if key = KEY_RIGHT then modify (\<lambda>s. s\<lparr>cursor := min (length (buf s)) (cursor s + 1), dirty := True\<rparr>)
     else if key = KEY_HOME then modify (\<lambda>s. s\<lparr>cursor := 0, dirty := True\<rparr>)
     else if key = KEY_END then modify (\<lambda>s. s\<lparr>cursor := length (buf s), dirty := True\<rparr>)
     else if 32 \<le> key \<and> key \<le> 126 then thn (modify (type_char (char_of (nat key)))) send_typing
     else ret ())"

section \<open>The login at the start\<close>

text \<open>
  \<^verbatim>\<open>_do_auth\<close> calls itself when the user picks another account; a round is the server's reply, the answer of the
  password screen and the account picked next. With no round left the user is gone.
\<close>

record auth_round =
  ar_reply :: "packet option"
  ar_unlock :: "string option"
  ar_next :: "creds option"

definition logged_in :: "('e, unit) app_prog" where
  "logged_in =
    thn (modify (\<lambda>s. s\<lparr>conn_status := ''online'', ready := True\<rparr>))
    (thn (send_pkt STATUS [])
    (bnd (gets me) (\<lambda>self. set_notice (''Logged in as '' @ self))))"

definition adopt :: "packet \<Rightarrow> ('e, unit) app_prog" where
  "adopt result = bnd (lift_result (item_str result ''username'')) (\<lambda>u. modify (\<lambda>s. s\<lparr>me := u\<rparr>))"

definition set_ctx :: "bytes option \<Rightarrow> ('e, unit) app_prog" where
  "set_ctx key = modify (\<lambda>s. s\<lparr>ctx := key\<rparr>)"

text \<open>Unlocking the stored key after a login by token; \<open>again\<close> is another account.\<close>

definition unlock_stored :: "crypto \<Rightarrow> string option \<Rightarrow> ('e, unit) app_prog \<Rightarrow> ('e, unit) app_prog" where
  "unlock_stored C answer again =
    bnd (cq (\<lambda>d. fst (get_my_keys d))) (\<lambda>enc.
    bnd (gets ctx) (\<lambda>key.
    case enc of
      Some (c # cs) \<Rightarrow>
        if key \<noteq> None then logged_in
        else (case answer of
            None \<Rightarrow> again
          | Some pw \<Rightarrow>
              if pw = [] then
                thn (set_notice ''E2E encryption skipped. Messages will be plaintext.'') logged_in
              else (case decrypt_private_key C (c # cs) pw of
                  Inr k \<Rightarrow> thn (set_ctx (Some k)) logged_in
                | Inl e \<Rightarrow> if e = ValueError
                    then thn (set_notice ''Wrong password - key locked. Press S to skip or retry.'') logged_in
                    else raise e))
    | _ \<Rightarrow> logged_in))"

primrec do_auth :: "crypto \<Rightarrow> string \<Rightarrow> auth_round list \<Rightarrow> creds \<Rightarrow> ('e, unit) app_prog" where
  "do_auth C url [] creds = modify (\<lambda>s. s\<lparr>running := False\<rparr>)"
| "do_auth C url (r # rs) creds =
    (let again = (case ar_next r of None \<Rightarrow> modify (\<lambda>s. s\<lparr>running := False\<rparr>) | Some c \<Rightarrow> do_auth C url rs c);
         failed = (\<lambda>msg result. set_notice (msg @ py_str (jget result ''error'')))
     in attempt
       (case creds of
          Token t \<Rightarrow>
            bnd (client_reauth t (ar_reply r)) (\<lambda>result.
            if \<not> succeeded result then again
            else thn (adopt result) (unlock_stored C (ar_unlock r) again))
        | Register u p \<Rightarrow>
            bnd (client_register C url u p (ar_reply r)) (\<lambda>(result, key).
            if \<not> succeeded result then failed ''Register failed: '' result
            else thn (adopt result) (thn (set_ctx key) logged_in))
        | Login u p \<Rightarrow>
            bnd (client_login C url u p (ar_reply r)) (\<lambda>(result, key).
            if \<not> succeeded result then failed ''Login failed: '' result
            else thn (adopt result) (thn (set_ctx key) logged_in)))
       (\<lambda>e. if e = TimeoutError then set_notice ''Auth timed out. Is the server running?'' else raise e))"

text \<open>The start of \<^verbatim>\<open>run\<close>: a saved session token, or the account the user picks (\<open>None\<close> when there is none).\<close>

definition initial_creds :: "creds option \<Rightarrow> ('e, creds option) app_prog" where
  "initial_creds picked =
    bnd (cq get_account) (\<lambda>a. case a of
      Some acc \<Rightarrow> (case a_session_token acc of
          Some (c # cs) \<Rightarrow> thn (modify (\<lambda>s. s\<lparr>me := a_username acc\<rparr>)) (ret (Some (Token (c # cs))))
        | _ \<Rightarrow> ret picked)
    | None \<Rightarrow> ret picked)"

definition ui_start :: "crypto \<Rightarrow> string \<Rightarrow> auth_round list \<Rightarrow> creds \<Rightarrow> ('e, unit) app_prog" where
  "ui_start C url rounds creds = thn (do_auth C url rounds creds) (thn refresh_contacts load_messages)"

section \<open>The application as a machine\<close>

text \<open>
  An exception of the router is logged by the connection; one of a key ends the user interface, and with it
  the program.
\<close>

datatype app_event = Packet packet | Key int io | Connected nat | Disconnected nat
  | Session "auth_round list" creds | Tick int

fun app_step :: "crypto \<Rightarrow> string \<Rightarrow> audio_host \<Rightarrow> 'e app_scheme \<Rightarrow> app_event \<Rightarrow> 'e app_scheme" where
  "app_step C url host s (Packet pkt) = snd (app_route C host pkt s)"
| "app_step C url host s (Key key io) = (case handle_key C io key s of
     (Inl e, t) \<Rightarrow> t\<lparr>running := False\<rparr> | (Inr u, t) \<Rightarrow> t)"
| "app_step C url host s (Connected n) = snd (on_connect n s)"
| "app_step C url host s (Disconnected n) = snd (on_disconnect n s)"
| "app_step C url host s (Session rounds creds) = snd (ui_start C url rounds creds s)"
| "app_step C url host s (Tick t) = s\<lparr>clock := t\<rparr>"

section \<open>Allowed effects\<close>

locale command_effect = app_effect R + room_effect R for R :: "'e app_scheme \<Rightarrow> 'e app_scheme \<Rightarrow> bool"
begin

lemma cmd_route [ceff_intro]: "steps R (app_route C h pkt)"
  by (intro aeff_route reff_handle_response)

lemma cmd_try_notice [ceff_intro]: "steps R m \<Longrightarrow> steps R (try_notice msg m)"
  unfolding try_notice_def by (intro ceff_intro)

lemma cmd_open [ceff_intro]: "steps R (open_chat k)"
proof -
  have "R s (s\<lparr>current_chat := c, dirty := True\<rparr>)" for s c using aeff_chat [where s = s and c = c and v = "view s"] by simp
  then show ?thesis using aeff_chat by (auto simp: open_chat_def load_messages_def steps_def thn_app split: list.split)
qed

lemma cmd_leave: "steps R (thn (close_room_chat r) (thn refresh_contacts (set_notice m)))"
  using steps_thn [OF aeff_close_room aeff_set_notice] by (simp only: thn_rest)

lemma cmd_rooms [ceff_intro]: "steps R (room_create_command C io n)" "steps R (room_join_command C io r)"
  "steps R (room_leave_command r)" "steps R (room_members_command C io r)"
  unfolding room_create_command_def room_join_command_def room_leave_command_def room_members_command_def
  by (intro ceff_intro cmd_leave)+

lemma cmd_room [ceff_intro]: "steps R (room_command C io parts)"
  unfolding room_command_def Let_def by (intro ceff_intro)

lemma cmd_files [ceff_intro]: "steps R (file_accept_command C io i)" "steps R (file_command C io parts t)"
proof -
  show 1: "steps R (file_accept_command C io i)" for i unfolding file_accept_command_def by (intro ceff_intro)
  show "steps R (file_command C io parts t)" unfolding file_command_def Let_def by (intro ceff_intro 1)
qed

lemma cmd_calls [ceff_intro]: "steps R (call_accept_command C io i)" "steps R (call_command C io parts)"
proof -
  show 1: "steps R (call_accept_command C io i)" for i unfolding call_accept_command_def by (intro ceff_intro)
  show "steps R (call_command C io parts)"
    unfolding call_command_def Let_def by (intro ceff_intro 1)
qed

lemma cmd_texts [ceff_intro]: "steps R (verify_command io parts)" "steps R (edit_command C parts t)"
  "steps R (delete_command parts)" "steps R (dm_command parts)" "steps R logout_command" "steps R send_typing"
  unfolding verify_command_def edit_command_def delete_command_def dm_command_def logout_command_def
    send_typing_def Let_def
  by (intro ceff_intro)+

lemma cmd_run [ceff_intro]: "steps R (run_command C io t)"
  unfolding run_command_def Let_def by (intro ceff_intro)

end

locale session_effect = command_effect R for R :: "'e app_scheme \<Rightarrow> 'e app_scheme \<Rightarrow> bool" +
  assumes seff_me: "R s (s\<lparr>me := u\<rparr>)" and seff_ctx: "R s (s\<lparr>ctx := k\<rparr>)"
    and seff_ready: "R s (s\<lparr>conn_status := c, ready := b\<rparr>)"
begin

lemma seff_login [ceff_intro]: "steps R logged_in" "steps R (adopt pkt)" "steps R (set_ctx k)"
proof -
  show "steps R logged_in" unfolding logged_in_def by (intro ceff_intro seff_ready)
  show "steps R (adopt pkt)" "steps R (set_ctx k)"
    unfolding adopt_def set_ctx_def by (intro ceff_intro seff_me seff_ctx)+
qed

lemma seff_unlock: "steps R again \<Longrightarrow> steps R (unlock_stored C a again)"
  unfolding unlock_stored_def by (intro ceff_intro; assumption?)

lemma seff_do_auth [ceff_intro]: "steps R (do_auth C url rounds creds)"
proof (induction rounds arbitrary: creds)
  case Nil
  then show ?case unfolding do_auth.simps by (intro ceff_intro)
next
  case (Cons r rs)
  let ?again = "case ar_next r of None \<Rightarrow> modify (\<lambda>s. s\<lparr>running := False\<rparr>) | Some c \<Rightarrow> do_auth C url rs c"
  have "steps R ?again" by (intro ceff_intro Cons)
  then have u: "steps R (unlock_stored C (ar_unlock r) ?again)" by (rule seff_unlock)
  show ?case
    by (cases creds; simp only: do_auth.simps Let_def creds.case; intro ceff_intro Cons u)
qed

lemma seff_initial: "steps R (initial_creds picked)"
  unfolding initial_creds_def by (intro ceff_intro seff_me)

lemma seff_start: "steps R (ui_start C url rounds creds)"
  unfolding ui_start_def by (intro ceff_intro)

end

locale line_effect = command_effect R for R :: "'e app_scheme \<Rightarrow> 'e app_scheme \<Rightarrow> bool" +
  assumes leff_erase: "R s (erase_before s)" and leff_type: "R s (type_char c s)"
    and leff_left: "R s (s\<lparr>cursor := cursor s - 1, dirty := True\<rparr>)"
    and leff_right: "R s (s\<lparr>cursor := min (length (buf s)) (cursor s + 1), dirty := True\<rparr>)"
    and leff_home: "R s (s\<lparr>cursor := 0, dirty := True\<rparr>)" and leff_end: "R s (s\<lparr>cursor := length (buf s), dirty := True\<rparr>)"
    and leff_line: "R s (s\<lparr>buf := t, cursor := length t, dirty := True\<rparr>)" and leff_clock: "R s (s\<lparr>clock := n\<rparr>)"
begin

lemma leff_put_back: "steps R (put_back msg t)"
proof -
  have "R s (s\<lparr>notice := msg, notice_ts := clock s, dirty := True, buf := t, cursor := length t\<rparr>)" for s
  proof -
    have "s\<lparr>notice := msg, notice_ts := clock s, dirty := True, buf := t, cursor := length t\<rparr> =
      s\<lparr>notice := msg, notice_ts := clock s, dirty := True, buf := t, cursor := length t, dirty := True\<rparr>" by simp
    then show ?thesis using R_trans [OF aeff_notice [of s msg] leff_line [where t = t]] by (simp only:)
  qed
  then show ?thesis by (simp add: put_back_def set_notice_def steps_def thn_app)
qed

lemma leff_submit: "steps R (submit C io)"
proof -
  have m: "steps R (submit_message C io t)" for t
    unfolding submit_message_def Let_def by (intro ceff_intro leff_put_back)
  have "R s (s\<lparr>buf := [], cursor := 0, dirty := True\<rparr>)" for s using leff_line [of s "[]"] by simp
  then show ?thesis unfolding submit_def by (intro ceff_intro m)
qed

lemma leff_handle_key: "steps R (handle_key C io key)"
  unfolding handle_key_def
  by (intro ceff_intro leff_submit leff_erase leff_type leff_left leff_right leff_home leff_end)

lemma leff_step: "\<not> (\<exists>rounds creds. e = Session rounds creds) \<Longrightarrow> R s (app_step C url host s e)"
proof (cases e)
  case (Key key io)
  obtain r t where h: "handle_key C io key s = (r, t)" by fastforce
  have "R s t" using leff_handle_key h by (rule stepsD)
  then show ?thesis using Key h R_trans [OF _ aeff_running] by (cases r) simp_all
qed (use cmd_route [of C host] aeff_connection leff_clock in \<open>auto simp: steps_def\<close>)

end

locale machine_effect = session_effect R + line_effect R for R :: "'e app_scheme \<Rightarrow> 'e app_scheme \<Rightarrow> bool"
begin

lemma meff_step: "R s (app_step C url host s e)"
proof (cases "\<exists>rounds creds. e = Session rounds creds")
  case True
  then show ?thesis using seff_start [of C url] by (auto simp: steps_def)
qed (rule leff_step)

end

end
