(* ===== verification/App_Properties.thy ===== *)
theory App_Properties
  imports App_Commands
begin

text \<open>
  The application as a machine over what can happen to it: packets, keys, connection changes, logins and the
  passing of time. Its router is an instance of \<open>responder\<close>; every handler is an instance of the effect
  orders (the database stays consistent, the outgoing queue only grows, the input line is left alone).
\<close>

section \<open>Instances of the effect orders\<close>

definition app_ok :: "'e app_scheme \<Rightarrow> bool" where
  "app_ok s \<longleftrightarrow> local_ok (cdb s) \<and> cursor s \<le> length (buf s)"

definition keeps_app :: "'e app_scheme \<Rightarrow> 'e app_scheme \<Rightarrow> bool" where
  "keeps_app s t \<longleftrightarrow> (app_ok s \<longrightarrow> app_ok t)"

definition waiters_kept :: "'e app_scheme \<Rightarrow> 'e app_scheme \<Rightarrow> bool" where
  "waiters_kept s t \<longleftrightarrow> pending t = pending s \<and> ready t = ready s"

definition ready_kept :: "'e app_scheme \<Rightarrow> 'e app_scheme \<Rightarrow> bool" where
  "ready_kept s t \<longleftrightarrow> ready t = ready s"

interpretation okapp: machine_effect keeps_app
  by unfold_locales (auto simp: keeps_app_def app_ok_def erase_before_def type_char_def intro: local_ok_step)

interpretation sendapp: machine_effect sends_more
  by unfold_locales (auto simp: sends_more_def erase_before_def type_char_def)

interpretation waitapp: app_effect waiters_kept
  by unfold_locales (auto simp: waiters_kept_def)

interpretation readyapp: command_effect ready_kept
  by unfold_locales (auto simp: ready_kept_def)

section \<open>The router answers waiting requests\<close>

lemma kept_pending: "steps waiters_kept m \<Longrightarrow> pending (snd (m s)) = pending s"
  by (simp add: steps_def waiters_kept_def)

lemma handle_response_pending:
  "jget pkt ''type'' = JStr ''ROOM_INFO'' \<or> jget pkt ''type'' = JStr ''ROOM_MEMBERS_LIST'' \<Longrightarrow>
   pending (snd (handle_response pkt s)) = resolved pkt (pending s)"
  by (auto simp: handle_response_def resolved_def response_id_def split: json.split)

lemma thn_pending: "steps waiters_kept n \<Longrightarrow> pending (snd (thn m n s)) = pending (snd (m s))"
  using kept_pending by (auto simp: thn_app split: sum.split prod.split)

lemma app_room_info_pending:
  "ready s \<Longrightarrow> jget pkt ''type'' = JStr ''ROOM_INFO'' \<Longrightarrow> pending (snd (app_room_info pkt s)) = resolved pkt (pending s)"
  using thn_pending [OF waitapp.aeff_room_info, of "handle_response pkt" pkt s] handle_response_pending [of pkt s]
  by (simp add: app_room_info_def bnd_app whenp_def)

text \<open>A packet leaves what its branch of the router leaves, but for the mark that the screen be drawn.\<close>

lemma app_step_packet:
  "(\<And>t. f (t\<lparr>dirty := True\<rparr>) = f t) \<Longrightarrow> f (app_step C url h s (Packet pkt)) = f (snd (route_packet C h pkt s))"
  by (simp add: app_route_app split: prod.split sum.split)

lemma packet_type_Some: "packet_type pkt = Some t \<longleftrightarrow> jget pkt ''type'' = JStr (type_str t)"
  by (auto simp: packet_type_def msg_type_of_Some split: json.split)

lemma other_route_pending:
  assumes "packet_type pkt \<noteq> Some ROOM_INFO" "packet_type pkt \<noteq> Some ROOM_MEMBERS_LIST"
  shows "steps waiters_kept (app_route C h pkt)"
proof (cases "packet_type pkt")
  case None
  then have "steps waiters_kept (route_packet C h pkt)"
    unfolding route_packet_def by (simp add: waitapp.steps_bnd waitapp.steps_gets waitapp.steps_ret)
  then show ?thesis unfolding app_route_def by (intro waitapp.steps_thn waitapp.aeff_mark)
next
  case (Some ty)
  then have "ty \<noteq> ROOM_INFO" "ty \<noteq> ROOM_MEMBERS_LIST" using assms by auto
  then have "steps waiters_kept (route_packet C h pkt)"
    unfolding route_packet_def Some option.case if_False simp_thms
    by (simp only: if_False) (intro waitapp.steps_rules waitapp.aeff_fields waitapp.aeff_incoming waitapp.ceff_msg_handlers
        waitapp.aeff_load waitapp.aeff_synced waitapp.aeff_presence waitapp.aeff_set_notice)
  then show ?thesis unfolding app_route_def by (intro waitapp.steps_thn waitapp.aeff_mark)
qed

lemma app_route_pending:
  assumes "ready s"
  shows "pending (snd (app_route C h pkt s)) = resolved pkt (pending s)"
proof -
  have route: "pending (snd (app_route C h pkt s)) = pending (snd (route_packet C h pkt s))"
    unfolding app_route_def by (rule thn_pending [OF waitapp.aeff_mark])
  consider "packet_type pkt = Some ROOM_INFO" | "packet_type pkt = Some ROOM_MEMBERS_LIST"
    | "packet_type pkt \<noteq> Some ROOM_INFO" "packet_type pkt \<noteq> Some ROOM_MEMBERS_LIST" by blast
  then show ?thesis
  proof cases
    case 1
    then have "jget pkt ''type'' = JStr ''ROOM_INFO''" by (simp add: packet_type_Some)
    then show ?thesis
      using assms app_room_info_pending [OF assms, of pkt] 1 by (simp add: route route_packet_def bnd_app)
  next
    case 2
    then have "jget pkt ''type'' = JStr ''ROOM_MEMBERS_LIST''" by (simp add: packet_type_Some)
    then show ?thesis
      using assms handle_response_pending [of pkt s] 2 by (simp add: route route_packet_def bnd_app whenp_def)
  next
    case 3
    then have "resolved pkt (pending s) = pending s"
      by (simp add: resolved_def response_id_def packet_type_Some)
    then show ?thesis using kept_pending [OF other_route_pending [OF 3]] by simp
  qed
qed

interpretation router: responder "app_route C h" ready
proof
  fix s :: "'a app_scheme" and p
  show "ready s \<Longrightarrow> pending (snd (app_route C h p s)) = resolved p (pending s)" by (rule app_route_pending)
  have "steps ready_kept (app_route C h p :: ('a, unit) app_prog)" by (rule readyapp.cmd_route)
  then show "ready s \<Longrightarrow> ready (snd (app_route C h p s))" by (simp add: steps_def ready_kept_def)
qed simp_all

section \<open>Properties\<close>

interpretation okrun: machine "app_step C url host" app_ok
proof
  fix s and e
  show "app_ok s \<Longrightarrow> app_ok (app_step C url host s e)"
    using okapp.meff_step [of s C url host e] by (simp add: keeps_app_def)
qed

lemma sends_run: "sends_more s (run (app_step C url host) s es)"
proof (induction es arbitrary: s)
  case (Cons e es)
  then show ?case using sendapp.meff_step sendeff.R_trans unfolding run_Cons by blast
qed (simp add: sendeff.R_refl)

definition app_boot :: "string \<Rightarrow> bytes option \<Rightarrow> app" where
  "app_boot user key = \<lparr>clock = 9, mono = 0, entropy = byte_of, epos = 0, me = user, ctx = key,
     cdb = init_client_db, send_q = [], pending = [], disk = (\<lambda>_. None), folders = {}, active = [],
     active_session = None, call_start_ts = 0, muted = False, audio_stream = None, local_port = 0,
     peer_ip = JStr ''127.0.0.1'', peer_port = 0, ptt_enabled = False, ephemeral_private = None, voice_key = None,
     ready = True, current_chat = None, view = [], contact_items = [], room_rows = [], unread = [],
     file_offers = [], file_progress = [], pending_calls = [], auth_result = None, buf = [], cursor = 0,
     conn_status = ''online'', reconnect_att = 0, notice = [], notice_ts = 0, dirty = True, running = True\<rparr>"

lemma app_boot_simps [simp]: "me (app_boot u k) = u" "ctx (app_boot u k) = k" "ready (app_boot u k)"
  "cdb (app_boot u k) = init_client_db" "send_q (app_boot u k) = []" "cursor (app_boot u k) = 0"
  by (simp_all add: app_boot_def)

text \<open> C6: Whatever the server sends, the user types and the network does, in any order: the client's database stays
  consistent (unique ids, one account, every stored fingerprint is the one of its key), the cursor stays on
  the input line, and a packet once queued is never changed or reordered. \<close>

theorem client_invariant:
  assumes "local_ok (cdb s)" "cursor s \<le> length (buf s)" "t = run (app_step C url host) s es"
  shows "local_ok (cdb t) \<and> cursor t \<le> length (buf t) \<and> (\<exists>ps. send_q t = send_q s @ ps)"
  using okrun.inv_run [where s = s and es = es and C = C and url = url and host = host]
    sends_run [of s C url host es] assms
  by (simp add: app_ok_def sends_more_def)

lemma create_waits:
  assumes "ready s" "room_create (app_route C h) name inbox s = (r, t)"
  shows "r = (case List.find (\<lambda>p. response_id p = Some (next_id s)) inbox of
      None \<Rightarrow> Inl TimeoutError | Some p \<Rightarrow> Inr p) \<and> dget (pending t) (next_id s) = None"
proof -
  obtain u where "request (app_route C h) ROOM_CREATE [(''name'', JStr name)] inbox s =
      (Inr (List.find (\<lambda>p. response_id p = Some (next_id s)) inbox), u)" "dget (pending u) (next_id s) = None"
    using router.request_spec [OF assms(1), of C h ROOM_CREATE "[(''name'', JStr name)]" inbox] by blast
  then show ?thesis using assms(2) by (auto simp: room_create_def bnd_app split: option.splits)
qed

text \<open> C25: A room request is answered by its own response: among the packets that arrive while it waits, \<open>create\<close>
  returns the first ROOM_INFO or ROOM_MEMBERS_LIST that carries the request's id, skipping every other packet
  (each of which the application still handles); with none it times out. No waiter is left behind. \<close>

theorem create_gets_own_response:
  assumes "ready s" "room_create (app_route C h) name inbox s = (r, t)"
  shows "r = (case List.find (\<lambda>p. response_id p = Some (next_id s)) inbox of
      None \<Rightarrow> Inl TimeoutError | Some p \<Rightarrow> Inr p) \<and> dget (pending t) (next_id s) = None"
  using assms by (rule create_waits)

lemma create_gets_own_response_witness:
  "fst (room_create (app_route toy good_host) ''lobby''
     [[(''type'', JStr ''PONG'')], [(''type'', JStr ''ROOM_INFO''), (''req_id'', JStr (next_id (app_boot ''ann'' None)))]]
     (app_boot ''ann'' None)) =
   Inr [(''type'', JStr ''ROOM_INFO''), (''req_id'', JStr (next_id (app_boot ''ann'' None)))]"
proof -
  let ?inbox = "[[(''type'', JStr ''PONG'')], [(''type'', JStr ''ROOM_INFO''), (''req_id'', JStr (next_id (app_boot ''ann'' None)))]]"
  obtain r t where c: "room_create (app_route toy good_host) ''lobby'' ?inbox (app_boot ''ann'' None) = (r, t)" by fastforce
  have up: "ready (app_boot ''ann'' None)" by (simp add: app_boot_def)
  show ?thesis
    using create_gets_own_response [OF up c] c by (simp add: response_id_def jget_def jget_or_def)
qed

lemma client_invariant_witness:
  "local_ok (cdb (run (app_step toy ''url'' good_host) (app_boot ''ann'' None)
     [Packet [(''type'', JStr ''ONLINE_LIST''), (''users'', JList [JStr ''bob''])], Disconnected 0, Tick 20, Connected 1]))"
  using client_invariant [OF _ _ refl, of "app_boot ''ann'' None" toy "''url''" good_host
      "[Packet [(''type'', JStr ''ONLINE_LIST''), (''users'', JList [JStr ''bob''])], Disconnected 0, Tick 20, Connected 1]"]
  by (simp add: app_boot_def)

text \<open> An unanswered \<open>/room create\<close> ends the program: the timeout is not handled by the command, leaves the
  key handler and stops the user interface. \<close>

theorem create_timeout_ends_ui:
  assumes "ready s" "py_strip (buf s) = txt" "starts_with txt ''/''"
    and "py_split txt = ''/room'' # ''create'' # w # ws"
    and "\<forall>p \<in> set (io_inbox io). response_id p \<noteq> Some (next_id s)"
  shows "fst (handle_key C io 10 s) = Inl TimeoutError \<and> \<not> running (app_step C url host s (Key 10 io))"
proof -
  let ?s = "s\<lparr>buf := [], cursor := 0, dirty := True\<rparr>" let ?n = "join_with '' '' (w # ws)"
  obtain r t where c: "room_create (app_route C (io_host io)) ?n (io_inbox io) ?s = (r, t)" by fastforce
  have id: "next_id ?s = next_id s" by (simp add: next_id_def)
  have "List.find (\<lambda>p. response_id p = Some (next_id ?s)) (io_inbox io) = None"
    using assms(5) id by (simp add: find_None_iff)
  then have "r = Inl TimeoutError" using create_waits [OF _ c] assms(1) by simp
  moreover have "txt \<noteq> []" using assms(3) by (cases "txt") auto
  moreover have "py_lower ''/room'' = ''/room''" "py_lower ''create'' = ''create''" by code_simp+
  ultimately have "handle_key C io 10 s = (Inl TimeoutError, t)"
    using c assms(1-4) by (simp add: handle_key_def submit_def bnd_app thn_app run_command_def part_def
        room_command_def room_create_command_def Let_def KEY_ENTER_def)
  then show ?thesis by simp
qed

definition no_io :: io where
  "no_io = \<lparr>io_inbox = [], io_uploads = [], io_download = None, io_confirm = False, io_downloads_dir = ''/d'',
     io_host = good_host\<rparr>"

lemma create_timeout_ends_ui_witness:
  "\<not> running (app_step toy ''url'' good_host (app_boot ''ann'' None\<lparr>buf := ''/room create lobby''\<rparr>) (Key 10 no_io))"
proof -
  let ?s = "app_boot ''ann'' None\<lparr>buf := ''/room create lobby''\<rparr>"
  have "py_strip (buf ?s) = ''/room create lobby''" by (simp add: py_strip_id py_space_def)
  moreover have "py_split ''/room create lobby'' = [''/room'', ''create'', ''lobby'']" by code_simp
  ultimately show ?thesis
    using create_timeout_ends_ui [of ?s "''/room create lobby''" "''lobby''" "[]" no_io toy "''url''" good_host]
    by (simp add: app_boot_def no_io_def)
qed

text \<open> Editing a room message sends the new text in the clear, whoever's keys are known and whether or not the
  private key is unlocked: the packet for the server carries the text itself. \<close>

theorem room_edit_in_clear:
  assumes "current_chat s = Some (room_key r)" "3 \<le> length parts"
    and "edit_command C parts txt s = (res, t)"
  shows "\<exists>pkt. send_q t = send_q s @ [json_dumps (JObj pkt)] \<and> dget pkt ''type'' = Some (JStr ''MESSAGE_EDIT'') \<and>
    dget pkt ''room_id'' = Some (JStr r) \<and> dget pkt ''payload'' = Some (JObj [(''text'', JStr (py_split_rest 2 txt))])"
proof -
  obtain c cs where k: "room_key r = c # cs" "is_room_chat (c # cs)" "room_id_from_key (c # cs) = r"
    using room_key_room [of r] by (metis is_room_chat_def list.exhaust)
  then show ?thesis
    using assms by (auto simp: edit_command_def prog_simps load_messages_def packet_fields_def Let_def split: list.splits)
qed

lemma room_edit_in_clear_witness:
  "\<exists>pkt. send_q (snd (edit_command toy [''/edit'', ''m1'', ''secret''] ''/edit m1 secret''
       (app_boot ''ann'' (Some (replicate 32 9))\<lparr>current_chat := Some (room_key ''r1'')\<rparr>))) = [json_dumps (JObj pkt)] \<and>
     dget pkt ''payload'' = Some (JObj [(''text'', JStr ''secret'')])"
proof -
  let ?s = "app_boot ''ann'' (Some (replicate 32 9))\<lparr>current_chat := Some (room_key ''r1'')\<rparr>"
  obtain res t where e: "edit_command toy [''/edit'', ''m1'', ''secret''] ''/edit m1 secret'' ?s = (res, t)" by fastforce
  have "py_split_rest 2 ''/edit m1 secret'' = ''secret''" by code_simp
  then show ?thesis using room_edit_in_clear [OF _ _ e, of "''r1''"] e by (auto simp: app_boot_def)
qed

section \<open>Room messages\<close>

text \<open>
  What sealing for the members puts into the packet: one object per other member whose key is stored, and it
  opens with that member's private key.
\<close>

lemma seal_for_members_app:
  assumes "crypto_ok C" "length priv = 32" "contact_public_key u (cdb s) = Some (b64_encode (c_pub C priv))"
    and "u \<noteq> me s" "seal_for_members C txt (map JStr ms) payloads s = (Inr out, t)"
    and "u \<in> set ms \<or> (\<exists>p. dget payloads u = Some (JObj p) \<and> decrypt_message C p priv = Inr txt)"
  shows "\<exists>p. dget out u = Some (JObj p) \<and> decrypt_message C p priv = Inr txt"
  using assms(3-6)
proof (induction ms arbitrary: payloads s)
  case (Cons m ms)
  show ?case
  proof (cases "m = me s \<or> contact_public_key m (cdb s) = None \<or> contact_public_key m (cdb s) = Some []")
    case True
    then have "seal_for_members C txt (map JStr ms) payloads s = (Inr out, t)"
      using Cons.prems(3) by (cases "m = me s") (auto simp: prog_simps)
    moreover have "m \<noteq> u"
    proof
      assume "m = u"
      then have "b64_encode (c_pub C priv) = []" using True Cons.prems(1,2) by auto
      moreover have "c_pub C priv \<noteq> []" using assms(1,2) by (auto simp: crypto_ok_def)
      ultimately show False using b64_encode_not_Nil by blast
    qed
    ultimately show ?thesis using Cons.IH [of s payloads] Cons.prems by auto
  next
    case False
    then obtain k where k: "m \<noteq> me s" "contact_public_key m (cdb s) = Some k" "k \<noteq> []" by auto
    then obtain pub enc s' where e: "b64_decode k = Inr pub" "encrypt_message C txt pub s = (Inr enc, s')"
        "seal_for_members C txt (map JStr ms) (dset m (JObj (dset ''encrypted'' (JBool True) enc)) payloads) s' = (Inr out, t)"
      using Cons.prems(3) by (auto simp: prog_simps split: sum.splits prod.splits)
    have s': "cdb s' = cdb s" "me s' = me s"
      using e(2) by (auto simp: encrypt_message_def prog_simps urandom_def Let_def split: sum.splits prod.splits)
    have "\<exists>p. dget (dset m (JObj (dset ''encrypted'' (JBool True) enc)) payloads) u = Some (JObj p) \<and>
        decrypt_message C p priv = Inr txt" if "m = u"
    proof -
      have "pub = c_pub C priv" using that k(2) e(1) Cons.prems(1) b64_roundtrip [of "c_pub C priv"] by auto
      then have enc: "encrypt_message C txt (c_pub C priv) s = (Inr enc, s')" using e(2) by simp
      have "decrypt_message C (dset ''encrypted'' (JBool True) enc) priv = Inr txt"
        by (rule encrypt_message_sealed [OF assms(1,2), of "txt" s]) (use enc in auto)
      then show ?thesis using that by simp
    qed
    then have "u \<in> set ms \<or> (\<exists>p. dget (dset m (JObj (dset ''encrypted'' (JBool True) enc)) payloads) u = Some (JObj p) \<and>
        decrypt_message C p priv = Inr txt)"
      using Cons.prems(4) by (cases "m = u") auto
    then show ?thesis using Cons.IH [of s' "dset m (JObj (dset ''encrypted'' (JBool True) enc)) payloads"] Cons.prems(1,2) e(3) s'
      by simp
  qed
qed simp

lemma json_wf_dset: "json_wf (JObj kvs) \<Longrightarrow> json_wf v \<Longrightarrow> json_wf (JObj (dset k v kvs))"
  by (simp add: wf_members_dset distinct_dset)

lemma encrypt_message_wf: "encrypt_message C txt k s = (Inr enc, t) \<Longrightarrow> json_wf (JObj enc)"
  by (auto simp: encrypt_message_def prog_simps Let_def split: sum.splits prod.splits)

text \<open>What holds of the payloads at first and is kept by every sealed part holds of the result.\<close>

lemma encrypt_message_state: "encrypt_message C txt k s = (r, t) \<Longrightarrow> cdb t = cdb s \<and> me t = me s"
  by (auto simp: encrypt_message_def prog_simps urandom_def Let_def split: sum.splits prod.splits)

lemma seal_for_members_inv:
  fixes s t :: "'e client_scheme"
  assumes "seal_for_members C txt ms payloads s = (Inr out, t)" "P payloads"
    and "\<And>x k enc pub s1 s2 ps. P ps \<Longrightarrow> contact_public_key x (cdb s) = Some k \<Longrightarrow>
      encrypt_message C txt pub s1 = (Inr enc, s2 :: 'e client_scheme) \<Longrightarrow> P (dset x (JObj (dset ''encrypted'' (JBool True) enc)) ps)"
  shows "P out"
  using assms
proof (induction ms arbitrary: payloads s)
  case (Cons m ms)
  obtain x where x: "as_str TypeError m = Inr x" using Cons.prems(1) by (auto simp: prog_simps split: sum.splits)
  show ?case
  proof (cases "seal_for_members C txt ms payloads s = (Inr out, t)")
    case True
    then show ?thesis using Cons.IH [OF True Cons.prems(2)] Cons.prems(3) by blast
  next
    case False
    then obtain k pub enc s' where e: "contact_public_key x (cdb s) = Some k" "encrypt_message C txt pub s = (Inr enc, s')"
        "seal_for_members C txt ms (dset x (JObj (dset ''encrypted'' (JBool True) enc)) payloads) s' = (Inr out, t)"
      using Cons.prems(1) x by (auto simp: prog_simps split: sum.splits prod.splits if_splits option.splits)
    have "cdb s' = cdb s" using encrypt_message_state [OF e(2)] by simp
    then show ?thesis
      by (intro Cons.IH [OF e(3)] Cons.prems(3) [OF Cons.prems(2) e(1,2)] Cons.prems(3)) auto
  qed
qed simp

lemma seal_for_members_wf:
  assumes "seal_for_members C txt ms [] s = (Inr out, t)" shows "json_wf (JObj out)"
proof (rule seal_for_members_inv [OF assms, where P = "\<lambda>ps. json_wf (JObj ps)"])
  fix x k enc pub s1 s2 ps
  assume "json_wf (JObj ps)" "encrypt_message C txt pub s1 = (Inr enc, s2)"
  then show "json_wf (JObj (dset x (JObj (dset ''encrypted'' (JBool True) enc)) ps))"
    using encrypt_message_wf [of C "txt" pub s1 enc s2] by (intro json_wf_dset) simp_all
qed simp

lemma seal_for_members_absent:
  assumes "seal_for_members C txt ms [] s = (Inr out, t)" "contact_public_key v (cdb s) = None"
  shows "dget out v = None"
  by (rule seal_for_members_inv [OF assms(1), where P = "\<lambda>ps. dget ps v = None"]) (use assms(2) in auto)

text \<open>The members' list that answers a request, as the only packet that arrives.\<close>

definition members_reply :: "string \<Rightarrow> string list \<Rightarrow> packet" where
  "members_reply i ms = [(''type'', JStr ''ROOM_MEMBERS_LIST''), (''req_id'', JStr i), (''members'', JList (map JStr ms))]"

lemma route_members_reply:
  assumes "ready s"
  shows "app_route C h (members_reply i ms) s =
    (Inr (), s\<lparr>pending := resolve_pending i (members_reply i ms) (pending s), dirty := True\<rparr>)"
proof -
  have "packet_type (members_reply i ms) = Some ROOM_MEMBERS_LIST"
    by (simp add: packet_type_Some members_reply_def jget_def)
  moreover have "jget_or (members_reply i ms) ''req_id'' (JStr []) = JStr i"
    by (simp add: members_reply_def jget_or_def)
  ultimately show ?thesis using assms by (simp add: app_route_app route_packet_def bnd_app whenp_def handle_response_def)
qed

lemma wait_members_reply:
  assumes "ready s" "dget (pending s) i = Some []"
  shows "wait_event (app_route C h) i [members_reply i ms] s =
    (Inr True, s\<lparr>pending := dset i [members_reply i ms] (pending s), dirty := True\<rparr>)"
  using assms by (simp add: thn_app attempt_app bnd_app route_members_reply resolve_pending_def event_set_def)

lemma get_members_reply:
  assumes "ready s"
  shows "\<exists>t. room_get_members (app_route C h) r [members_reply (next_id s) ms] s = (Inr (JList (map JStr ms)), t) \<and>
    cdb t = cdb s \<and> me t = me s"
proof -
  let ?i = "next_id s"
  define s1 where "s1 = snd (send_pkt ROOM_MEMBERS [(''req_id'', JStr ?i), (''room_id'', JStr r), (''from'', JStr (me s))]
    (s\<lparr>epos := epos s + 16, pending := dset ?i [] (pending s)\<rparr>))"
  have p: "ready s1" "dget (pending s1) ?i = Some []" "cdb s1 = cdb s" "me s1 = me s"
    using assms by (simp_all add: s1_def)
  have sp: "send_pkt ROOM_MEMBERS [(''req_id'', JStr ?i), (''room_id'', JStr r), (''from'', JStr (me s))]
    (s\<lparr>epos := epos s + 16, pending := dset ?i [] (pending s)\<rparr>) = (Inr (), s1)"
    by (simp add: s1_def)
  have m: "jget_or (members_reply ?i ms) ''members'' (JList []) = JList (map JStr ms)"
    by (simp add: members_reply_def jget_or_def)
  show ?thesis
    using sp p wait_members_reply [OF p(1,2), of C h ms] m
    by (simp add: room_get_members_def request_def finally_do_def thn_app bnd_app del: send_pkt_app wait_event.simps)
qed


lemma room_send_succeeds:
  assumes "ready s" "ctx s \<noteq> None" "u \<noteq> me s" "contact_public_key u (cdb s) = Some (b64_encode (c_pub toy priv))"
    and "length priv = 32"
  shows "\<exists>t. room_send_message toy (app_route toy h) r txt [members_reply (next_id (s\<lparr>epos := epos s + 16\<rparr>)) [u]] s =
    (Inr (next_id s), t)"
proof -
  let ?s0 = "s\<lparr>epos := epos s + 16\<rparr>"
  obtain key where key: "ctx s = Some key" using assms(2) by auto
  obtain q where g: "room_get_members (app_route toy h) r [members_reply (next_id ?s0) [u]] ?s0 = (Inr (JList (map JStr [u])), q)"
      and q: "cdb q = cdb s" "me q = me s"
    using get_members_reply [of ?s0 toy h r "[u]"] assms(1) by auto
  obtain enc q' where "encrypt_message toy txt (c_pub toy priv) q = (Inr enc, q')"
    by (rule encrypt_message_sealed [OF toy_ok assms(5), of "txt" q]) auto
  then show ?thesis
    using g q key assms(3,4) pubkey_truthy [OF toy_ok assms(5)]
    by (simp add: room_send_message_def prog_simps room_packet_def b64_roundtrip)
qed


end
