(* ===== verification/Ws_Server.thy ===== *)
theory Ws_Server
  imports Server_Effects
begin

text \<open>
  The WebSocket server (\<^verbatim>\<open>server/ws_server.py\<close>): one definition per branch of \<^verbatim>\<open>handle\<close>, the dispatch on
  the packet type, the receive loop of one connection and its cleanup. A handler runs to its end here;
  theory Server\_Tasks lets handlers interleave at their awaits. \<open>checkpw\<close> is \<^verbatim>\<open>bcrypt.checkpw\<close> and \<open>base\<close> is \<^verbatim>\<open>FILES_DIR\<close>. Names and ids that are
  not strings raise (\<open>as_name\<close>, \<open>item_str\<close>).
\<close>

section \<open>Shared parts of the handlers\<close>

definition broadcast_status :: "string \<Rightarrow> string \<Rightarrow> unit server_prog" where
  "broadcast_status username status =
    bnd (make_packet (type_str STATUS) [(''user'', JStr username), (''status'', JStr status)]) (\<lambda>pkt.
    bnd (gets connections) (\<lambda>conns.
    for_each (\<lambda>(uname, w). if uname \<noteq> username
        then attempt (ws_send w pkt) (\<lambda>_. router_unregister uname) else ret ()) conns))"

definition on_auth_success :: "ws \<Rightarrow> json \<Rightarrow> string \<Rightarrow> string server_prog" where
  "on_auth_success w token username =
    thn (router_register username w)
    (thn (send_packet w AUTH_RESPONSE (auth_kwargs (Auth_Ok token username)))
    (thn (flush_offline w username)
    (thn (broadcast_status username ''online'')
    (ret username))))"

definition peer_of :: "server \<Rightarrow> ws \<Rightarrow> string" where
  "peer_of s w = (case remote s w of Some ip \<Rightarrow> ip | None \<Rightarrow> ''unknown'')"

definition own_ip :: "ws \<Rightarrow> string server_prog" where
  "own_ip w = gets (\<lambda>s. case remote s w of Some ip \<Rightarrow> ip | None \<Rightarrow> [])"

definition rate_allow :: "string \<Rightarrow> bool server_prog" where
  "rate_allow key = (\<lambda>s. let (b, l) = rl_allow (mono s) key (rates s) in (Inr b, s\<lparr>rates := l\<rparr>))"

definition rate_reset :: "string \<Rightarrow> unit server_prog" where
  "rate_reset key = modify (\<lambda>s. s\<lparr>rates := rl_reset key (rates s)\<rparr>)"

definition stamp :: "string \<Rightarrow> packet \<Rightarrow> packet" where
  "stamp username pkt = dset ''from'' (JStr username) pkt"

definition item :: "packet \<Rightarrow> string \<Rightarrow> exn + json" where
  "item pkt k = (case dget pkt k of None \<Rightarrow> Inl KeyError | Some v \<Rightarrow> Inr v)"

text \<open>Send to a user if online, else (or when the send fails) queue under \<open>qid\<close>.\<close>

definition send_or_queue :: "string \<Rightarrow> string \<Rightarrow> (exn + string) \<Rightarrow> string server_prog" where
  "send_or_queue to_user raw qid =
    (let queue = thn (bnd (lift_result qid) (\<lambda>i. offline_enqueue i to_user raw)) (ret ''queued'') in
     bnd (router_get to_user) (\<lambda>t. case t of
       Some t \<Rightarrow> attempt (thn (ws_send t raw) (ret ''delivered'')) (\<lambda>_. queue)
     | None \<Rightarrow> queue))"

section \<open>Authentication\<close>

datatype flow = Continue "string option" | Break

definition auth_answer :: "ws \<Rightarrow> string option \<Rightarrow> auth_result \<Rightarrow> flow server_prog" where
  "auth_answer w user res = (case res of
     Auth_Ok token username \<Rightarrow>
       bnd (on_auth_success w token username) (\<lambda>u. ret (Continue (Some u)))
   | Auth_Fail err \<Rightarrow> thn (send_packet w AUTH_RESPONSE (auth_kwargs res)) (ret (Continue user)))"

definition h_register :: "ws \<Rightarrow> string option \<Rightarrow> packet \<Rightarrow> flow server_prog" where
  "h_register w user pkt =
    bnd (lift_result (strip_field pkt ''username'')) (\<lambda>uname.
    let pw = jget_or pkt ''password'' (JStr []) in
    if uname = [] \<or> \<not> truthy pw
    then thn (send_packet w AUTH_RESPONSE [(''success'', JBool False), (''error'', JStr ''AUTH_FAILED'')])
         (ret (Continue user))
    else bnd (auth_register uname pw (jget pkt ''public_key'')) (auth_answer w user))"

definition token_login :: "json \<Rightarrow> auth_result server_prog" where
  "token_login token =
    bnd (lift_result (opt_text token)) (\<lambda>t. case t of
      None \<Rightarrow> ret (Auth_Fail ''INVALID_TOKEN'')
    | Some t \<Rightarrow> bnd (validate_token t) (\<lambda>session. case session of
        None \<Rightarrow> ret (Auth_Fail ''INVALID_TOKEN'')
      | Some row \<Rightarrow> ret (Auth_Ok token (s_username row))))"

definition password_login ::
  "(bytes \<Rightarrow> bytes \<Rightarrow> exn + bool) \<Rightarrow> json \<Rightarrow> json \<Rightarrow> auth_result server_prog" where
  "password_login checkpw username password =
    bnd (lift_result (opt_text username)) (\<lambda>u. case u of
      None \<Rightarrow> ret (Auth_Fail ''AUTH_FAILED'')
    | Some u \<Rightarrow> auth_login checkpw u password)"

definition h_login ::
  "(bytes \<Rightarrow> bytes \<Rightarrow> exn + bool) \<Rightarrow> ws \<Rightarrow> string option \<Rightarrow> packet \<Rightarrow> flow server_prog" where
  "h_login checkpw w user pkt =
    bnd (case dget pkt ''token'' of
        Some token \<Rightarrow> token_login token
      | None \<Rightarrow> password_login checkpw (jget_or pkt ''username'' (JStr [])) (jget_or pkt ''password'' (JStr [])))
    (auth_answer w user)"

definition h_logout :: "packet \<Rightarrow> flow server_prog" where
  "h_logout pkt =
    thn (case dget pkt ''token'' of
        None \<Rightarrow> ret ()
      | Some token \<Rightarrow> bnd (lift_result (opt_text token)) (\<lambda>t. case t of
            None \<Rightarrow> ret () | Some t \<Rightarrow> dbm (delete_session t)))
    (ret Break)"

section \<open>Keys and messages\<close>

definition h_key_request :: "ws \<Rightarrow> packet \<Rightarrow> unit server_prog" where
  "h_key_request w pkt =
    bnd (lift_result (strip_field pkt ''username'')) (\<lambda>target.
    if target = []
    then send_packet w KEY_RESPONSE [(''success'', JBool False), (''error'', JStr ''MISSING_USERNAME'')]
    else bnd (dbq (get_public_key target)) (\<lambda>key.
      if (case key of None \<Rightarrow> False | Some k \<Rightarrow> k \<noteq> [])
      then send_packet w KEY_RESPONSE [(''success'', JBool True), (''username'', JStr target),
             (''public_key'', opt_json key)]
      else send_packet w KEY_RESPONSE [(''success'', JBool False), (''username'', JStr target),
             (''error'', JStr ''KEY_NOT_FOUND'')]))"

definition h_message :: "ws \<Rightarrow> string \<Rightarrow> packet \<Rightarrow> unit server_prog" where
  "h_message w username pkt =
    bnd (lift_result (name_field pkt ''to'')) (\<lambda>to_user. case to_user of
      None \<Rightarrow> ret ()
    | Some to_user \<Rightarrow>
        let pkt = stamp username pkt; raw = json_dumps (JObj pkt) in
        bnd (send_or_queue to_user raw (item_str pkt ''id'')) (\<lambda>status.
        bnd (lift_result (item pkt ''id'')) (\<lambda>i.
        send_packet w DELIVERY [(''msg_id'', i), (''status'', JStr status)])))"

text \<open>An edit or deletion: to the room, or to the user (where a failed send raises), or to nobody.\<close>

definition h_message_edit :: "string \<Rightarrow> string \<Rightarrow> ws \<Rightarrow> string \<Rightarrow> packet \<Rightarrow> unit server_prog" where
  "h_message_edit kind status w username pkt =
    (let pkt = stamp username pkt; raw = json_dumps (JObj pkt) in
     thn (bnd (lift_result (name_field pkt ''room_id'')) (\<lambda>room_id. case room_id of
         Some room_id \<Rightarrow> route_room_message room_id pkt username
       | None \<Rightarrow> bnd (lift_result (name_field pkt ''to'')) (\<lambda>target. case target of
           None \<Rightarrow> ret ()
         | Some target \<Rightarrow> bnd (router_get target) (\<lambda>t. case t of
             Some t \<Rightarrow> ws_send t raw
           | None \<Rightarrow> offline_enqueue
               (py_str (jget pkt ''msg_id'') @ '':'' @ target @ '':'' @ kind) target raw))))
     (send_packet w DELIVERY [(''msg_id'', jget pkt ''msg_id''), (''status'', JStr status)]))"

definition h_message_delete :: "ws \<Rightarrow> string \<Rightarrow> packet \<Rightarrow> unit server_prog" where
  "h_message_delete = h_message_edit ''delete'' ''deleted''"

text \<open>Best effort: nothing is queued and a failed send is ignored.\<close>

definition send_quietly :: "string \<Rightarrow> string \<Rightarrow> unit server_prog" where
  "send_quietly to_user raw =
    bnd (router_get to_user) (\<lambda>t. case t of
      Some t \<Rightarrow> attempt (ws_send t raw) (\<lambda>_. ret ())
    | None \<Rightarrow> ret ())"

definition h_read :: "string \<Rightarrow> packet \<Rightarrow> unit server_prog" where
  "h_read username pkt =
    bnd (lift_result (name_field pkt ''to'')) (\<lambda>to_user. case to_user of
      None \<Rightarrow> ret ()
    | Some to_user \<Rightarrow> send_quietly to_user (json_dumps (JObj (stamp username pkt))))"

section \<open>Files\<close>

definition h_file_init :: "string \<Rightarrow> ws \<Rightarrow> string \<Rightarrow> packet \<Rightarrow> unit server_prog" where
  "h_file_init base w username pkt =
    bnd (lift_result (strip_field pkt ''to'')) (\<lambda>to_user.
    let file_id = jget_or pkt ''file_id'' (jget pkt ''id'') in
    if to_user = [] \<or> \<not> truthy file_id
    then send_packet w ERROR [(''error'', JStr ''INVALID_FILE_INIT'')]
    else
      let pkt = dset ''file_id'' file_id (stamp username pkt) in
      bnd now (\<lambda>t.
      bnd (lift_result (as_str TypeError file_id)) (\<lambda>fid.
      bnd (lift_result (py_int (jget_or pkt ''size'' (JInt 0)))) (\<lambda>size.
      bnd (lift_result (py_int (jget_or pkt ''total_chunks'' (JInt 1)))) (\<lambda>total.
      thn (register_file base \<lparr>fm_id = fid, fm_name = jget_or pkt ''name'' (JStr ''unknown''),
        fm_size = size, fm_total_chunks = total, fm_uploader = username, fm_recipient = to_user,
        fm_encrypted_key = json_dumps (jget pkt ''encrypted_key''),
        fm_created_at = jget_or pkt ''timestamp'' (JInt t)\<rparr>)
      (thn (send_or_queue to_user (json_dumps (JObj pkt)) (Inr (fid @ '':'' @ to_user @ '':init'')))
      (send_packet w FILE_ACK [(''file_id'', file_id)])))))))"

definition h_file_notice :: "msg_type \<Rightarrow> string \<Rightarrow> packet \<Rightarrow> unit server_prog" where
  "h_file_notice ty username pkt =
    bnd (lift_result (name_field pkt ''to'')) (\<lambda>target. case target of
      None \<Rightarrow> ret ()
    | Some target \<Rightarrow>
        let file_id = jget_or pkt ''file_id'' (jget pkt ''id'');
            raw = json_dumps (JObj (stamp username pkt)) in
        thn (send_or_queue target raw
               (Inr (py_str file_id @ '':'' @ target @ '':'' @ type_str ty)))
        (ret ()))"

section \<open>Calls\<close>

text \<open>A session id used as a dictionary key: lists and objects are not hashable, other non-strings match
  no session.\<close>

fun call_key :: "json \<Rightarrow> exn + string option" where
  "call_key (JStr s) = Inr (Some s)"
| "call_key (JList xs) = Inl TypeError"
| "call_key (JObj kvs) = Inl TypeError"
| "call_key _ = Inr None"

definition with_call :: "packet \<Rightarrow> (string \<Rightarrow> unit server_prog) \<Rightarrow> unit server_prog" where
  "with_call pkt f =
    bnd (lift_result (call_key (jget_or pkt ''session_id'' (JStr [])))) (\<lambda>i. case i of
      None \<Rightarrow> ret () | Some i \<Rightarrow> f i)"

definition h_call_invite :: "ws \<Rightarrow> string \<Rightarrow> packet \<Rightarrow> unit server_prog" where
  "h_call_invite w username pkt =
    bnd (lift_result (strip_field pkt ''to'')) (\<lambda>callee.
    let session_id = jget_or pkt ''session_id'' (jget pkt ''id'') in
    if callee = [] \<or> \<not> truthy session_id
    then send_packet w ERROR [(''error'', JStr ''INVALID_CALL_INVITE'')]
    else
      bnd (lift_result (as_str TypeError session_id)) (\<lambda>sid.
      bnd (own_ip w) (\<lambda>ip.
      bnd (call_invite sid username callee \<lparr>ci_ip = ip, ci_udp_port = jget pkt ''local_port'',
            ci_pubkey = jget pkt ''ephemeral_pubkey''\<rparr>) (\<lambda>ok.
      whenp (\<not> ok) (send_packet w CALL_DECLINE
        [(''session_id'', session_id), (''reason'', JStr ''unavailable'')])))))"

definition h_call_accept :: "ws \<Rightarrow> packet \<Rightarrow> unit server_prog" where
  "h_call_accept w pkt = with_call pkt (\<lambda>i.
    bnd (own_ip w) (\<lambda>ip.
    thn (call_accept i \<lparr>ci_ip = ip, ci_udp_port = jget pkt ''local_port'',
          ci_pubkey = jget pkt ''ephemeral_pubkey''\<rparr>)
    (ret ())))"

definition h_call_decline :: "packet \<Rightarrow> unit server_prog" where
  "h_call_decline pkt = with_call pkt call_decline"

definition h_call_end :: "string \<Rightarrow> packet \<Rightarrow> unit server_prog" where
  "h_call_end username pkt = with_call pkt (\<lambda>i. call_end i username)"

definition h_call_relay :: "string \<Rightarrow> packet \<Rightarrow> unit server_prog" where
  "h_call_relay username pkt =
    with_call pkt (\<lambda>i. relay_audio i username (jget_or pkt ''data'' (JStr [])))"

section \<open>Rooms, presence and synchronisation\<close>

definition h_room_create :: "ws \<Rightarrow> string \<Rightarrow> packet \<Rightarrow> unit server_prog" where
  "h_room_create w username pkt =
    bnd (lift_result (strip_field pkt ''name'')) (\<lambda>name.
    let req_id = jget pkt ''req_id'' in
    if name = []
    then send_packet w ROOM_INFO [(''req_id'', req_id), (''success'', JBool False),
           (''error'', JStr ''MISSING_NAME'')]
    else bnd (create_room name username) (\<lambda>room.
      send_packet w ROOM_INFO [(''req_id'', req_id), (''success'', JBool True), (''room'', room_json room)]))"

definition h_room_join :: "ws \<Rightarrow> string \<Rightarrow> packet \<Rightarrow> unit server_prog" where
  "h_room_join w username pkt =
    bnd (lift_result (strip_field pkt ''room_id'')) (\<lambda>room_id.
    let req_id = jget pkt ''req_id'' in
    bnd (join_room room_id username) (\<lambda>success.
    bnd (if success then
           bnd (get_user_rooms username) (\<lambda>user_rooms.
             ret (case List.find (\<lambda>(i, n, c). i = room_id) user_rooms of
               Some room \<Rightarrow> room_json room | None \<Rightarrow> JObj [(''id'', JStr room_id)]))
         else ret (JObj [(''id'', JStr room_id)])) (\<lambda>response.
    send_packet w ROOM_INFO [(''req_id'', req_id), (''success'', JBool success), (''room'', response)])))"

definition h_room_leave :: "ws \<Rightarrow> string \<Rightarrow> packet \<Rightarrow> unit server_prog" where
  "h_room_leave w username pkt =
    bnd (lift_result (strip_field pkt ''room_id'')) (\<lambda>room_id.
    if room_id = [] then ret ()
    else thn (leave_room room_id username)
      (send_packet w ROOM_INFO [(''success'', JBool True), (''room'', JObj [(''id'', JStr room_id)]),
        (''left'', JBool True)]))"

definition h_room_members :: "ws \<Rightarrow> packet \<Rightarrow> unit server_prog" where
  "h_room_members w pkt =
    bnd (lift_result (strip_field pkt ''room_id'')) (\<lambda>room_id.
    let req_id = jget pkt ''req_id'' in
    bnd (if room_id = [] then ret [] else get_members room_id) (\<lambda>members.
    send_packet w ROOM_MEMBERS_LIST [(''req_id'', req_id), (''room_id'', JStr room_id),
      (''members'', JList (map JStr members))]))"

definition h_room_message :: "ws \<Rightarrow> string \<Rightarrow> packet \<Rightarrow> unit server_prog" where
  "h_room_message w username pkt =
    bnd (lift_result (strip_field pkt ''room_id'')) (\<lambda>room_id.
    if room_id = [] then ret ()
    else bnd (get_members room_id) (\<lambda>members.
      if username \<notin> set members then send_packet w ERROR [(''error'', JStr ''NOT_IN_ROOM'')]
      else
        let pkt = stamp username pkt in
        thn (route_room_message room_id pkt username)
        (bnd (lift_result (item pkt ''id'')) (\<lambda>i.
        send_packet w DELIVERY [(''msg_id'', i), (''status'', JStr ''delivered'')]))))"

definition h_typing :: "string \<Rightarrow> packet \<Rightarrow> unit server_prog" where
  "h_typing username pkt =
    bnd (lift_result (name_field pkt ''room_id'')) (\<lambda>room_id. case room_id of
      Some room_id \<Rightarrow> route_room_message room_id (stamp username pkt) username
    | None \<Rightarrow> bnd (lift_result (name_field pkt ''to'')) (\<lambda>to_user. case to_user of
        None \<Rightarrow> ret ()
      | Some to_user \<Rightarrow> send_quietly to_user (json_dumps (JObj (stamp username pkt)))))"

text \<open>
  \<^verbatim>\<open>created_at > ?\<close> with a JSON value: null and a text that is no number match no row (an integer
  column orders every number below every text).
\<close>

fun since_value :: "json \<Rightarrow> exn + int option" where
  "since_value (JInt i) = map_sum id Some (sql_int i)"
| "since_value (JBool b) = Inr (Some (if b then 1 else 0))"
| "since_value (JStr s) = Inr (case int_of_str s of Inr i \<Rightarrow> Some i | Inl _ \<Rightarrow> None)"
| "since_value JNull = Inr None"
| "since_value _ = Inl TypeError"

definition h_sync_request :: "ws \<Rightarrow> string \<Rightarrow> packet \<Rightarrow> unit server_prog" where
  "h_sync_request w username pkt =
    bnd (lift_result (since_value (jget_or pkt ''since'' (JInt 0)))) (\<lambda>since.
    bnd (case since of Some i \<Rightarrow> offline_flush username i | None \<Rightarrow> ret []) (\<lambda>queued.
    thn (send_packet w SYNC_RESPONSE [(''messages'', JList (map JStr queued))])
    (offline_clear username)))"

definition h_status :: "ws \<Rightarrow> unit server_prog" where
  "h_status w = bnd (gets (\<lambda>s. online_users (connections s))) (\<lambda>us.
     send_packet w ONLINE_LIST [(''users'', JList (map JStr us))])"

section \<open>Dispatch\<close>

text \<open>The branches below the authentication check.\<close>

fun dispatch :: "string \<Rightarrow> ws \<Rightarrow> string \<Rightarrow> packet \<Rightarrow> msg_type option \<Rightarrow> unit server_prog" where
  "dispatch base w u pkt (Some KEY_REQUEST) = h_key_request w pkt"
| "dispatch base w u pkt (Some MESSAGE) = h_message w u pkt"
| "dispatch base w u pkt (Some MESSAGE_EDIT) = h_message_edit ''edit'' ''edited'' w u pkt"
| "dispatch base w u pkt (Some MESSAGE_DELETE) = h_message_delete w u pkt"
| "dispatch base w u pkt (Some READ) = h_read u pkt"
| "dispatch base w u pkt (Some FILE_INIT) = h_file_init base w u pkt"
| "dispatch base w u pkt (Some FILE_ACK) = h_file_notice FILE_ACK u pkt"
| "dispatch base w u pkt (Some FILE_DONE) = h_file_notice FILE_DONE u pkt"
| "dispatch base w u pkt (Some FILE_CANCEL) = h_file_notice FILE_CANCEL u pkt"
| "dispatch base w u pkt (Some CALL_INVITE) = h_call_invite w u pkt"
| "dispatch base w u pkt (Some CALL_ACCEPT) = h_call_accept w pkt"
| "dispatch base w u pkt (Some CALL_DECLINE) = h_call_decline pkt"
| "dispatch base w u pkt (Some CALL_END) = h_call_end u pkt"
| "dispatch base w u pkt (Some CALL_RELAY) = h_call_relay u pkt"
| "dispatch base w u pkt (Some ROOM_CREATE) = h_room_create w u pkt"
| "dispatch base w u pkt (Some ROOM_JOIN) = h_room_join w u pkt"
| "dispatch base w u pkt (Some ROOM_LEAVE) = h_room_leave w u pkt"
| "dispatch base w u pkt (Some ROOM_MEMBERS) = h_room_members w pkt"
| "dispatch base w u pkt (Some ROOM_MESSAGE) = h_room_message w u pkt"
| "dispatch base w u pkt (Some TYPING) = h_typing u pkt"
| "dispatch base w u pkt (Some SYNC_REQUEST) = h_sync_request w u pkt"
| "dispatch base w u pkt (Some STATUS) = h_status w"
| "dispatch base w u pkt (Some PING) = send_packet w PONG []"
| "dispatch base w u pkt _ = ret ()"

definition handle_pkt ::
  "(bytes \<Rightarrow> bytes \<Rightarrow> exn + bool) \<Rightarrow> string \<Rightarrow> ws \<Rightarrow> string option \<Rightarrow> packet \<Rightarrow> flow server_prog" where
  "handle_pkt checkpw base w user pkt =
    (let ty = packet_type pkt in
     if ty = Some AUTH_REGISTER then h_register w user pkt
     else if ty = Some AUTH_LOGIN then h_login checkpw w user pkt
     else if ty = Some AUTH_LOGOUT then h_logout pkt
     else case user of
       None \<Rightarrow> thn (send_packet w ERROR [(''error'', JStr ''UNAUTHORIZED'')]) (ret (Continue None))
     | Some u \<Rightarrow> thn (dispatch base w u pkt ty) (ret (Continue (Some u))))"

definition handle_msg ::
  "(bytes \<Rightarrow> bytes \<Rightarrow> exn + bool) \<Rightarrow> string \<Rightarrow> ws \<Rightarrow> string option \<Rightarrow> string \<Rightarrow> flow server_prog" where
  "handle_msg checkpw base w user raw =
    bnd (gets (\<lambda>s. case user of Some u \<Rightarrow> if u = [] then peer_of s w else u | None \<Rightarrow> peer_of s w)) (\<lambda>rate_key.
    bnd (rate_allow rate_key) (\<lambda>allowed.
    if \<not> allowed then thn (send_packet w ERROR [(''error'', JStr ''RATE_LIMITED'')]) (ret (Continue user))
    else case parse_packet raw of
      Inl _ \<Rightarrow> thn (send_packet w ERROR [(''error'', JStr ''INVALID_PACKET'')]) (ret (Continue user))
    | Inr (JObj pkt) \<Rightarrow> handle_pkt checkpw base w user pkt
    | Inr _ \<Rightarrow> raise AttributeError))"

definition cleanup :: "ws \<Rightarrow> string option \<Rightarrow> unit server_prog" where
  "cleanup w user =
    bnd (gets (\<lambda>s. peer_of s w)) (\<lambda>peer.
    thn (case user of
        None \<Rightarrow> ret ()
      | Some u \<Rightarrow> if u = [] then ret () else
          thn (router_unregister u) (thn (rate_reset u) (broadcast_status u ''offline'')))
    (rate_reset peer))"

fun receive_loop ::
  "(bytes \<Rightarrow> bytes \<Rightarrow> exn + bool) \<Rightarrow> string \<Rightarrow> ws \<Rightarrow> string option \<Rightarrow> string list \<Rightarrow> server \<Rightarrow> string option \<times> server" where
  "receive_loop checkpw base w user [] s = (user, s)"
| "receive_loop checkpw base w user (raw # raws) s =
    (case handle_msg checkpw base w user raw s of
      (Inr (Continue user'), s') \<Rightarrow> receive_loop checkpw base w user' raws s'
    | (Inr Break, s') \<Rightarrow> (user, s')
    | (Inl _, s') \<Rightarrow> (user, s'))"

text \<open>One connection from its first message to its cleanup.\<close>

definition handle ::
  "(bytes \<Rightarrow> bytes \<Rightarrow> exn + bool) \<Rightarrow> string \<Rightarrow> ws \<Rightarrow> string list \<Rightarrow> server \<Rightarrow> server" where
  "handle checkpw base w raws s =
    (let (user, s') = receive_loop checkpw base w None raws s in snd (cleanup w user s'))"

section \<open>Handlers are made of allowed effects\<close>

context packet_effect
begin

lemma eff_rate [eff_intro]: "steps R (rate_allow k)" "steps R (rate_reset k)"
  by (simp_all add: steps_def rate_allow_def rate_reset_def eff_rates split_def Let_def)
lemma eff_broadcast_status [eff_intro]: "steps R (broadcast_status u st)"
  unfolding broadcast_status_def by (intro eff_intro)
lemma eff_on_auth_success [eff_intro]: "steps R (on_auth_success w t u)"
  unfolding on_auth_success_def by (intro eff_intro)
lemma eff_send_or_queue [eff_intro]: "steps R (send_or_queue u r i)"
  unfolding send_or_queue_def Let_def by (intro eff_intro)
lemma eff_send_quietly [eff_intro]: "steps R (send_quietly u r)"
  unfolding send_quietly_def by (intro eff_intro)
lemma eff_own_ip [eff_intro]: "steps R (own_ip w)"
  unfolding own_ip_def by (intro eff_intro)
lemma eff_auth_answer [eff_intro]: "steps R (auth_answer w u r)"
  unfolding auth_answer_def by (cases r) (simp_all, (intro eff_intro)+)
lemma eff_h_register [eff_intro]: "steps R (h_register w u p)"
  unfolding h_register_def Let_def by (intro eff_intro)
lemma eff_h_login [eff_intro]: "steps R (h_login c w u p)"
  unfolding h_login_def token_login_def password_login_def by (intro eff_intro)
lemma eff_h_logout [eff_intro]: "steps R (h_logout p)"
  unfolding h_logout_def by (intro eff_intro)
lemma eff_h_key_request [eff_intro]: "steps R (h_key_request w p)"
  unfolding h_key_request_def by (intro eff_intro)
lemma eff_h_message [eff_intro]: "steps R (h_message w u p)"
  unfolding h_message_def Let_def by (intro eff_intro)
lemma eff_h_message_edit [eff_intro]: "steps R (h_message_edit k st w u p)"
  unfolding h_message_edit_def Let_def by (intro eff_intro)
lemma eff_h_read [eff_intro]: "steps R (h_read u p)"
  unfolding h_read_def by (intro eff_intro)
lemma eff_h_file_init [eff_intro]: "steps R (h_file_init b w u p)"
  unfolding h_file_init_def Let_def by (intro eff_intro)
lemma eff_h_file_notice [eff_intro]: "steps R (h_file_notice t u p)"
  unfolding h_file_notice_def Let_def by (intro eff_intro)
lemma eff_with_call [eff_intro]: "(\<And>i. steps R (f i)) \<Longrightarrow> steps R (with_call p f)"
  unfolding with_call_def by (intro eff_intro)
lemma eff_h_call_invite [eff_intro]: "steps R (h_call_invite w u p)"
  unfolding h_call_invite_def Let_def by (intro eff_intro)
lemma eff_h_room_create [eff_intro]: "steps R (h_room_create w u p)"
  unfolding h_room_create_def Let_def by (intro eff_intro)
lemma eff_h_room_join [eff_intro]: "steps R (h_room_join w u p)"
  unfolding h_room_join_def Let_def by (intro eff_intro)
lemma eff_h_room_leave [eff_intro]: "steps R (h_room_leave w u p)"
  unfolding h_room_leave_def by (intro eff_intro)
lemma eff_h_room_members [eff_intro]: "steps R (h_room_members w p)"
  unfolding h_room_members_def Let_def by (intro eff_intro)
lemma eff_h_room_message [eff_intro]: "steps R (h_room_message w u p)"
  unfolding h_room_message_def Let_def by (intro eff_intro)
lemma eff_h_typing [eff_intro]: "steps R (h_typing u p)"
  unfolding h_typing_def by (intro eff_intro)
lemma eff_h_sync_request [eff_intro]: "steps R (h_sync_request w u p)"
  unfolding h_sync_request_def by (intro eff_intro)
lemma eff_h_status [eff_intro]: "steps R (h_status w)"
  unfolding h_status_def by (intro eff_intro)
lemma eff_dispatch [eff_intro]: "steps R (dispatch b w u p t)"
  by (cases "(b, w, u, p, t)" rule: dispatch.cases)
    (simp_all add: h_message_delete_def h_call_accept_def h_call_decline_def h_call_end_def
      h_call_relay_def, (intro eff_intro)+)
lemma eff_handle_pkt [eff_intro]: "steps R (handle_pkt c b w u p)"
  unfolding handle_pkt_def Let_def by (intro eff_intro)
lemma eff_handle_msg [eff_intro]: "steps R (handle_msg c b w u r)"
  unfolding handle_msg_def by (intro eff_intro) (simp split: json.split, intro conjI allI impI eff_intro)
lemma eff_cleanup [eff_intro]: "steps R (cleanup w u)"
  unfolding cleanup_def by (intro eff_intro)

end

end
