(* ===== verification/Ws_Properties.thy ===== *)
theory Ws_Properties
  imports Ws_Server
begin

text \<open>
  What the handlers of \<^verbatim>\<open>server/ws_server.py\<close> guarantee, branch by branch: who may act, whose name a packet
  carries, where a message goes, and the places where the guarantees stop.
\<close>

section \<open>Accounts and tokens\<close>

lemma get_by_username_session: "create_session k i n c e d = Inr d' \<Longrightarrow> get_by_username m d' = get_by_username m d"
  by (auto simp: create_session_def get_by_username_def split: if_splits)

lemma auth_register_Ok:
  assumes "auth_register u pw key s = (Inr (Auth_Ok tok v), s')"
  obtains p salt d uid k d1 t where "pw = JStr p" "v = u" "tok = JStr t" "get_by_username u (db s) = None"
    "pbkdf2 (utf8_encode p) salt PBKDF2_ITERATIONS = Inr d"
    "create_user uid u (hash_text salt d) (clock s) k (db s) = Inr d1"
    "create_session t uid u (clock s) (clock s + SESSION_TTL) d1 = Inr (db s')"
    "clock s' = clock s" "outbox s' = outbox s" "connections s' = connections s"
proof (cases pw)
  case (JStr p)
  then show ?thesis using assms that [OF JStr]
    by (auto simp: auth_register_def hash_password_app prog_simps Let_def
        split: option.splits sum.splits)
qed (use assms in \<open>auto simp: auth_register_def hash_password_def urandom_def prog_simps split: option.splits\<close>)

lemma auth_register_row:
  assumes "auth_register u pw key s = (Inr (Auth_Ok tok v), s')"
  shows "\<exists>p salt d r. pw = JStr p \<and> pbkdf2 (utf8_encode p) salt PBKDF2_ITERATIONS = Inr d \<and>
    get_by_username u (db s') = Some r \<and> u_password r = hash_text salt d"
  using assms
proof (rule auth_register_Ok)
  fix p salt d uid k d1 t
  assume "pw = JStr p" "pbkdf2 (utf8_encode p) salt PBKDF2_ITERATIONS = Inr d"
    and c: "create_user uid u (hash_text salt d) (clock s) k (db s) = Inr d1"
    "create_session t uid u (clock s) (clock s + SESSION_TTL) d1 = Inr (db s')"
  moreover have "get_by_username u (db s') = Some \<lparr>u_id = uid, u_name = u, u_password = hash_text salt d,
      u_public_key = k, u_created_at = clock s, u_last_seen = None\<rparr>"
    using get_by_username_create [OF c(1), of u] get_by_username_session [OF c(2)] by simp
  ultimately show ?thesis by auto
qed


text \<open> The token handed out at registration identifies its user until it expires, seven days later, and
  never afterwards. \<close>

theorem token_lifetime:
  assumes "auth_register u pw key s = (Inr (Auth_Ok (JStr tok) u), s')" "clock t = clock s' + delay" "0 \<le> delay"
    and "db t = db s'"
  shows "map_sum id (map_option s_username) (fst (validate_token tok t)) =
    Inr (if delay < SESSION_TTL then Some u else None)"
  using assms(1)
proof (rule auth_register_Ok)
  fix p salt d uid k d1 t'
  assume a: "JStr tok = JStr t'" "clock s' = clock s"
    and c: "create_session t' uid u (clock s) (clock s + SESSION_TTL) d1 = Inr (db s')"
  show ?thesis
    using get_session_create [OF c, of "clock t"] a assms(2-4) by (simp add: validate_token_def prog_simps)
qed

section \<open>Who may act\<close>

lemma auth_login_Ok:
  "auth_login checkpw u pw s = (Inr (Auth_Ok tok v), s') \<Longrightarrow> v = u \<and>
     (\<exists>r. get_by_username u (db s) = Some r \<and> verify_password checkpw pw (u_password r))"
  by (auto simp: auth_login_def prog_simps split: option.splits if_splits sum.splits)

lemma on_auth_success_Inr: "on_auth_success w tok u s = (Inr v, s') \<Longrightarrow> v = u"
  by (auto simp: on_auth_success_def bnd_app thn_app split: prod.splits sum.splits)

lemma auth_answer_Continue:
  "auth_answer w user res s = (Inr (Continue u), s') \<Longrightarrow>
     u = user \<or> (\<exists>tok v. res = Auth_Ok tok v \<and> u = Some v)"
  by (cases res) (auto simp: auth_answer_def bnd_app thn_app dest!: on_auth_success_Inr
      split: prod.splits sum.splits)

lemma login_authenticates:
  assumes "h_login checkpw w user pkt s = (Inr (Continue (Some u)), s')" "user \<noteq> Some u"
  shows "(\<exists>v t row. dget pkt ''token'' = Some v \<and> opt_text v = Inr (Some t) \<and>
       get_session t (clock s) (db s) = Some row \<and> s_username row = u) \<or>
    (dget pkt ''token'' = None \<and> opt_text (jget_or pkt ''username'' (JStr [])) = Inr (Some u) \<and>
       (\<exists>row. get_by_username u (db s) = Some row \<and>
         verify_password checkpw (jget_or pkt ''password'' (JStr [])) (u_password row)))"
proof -
  obtain res s1 where r: "(case dget pkt ''token'' of Some token \<Rightarrow> token_login token
      | None \<Rightarrow> password_login checkpw (jget_or pkt ''username'' (JStr [])) (jget_or pkt ''password'' (JStr []))) s
      = (Inr res, s1)" "auth_answer w user res s1 = (Inr (Continue (Some u)), s')"
    using assms(1) by (auto simp: h_login_def bnd_app split: sum.splits prod.splits)
  then obtain tok where res: "res = Auth_Ok tok u"
    using auth_answer_Continue [OF r(2)] assms(2) by auto
  show ?thesis
  proof (cases "dget pkt ''token''")
    case None
    then show ?thesis using r(1) res
      by (auto simp: password_login_def bnd_app dest: auth_login_Ok split: sum.splits option.splits)
  next
    case (Some v)
    then show ?thesis using r(1) res
      by (auto simp: token_login_def validate_token_def prog_simps split: sum.splits option.splits)
  qed
qed

text \<open> C7: Nobody becomes a user without a credential. A packet that changes who a connection acts for either
  registered a name that was free, presented an unexpired session token of that user, or presented a
  password that verifies against that user's stored hash. \<close>

theorem authentication_sound:
  assumes "handle_pkt checkpw base w user pkt s = (Inr (Continue (Some u)), s')" "user \<noteq> Some u"
  shows "(packet_type pkt = Some AUTH_REGISTER \<and> get_by_username u (db s) = None \<and>
       strip_field pkt ''username'' = Inr u) \<or>
    (packet_type pkt = Some AUTH_LOGIN \<and> (\<exists>v t row. dget pkt ''token'' = Some v \<and> opt_text v = Inr (Some t) \<and>
       get_session t (clock s) (db s) = Some row \<and> s_username row = u)) \<or>
    (packet_type pkt = Some AUTH_LOGIN \<and> dget pkt ''token'' = None \<and>
       opt_text (jget_or pkt ''username'' (JStr [])) = Inr (Some u) \<and>
       (\<exists>row. get_by_username u (db s) = Some row \<and>
         verify_password checkpw (jget_or pkt ''password'' (JStr [])) (u_password row)))"
proof -
  consider (reg) "packet_type pkt = Some AUTH_REGISTER" | (log) "packet_type pkt = Some AUTH_LOGIN"
    | (out) "packet_type pkt = Some AUTH_LOGOUT"
    | (other) "packet_type pkt \<notin> {Some AUTH_REGISTER, Some AUTH_LOGIN, Some AUTH_LOGOUT}" by blast
  then show ?thesis
  proof cases
    case reg
    then have "h_register w user pkt s = (Inr (Continue (Some u)), s')"
      using assms(1) by (simp add: handle_pkt_def)
    then obtain n res s1 where n: "strip_field pkt ''username'' = Inr n"
      and r: "auth_register n (jget_or pkt ''password'' (JStr [])) (jget pkt ''public_key'') s = (Inr res, s1)"
        "auth_answer w user res s1 = (Inr (Continue (Some u)), s')"
      using assms(2) by (auto simp: h_register_def bnd_app thn_app Let_def
          split: sum.splits if_splits prod.splits)
    then obtain tok where "res = Auth_Ok tok u"
      using auth_answer_Continue [OF r(2)] assms(2) by auto
    then have "n = u \<and> get_by_username u (db s) = None"
      using r(1) by (metis auth_register_Ok)
    then show ?thesis using reg n by blast
  next
    case log
    then have "h_login checkpw w user pkt s = (Inr (Continue (Some u)), s')"
      using assms(1) by (simp add: handle_pkt_def)
    then show ?thesis using login_authenticates [OF _ assms(2)] log by blast
  next
    case out
    then show ?thesis using assms(1)
      by (auto simp: handle_pkt_def h_logout_def thn_app split: sum.splits prod.splits option.splits)
  next
    case other
    then show ?thesis using assms
      by (auto simp: handle_pkt_def Let_def bnd_app thn_app split: sum.splits prod.splits option.splits)
  qed
qed

text \<open> A connection that has not authenticated can do nothing but authenticate: any other packet only
  earns it an UNAUTHORIZED error on its own socket, and the database, the registry, the calls and the files
  are untouched. \<close>

theorem unauthenticated_powerless:
  assumes "packet_type pkt \<notin> {Some AUTH_REGISTER, Some AUTH_LOGIN, Some AUTH_LOGOUT}"
    and "handle_pkt checkpw base w None pkt s = (r, s')"
  shows "db s' = db s \<and> connections s' = connections s \<and> calls s' = calls s \<and> fs_files s' = fs_files s \<and>
    rates s' = rates s \<and>
    (if w \<in> broken s then r = Inl ConnectionClosed \<and> outbox s' = outbox s
     else r = Inr (Continue None) \<and> outbox s' = outbox s @ [(w, json_dumps (JObj (packet_fields ''ERROR''
       (next_id s) (clock s) [(''error'', JStr ''UNAUTHORIZED'')])))])"
  using assms by (auto simp: handle_pkt_def prog_simps)

section \<open>Messages\<close>

lemma stamp_fields: "dget (stamp u pkt) k = (if k = ''from'' then Some (JStr u) else dget pkt k)"
  by (simp add: stamp_def)

lemma stamp_wf: "json_wf (JObj pkt) \<Longrightarrow> json_wf (JObj (stamp u pkt))"
  by (simp add: stamp_def wf_members_dset distinct_dset)

lemma name_field_str: "dget pkt k = Some (JStr v) \<Longrightarrow> v \<noteq> [] \<Longrightarrow> name_field pkt k = Inr (Some v)"
  by (simp add: name_field_def jget_def as_name_def)

text \<open>The acknowledgement a sender gets.\<close>

definition delivery :: "server \<Rightarrow> json \<Rightarrow> string \<Rightarrow> string" where
  "delivery s i status = json_dumps (JObj (packet_fields ''DELIVERY'' (next_id s) (clock s)
     [(''msg_id'', i), (''status'', JStr status)]))"

lemma h_message_app:
  assumes "dget pkt ''to'' = Some (JStr v)" "v \<noteq> []" "dget pkt ''id'' = Some (JStr i)" "w \<notin> broken s"
  shows "h_message w u pkt s = (Inr (), case reachable s v of
     Some t \<Rightarrow> s\<lparr>epos := epos s + 16, outbox := outbox s @
       [(t, json_dumps (JObj (stamp u pkt))), (w, delivery s (JStr i) ''delivered'')]\<rparr>
   | None \<Rightarrow> s\<lparr>epos := epos s + 16, db := db_enqueue i v (json_dumps (JObj (stamp u pkt))) (clock s) (db s),
       outbox := outbox s @ [(w, delivery s (JStr i) ''queued'')]\<rparr>)"
  using assms
  by (auto simp: h_message_def name_field_str send_or_queue_def prog_simps reachable_def item_def
      item_str_def stamp_fields delivery_def Let_def next_id_def split: option.splits)

text \<open> C11: A message is delivered now or queued, and the sender is told which. What the recipient gets, now or
  from the queue, is the packet with its \<^verbatim>\<open>from\<close> overwritten by the authenticated sender's name, whatever the
  client wrote there, and every other field as sent. \<close>

theorem message_delivered_or_queued:
  assumes "dget pkt ''to'' = Some (JStr v)" "v \<noteq> []" "dget pkt ''id'' = Some (JStr i)" "w \<notin> broken s"
    and "json_wf (JObj pkt)" "i \<notin> queued_ids (db s)"
    and "dispatch base w u pkt (Some MESSAGE) s = (r, s')"
  shows "\<exists>raw stamped. parse_packet raw = Inr (JObj stamped) \<and>
    (\<forall>k. dget stamped k = (if k = ''from'' then Some (JStr u) else dget pkt k)) \<and> r = Inr () \<and>
    (case reachable s v of
       Some t \<Rightarrow> outbox s' = outbox s @ [(t, raw), (w, delivery s (JStr i) ''delivered'')] \<and> db s' = db s
     | None \<Rightarrow> outbox s' = outbox s @ [(w, delivery s (JStr i) ''queued'')] \<and>
         offline_queue (db s') = offline_queue (db s) @
           [\<lparr>q_id = i, q_to_user = v, q_packet = raw, q_created_at = clock s\<rparr>])"
proof -
  have "parse_packet (json_dumps (JObj (stamp u pkt))) = Inr (JObj (stamp u pkt))"
    using stamp_wf [OF assms(5)] by (rule parse_packet_dumps)
  then show ?thesis
    using assms(7) h_message_app [OF assms(1-4), of u] assms(6) stamp_fields [of u pkt]
    by (intro exI [of _ "json_dumps (JObj (stamp u pkt))"] exI [of _ "stamp u pkt"])
      (auto simp: offline_queue_fresh split: option.splits)
qed

text \<open> The acknowledgement can be wrong. Queue ids are the senders' message ids, and an id already in the
  queue is ignored: a second message under that id to an offline user is dropped, and its sender is still told
  that it was queued. \<close>

theorem queued_message_lost:
  assumes "dget pkt ''to'' = Some (JStr v)" "v \<noteq> []" "dget pkt ''id'' = Some (JStr i)" "w \<notin> broken s"
    and "i \<in> queued_ids (db s)" "reachable s v = None"
  shows "fst (h_message w u pkt s) = Inr () \<and> db (snd (h_message w u pkt s)) = db s \<and>
    outbox (snd (h_message w u pkt s)) = outbox s @ [(w, delivery s (JStr i) ''queued'')]"
  using h_message_app [OF assms(1-4), of u] assms(5,6) by (simp add: offq.put_known)

text \<open> Posting to a room is refused to non-members, but editing is not: a ROOM_MESSAGE of a user who is not
  in the room only earns NOT_IN_ROOM, while a MESSAGE_EDIT naming the same room is sent to every reachable
  member as that user's. \<close>

theorem edit_skips_membership:
  assumes "dget pkt ''room_id'' = Some (JStr rid)" "rid \<noteq> []" "py_strip rid = rid" "dget pkt ''id'' = Some i"
    and "u \<notin> set (select_members rid (db s))" "m \<in> set (select_members rid (db s))"
    and "reachable s m = Some t" "w \<notin> broken s"
  shows "outbox (snd (h_room_message w u pkt s)) = outbox s @
      [(w, json_dumps (JObj (packet_fields ''ERROR'' (next_id s) (clock s) [(''error'', JStr ''NOT_IN_ROOM'')])))] \<and>
    (t, json_dumps (JObj (stamp u pkt))) \<in> set (outbox (snd (h_message_edit ''edit'' ''edited'' w u pkt s)))"
proof
  show "outbox (snd (h_room_message w u pkt s)) = outbox s @
      [(w, json_dumps (JObj (packet_fields ''ERROR'' (next_id s) (clock s) [(''error'', JStr ''NOT_IN_ROOM'')])))]"
    using assms by (simp add: h_room_message_def strip_field_def str_field_def jget_or_def get_members_def prog_simps)
  have "m \<noteq> u" using assms(5,6) by auto
  have rid: "name_field (stamp u pkt) ''room_id'' = Inr (Some rid)"
    using assms(1,2) by (intro name_field_str) (simp_all add: stamp_fields)
  obtain s1 where s1: "route_room_message rid (stamp u pkt) u s = (Inr (), s1)"
    "(outbox s1, db s1) = route_spec i (json_dumps (JObj (stamp u pkt)))
       (filter (\<lambda>m. m \<noteq> u) (select_members rid (db s))) s" "broken s1 = broken s"
    using route_room_message_spec [of "stamp u pkt" i rid u s] assms(4) by (auto simp: stamp_fields)
  have "(t, json_dumps (JObj (stamp u pkt))) \<in> set (outbox s1)"
    using s1(2) assms(6,7) \<open>m \<noteq> u\<close> by (force simp: route_spec_def)
  then show "(t, json_dumps (JObj (stamp u pkt))) \<in> set (outbox (snd (h_message_edit ''edit'' ''edited'' w u pkt s)))"
    using rid s1(1,3) assms(8) by (simp add: h_message_edit_def Let_def prog_simps)
qed

section \<open>Synchronisation and disconnection\<close>

text \<open> A synchronisation request from a point in time clears more than it returns: it answers with the
  packets queued after that point and then deletes the whole queue, so an earlier packet is gone undelivered. \<close>

theorem sync_drops_older:
  assumes "dget pkt ''since'' = Some (JInt since)" "0 \<le> since" "since < 2 ^ 63" "w \<notin> broken s"
  shows "\<exists>s'. h_sync_request w u pkt s = (Inr (), s') \<and>
    outbox s' = outbox s @ [(w, json_dumps (JObj (packet_fields ''SYNC_RESPONSE'' (next_id s) (clock s)
      [(''messages'', JList (map JStr (map q_packet (get_queued u since (db s)))))])))] \<and>
    (\<forall>n. get_queued u n (db s') = [])"
  using assms
  by (auto simp: h_sync_request_def jget_or_def sql_int_def prog_simps clear_queue_def get_queued_def
      filter_empty_conv intro!: arg_cong [of _ _ "\<lambda>xs. sort_key _ xs"])

text \<open> Closing an old connection disconnects a newer one. The cleanup of a connection removes its user from
  the registry even when the name is registered to another socket, and it refills the user's and the peer's
  rate buckets. \<close>

theorem cleanup_forgets_user:
  assumes "u \<noteq> []" "cleanup w (Some u) s = (r, s')"
  shows "lookup (connections s') u = None \<and> dget (buckets (rates s')) u = None \<and>
    dget (buckets (rates s')) (peer_of s w) = None"
proof -
  let ?f = "\<lambda>p (uname, w). if uname \<noteq> u then attempt (ws_send w p) (\<lambda>_. router_unregister uname) else ret ()"
  have loop: "\<exists>t'. for_each (?f p) cs t = (Inr (), t') \<and> rates t' = rates t \<and>
      (lookup (connections t) u = None \<longrightarrow> lookup (connections t') u = None)" for p cs t
  proof (induction cs arbitrary: t)
    case (Cons c cs)
    obtain n v where c: "c = (n, v)" by (cases c)
    show ?case
      using Cons.IH [of t] Cons.IH [of "t\<lparr>outbox := outbox t @ [(v, p)]\<rparr>"]
        Cons.IH [of "t\<lparr>connections := unregister n (connections t)\<rparr>"]
      by (auto simp: c prog_simps reg.get_del split: if_splits)
  qed simp
  have "\<exists>t'. broadcast_status u st t = (Inr (), t') \<and> rates t' = rates t \<and>
      (lookup (connections t) u = None \<longrightarrow> lookup (connections t') u = None)" for st t
    using loop [of "json_dumps (JObj (packet_fields ''STATUS'' (next_id t) (clock t)
      [(''user'', JStr u), (''status'', JStr st)]))" "connections t" "t\<lparr>epos := epos t + 16\<rparr>"]
    by (simp add: broadcast_status_def bnd_app)
  from this [of "''offline''" "s\<lparr>connections := unregister u (connections s),
      rates := rl_reset u (rates s)\<rparr>"]
  obtain t' where t': "broadcast_status u ''offline'' (s\<lparr>connections := unregister u (connections s),
      rates := rl_reset u (rates s)\<rparr>) = (Inr (), t')" "rates t' = rl_reset u (rates s)"
    "lookup (connections t') u = None" by (auto simp: reg.get_del)
  then have "s' = t'\<lparr>rates := rl_reset (peer_of s w) (rates t')\<rparr>"
    using assms by (simp add: cleanup_def prog_simps rate_reset_def)
  then show ?thesis using t' by (simp add: rl_reset_def)
qed

section \<open>The properties at concrete inputs\<close>

definition ws_example :: server where
  "ws_example = (boot byte_of 100 0)\<lparr>connections := [(''alice'', 1), (''bob'', 2)],
     db := empty_db\<lparr>sessions := [\<lparr>s_token = ''t'', s_user_id = ''7'', s_username = ''alice'', s_created_at = 1,
         s_expires_at = 500\<rparr>],
       offline_queue := [\<lparr>q_id = ''q'', q_to_user = ''carol'', q_packet = ''old'', q_created_at = 5\<rparr>],
       room_members := [\<lparr>m_room_id = ''r'', m_username = ''bob'', m_joined_at = 1\<rparr>]\<rparr>\<rparr>"

lemma ws_example_simps [simp]:
  "broken ws_example = {}" "connections ws_example = [(''alice'', 1), (''bob'', 2)]"
  "clock ws_example = 100" "outbox ws_example = []"
  "sessions (db ws_example) = [\<lparr>s_token = ''t'', s_user_id = ''7'', s_username = ''alice'', s_created_at = 1,
     s_expires_at = 500\<rparr>]"
  "offline_queue (db ws_example) = [\<lparr>q_id = ''q'', q_to_user = ''carol'', q_packet = ''old'', q_created_at = 5\<rparr>]"
  "room_members (db ws_example) = [\<lparr>m_room_id = ''r'', m_username = ''bob'', m_joined_at = 1\<rparr>]"
  "remote ws_example = (\<lambda>_. None)"
  by (simp_all add: ws_example_def boot_def)

lemma ws_example_reach: "reachable ws_example ''bob'' = Some 2" "reachable ws_example ''carol'' = None"
  by (simp_all add: reachable_def lookup_def)

lemma register_example:
  "\<exists>tok s'. auth_register ''al'' (JStr ''pw'') JNull (boot byte_of 100 0) = (Inr (Auth_Ok (JStr tok) ''al''), s') \<and>
     next_id s' \<notin> s_token ` set (sessions (db s'))"
proof -
  have "uuid4_str (map (\<lambda>i. byte_of (32 + i)) [0..<16]) \<noteq> uuid4_str (map (\<lambda>i. byte_of (48 + i)) [0..<16])"
    by code_simp
  then show ?thesis
    by (auto simp: auth_register_def hash_password_app prog_simps boot_def empty_db_def get_by_username_def
        create_user_def create_session_def pbkdf2_def PBKDF2_ITERATIONS_def Let_def next_id_def)
qed


lemma token_lifetime_witness:
  "\<exists>tok s'. auth_register ''al'' (JStr ''pw'') JNull (boot byte_of 100 0) = (Inr (Auth_Ok (JStr tok) ''al''), s') \<and>
     map_sum id (map_option s_username) (fst (validate_token tok (s'\<lparr>clock := clock s' + 604799\<rparr>))) = Inr (Some ''al'') \<and>
     map_sum id (map_option s_username) (fst (validate_token tok (s'\<lparr>clock := clock s' + 604800\<rparr>))) = Inr None"
proof -
  obtain tok s' where r: "auth_register ''al'' (JStr ''pw'') JNull (boot byte_of 100 0) = (Inr (Auth_Ok (JStr tok) ''al''), s')"
    using register_example by blast
  then show ?thesis
    using token_lifetime [OF r, of "s'\<lparr>clock := clock s' + 604799\<rparr>" 604799]
      token_lifetime [OF r, of "s'\<lparr>clock := clock s' + 604800\<rparr>" 604800]
    by (auto simp: SESSION_TTL_def)
qed

definition login_packet :: packet where
  "login_packet = [(''type'', JStr ''AUTH_LOGIN''), (''token'', JStr ''t'')]"

lemma login_packet_type: "packet_type login_packet = Some AUTH_LOGIN"
  using msg_type_of_str [of AUTH_LOGIN] by (simp add: packet_type_def login_packet_def jget_def)

lemma authentication_sound_witness:
  "fst (handle_pkt (\<lambda>_ _. Inr False) ''/srv'' 9 None login_packet ws_example) = Inr (Continue (Some ''alice'')) \<and>
   (\<exists>row. get_session ''t'' 100 (db ws_example) = Some row \<and> s_username row = ''alice'')"
proof -
  have "token_login (JStr ''t'') ws_example = (Inr (Auth_Ok (JStr ''t'') ''alice''), ws_example)"
    by (simp add: token_login_def validate_token_def prog_simps get_session_def)
  moreover have "\<exists>s'. auth_answer 9 None (Auth_Ok (JStr ''t'') ''alice'') ws_example =
      (Inr (Continue (Some ''alice'')), s')"
    by (simp add: auth_answer_def on_auth_success_def flush_offline_def broadcast_status_def whenp_def
        prog_simps register_def get_queued_def)
  ultimately obtain s' where h: "handle_pkt (\<lambda>_ _. Inr False) ''/srv'' 9 None login_packet ws_example =
      (Inr (Continue (Some ''alice'')), s')"
    using login_packet_type by (auto simp: handle_pkt_def h_login_def bnd_app login_packet_def)
  then show ?thesis using authentication_sound [OF h] login_packet_type
    by (auto simp: login_packet_def)
qed

lemma unauthenticated_powerless_witness:
  "db (snd (handle_pkt (\<lambda>_ _. Inr False) ''/srv'' 9 None [(''type'', JStr ''PING'')] ws_example)) = db ws_example"
proof -
  have t: "packet_type [(''type'', JStr ''PING'')] = Some PING"
    using msg_type_of_str [of PING] by (simp add: packet_type_def jget_def)
  obtain r s' where h: "handle_pkt (\<lambda>_ _. Inr False) ''/srv'' 9 None [(''type'', JStr ''PING'')] ws_example = (r, s')"
    by fastforce
  show ?thesis using unauthenticated_powerless [OF _ h] t h by simp
qed

definition carol_packet :: packet where
  "carol_packet = [(''to'', JStr ''carol''), (''id'', JStr ''m1''), (''from'', JStr ''bob''), (''text'', JStr ''hi'')]"

lemma message_delivered_or_queued_witness:
  "map q_id (offline_queue (db (snd (dispatch ''/srv'' 1 ''alice'' carol_packet (Some MESSAGE) ws_example)))) = [''q'', ''m1'']"
proof -
  obtain r s' where h: "dispatch ''/srv'' 1 ''alice'' carol_packet (Some MESSAGE) ws_example = (r, s')" by fastforce
  show ?thesis
    using message_delivered_or_queued [of carol_packet "''carol''" "''m1''" 1 ws_example, OF _ _ _ _ _ _ h] h
    by (auto simp: carol_packet_def queued_ids_def ws_example_reach)
qed

lemma queued_message_lost_witness:
  "db (snd (h_message 1 ''alice'' [(''to'', JStr ''carol''), (''id'', JStr ''q'')] ws_example)) = db ws_example"
  using queued_message_lost [of "[(''to'', JStr ''carol''), (''id'', JStr ''q'')]" "''carol''" "''q''" 1 ws_example]
  by (simp add: queued_ids_def ws_example_reach)

lemma edit_skips_membership_witness:
  "2 \<in> fst ` set (outbox (snd (h_message_edit ''edit'' ''edited'' 1 ''alice''
     [(''room_id'', JStr ''r''), (''id'', JStr ''e'')] ws_example)))"
  using edit_skips_membership [of "[(''room_id'', JStr ''r''), (''id'', JStr ''e'')]" "''r''" "JStr ''e''" "''alice''"
      ws_example "''bob''" 2 1]
  by (force simp: select_members_def ws_example_reach py_strip_id py_space_def)

lemma sync_drops_older_witness:
  "get_queued ''carol'' 0 (db ws_example) \<noteq> [] \<and> get_queued ''carol'' 50 (db ws_example) = [] \<and>
   get_queued ''carol'' 0 (db (snd (h_sync_request 1 ''carol'' [(''since'', JInt 50)] ws_example))) = []"
  using sync_drops_older [of "[(''since'', JInt 50)]" 50 1 ws_example "''carol''"]
  by (auto simp: get_queued_def)

lemma cleanup_forgets_user_witness:
  "lookup (connections ws_example) ''bob'' = Some 2 \<and>
   lookup (connections (snd (cleanup 1 (Some ''bob'') ws_example))) ''bob'' = None"
proof -
  obtain r s' where h: "cleanup 1 (Some ''bob'') ws_example = (r, s')" by fastforce
  show ?thesis using cleanup_forgets_user [OF _ h] h by (simp add: lookup_def)
qed

end
