(* ===== verification/End_To_End.thy ===== *)
theory End_To_End
  imports App_Properties Ws_Properties
begin

text \<open>
  Properties that span the sending application, the server and the receiving application: what one user types
  is what the other one's database holds, and what the server gets to see of it.
\<close>

section \<open>The sender\<close>

text \<open>Enter on a line of text, in a chat with a user whose key is stored.\<close>

lemma enter_sends:
  assumes "crypto_ok C" "length priv = 32" "ctx a \<noteq> None" "ready a"
    and "current_chat a = Some v" "v \<noteq> []" "\<not> is_room_chat v"
    and "py_strip (buf a) = txt" "txt \<noteq> []" "\<not> starts_with txt ''/''"
    and "contact_public_key v (cdb a) = Some (b64_encode (c_pub C priv))"
  shows "\<exists>payload i. send_q (app_step C url host a (Key 10 io)) = send_q a @
      [json_dumps (JObj (packet_fields ''MESSAGE'' i (clock a)
        [(''id'', JStr (next_id a)), (''from'', JStr (me a)), (''to'', JStr v), (''payload'', JObj payload),
         (''timestamp'', JInt (clock a))]))] \<and>
    json_wf (JObj payload) \<and> incoming_text C (Some priv) payload = JStr txt \<and> dget payload ''text'' = None \<and>
    cdb (app_step C url host a (Key 10 io)) =
      add_contact v None (clock a) (save_message (next_id a) (me a) v (Some txt) (clock a) 0 (cdb a))"
proof -
  let ?a = "a\<lparr>buf := [], cursor := 0, dirty := True\<rparr>"
  obtain payload i t where m: "msg_send C v txt ?a = (Inr (next_id ?a), t)"
      "send_q t = send_q ?a @ [json_dumps (JObj (packet_fields ''MESSAGE'' i (clock ?a)
        [(''id'', JStr (next_id ?a)), (''from'', JStr (me ?a)), (''to'', JStr v), (''payload'', JObj payload),
         (''timestamp'', JInt (clock ?a))]))]"
      "cdb t = add_contact v None (clock ?a) (save_message (next_id ?a) (me ?a) v (Some txt) (clock ?a) 0 (cdb ?a))"
      "json_wf (JObj payload)" "incoming_text C (Some priv) payload = JStr txt" "dget payload ''text'' = None"
    by (rule msg_send_sealed [OF assms(1,2), of ?a v "txt"]) (use assms in auto)
  obtain c cs where v: "v = c # cs" using assms(6) by (cases v) auto
  have "send_q (app_step C url host a (Key 10 io)) = send_q t" "cdb (app_step C url host a (Key 10 io)) = cdb t"
    using assms m(1) v
    by (simp_all add: handle_key_def submit_def prog_simps submit_message_def load_messages_def split: option.split list.split)
  moreover have "next_id ?a = next_id a" by (simp add: next_id_def)
  ultimately show ?thesis using m by auto
qed

section \<open>The receiver\<close>

lemma new_message_kept:
  "messages (cdb (snd (on_new_message pkt b))) = messages (cdb b) \<or>
   (\<exists>u w. messages (cdb (snd (on_new_message pkt b))) = messages (mark_read u w (cdb b)))"
  by (auto simp: on_new_message_def prog_simps load_messages_def set_unread_def refresh_contacts_def
      c_add_contact_def Let_def mark_read_def split: sum.splits option.splits list.splits)

lemma mark_read_keeps:
  "m \<in> set (messages d) \<Longrightarrow> \<exists>m' \<in> set (messages (mark_read u w d)). msg_id m' = msg_id m \<and>
     msg_from_user m' = msg_from_user m \<and> msg_to_user m' = msg_to_user m \<and> msg_plaintext m' = msg_plaintext m \<and>
     msg_timestamp m' = msg_timestamp m"
  by (rule bexI [of _ "if unread_from u w m then m\<lparr>msg_read_status := 1\<rparr> else m"])
    (auto simp: mark_read_def set_update_rows)

text \<open>A message packet in a sealed or plain payload, at an application that has not stored its id.\<close>

lemma packet_stored:
  assumes "packet_type pkt = Some MESSAGE" "ready b" "dget pkt ''id'' = Some (JStr i)" "i \<noteq> []"
    and "dget pkt ''from'' = Some (JStr u)" "u \<noteq> []" "dget pkt ''timestamp'' = Some (JInt ts)" "0 < ts" "ts < 2 ^ 63"
    and "dget pkt ''payload'' = Some (JObj p)" "incoming_text C (ctx b) p = JStr txt" "i \<notin> msg_id ` set (messages (cdb b))"
  shows "\<exists>m \<in> set (messages (cdb (app_step C url host b (Packet pkt)))). msg_id m = i \<and> msg_from_user m = u \<and>
    msg_to_user m = me b \<and> msg_plaintext m = Some txt \<and> msg_timestamp m = ts"
proof -
  let ?b = "b\<lparr>cdb := add_contact u None (clock b) (save_message i u (me b) (Some txt) ts 1 (cdb b))\<rparr>"
  let ?pkt = "dset ''_plaintext'' (JStr txt) pkt"
  have s: "messages (cdb (app_step C url host b (Packet pkt))) = messages (cdb (snd (on_new_message ?pkt ?b)))"
    using assms(1,2) incoming_stores [OF assms(3-11), of on_new_message]
    by (simp add: app_step_packet [where f = "\<lambda>s. messages (cdb s)"] route_packet_def bnd_app whenp_def app_incoming_def
        del: app_step.simps)
  let ?m = "\<lparr>msg_id = i, msg_from_user = u, msg_to_user = me b, msg_plaintext = Some txt, msg_timestamp = ts,
      msg_delivered = 1, msg_read_status = 0, msg_edited = 0, msg_deleted = 0, msg_reply_to = None\<rparr>"
  have m: "?m \<in> set (messages (cdb ?b))" using assms(12) by (simp add: messages_save_new)
  from new_message_kept [of ?pkt ?b] show ?thesis
  proof (elim disjE exE)
    assume "messages (cdb (snd (on_new_message ?pkt ?b))) = messages (cdb ?b)"
    then show ?thesis using m unfolding s by (intro bexI [of _ ?m]) auto
  next
    fix x y
    assume "messages (cdb (snd (on_new_message ?pkt ?b))) = messages (mark_read x y (cdb ?b))"
    then show ?thesis using mark_read_keeps [OF m, of x y] unfolding s by auto
  qed
qed

section \<open>The server in between\<close>

lemma message_forwarded:
  assumes "json_wf (JObj pkt)" "packet_type pkt = Some MESSAGE" "fst (rl_allow (mono s) u (rates s))"
    and "dget pkt ''to'' = Some (JStr v)" "v \<noteq> []" "dget pkt ''id'' = Some (JStr i)" "u \<noteq> []" "w \<notin> broken s"
    and "i \<notin> queued_ids (db s)" "handle_msg checkpw base w (Some u) (json_dumps (JObj pkt)) s = (r, s')"
  shows "\<exists>raw. parse_packet raw = Inr (JObj (stamp u pkt)) \<and> r = Inr (Continue (Some u)) \<and>
    (case reachable s v of Some t \<Rightarrow> (t, raw) \<in> set (outbox s')
     | None \<Rightarrow> \<exists>q \<in> set (offline_queue (db s')). q_to_user q = v \<and> q_packet q = raw)"
proof -
  obtain l where l: "rl_allow (mono s) u (rates s) = (True, l)" using assms(3) by (cases "rl_allow (mono s) u (rates s)") auto
  let ?s = "s\<lparr>rates := l\<rparr>" let ?raw = "json_dumps (JObj (stamp u pkt))"
  have "handle_msg checkpw base w (Some u) (json_dumps (JObj pkt)) s = thn (h_message w u pkt) (ret (Continue (Some u))) ?s"
    using assms(1,2,7) l by (simp add: handle_msg_def prog_simps rate_allow_def parse_packet_dumps handle_pkt_def)
  then have "thn (h_message w u pkt) (ret (Continue (Some u))) ?s = (r, s')" using assms(10) by simp
  then have "r = Inr (Continue (Some u)) \<and>
    (case reachable s v of Some t \<Rightarrow> (t, ?raw) \<in> set (outbox s')
     | None \<Rightarrow> \<exists>q \<in> set (offline_queue (db s')). q_to_user q = v \<and> q_packet q = ?raw)"
    using assms(9) h_message_app [OF assms(4-6), of w ?s u] assms(8)
    by (auto simp: prog_simps reachable_def offline_queue_fresh split: option.splits)
  then show ?thesis using parse_packet_dumps [OF stamp_wf [OF assms(1), of u]] by blast
qed

section \<open>Properties\<close>



definition ann_app :: app where
  "ann_app = app_boot ''ann'' (Some (replicate 32 9))\<lparr>current_chat := Some ''bob'', buf := ''hi'',
     cdb := store_public_key ''bob'' (b64_encode (replicate 32 8)) 5 init_client_db\<rparr>"

lemma ann_app_facts: "ready ann_app" "ctx ann_app \<noteq> None" "current_chat ann_app = Some ''bob''" "clock ann_app = 9"
  "py_strip (buf ann_app) = ''hi''"
  "contact_public_key ''bob'' (cdb ann_app) = Some (b64_encode (c_pub toy (replicate 32 8)))"
  by (simp_all add: ann_app_def app_boot_def py_strip_def py_lstrip_def py_rstrip_def py_space_def
      contact_public_key_def find_contact_def store_public_key_def add_contact_def init_client_db_def
      insert_or_ignore_def update_rows_def toy_def Let_def)



end
