(* ===== verification/Call_End_To_End.thy ===== *)
theory Call_End_To_End
  imports End_To_End
begin

text \<open>
  A call across the three programs: one user types \<open>/call start\<close>, the server rings the other one, who types
  \<open>/call accept\<close>; both end up with the same key and a running stream, and the audio that one captures is
  what the other plays. The last section compares the rate of the audio with the server's rate limit.
\<close>

section \<open>The receiving end of the connection\<close>

text \<open>
  \<^verbatim>\<open>async for raw in ws\<close>: a text that is no packet is logged and dropped, and so is an exception of the router
  (a packet that is no object raises there, before it changes anything).
\<close>

definition receive_raw :: "crypto \<Rightarrow> string \<Rightarrow> audio_host \<Rightarrow> 'e app_scheme \<Rightarrow> string \<Rightarrow> 'e app_scheme" where
  "receive_raw C url host s raw =
    (case parse_packet raw of Inr (JObj pkt) \<Rightarrow> app_step C url host s (Packet pkt) | _ \<Rightarrow> s)"

lemma receive_dumps:
  "json_wf (JObj pkt) \<Longrightarrow> receive_raw C url host s (json_dumps (JObj pkt)) = app_step C url host s (Packet pkt)"
  by (simp add: receive_raw_def parse_packet_dumps)

section \<open>The server\<close>

text \<open>One signalling packet, at a server that lets it pass.\<close>

lemma handle_signal:
  assumes "json_wf (JObj pkt)" "packet_type pkt = Some ty" "ty \<notin> {AUTH_REGISTER, AUTH_LOGIN, AUTH_LOGOUT}"
    and "u \<noteq> []" "fst (rl_allow (mono s) u (rates s))"
  shows "handle_msg checkpw base w (Some u) (json_dumps (JObj pkt)) s =
    thn (dispatch base w u pkt (Some ty)) (ret (Continue (Some u))) (s\<lparr>rates := snd (rl_allow (mono s) u (rates s))\<rparr>)"
  using assms by (cases "rl_allow (mono s) u (rates s)")
    (simp add: handle_msg_def prog_simps rate_allow_def parse_packet_dumps handle_pkt_def)

lemma strip_str: "dget pkt k = Some (JStr v) \<Longrightarrow> py_strip v = v \<Longrightarrow> strip_field pkt k = Inr v"
  by (simp add: strip_field_def str_field_def jget_or_def)

definition ip_of :: "server \<Rightarrow> ws \<Rightarrow> string" where
  "ip_of s w = (case remote s w of None \<Rightarrow> [] | Some ip \<Rightarrow> ip)"

text \<open>The invitation rings at the callee.\<close>

lemma server_invites:
  assumes "json_wf (JObj pkt)" "packet_type pkt = Some CALL_INVITE" "u \<noteq> []" "fst (rl_allow (mono s) u (rates s))"
    and "dget pkt ''to'' = Some (JStr v)" "py_strip v = v" "v \<noteq> []" "reachable s v = Some wv"
    and "dget pkt ''session_id'' = Some (JStr sid)" "sid \<noteq> []" "get_call sid (db s) = None"
    and "handle_msg checkpw base w (Some u) (json_dumps (JObj pkt)) s = (r, s')"
  shows "\<exists>i info. r = Inr (Continue (Some u)) \<and> get_session_mem (calls s') sid = Some
      \<lparr>cs_id = sid, cs_caller = u, cs_callee = v, cs_status = ''pending'', cs_caller_info = info,
       cs_callee_info = None, cs_created_at = clock s\<rparr> \<and>
    outbox s' = outbox s @ [(wv, json_dumps (JObj (signal_fields ''CALL_INVITE'' i (clock s) sid @
      [(''from'', JStr u), (''caller'', JStr u), (''to'', JStr v), (''caller_ip'', JStr (ip_of s w)),
       (''local_port'', jget pkt ''local_port''), (''caller_udp_port'', jget pkt ''local_port''),
       (''ephemeral_pubkey'', jget pkt ''ephemeral_pubkey''), (''caller_pubkey'', jget pkt ''ephemeral_pubkey'')])))] \<and>
    connections s' = connections s \<and> broken s' = broken s"
proof -
  have v: "lookup (connections s) v = Some wv" "wv \<notin> broken s"
    using assms(8) by (auto simp: reachable_def split: option.splits if_splits)
  obtain d where d: "create_call sid u v (clock s) (db s) = Inr d"
    using assms(11) by (auto simp: create_call_def get_call_def find_None_image)
  show ?thesis
    using assms(12) handle_signal [OF assms(1,2) _ assms(3,4)] strip_str [OF assms(5,6)] v d assms(7,9,10)
    by (auto simp: h_call_invite_def jget_or_def own_ip_def ip_of_def call_invite_def prog_simps whenp_def
        sess.get_put Let_def split: option.splits)
qed

text \<open>The acceptance of a ringing call reaches its caller.\<close>

lemma server_accepts:
  assumes "json_wf (JObj pkt)" "packet_type pkt = Some CALL_ACCEPT" "v \<noteq> []" "fst (rl_allow (mono s) v (rates s))"
    and "dget pkt ''session_id'' = Some (JStr sid)" "get_session_mem (calls s) sid = Some c" "cs_status c = ''pending''"
    and "reachable s (cs_caller c) = Some wu"
    and "handle_msg checkpw base w (Some v) (json_dumps (JObj pkt)) s = (r, s')"
  shows "\<exists>i. r = Inr (Continue (Some v)) \<and> phase_of s' sid = Active (cs_caller c) (cs_callee c) \<and>
    outbox s' = outbox s @ [(wu, json_dumps (JObj (signal_fields ''CALL_ACCEPT'' i (clock s) sid @
      [(''from'', JStr (cs_callee c)), (''to'', JStr (cs_caller c)), (''callee_ip'', JStr (ip_of s w)),
       (''local_port'', jget pkt ''local_port''), (''callee_udp_port'', jget pkt ''local_port''),
       (''ephemeral_pubkey'', jget pkt ''ephemeral_pubkey''), (''callee_pubkey'', jget pkt ''ephemeral_pubkey'')])))]"
proof -
  have u: "lookup (connections s) (cs_caller c) = Some wu" "wu \<notin> broken s"
    using assms(8) by (auto simp: reachable_def split: option.splits if_splits)
  show ?thesis
    using assms(9) handle_signal [OF assms(1,2) _ assms(3,4)] u assms(5-7)
    by (auto simp: h_call_accept_def with_call_def jget_or_def own_ip_def ip_of_def call_accept_def prog_simps
        sess.get_put phase_of_def split: option.splits)
qed

section \<open>The callee\<close>

lemma invite_rings:
  assumes "packet_type pkt = Some CALL_INVITE" "ready b" "dget pkt ''session_id'' = Some (JStr sid)"
    and "dget pkt ''from'' = Some (JStr u)" "dget pkt ''timestamp'' = Some (JInt ts)" "0 < ts" "ts < 2 ^ 63"
    and "dget pkt ''caller_udp_port'' = Some (JInt p)" "dget pkt ''local_port'' = Some (JInt p)"
    and "b1 = app_step C url host b (Packet pkt)"
  shows "pending_calls b1 = dset sid (JStr u, jget pkt ''ephemeral_pubkey'') (pending_calls b)" "ready b1" "me b1 = me b"
    "buf b1 = buf b" "send_q b1 = send_q b" "clock b1 = clock b" "muted b1 = muted b"
proof -
  have "packet_type pkt = Some CALL_INVITE \<Longrightarrow> jget pkt ''type'' = JStr ''CALL_INVITE''" by (simp add: packet_type_Some)
  then have "b1 = snd (case handle_call_invite on_incoming_call pkt b of (Inl e, t) \<Rightarrow> (Inl e, t)
      | (Inr x, t) \<Rightarrow> (Inr (), t\<lparr>dirty := True\<rparr>))"
    using assms(1,2,10) by (simp add: app_route_app route_packet_def bnd_app whenp_def call_types_def file_types_def app_call_incoming_def call_handle_incoming_def)
  moreover have "p = 0 \<or> truthy (JInt p)" by simp
  ultimately have "pending_calls b1 = dset sid (JStr u, jget pkt ''ephemeral_pubkey'') (pending_calls b) \<and> ready b1 \<and>
      me b1 = me b \<and> buf b1 = buf b \<and> send_q b1 = send_q b \<and> clock b1 = clock b \<and> muted b1 = muted b"
    using assms(2-9) by (auto simp: handle_call_invite_def Let_def jget_or_def jget_def time_or_now_def prog_simps
        peer_address_def py_or_def sql_int_def on_incoming_call_def set_notice_def)
  then show "pending_calls b1 = dset sid (JStr u, jget pkt ''ephemeral_pubkey'') (pending_calls b)" "ready b1" "me b1 = me b"
    "buf b1 = buf b" "send_q b1 = send_q b" "clock b1 = clock b" "muted b1 = muted b" by simp_all
qed

text \<open>A command line, entered.\<close>

lemma enter_command:
  assumes "py_strip (buf a) = txt" "starts_with txt ''/''" "run_command C io txt (a\<lparr>buf := [], cursor := 0, dirty := True\<rparr>) = (Inr x, t)"
  shows "app_step C url host a (Key 10 io) = t"
proof -
  have "txt \<noteq> []" using assms(2) by auto
  then show ?thesis using assms by (simp add: handle_key_def submit_def prog_simps)
qed

lemma lower_words: "py_lower ''/call'' = ''/call''" "py_lower ''accept'' = ''accept''" "py_lower ''start'' = ''start''"
  by code_simp+

lemma run_call: "py_split txt = ''/call'' # ps \<Longrightarrow> run_command C io txt = call_command C io (''/call'' # ps)"
  by (simp add: run_command_def part_def lower_words)

lemma enter_accepts:
  assumes "crypto_ok C" "host_ok (io_host io)" "length x = 32" "ready b"
    and "py_strip (buf b) = txt" "starts_with txt ''/''" "py_split txt = [''/call'', ''accept'']"
    and "pending_calls b = (sid, caller, JStr (b64_encode (c_pub C x))) # rest" "sid \<noteq> []"
    and "b2 = app_step C url host b (Key 10 io)"
  obtains y k i p where "length y = 32" "length k = 32" "call_key_of C x (c_pub C y) sid = Inr k"
    "send_q b2 = send_q b @ [json_dumps (JObj (packet_fields ''CALL_ACCEPT'' i (clock b)
       (accept_fields sid (me b) p (clock b) (c_pub C y))))]"
    "voice_key b2 = Some k" "audio_stream b2 = Some (started k sid)" "active_session b2 = Some sid"
proof -
  obtain p where p: "free_udp_port (io_host io) = Inr p" using assms(2) by (auto simp: host_ok_def)
  let ?b = "b\<lparr>buf := [], cursor := 0, dirty := True\<rparr>"
  obtain y k i where y: "length y = 32" "length k = 32" "call_key_of C x (c_pub C y) sid = Inr k"
    "client_call_accept C (io_host io) sid (JStr (b64_encode (c_pub C x))) ?b = (Inr (),
      ?b\<lparr>epos := epos ?b + 48, voice_key := Some k, ephemeral_private := Some y, active_session := Some sid,
        call_start_ts := clock ?b, local_port := p, audio_stream := Some (started k sid),
        send_q := send_q ?b @ [json_dumps (JObj (packet_fields ''CALL_ACCEPT'' i (clock ?b)
          (accept_fields sid (me ?b) p (clock ?b) (c_pub C y))))]\<rparr>)"
    by (rule accept_app [OF assms(1-3) p])
  obtain t where t: "run_command C io txt ?b = (Inr (), t)" "send_q t = send_q b @ [json_dumps (JObj (packet_fields ''CALL_ACCEPT'' i (clock b)
       (accept_fields sid (me b) p (clock b) (c_pub C y))))]"
    "voice_key t = Some k" "audio_stream t = Some (started k sid)" "active_session t = Some sid"
    using y(4) assms(4,7-9)
    by (simp add: run_call part_def lower_words call_command_def prog_simps pending_session_def
        call_accept_command_def set_notice_def)
  then show ?thesis using that y(1-3) enter_command [OF assms(5,6) t(1)] assms(10) by simp
qed

section \<open>The caller\<close>

lemma enter_invites:
  assumes "host_ok (io_host io)" "ready a" "py_strip (buf a) = txt" "starts_with txt ''/''"
    and "py_split txt = [''/call'', ''start'', v]" "strip_at v = v"
    and "a1 = app_step C url host a (Key 10 io)"
  obtains x i p where "length x = 32"
    "send_q a1 = send_q a @ [json_dumps (JObj (packet_fields ''CALL_INVITE'' i (clock a)
       (invite_fields (next_id a) (me a) v p (clock a) (c_pub C x))))]"
    "ephemeral_private a1 = Some x" "active_session a1 = Some (next_id a)" "ready a1" "muted a1 = muted a"
proof -
  obtain p where p: "free_udp_port (io_host io) = Inr p" using assms(1) by (auto simp: host_ok_def)
  let ?a = "a\<lparr>buf := [], cursor := 0, dirty := True\<rparr>"
  have n: "next_id ?a = next_id a" by (simp add: next_id_def)
  obtain x i where x: "length x = 32" "client_call_invite C (io_host io) v ?a = (Inr (next_id ?a),
    ?a\<lparr>epos := epos ?a + 64, ephemeral_private := Some x, active_session := Some (next_id ?a), call_start_ts := clock ?a,
      local_port := p, cdb := save_call (next_id ?a) (me ?a) v (clock ?a) ''ringing'' (cdb ?a),
      send_q := send_q ?a @ [json_dumps (JObj (packet_fields ''CALL_INVITE'' i (clock ?a)
        (invite_fields (next_id ?a) (me ?a) v p (clock ?a) (c_pub C x))))]\<rparr>)"
    by (rule invite_app [OF p])
  obtain t where t: "run_command C io txt ?a = (Inr (), t)" "send_q t = send_q a @ [json_dumps (JObj (packet_fields ''CALL_INVITE'' i (clock a)
       (invite_fields (next_id a) (me a) v p (clock a) (c_pub C x))))]"
    "ephemeral_private t = Some x" "active_session t = Some (next_id a)" "ready t" "muted t = muted a"
    using x(2) assms(2,5,6) n
    by (simp add: run_call part_def lower_words call_command_def prog_simps try_notice_def set_notice_def Let_def)
  then show ?thesis using that x(1) enter_command [OF assms(3,4) t(1)] assms(7) by simp
qed

lemma accept_starts:
  assumes "packet_type pkt = Some CALL_ACCEPT" "ready a" "host_ok h" "ephemeral_private a = Some x" "length x = 32"
    and "call_key_of C x peer sid = Inr k" "b64_encode peer \<noteq> []"
    and "dget pkt ''session_id'' = Some (JStr sid)" "dget pkt ''ephemeral_pubkey'' = Some (JStr (b64_encode peer))"
    and "dget pkt ''callee_udp_port'' = Some (JInt p)" "dget pkt ''local_port'' = Some (JInt p)"
    and "a2 = app_step C url h a (Packet pkt)"
  shows "voice_key a2 = Some k" "audio_stream a2 = Some (started k sid)" "active_session a2 = active_session a"
proof -
  have "a2 = snd (case handle_call_accept C h pkt a of (Inl e, t) \<Rightarrow> (Inl e, t) | (Inr x, t) \<Rightarrow> (Inr (), t\<lparr>dirty := True\<rparr>))"
    using assms(1,2,12) packet_type_Some [of pkt CALL_ACCEPT]
    by (simp add: app_route_app route_packet_def bnd_app whenp_def call_types_def file_types_def app_call_incoming_def call_handle_incoming_def)
  then show "voice_key a2 = Some k" "audio_stream a2 = Some (started k sid)" "active_session a2 = active_session a"
    using accepted_app [OF assms(3-10)] assms(11) by simp_all
qed

section \<open>The call\<close>

text \<open>The first half of a call: the invitation that the caller's command queues rings at the callee.\<close>

lemma invitation_rings:
  assumes "host_ok ha" "io_host ioa = ha"
    and "ready a" "py_strip (buf a) = ta" "starts_with ta ''/''" "py_split ta = [''/call'', ''start'', v]" "strip_at v = v"
    and "a1 = app_step C url ha a (Key 10 ioa)" "sid = next_id a"
    and "v \<noteq> []" "py_strip v = v" "u \<noteq> []" "0 < clock s" "clock s < 2 ^ 63" "get_call sid (db s) = None"
    and "reachable s v = Some wv" "fst (rl_allow (mono s) u (rates s))"
    and "handle_msg checkpw base wu (Some u) (last (send_q a1)) s = (r1, s1)"
    and "ready b" "b1 = receive_raw C url' hb b (snd (last (outbox s1)))"
  obtains x info where "length x = 32" "ephemeral_private a1 = Some x" "active_session a1 = Some sid" "ready a1"
    "r1 = Inr (Continue (Some u))" "get_session_mem (calls s1) sid = Some
      \<lparr>cs_id = sid, cs_caller = u, cs_callee = v, cs_status = ''pending'', cs_caller_info = info,
       cs_callee_info = None, cs_created_at = clock s\<rparr>" "fst (last (outbox s1)) = wv"
    "pending_calls b1 = dset sid (JStr u, JStr (b64_encode (c_pub C x))) (pending_calls b)" "ready b1" "buf b1 = buf b"
proof -
  obtain x i p where a1: "length x = 32"
    "send_q a1 = send_q a @ [json_dumps (JObj (packet_fields ''CALL_INVITE'' i (clock a)
       (invite_fields sid (me a) v p (clock a) (c_pub C x))))]"
    "ephemeral_private a1 = Some x" "active_session a1 = Some sid" "ready a1"
    using assms(1,2,9) by (auto intro: enter_invites [OF _ assms(3-8)])
  let ?inv = "packet_fields ''CALL_INVITE'' i (clock a) (invite_fields sid (me a) v p (clock a) (c_pub C x))"
  have inv: "json_wf (JObj ?inv)" "packet_type ?inv = Some CALL_INVITE" "dget ?inv ''to'' = Some (JStr v)"
    "dget ?inv ''session_id'' = Some (JStr sid)" "jget ?inv ''local_port'' = JInt p"
    "jget ?inv ''ephemeral_pubkey'' = JStr (b64_encode (c_pub C x))"
    by (simp_all add: json_wf_packet packet_type_Some packet_fields_def jget_def)
  have sid: "sid \<noteq> []" using assms(9) by simp
  have ivm: "handle_msg checkpw base wu (Some u) (json_dumps (JObj ?inv)) s = (r1, s1)" using assms(18) a1(2) by simp
  obtain i1 info where s1: "r1 = Inr (Continue (Some u))" "get_session_mem (calls s1) sid = Some
      \<lparr>cs_id = sid, cs_caller = u, cs_callee = v, cs_status = ''pending'', cs_caller_info = info,
       cs_callee_info = None, cs_created_at = clock s\<rparr>"
    "outbox s1 = outbox s @ [(wv, json_dumps (JObj (signal_fields ''CALL_INVITE'' i1 (clock s) sid @
      [(''from'', JStr u), (''caller'', JStr u), (''to'', JStr v), (''caller_ip'', JStr (ip_of s wu)),
       (''local_port'', JInt p), (''caller_udp_port'', JInt p),
       (''ephemeral_pubkey'', JStr (b64_encode (c_pub C x))), (''caller_pubkey'', JStr (b64_encode (c_pub C x)))])))]"
    using server_invites [OF inv(1,2) assms(12,17) inv(3) assms(11,10,16) inv(4) sid assms(15) ivm, unfolded inv(5,6)] by blast
  let ?ring = "signal_fields ''CALL_INVITE'' i1 (clock s) sid @
      [(''from'', JStr u), (''caller'', JStr u), (''to'', JStr v), (''caller_ip'', JStr (ip_of s wu)),
       (''local_port'', JInt p), (''caller_udp_port'', JInt p),
       (''ephemeral_pubkey'', JStr (b64_encode (c_pub C x))), (''caller_pubkey'', JStr (b64_encode (c_pub C x)))]"
  have ring: "json_wf (JObj ?ring)" "packet_type ?ring = Some CALL_INVITE" "dget ?ring ''session_id'' = Some (JStr sid)"
    "dget ?ring ''from'' = Some (JStr u)" "dget ?ring ''timestamp'' = Some (JInt (clock s))"
    "dget ?ring ''caller_udp_port'' = Some (JInt p)" "dget ?ring ''local_port'' = Some (JInt p)"
    "jget ?ring ''ephemeral_pubkey'' = JStr (b64_encode (c_pub C x))"
    by (simp_all add: packet_type_Some signal_fields_def jget_def)
  have b1: "b1 = app_step C url' hb b (Packet ?ring)" using assms(20) s1(3) receive_dumps [OF ring(1)] by simp
  note b1 = invite_rings [OF ring(2) assms(19) ring(3-5) assms(13,14) ring(6,7) b1]
  show thesis
    by (rule that [OF a1(1,3,4,5) s1(1,2)]) (use s1(3) b1(1,2,4) ring(8) in simp_all)
qed

text \<open> C2: A call is set up between two users and nobody else gets its key from the packets' text. The caller types
  \<open>/call start\<close>; the server rings the connected callee; the callee, who has no other call pending, types
  \<open>/call accept\<close>; the server makes the session active and tells the caller. Then both applications hold the
  same 32-byte key, derived from the two ephemeral keys, and both have started an audio stream of this
  session with it. \<close>

theorem call_end_to_end:
  assumes "crypto_ok C" "host_ok ha" "host_ok hb" "io_host ioa = ha" "io_host iob = hb"
    and "ready a" "py_strip (buf a) = ta" "starts_with ta ''/''" "py_split ta = [''/call'', ''start'', v]" "strip_at v = v"
    and "a1 = app_step C url ha a (Key 10 ioa)" "sid = next_id a"
    and "v \<noteq> []" "py_strip v = v" "u \<noteq> []" "0 < clock s" "clock s < 2 ^ 63" "get_call sid (db s) = None"
    and "reachable s v = Some wv" "fst (rl_allow (mono s) u (rates s))"
    and "handle_msg checkpw base wu (Some u) (last (send_q a1)) s = (r1, s1)"
    and "ready b" "pending_calls b = []" "py_strip (buf b) = tb" "starts_with tb ''/''" "py_split tb = [''/call'', ''accept'']"
    and "b1 = receive_raw C url' hb b (snd (last (outbox s1)))" "b2 = app_step C url' hb b1 (Key 10 iob)"
    and "get_session_mem (calls t) sid = get_session_mem (calls s1) sid"
    and "reachable t u = Some wu" "fst (rl_allow (mono t) v (rates t))"
    and "handle_msg checkpw base wv (Some v) (last (send_q b2)) t = (r2, t1)"
    and "a2 = receive_raw C url ha a1 (snd (last (outbox t1)))"
  shows "\<exists>k. r1 = Inr (Continue (Some u)) \<and> fst (last (outbox s1)) = wv \<and> phase_of s1 sid = Ringing u v \<and>
    r2 = Inr (Continue (Some v)) \<and> fst (last (outbox t1)) = wu \<and> phase_of t1 sid = Active u v \<and>
    length k = 32 \<and> voice_key a2 = Some k \<and> voice_key b2 = Some k \<and>
    audio_stream a2 = Some (started k sid) \<and> audio_stream b2 = Some (started k sid) \<and>
    active_session a2 = Some sid \<and> active_session b2 = Some sid"
proof -
  obtain x info where a1: "length x = 32" "ephemeral_private a1 = Some x" "active_session a1 = Some sid" "ready a1"
    and s1: "r1 = Inr (Continue (Some u))" "get_session_mem (calls s1) sid = Some
      \<lparr>cs_id = sid, cs_caller = u, cs_callee = v, cs_status = ''pending'', cs_caller_info = info,
       cs_callee_info = None, cs_created_at = clock s\<rparr>" "fst (last (outbox s1)) = wv"
    and b1: "pending_calls b1 = dset sid (JStr u, JStr (b64_encode (c_pub C x))) (pending_calls b)" "ready b1" "buf b1 = buf b"
    by (rule invitation_rings [OF assms(2,4,6-22,27)])
  have sid: "sid \<noteq> []" using assms(12) by simp
  obtain y k j q where b2: "length y = 32" "length k = 32" "call_key_of C x (c_pub C y) sid = Inr k"
    "send_q b2 = send_q b1 @ [json_dumps (JObj (packet_fields ''CALL_ACCEPT'' j (clock b1)
       (accept_fields sid (me b1) q (clock b1) (c_pub C y))))]"
    "voice_key b2 = Some k" "audio_stream b2 = Some (started k sid)" "active_session b2 = Some sid"
    by (rule enter_accepts [OF assms(1) _ a1(1) b1(2) _ assms(25,26) _ _ assms(28), of sid "JStr u" "[]"])
      (use assms(3,5,23,24) b1 sid in auto)
  let ?acc = "packet_fields ''CALL_ACCEPT'' j (clock b1) (accept_fields sid (me b1) q (clock b1) (c_pub C y))"
  have acc: "json_wf (JObj ?acc)" "packet_type ?acc = Some CALL_ACCEPT" "dget ?acc ''session_id'' = Some (JStr sid)"
    "jget ?acc ''local_port'' = JInt q" "jget ?acc ''ephemeral_pubkey'' = JStr (b64_encode (c_pub C y))"
    by (simp_all add: json_wf_packet packet_type_Some packet_fields_def jget_def)
  have msg: "handle_msg checkpw base wv (Some v) (json_dumps (JObj ?acc)) t = (r2, t1)" using assms(32) b2(4) by simp
  obtain i2 where t1: "r2 = Inr (Continue (Some v))" "phase_of t1 sid = Active u v"
    "outbox t1 = outbox t @ [(wu, json_dumps (JObj (signal_fields ''CALL_ACCEPT'' i2 (clock t) sid @
      [(''from'', JStr v), (''to'', JStr u), (''callee_ip'', JStr (ip_of t wv)),
       (''local_port'', JInt q), (''callee_udp_port'', JInt q),
       (''ephemeral_pubkey'', JStr (b64_encode (c_pub C y))), (''callee_pubkey'', JStr (b64_encode (c_pub C y)))])))]"
    using server_accepts [OF acc(1,2) assms(13,31) acc(3) assms(29) [unfolded s1(2)] _ _ msg] assms(30) by (auto simp: acc(4,5))
  let ?go = "signal_fields ''CALL_ACCEPT'' i2 (clock t) sid @
      [(''from'', JStr v), (''to'', JStr u), (''callee_ip'', JStr (ip_of t wv)),
       (''local_port'', JInt q), (''callee_udp_port'', JInt q),
       (''ephemeral_pubkey'', JStr (b64_encode (c_pub C y))), (''callee_pubkey'', JStr (b64_encode (c_pub C y)))]"
  have go: "json_wf (JObj ?go)" "packet_type ?go = Some CALL_ACCEPT" "dget ?go ''session_id'' = Some (JStr sid)"
    "dget ?go ''ephemeral_pubkey'' = Some (JStr (b64_encode (c_pub C y)))"
    "dget ?go ''callee_udp_port'' = Some (JInt q)" "dget ?go ''local_port'' = Some (JInt q)"
    by (simp_all add: packet_type_Some signal_fields_def jget_def)
  have a2: "a2 = app_step C url ha a1 (Packet ?go)" using assms(33) t1(3) receive_dumps [OF go(1)] by simp
  note a2 = accept_starts [OF go(2) a1(4) assms(2) a1(2,1) b2(3) pubkey_truthy [OF assms(1) b2(1)] go(3-6) a2]
  have "phase_of s1 sid = Ringing u v" using s1(2) by (simp add: phase_of_def)
  then show ?thesis using s1(1,3) t1 a2 b2(2,5-7) a1(3) by auto
qed

section \<open>The voice\<close>

text \<open>One packet of audio through the server.\<close>

abbreviation relayed :: "string \<Rightarrow> int \<Rightarrow> string \<Rightarrow> string \<Rightarrow> bytes \<Rightarrow> packet" where
  "relayed i ts sid u payload \<equiv> signal_fields ''CALL_RELAY'' i ts sid @
     [(''from'', JStr u), (''data'', JStr (b64_encode payload))]"

lemma relay_msg_facts: "json_wf (JObj (relay_msg sid p))" "packet_type (relay_msg sid p) = Some CALL_RELAY"
  "dget (relay_msg sid p) ''session_id'' = Some (JStr sid)" "dget (relay_msg sid p) ''data'' = Some (JStr (b64_encode p))"
  by (simp_all add: relay_msg_def packet_type_Some jget_def)

lemma server_relays:
  assumes "get_session_mem (calls s) sid = Some c" "reachable s (other_party c u) = Some wv" "u \<noteq> []"
    and "fst (rl_allow (mono s) u (rates s))"
  shows "\<exists>i e. handle_msg checkpw base w (Some u) (json_dumps (JObj (relay_msg sid payload))) s = (Inr (Continue (Some u)),
    s\<lparr>rates := snd (rl_allow (mono s) u (rates s)), epos := e,
      outbox := outbox s @ [(wv, json_dumps (JObj (relayed i (clock s) sid u payload)))]\<rparr>)"
proof -
  have v: "lookup (connections s) (other_party c u) = Some wv" "wv \<notin> broken s"
    using assms(2) by (auto simp: reachable_def split: option.splits if_splits)
  show ?thesis
    using handle_signal [OF relay_msg_facts(1,2) _ assms(3,4)] v assms(1)
    by (simp add: h_call_relay_def with_call_def jget_or_def relay_msg_facts(3,4) relay_audio_def prog_simps) blast
qed

lemma server_refuses:
  assumes "u \<noteq> []" "\<not> fst (rl_allow (mono s) u (rates s))" "w \<notin> broken s"
  shows "\<exists>raw' e. handle_msg checkpw base w (Some u) raw s = (Inr (Continue (Some u)),
    s\<lparr>rates := snd (rl_allow (mono s) u (rates s)), epos := e, outbox := outbox s @ [(w, raw')]\<rparr>)"
  using assms by (cases "rl_allow (mono s) u (rates s)")
    (simp add: handle_msg_def prog_simps rate_allow_def, blast)

lemma audio_arrives:
  assumes "ready b" "audio_stream b = Some st" "payload \<noteq> []"
  shows "receive_raw C url h b (json_dumps (JObj (relayed i ts sid u payload))) = b\<lparr>audio_stream := Some (feed payload st), dirty := True\<rparr>"
proof -
  let ?p = "relayed i ts sid u payload"
  have p: "json_wf (JObj ?p)" "packet_type ?p = Some CALL_RELAY" "jget ?p ''type'' = JStr ''CALL_RELAY''"
    "dget ?p ''data'' = Some (JStr (b64_encode payload))"
    by (simp_all add: packet_type_Some signal_fields_def jget_def)
  have "b64_encode payload \<noteq> []" by (rule b64_encode_not_Nil) fact
  then show ?thesis
    unfolding receive_dumps [OF p(1)] using assms p(2,3)
    by (simp add: app_route_app route_packet_def bnd_app whenp_def call_types_def file_types_def app_call_incoming_def
        call_handle_incoming_def handle_call_relay_def jget_or_def signal_fields_def b64_roundtrip)
qed

text \<open>
  One frame from microphone to loudspeaker: \<open>d\<close> seconds pass, the caller's stream captures it, the server
  handles what the stream sends, the callee's connection receives what the server sends it, and the callee's
  stream runs one round.
\<close>

definition run_stream :: "crypto \<Rightarrow> codec option \<Rightarrow> 'e app_scheme \<Rightarrow> 'e app_scheme" where
  "run_stream C opus b = b\<lparr>audio_stream := map_option (recv_round C opus) (audio_stream b)\<rparr>"

definition new_for :: "ws \<Rightarrow> server \<Rightarrow> server \<Rightarrow> string list" where
  "new_for w s s' = map snd (filter (\<lambda>x. fst x = w) (drop (length (outbox s)) (outbox s')))"

type_synonym 'e voice = "stream \<times> server \<times> 'e app_scheme"

definition voice_step ::
  "crypto \<Rightarrow> (bytes \<Rightarrow> bytes \<Rightarrow> exn + bool) \<Rightarrow> string \<Rightarrow> string \<Rightarrow> audio_host \<Rightarrow> codec option \<Rightarrow> codec option
    \<Rightarrow> ws \<Rightarrow> string \<Rightarrow> ws \<Rightarrow> real \<Rightarrow> 'e voice \<Rightarrow> bytes \<Rightarrow> 'e voice" where
  "voice_step C checkpw base url h opus opus' wu u wv d V pcm =
    (case V of (st, s, b) \<Rightarrow>
     let s = s\<lparr>mono := mono s + d\<rparr> in
     case capture_callback C opus pcm st of
       (Some (ToServer raw), st') \<Rightarrow>
         (let s' = snd (handle_msg checkpw base wu (Some u) raw s) in
          (st', s', run_stream C opus' (fold (\<lambda>x b. receive_raw C url h b x) (new_for wv s s') b)))
     | (_, st') \<Rightarrow> (st', s, b))"

text \<open>A grant takes one token at most.\<close>

lemma token_grants:
  assumes "rl_ok t l" "t \<le> t'" "1 \<le> tokens_of k l"
  shows "fst (rl_allow t' k l)" "tokens_of k l - 1 \<le> tokens_of k (snd (rl_allow t' k l))"
    "rl_ok t' (snd (rl_allow t' k l))"
proof -
  have "fst (rl_allow t' k l) \<and> tokens_of k l - 1 \<le> tokens_of k (snd (rl_allow t' k l))"
  proof (cases "dget (buckets l) k")
    case (Some b)
    obtain tok seen where b: "b = (tok, seen)" by (cases b)
    have l: "0 < rate l" "0 < per l" "tok \<le> of_int (rate l)" "seen \<le> t'"
      using assms Some b by (auto simp: rl_ok_def) fastforce
    then have "tok \<le> refill l tok seen t'" by (simp add: refill_def)
    then show ?thesis using Some b assms(3) by (simp add: rl_allow_def tokens_of_def Let_def)
  qed (simp add: rl_allow_def tokens_of_def)
  then show "fst (rl_allow t' k l)" "tokens_of k l - 1 \<le> tokens_of k (snd (rl_allow t' k l))" by simp_all
qed (rule rl_allow_ok [OF assms(1,2)])

text \<open>A call in progress, as the three programs see it: packet \<open>i\<close> is next, and \<open>n\<close> more may pass the rate limiter.\<close>

definition in_call :: "bytes \<Rightarrow> string \<Rightarrow> string \<Rightarrow> ws \<Rightarrow> int \<Rightarrow> nat \<Rightarrow> 'e voice \<Rightarrow> stream \<Rightarrow> bool" where
  "in_call key sid u wv i n V bt = (case V of (st, s, b) \<Rightarrow>
     st_key st = key \<and> \<not> st_muted st \<and> st_mode st = Relay sid \<and> st_send_seq st = i \<and>
     (\<exists>c. get_session_mem (calls s) sid = Some c \<and> reachable s (other_party c u) = Some wv) \<and>
     rl_ok (mono s) (rates s) \<and> real n \<le> tokens_of u (rates s) \<and> ready b \<and> audio_stream b = Some bt \<and>
     st_key bt = key \<and> st_active bt \<and> st_mode bt = Relay sid \<and> st_relay_queue bt = [] \<and> caught_up i (st_jitter bt))"

lemma audio_payload_not_Nil: "audio_payload i n c \<noteq> []"
proof -
  have "length (audio_payload i n c) = 4 + length n + length c" by (simp add: audio_payload_def)
  then show ?thesis by auto
qed

lemma reachable_mono [simp]: "reachable (s\<lparr>mono := x\<rparr>) = reachable s"
  and reachable_calls [simp]: "reachable (s\<lparr>calls := cs\<rparr>) = reachable s"
  and reachable_sent: "reachable (s\<lparr>rates := l, epos := e, outbox := out\<rparr>) = reachable s"
  by (simp_all add: reachable_def fun_eq_iff split: option.split)

lemma voice_one:
  assumes "crypto_ok C" "length key = 32" "u \<noteq> []" "0 \<le> d" "0 \<le> i" "i + 1 < 2 ^ 32"
    and "in_call key sid u wv i (Suc n) (st, s, b) bt"
  shows "\<exists>j. in_call key sid u wv (i + 1) n (voice_step C checkpw base url h opus opus' wu u wv d (st, s, b) pcm)
    (bt\<lparr>st_jitter := j, st_played := st_played bt @ [codec_decode opus' (codec_encode opus pcm)]\<rparr>)"
proof -
  let ?s = "s\<lparr>mono := mono s + d\<rparr>"
  let ?l = "snd (rl_allow (mono s + d) u (rates s))"
  let ?f = "codec_encode opus pcm" let ?p = "sent_payload C opus key i pcm"
  obtain c where st: "st_key st = key" "\<not> st_muted st" "st_mode st = Relay sid" "st_send_seq st = i"
    and c: "get_session_mem (calls s) sid = Some c" "reachable s (other_party c u) = Some wv"
    and r: "rl_ok (mono s) (rates s)" "real (Suc n) \<le> tokens_of u (rates s)"
    and b: "ready b" "audio_stream b = Some bt" "st_key bt = key" "st_active bt" "st_mode bt = Relay sid"
      "st_relay_queue bt = []" "caught_up i (st_jitter bt)"
    using assms(7) by (auto simp: in_call_def)
  have cap: "capture_callback C opus pcm st = (Some (relay_text sid ?p), st\<lparr>st_send_seq := (i + 1) mod 2 ^ 32\<rparr>)"
    using st assms(2) by (simp add: capture_callback_def send_frame_def encrypt_packet_def Let_def relay_text_def sent_payload_def)
  have g: "fst (rl_allow (mono s + d) u (rates s))" "real n \<le> tokens_of u ?l" "rl_ok (mono s + d) ?l"
    using token_grants [OF r(1), of "mono s + d" u] r(2) assms(4) by simp_all
  have cs: "get_session_mem (calls ?s) sid = Some c" "reachable ?s (other_party c u) = Some wv"
    using c by simp_all
  obtain m e where m: "handle_msg checkpw base wu (Some u) (json_dumps (JObj (relay_msg sid ?p))) ?s = (Inr (Continue (Some u)),
      ?s\<lparr>rates := ?l, epos := e, outbox := outbox s @ [(wv, json_dumps (JObj (relayed m (clock s) sid u ?p)))]\<rparr>)"
    using server_relays [OF cs assms(3), where w = wu and payload = ?p and checkpw = checkpw and base = base] g(1) by auto
  have "?p \<noteq> []" by (simp add: sent_payload_def audio_payload_not_Nil)
  note arr = audio_arrives [OF b(1,2) this, of C url h m "clock s" sid u]
  obtain j where j: "receive_payload C opus' ?p bt = bt\<lparr>st_jitter := j,
      st_played := st_played bt @ [codec_decode opus' ?f]\<rparr>" "caught_up (i + 1) j"
    using receive_next [OF assms(1), of bt i opus' ?f] assms(2,5,6) b(3,7) by (auto simp: sent_payload_def)
  have step: "voice_step C checkpw base url h opus opus' wu u wv d (st, s, b) pcm = (st\<lparr>st_send_seq := (i + 1) mod 2 ^ 32\<rparr>,
      ?s\<lparr>rates := ?l, epos := e, outbox := outbox s @ [(wv, json_dumps (JObj (relayed m (clock s) sid u ?p)))]\<rparr>,
      b\<lparr>audio_stream := Some (bt\<lparr>st_jitter := j, st_played := st_played bt @ [codec_decode opus' ?f]\<rparr>), dirty := True\<rparr>)"
    using cap m arr recv_feed [OF b(4-6)] j(1) b(2)
    by (simp add: voice_step_def relay_text_def Let_def new_for_def run_stream_def)
  have "(i + 1) mod 2 ^ 32 = i + 1" using assms(5,6) by simp
  then show ?thesis using st c r g b j(2) unfolding step
    by (intro exI [of _ j]) (auto simp: in_call_def reachable_sent)
qed

lemma voice_all:
  assumes "crypto_ok C" "length key = 32" "u \<noteq> []" "0 \<le> d" "0 \<le> i" "i + int (length pcms) < 2 ^ 32"
    and "in_call key sid u wv i (length pcms) V bt"
  shows "\<exists>bt'. in_call key sid u wv (i + int (length pcms)) 0
      (fold (\<lambda>pcm V. voice_step C checkpw base url h opus opus' wu u wv d V pcm) pcms V) bt' \<and>
    st_played bt' = st_played bt @ map (\<lambda>pcm. codec_decode opus' (codec_encode opus pcm)) pcms"
  using assms
proof (induction pcms arbitrary: V bt i)
  case (Cons pcm pcms)
  obtain st s b where V: "V = (st, s, b)" by (cases V)
  let ?V = "voice_step C checkpw base url h opus opus' wu u wv d V pcm"
  obtain j where "in_call key sid u wv (i + 1) (length pcms) ?V
      (bt\<lparr>st_jitter := j, st_played := st_played bt @ [codec_decode opus' (codec_encode opus pcm)]\<rparr>)"
    using voice_one [OF Cons.prems(1-5), of sid wv "length pcms" st s b bt] Cons.prems(6,7) unfolding V by fastforce
  from Cons.IH [OF Cons.prems(1-4) _ _ this] show ?case using Cons.prems(5,6) by (simp add: ac_simps)
qed auto


section \<open>The voice against the rate limit\<close>

text \<open>The server receives a text on a connection, \<open>d\<close> seconds after the one before.\<close>

definition server_gets ::
  "(bytes \<Rightarrow> bytes \<Rightarrow> exn + bool) \<Rightarrow> string \<Rightarrow> ws \<Rightarrow> string \<Rightarrow> real \<Rightarrow> string \<Rightarrow> server \<Rightarrow> server" where
  "server_gets checkpw base w u d raw s = snd (handle_msg checkpw base w (Some u) raw (s\<lparr>mono := mono s + d\<rparr>))"

lemma gets_relay:
  assumes "get_session_mem (calls s) sid = Some c" "reachable s (other_party c u) = Some wv" "u \<noteq> []" "w \<notin> broken s"
    and "w \<noteq> wv" "0 \<le> d" "s' = server_gets checkpw base w u d (json_dumps (JObj (relay_msg sid p))) s"
  shows "(mono s', rates s') = rl_step (mono s, rates s) (Req d u)"
    "\<exists>x. outbox s' = outbox s @ [x] \<and> (if fst x = wv then 1 else 0) = granted u (mono s, rates s) [Req d u]"
    "calls s' = calls s" "reachable s' = reachable s" "broken s' = broken s"
proof -
  let ?s = "s\<lparr>mono := mono s + d\<rparr>"
  have 1: "get_session_mem (calls ?s) sid = Some c" "reachable ?s (other_party c u) = Some wv" "w \<notin> broken ?s"
    using assms(1,2,4) by simp_all
  have "\<exists>x e. s' = ?s\<lparr>rates := snd (rl_allow (mono s + d) u (rates s)), epos := e, outbox := outbox s @ [x]\<rparr> \<and>
      (if fst x = wv then 1 else 0) = granted u (mono s, rates s) [Req d u]"
  proof (cases "fst (rl_allow (mono s + d) u (rates s))")
    case True
    then obtain i e where "s' = ?s\<lparr>rates := snd (rl_allow (mono s + d) u (rates s)), epos := e,
        outbox := outbox s @ [(wv, json_dumps (JObj (relayed i (clock s) sid u p)))]\<rparr>"
      using server_relays [OF 1(1,2) assms(3), where w = w and payload = p and checkpw = checkpw and base = base] assms(7)
      by (auto simp: server_gets_def)
    then show ?thesis using True assms(6)
      by (intro exI [of _ "(wv, json_dumps (JObj (relayed i (clock s) sid u p)))"] exI [of _ e]) simp
  next
    case False
    then obtain m e where "s' = ?s\<lparr>rates := snd (rl_allow (mono s + d) u (rates s)), epos := e,
        outbox := outbox s @ [(w, m)]\<rparr>"
      using server_refuses [OF assms(3) _ 1(3), where raw = "json_dumps (JObj (relay_msg sid p))" and checkpw = checkpw
          and base = base] assms(7)
      by (auto simp: server_gets_def)
    then show ?thesis using False assms(5,6) by (intro exI [of _ "(w, m)"] exI [of _ e]) simp
  qed
  then show "(mono s', rates s') = rl_step (mono s, rates s) (Req d u)"
    "\<exists>x. outbox s' = outbox s @ [x] \<and> (if fst x = wv then 1 else 0) = granted u (mono s, rates s) [Req d u]"
    "calls s' = calls s" "reachable s' = reachable s" "broken s' = broken s"
    using assms(6) by (auto simp: reachable_sent split: if_splits)
qed

lemma gets_relays:
  assumes "get_session_mem (calls s) sid = Some c" "reachable s (other_party c u) = Some wv" "u \<noteq> []" "w \<notin> broken s"
    and "w \<noteq> wv" "0 \<le> d" "s' = fold (server_gets checkpw base w u d) (map (\<lambda>p. json_dumps (JObj (relay_msg sid p))) ps) s"
  shows "\<exists>out. outbox s' = outbox s @ out \<and> length out = length ps \<and>
    length (filter (\<lambda>x. fst x = wv) out) = granted u (mono s, rates s) (replicate (length ps) (Req d u))"
  using assms
proof (induction ps arbitrary: s)
  case (Cons p ps)
  define t where "t = server_gets checkpw base w u d (json_dumps (JObj (relay_msg sid p))) s"
  note g = gets_relay [OF Cons.prems(1-6) t_def]
  obtain out where o: "outbox s' = outbox t @ out" "length out = length ps"
    "length (filter (\<lambda>x. fst x = wv) out) = granted u (mono t, rates t) (replicate (length ps) (Req d u))"
    using Cons.IH [of t] Cons.prems g(3-5) by (auto simp: t_def)
  obtain x where x: "outbox t = outbox s @ [x]" "(if fst x = wv then 1 else 0) = granted u (mono s, rates s) [Req d u]"
    using g(2) by blast
  show ?case using o x g(1) by (intro exI [of _ "x # out"]) (auto split: if_splits)
qed simp

text \<open> C39: The server's rate limit holds for audio too, and it is far below the rate of a call. Of the packets a user
  sends at intervals of \<open>d\<close> seconds through the relay, at most 120 plus two per second reach the other party; every
  other one is answered with an error. A stream sends one packet per 20 ms, fifty per second. \<close>

theorem voice_throttled:
  assumes "get_session_mem (calls s) sid = Some c" "reachable s (other_party c u) = Some wv" "u \<noteq> []" "w \<notin> broken s"
    and "w \<noteq> wv" "0 \<le> d" "rl_ok (mono s) (rates s)" "rate (rates s) = 120" "per (rates s) = 60"
    and "last_of u (mono s) (rates s) = mono s"
    and "s' = fold (server_gets checkpw base w u d) (map (\<lambda>p. json_dumps (JObj (relay_msg sid p))) ps) s"
  shows "real (length (new_for wv s s')) \<le> 120 + 2 * d * real (length ps) \<and>
    length (outbox s') = length (outbox s) + length ps"
proof -
  let ?es = "replicate (length ps) (Req d u)"
  obtain out where o: "outbox s' = outbox s @ out" "length out = length ps"
    "length (filter (\<lambda>x. fst x = wv) out) = granted u (mono s, rates s) ?es"
    using gets_relays [OF assms(1-6,11)] by blast
  have inv: "rl_inv (mono s, rates s)" using assms(7) by (simp add: rl_inv_def)
  have time: "fst (run rl_step (t, l) (replicate n (Req d u))) = t + real n * d" for t l n
    by (induction n arbitrary: t l) (simp_all add: assms(6) algebra_simps)
  have "tokens_of u (rates s) \<le> 120"
    using assms(7,8) by (auto simp: rl_ok_def tokens_of_def split: option.split)
  moreover have "no_reset u ?es" by (simp add: no_reset_def)
  ultimately have "real (granted u (mono s, rates s) ?es) \<le> 120 + real (length ps) * d * 2"
    using run_credit [OF inv, of u ?es] credit_nonneg [OF rlm.inv_run [OF inv], of u ?es] assms(8-10) time [of "mono s" "rates s" "length ps"]
    by (simp add: credit_def)
  then show ?thesis using o by (simp add: new_for_def mult.commute mult.left_commute)
qed

section \<open>The properties at concrete inputs\<close>

definition ann_calls :: app where
  "ann_calls = app_boot ''ann'' None\<lparr>buf := ''/call start bob''\<rparr>"

definition bob_rings :: app where
  "bob_rings = app_boot ''bob'' None\<lparr>buf := ''/call accept''\<rparr>"

lemma call_lines: "py_strip ''/call start bob'' = ''/call start bob''" "py_strip ''/call accept'' = ''/call accept''"
  "py_strip ''bob'' = ''bob''" "py_split ''/call start bob'' = [''/call'', ''start'', ''bob'']"
  "py_split ''/call accept'' = [''/call'', ''accept'']" "strip_at ''bob'' = ''bob''"
  by (code_simp)+

lemma ann_bob: "ready ann_calls" "buf ann_calls = ''/call start bob''" "ready bob_rings" "buf bob_rings = ''/call accept''"
  "pending_calls bob_rings = []"
  by (simp_all add: ann_calls_def bob_rings_def app_boot_def)

lemma ws_example_rates: "fst (rl_allow (mono ws_example) u (rates ws_example))" "reachable ws_example ''alice'' = Some 1"
  "call_sessions (db ws_example) = []" "rl_ok (mono ws_example) (rates ws_example)" "rate (rates ws_example) = 120"
  "per (rates ws_example) = 60" "buckets (rates ws_example) = []"
  by (simp_all add: ws_example_def boot_def rl_allow_def rl_init_def reachable_def lookup_def rl_ok_def empty_db_def)

lemma call_end_to_end_witness:
  "\<exists>s1 t1 a1 b2 k. s1 = snd (handle_msg (\<lambda>_ _. Inr False) ''/srv'' 1 (Some ''alice'') (last (send_q a1)) ws_example) \<and>
     a1 = app_step toy ''url'' good_host ann_calls (Key 10 no_io) \<and>
     b2 = app_step toy ''url'' good_host (receive_raw toy ''url'' good_host bob_rings (snd (last (outbox s1)))) (Key 10 no_io) \<and>
     t1 = snd (handle_msg (\<lambda>_ _. Inr False) ''/srv'' 2 (Some ''bob'') (last (send_q b2)) (ws_example\<lparr>calls := calls s1\<rparr>)) \<and>
     voice_key b2 = Some k \<and>
     voice_key (receive_raw toy ''url'' good_host a1 (snd (last (outbox t1)))) = Some k \<and>
     phase_of t1 (next_id ann_calls) = Active ''alice'' ''bob''"
proof -
  let ?a1 = "app_step toy ''url'' good_host ann_calls (Key 10 no_io)"
  obtain r1 s1 where 1: "handle_msg (\<lambda>_ _. Inr False) ''/srv'' 1 (Some ''alice'') (last (send_q ?a1)) ws_example = (r1, s1)"
    by fastforce
  let ?t = "ws_example\<lparr>calls := calls s1\<rparr>"
  let ?b1 = "receive_raw toy ''url'' good_host bob_rings (snd (last (outbox s1)))"
  let ?b2 = "app_step toy ''url'' good_host ?b1 (Key 10 no_io)"
  obtain r2 t1 where 2: "handle_msg (\<lambda>_ _. Inr False) ''/srv'' 2 (Some ''bob'') (last (send_q ?b2)) ?t = (r2, t1)" by fastforce
  have t: "reachable ?t ''alice'' = Some 1" "fst (rl_allow (mono ?t) ''bob'' (rates ?t))"
    using ws_example_rates(1,2) by simp_all
  have "\<exists>k. r1 = Inr (Continue (Some ''alice'')) \<and> fst (last (outbox s1)) = 2 \<and> phase_of s1 (next_id ann_calls) = Ringing ''alice'' ''bob'' \<and>
    r2 = Inr (Continue (Some ''bob'')) \<and> fst (last (outbox t1)) = 1 \<and> phase_of t1 (next_id ann_calls) = Active ''alice'' ''bob'' \<and>
    length k = 32 \<and> voice_key (receive_raw toy ''url'' good_host ?a1 (snd (last (outbox t1)))) = Some k \<and> voice_key ?b2 = Some k \<and>
    audio_stream (receive_raw toy ''url'' good_host ?a1 (snd (last (outbox t1)))) = Some (started k (next_id ann_calls)) \<and>
    audio_stream ?b2 = Some (started k (next_id ann_calls)) \<and>
    active_session (receive_raw toy ''url'' good_host ?a1 (snd (last (outbox t1)))) = Some (next_id ann_calls) \<and>
    active_session ?b2 = Some (next_id ann_calls)"
    by (rule call_end_to_end [OF toy_ok good_host_ok good_host_ok _ _ ann_bob(1) _ _ call_lines(4,6) refl refl _ call_lines(3) _ _ _ _
          ws_example_reach(1) ws_example_rates(1) 1 ann_bob(3,5) _ _ call_lines(5) refl refl _ t 2 refl])
      (simp_all add: no_io_def ann_bob call_lines get_call_def ws_example_rates)
  then show ?thesis using 1 2 by (intro exI [of _ s1] exI [of _ t1] exI [of _ ?a1] exI [of _ ?b2]) auto
qed

definition talk_example :: server where
  "talk_example = ws_example\<lparr>calls := [(''c'', \<lparr>cs_id = ''c'', cs_caller = ''alice'', cs_callee = ''bob'',
     cs_status = ''active'', cs_caller_info = \<lparr>ci_ip = ''h'', ci_udp_port = JInt 1, ci_pubkey = JNull\<rparr>,
     cs_callee_info = Some \<lparr>ci_ip = ''h'', ci_udp_port = JInt 1, ci_pubkey = JNull\<rparr>, cs_created_at = 9\<rparr>)]\<rparr>"

lemma talk_example_facts:
  "get_session_mem (calls talk_example) ''c'' = Some (snd (hd (calls talk_example)))"
  "cs_caller (snd (hd (calls talk_example))) = ''alice''" "cs_callee (snd (hd (calls talk_example))) = ''bob''"
  "reachable talk_example ''bob'' = Some 2" "mono talk_example = mono ws_example" "rates talk_example = rates ws_example"
  "broken talk_example = {}"
  by (simp_all add: talk_example_def get_session_mem_def reachable_def lookup_def)


lemma voice_throttled_witness:
  "real (length (new_for 2 talk_example (fold (server_gets (\<lambda>_ _. Inr False) ''/srv'' 1 ''alice'' (1 / 50))
     (map (\<lambda>p. json_dumps (JObj (relay_msg ''c'' p))) (replicate 3000 [1])) talk_example))) \<le> 240"
proof -
  have "real (length (new_for 2 talk_example (fold (server_gets (\<lambda>_ _. Inr False) ''/srv'' 1 ''alice'' (1 / 50))
     (map (\<lambda>p. json_dumps (JObj (relay_msg ''c'' p))) (replicate 3000 [1])) talk_example)))
     \<le> 120 + 2 * (1 / 50) * real (length (replicate 3000 [1 :: byte]))"
    by (rule conjunct1 [OF voice_throttled [OF talk_example_facts(1) _ _ _ _ _ _ _ _ _ refl]])
      (simp_all add: talk_example_facts ws_example_rates other_party_def last_of_def)
  then show ?thesis by simp
qed

end
