(* ===== verification/Audio_Engine.thy ===== *)
theory Audio_Engine
  imports Encoding "HOL-Library.Sublist"
begin

text \<open>
  The capture and playback engine (\<^verbatim>\<open>client/audio/engine.py\<close>). PyAudio is the argument \<open>portaudio\<close>: whether it can
  be imported and which of its calls fail. Its callback thread, the hand-over to the event loop, the turns of the
  loop and the task that drains the queue are separate events, so every interleaving of them is a run. The
  callback given to \<open>start_capture\<close> appends to \<open>e_delivered\<close>; \<open>e_captured\<close> records what the microphone delivered
  while the engine was running, \<open>e_written\<close> what the loudspeaker took.
\<close>

section \<open>State\<close>

record portaudio =
  pa_available :: bool
  pa_init :: "exn option"
  pa_open_input :: "exn option"
  pa_open_output :: "exn option"
  pa_write :: "bytes \<Rightarrow> exn option"

text \<open>
  \<open>e_queue\<close> is the current \<^verbatim>\<open>asyncio.Queue\<close> with its number: a \<open>put_nowait\<close> that was handed to the loop belongs to the
  queue of that moment.
\<close>

record engine =
  e_frames_per_buffer :: int
  e_pa :: bool
  e_capture :: bool
  e_playback :: bool
  e_queue :: "(nat \<times> bytes list) option"
  e_handoff :: "(nat \<times> bytes) list"
  e_task :: bool
  e_running :: bool
  e_captured :: "bytes list"
  e_delivered :: "bytes list"
  e_written :: "bytes list"

definition CAPTURE_MAX :: nat where "CAPTURE_MAX = 64"

definition engine_init :: "int \<Rightarrow> int \<Rightarrow> engine" where
  "engine_init sample_rate chunk_ms =
    \<lparr>e_frames_per_buffer = sample_rate * chunk_ms div 1000, e_pa = False, e_capture = False, e_playback = False,
     e_queue = None, e_handoff = [], e_task = False, e_running = False, e_captured = [], e_delivered = [], e_written = []\<rparr>"

section \<open>Operations\<close>

type_synonym 'a engine_prog = "(engine, 'a) prog"

definition ensure_pyaudio :: "portaudio \<Rightarrow> unit engine_prog" where
  "ensure_pyaudio P =
    (if \<not> pa_available P then raise RuntimeError
     else bnd (gets e_pa) (\<lambda>cached.
       if cached then ret ()
       else case pa_init P of Some e \<Rightarrow> raise e | None \<Rightarrow> modify (\<lambda>s. s\<lparr>e_pa := True\<rparr>)))"

definition fresh_queue :: "engine \<Rightarrow> engine" where
  "fresh_queue s = s\<lparr>e_queue := Some (case e_queue s of None \<Rightarrow> 0 | Some (n, q) \<Rightarrow> n + 1, [])\<rparr>"

text \<open>The queue is made and the engine marked as running before the device is opened, which may raise.\<close>

definition start_capture :: "portaudio \<Rightarrow> unit engine_prog" where
  "start_capture P =
    thn (ensure_pyaudio P)
    (thn (modify (\<lambda>s. (fresh_queue s)\<lparr>e_running := True\<rparr>))
    (case pa_open_input P of
       Some e \<Rightarrow> raise e
     | None \<Rightarrow> modify (\<lambda>s. s\<lparr>e_capture := True, e_task := True\<rparr>)))"

text \<open>\<^verbatim>\<open>_pyaudio_callback\<close>, on the thread of the device.\<close>

definition pyaudio_callback :: "bytes \<Rightarrow> engine \<Rightarrow> engine" where
  "pyaudio_callback in_data s = (case e_queue s of
     Some (n, q) \<Rightarrow> (if e_running s
       then s\<lparr>e_handoff := e_handoff s @ [(n, in_data)], e_captured := e_captured s @ [in_data]\<rparr> else s)
   | None \<Rightarrow> s)"

text \<open>A turn of the event loop runs the oldest call handed over; \<^verbatim>\<open>QueueFull\<close> ends in the loop's exception handler.\<close>

definition loop_turn :: "engine \<Rightarrow> engine" where
  "loop_turn s = (case e_handoff s of
     [] \<Rightarrow> s
   | (n, x) # rest \<Rightarrow>
      (let s = s\<lparr>e_handoff := rest\<rparr> in
       case e_queue s of
         Some (m, q) \<Rightarrow> (if m = n \<and> length q < CAPTURE_MAX then s\<lparr>e_queue := Some (m, q @ [x])\<rparr> else s)
       | None \<Rightarrow> s))"

text \<open>One round of \<^verbatim>\<open>_drain\<close>: a frame for the callback, whose exceptions are ignored, or a timeout.\<close>

definition drain_round :: "engine \<Rightarrow> engine" where
  "drain_round s = (if \<not> (e_task s \<and> e_running s) then s
     else case e_queue s of
       Some (n, x # q) \<Rightarrow> s\<lparr>e_queue := Some (n, q), e_delivered := e_delivered s @ [x]\<rparr>
     | _ \<Rightarrow> s)"

definition start_playback :: "portaudio \<Rightarrow> unit engine_prog" where
  "start_playback P =
    thn (ensure_pyaudio P)
    (case pa_open_output P of Some e \<Rightarrow> raise e | None \<Rightarrow> modify (\<lambda>s. s\<lparr>e_playback := True\<rparr>))"

definition play_frame :: "portaudio \<Rightarrow> bytes \<Rightarrow> unit engine_prog" where
  "play_frame P pcm =
    bnd (gets e_playback) (\<lambda>up.
    whenp up (attempt
      (case pa_write P pcm of Some e \<Rightarrow> raise e | None \<Rightarrow> modify (\<lambda>s. s\<lparr>e_written := e_written s @ [pcm]\<rparr>))
      (\<lambda>e. if e = OSError then ret () else raise e)))"

definition engine_stop :: "engine \<Rightarrow> engine" where
  "engine_stop s = s\<lparr>e_running := False, e_task := False, e_capture := False, e_playback := False, e_pa := False\<rparr>"

section \<open>Runs\<close>

datatype engine_event = StartCapture | StartPlayback | Captured bytes | LoopTurn | Drain | PlayFrame bytes | StopEngine

fun engine_step :: "portaudio \<Rightarrow> engine \<Rightarrow> engine_event \<Rightarrow> engine" where
  "engine_step P s StartCapture = snd (start_capture P s)"
| "engine_step P s StartPlayback = snd (start_playback P s)"
| "engine_step P s (Captured x) = pyaudio_callback x s"
| "engine_step P s LoopTurn = loop_turn s"
| "engine_step P s Drain = drain_round s"
| "engine_step P s (PlayFrame x) = snd (play_frame P x s)"
| "engine_step P s StopEngine = engine_stop s"

text \<open>What still waits, oldest first: the queue and then the calls handed over for it.\<close>

definition waiting :: "engine \<Rightarrow> bytes list" where
  "waiting s = (case e_queue s of None \<Rightarrow> [] | Some (n, q) \<Rightarrow> q @ map snd (filter (\<lambda>p. fst p = n) (e_handoff s)))"

lemma waiting_upd [simp]:
  "waiting (s\<lparr>e_pa := b\<rparr>) = waiting s" "waiting (s\<lparr>e_running := b\<rparr>) = waiting s" "waiting (s\<lparr>e_capture := b\<rparr>) = waiting s"
  "waiting (s\<lparr>e_task := b\<rparr>) = waiting s" "waiting (s\<lparr>e_playback := b\<rparr>) = waiting s"
  "waiting (s\<lparr>e_written := w\<rparr>) = waiting s" "waiting (s\<lparr>e_delivered := w\<rparr>) = waiting s" "waiting (s\<lparr>e_captured := w\<rparr>) = waiting s"
  by (simp_all add: waiting_def split: option.split)

text \<open>The queue is bounded, and no call handed over is for a queue that does not exist yet.\<close>

definition queue_ok :: "engine \<Rightarrow> bool" where
  "queue_ok s \<longleftrightarrow> (case e_queue s of None \<Rightarrow> e_handoff s = [] \<and> \<not> e_running s
     | Some (n, q) \<Rightarrow> length q \<le> CAPTURE_MAX \<and> (\<forall>p \<in> set (e_handoff s). fst p \<le> n))"

definition engine_ok :: "engine \<Rightarrow> bool" where
  "engine_ok s \<longleftrightarrow> subseq (e_delivered s @ waiting s) (e_captured s) \<and> queue_ok s \<and>
     (e_task s \<longrightarrow> e_capture s) \<and> (e_capture s \<or> e_playback s \<longrightarrow> e_pa s)"

lemma ensure_pyaudio_app:
  "ensure_pyaudio P s = (case if pa_available P then if e_pa s then None else pa_init P else Some RuntimeError of
     Some e \<Rightarrow> (Inl e, s) | None \<Rightarrow> (Inr (), s\<lparr>e_pa := True\<rparr>))"
  by (auto simp: ensure_pyaudio_def prog_simps split: option.split)

lemma subseq_drop_tail: "subseq (xs @ ys) zs \<Longrightarrow> subseq xs zs"
  by (metis subseq_order.order_trans subseq_rev_drop_many subseq_order.order_refl)

lemma subseq_snoc: "subseq xs ys \<Longrightarrow> subseq xs (ys @ [y])"
  by (metis subseq_order.order_trans subseq_rev_drop_many subseq_order.order_refl)

lemma fresh_queue_ok:
  assumes "queue_ok s"
  shows "waiting (fresh_queue s) = []" "queue_ok (fresh_queue s\<lparr>e_running := True\<rparr>)"
proof -
  have "waiting (fresh_queue s) = [] \<and> queue_ok (fresh_queue s\<lparr>e_running := True\<rparr>)"
  proof (cases "e_queue s")
    case (Some b)
    obtain n q where "b = (n, q)" by (cases b)
    then show ?thesis using Some assms
      by (force simp: fresh_queue_def waiting_def queue_ok_def filter_empty_conv)
  qed (use assms in \<open>simp add: fresh_queue_def waiting_def queue_ok_def\<close>)
  then show "waiting (fresh_queue s) = []" "queue_ok (fresh_queue s\<lparr>e_running := True\<rparr>)" by simp_all
qed

lemma queue_ok_upd [simp]:
  "queue_ok (s\<lparr>e_pa := b\<rparr>) = queue_ok s" "queue_ok (s\<lparr>e_capture := b\<rparr>) = queue_ok s" "queue_ok (s\<lparr>e_task := b\<rparr>) = queue_ok s"
  "queue_ok (s\<lparr>e_playback := b\<rparr>) = queue_ok s" "queue_ok (s\<lparr>e_written := w\<rparr>) = queue_ok s"
  "queue_ok (s\<lparr>e_delivered := w\<rparr>) = queue_ok s" "queue_ok (s\<lparr>e_captured := w\<rparr>) = queue_ok s"
  "queue_ok s \<Longrightarrow> queue_ok (s\<lparr>e_running := False\<rparr>)"
  by (auto simp: queue_ok_def split: option.splits)

lemma engine_ok_start: "engine_ok s \<Longrightarrow> engine_ok (snd (start_capture P s))"
proof -
  assume s: "engine_ok s"
  let ?t = "fresh_queue (s\<lparr>e_pa := True\<rparr>)\<lparr>e_running := True\<rparr>"
  have "queue_ok (s\<lparr>e_pa := True\<rparr>)" using s by (simp add: engine_ok_def)
  note f = fresh_queue_ok [OF this]
  have "subseq (e_delivered s) (e_captured s)" using s subseq_drop_tail by (auto simp: engine_ok_def)
  then have t: "engine_ok ?t" "engine_ok (?t\<lparr>e_capture := True, e_task := True\<rparr>)"
    using f s by (simp_all add: engine_ok_def) (simp_all add: fresh_queue_def)
  show ?thesis using s t by (simp add: start_capture_def prog_simps ensure_pyaudio_app split: option.splits)
qed

lemma callback_waiting:
  "e_running s \<Longrightarrow> e_queue s = Some (n, q) \<Longrightarrow> waiting (pyaudio_callback x s) = waiting s @ [x]"
  by (simp add: pyaudio_callback_def waiting_def)

lemma engine_ok_callback: "engine_ok s \<Longrightarrow> engine_ok (pyaudio_callback x s)"
proof (cases "\<exists>n q. e_queue s = Some (n, q) \<and> e_running s")
  case True
  assume s: "engine_ok s"
  obtain n q where q: "e_queue s = Some (n, q)" "e_running s" using True by blast
  have "subseq ((e_delivered s @ waiting s) @ [x]) (e_captured s @ [x])"
    using s by (intro list_emb_append_mono) (simp_all add: engine_ok_def)
  moreover have "queue_ok (pyaudio_callback x s)" using s q by (auto simp: engine_ok_def queue_ok_def pyaudio_callback_def)
  ultimately show ?thesis using s q callback_waiting [OF q(2,1), of x] by (simp add: engine_ok_def) (simp add: pyaudio_callback_def)
next
  case False
  moreover assume "engine_ok s"
  ultimately show ?thesis by (auto simp: pyaudio_callback_def split: option.split)
qed

text \<open>A turn loses at most the frame it handles, and only when the queue is full.\<close>

lemma turn_waiting:
  "subseq (waiting (loop_turn s)) (waiting s) \<and> (length (waiting s) \<le> CAPTURE_MAX \<longrightarrow> waiting (loop_turn s) = waiting s)"
proof (cases "e_handoff s")
  case (Cons p rest)
  obtain n x where p: "p = (n, x)" by (cases p)
  show ?thesis
  proof (cases "e_queue s")
    case (Some b)
    obtain m q where b: "b = (m, q)" by (cases b)
    have "subseq (q @ map snd (filter (\<lambda>p. fst p = m) rest)) (q @ x # map snd (filter (\<lambda>p. fst p = m) rest))"
      by (intro list_emb_append_mono subseq_order.order_refl list_emb_Cons)
    then show ?thesis using Cons Some p b by (auto simp: loop_turn_def waiting_def Let_def)
  qed (use Cons p in \<open>simp add: loop_turn_def waiting_def Let_def\<close>)
qed (simp add: loop_turn_def)

lemma engine_ok_turn: "engine_ok s \<Longrightarrow> engine_ok (loop_turn s)"
proof -
  assume s: "engine_ok s"
  have f: "e_delivered (loop_turn s) = e_delivered s" "e_captured (loop_turn s) = e_captured s" "e_task (loop_turn s) = e_task s"
    "e_capture (loop_turn s) = e_capture s" "e_playback (loop_turn s) = e_playback s" "e_pa (loop_turn s) = e_pa s"
    by (auto simp: loop_turn_def Let_def split: list.split option.split)
  have "subseq (e_delivered s @ waiting (loop_turn s)) (e_delivered s @ waiting s)"
    using turn_waiting by (intro list_emb_append_mono) simp_all
  then have "subseq (e_delivered s @ waiting (loop_turn s)) (e_captured s)"
    using s by (meson engine_ok_def subseq_order.order_trans)
  moreover have "queue_ok (loop_turn s)"
    using s by (auto simp: engine_ok_def queue_ok_def loop_turn_def Let_def split: list.splits option.splits)
  ultimately show ?thesis using s f by (simp add: engine_ok_def)
qed

lemma drain_waiting: "e_delivered (drain_round s) @ waiting (drain_round s) = e_delivered s @ waiting s"
  by (auto simp: drain_round_def waiting_def split: option.split list.split)

lemma engine_ok_drain: "engine_ok s \<Longrightarrow> engine_ok (drain_round s)"
proof -
  assume s: "engine_ok s"
  have f: "e_captured (drain_round s) = e_captured s" "e_task (drain_round s) = e_task s"
    "e_capture (drain_round s) = e_capture s" "e_playback (drain_round s) = e_playback s" "e_pa (drain_round s) = e_pa s"
    by (auto simp: drain_round_def split: list.split option.split)
  have "queue_ok (drain_round s)"
    using s by (auto simp: engine_ok_def queue_ok_def drain_round_def split: list.splits option.splits)
  then show ?thesis using s f drain_waiting [of s] by (simp add: engine_ok_def)
qed

lemma engine_ok_step: "engine_ok s \<Longrightarrow> engine_ok (engine_step P s e)"
proof (cases e)
  assume s: "engine_ok s"
  {
    case StartPlayback
    then show ?thesis using s by (auto simp: start_playback_def prog_simps ensure_pyaudio_app engine_ok_def split: option.splits)
  next
    case (PlayFrame x)
    then show ?thesis using s
      by (auto simp: play_frame_def prog_simps whenp_def engine_ok_def split: option.splits if_splits)
  next
    case StopEngine
    then show ?thesis using s by (auto simp: engine_stop_def engine_ok_def)
  }
qed (simp_all add: engine_ok_start engine_ok_callback engine_ok_turn engine_ok_drain)

interpretation eng: machine "engine_step P" engine_ok for P
  by unfold_locales (rule engine_ok_step)

section \<open>Properties\<close>

lemma engine_init_ok: "engine_ok (engine_init r c)"
  by (simp add: engine_ok_def engine_init_def waiting_def queue_ok_def)

text \<open> C19: Whatever the device, the event loop and the application do, in whatever order: the frames given to the
  callback are captured ones, each at most once and in the order of their capture; the queue never holds more
  than 64; and frames are only delivered while the device is open. \<close>

theorem capture_in_order:
  assumes "t = run (engine_step P) (engine_init sample_rate chunk_ms) es"
  shows "subseq (e_delivered t) (e_captured t) \<and> (\<forall>n q. e_queue t = Some (n, q) \<longrightarrow> length q \<le> 64) \<and>
    (e_task t \<longrightarrow> e_capture t \<and> e_pa t)"
proof -
  have "engine_ok t" unfolding assms by (rule eng.inv_run [OF engine_init_ok])
  then show ?thesis using subseq_drop_tail
    by (auto simp: engine_ok_def queue_ok_def CAPTURE_MAX_def)
qed

text \<open> No frame is lost as long as no more than 64 wait. From a running engine that has caught up, after any
  interleaving of captures, turns of the loop and rounds of the drain task in which the backlog stays within
  the queue, what was delivered and what waits is exactly what was captured. \<close>

theorem capture_lossless:
  assumes "e_running s" "e_queue s = Some (n, q)" "waiting s = []"
    and "\<forall>e \<in> set es. (\<exists>x. e = Captured x) \<or> e = LoopTurn \<or> e = Drain"
    and "\<forall>k \<le> length es. length (waiting (run (engine_step P) s (take k es))) \<le> 64"
    and "t = run (engine_step P) s es"
  shows "e_delivered t @ waiting t = e_delivered s @ concat (map (\<lambda>e. case e of Captured x \<Rightarrow> [x] | _ \<Rightarrow> []) es)"
proof -
  have "e_running (run (engine_step P) s es) \<and> e_queue (run (engine_step P) s es) \<noteq> None \<and>
      e_delivered (run (engine_step P) s es) @ waiting (run (engine_step P) s es) =
      e_delivered s @ waiting s @ concat (map (\<lambda>e. case e of Captured x \<Rightarrow> [x] | _ \<Rightarrow> []) es)"
    if "e_running s" "e_queue s \<noteq> None" "\<forall>e \<in> set es. (\<exists>x. e = Captured x) \<or> e = LoopTurn \<or> e = Drain"
      "\<forall>k \<le> length es. length (waiting (run (engine_step P) s (take k es))) \<le> 64" for s
    using that
  proof (induction es arbitrary: s)
    case (Cons e es)
    let ?s = "engine_step P s e"
    have w: "length (waiting s) \<le> CAPTURE_MAX" using Cons.prems(4) [rule_format, of 0] by (simp add: CAPTURE_MAX_def)
    have "e_running ?s \<and> e_queue ?s \<noteq> None \<and>
        e_delivered ?s @ waiting ?s = e_delivered s @ waiting s @ (case e of Captured x \<Rightarrow> [x] | _ \<Rightarrow> [])"
      using Cons.prems(3)
    proof (simp only: list.set ball_simps, elim conjE disjE exE)
      fix x assume "e = Captured x"
      then show ?thesis using Cons.prems(1,2) callback_waiting [of s] by (auto simp: pyaudio_callback_def)
    next
      assume "e = LoopTurn"
      then show ?thesis using Cons.prems(1,2) turn_waiting [of s] w
        by (auto simp: loop_turn_def Let_def split: list.splits option.splits)
    next
      assume "e = Drain"
      then show ?thesis using Cons.prems(1,2) drain_waiting [of s]
        by (auto simp: drain_round_def split: list.splits option.splits)
    qed
    moreover have "\<forall>k \<le> length es. length (waiting (run (engine_step P) ?s (take k es))) \<le> 64"
      using Cons.prems(4) by (metis Suc_le_mono length_Cons run_Cons take_Suc_Cons)
    ultimately show ?case using Cons.IH [of ?s] Cons.prems(3) by auto
  qed simp
  from this [of s] assms show ?thesis by simp
qed

definition good_device :: portaudio where
  "good_device = \<lparr>pa_available = True, pa_init = None, pa_open_input = None, pa_open_output = None, pa_write = (\<lambda>_. None)\<rparr>"

lemma capture_in_order_witness:
  "\<exists>t. t = run (engine_step good_device) (engine_init 48000 20) [StartCapture, Captured [1], Captured [2], LoopTurn, Drain] \<and>
     e_delivered t = [[1]] \<and> subseq (e_delivered t) (e_captured t)"
proof -
  let ?t = "run (engine_step good_device) (engine_init 48000 20) [StartCapture, Captured [1], Captured [2], LoopTurn, Drain]"
  have "e_delivered ?t = [[1]]"
    by (simp add: engine_init_def start_capture_def prog_simps ensure_pyaudio_app good_device_def fresh_queue_def
        pyaudio_callback_def loop_turn_def drain_round_def CAPTURE_MAX_def)
  then show ?thesis using capture_in_order [OF refl, of good_device 48000 20 "[StartCapture, Captured [1], Captured [2], LoopTurn, Drain]"]
    by blast
qed

lemma capture_lossless_witness:
  "\<exists>s t. s = run (engine_step good_device) (engine_init 48000 20) [StartCapture] \<and>
     t = run (engine_step good_device) s [Captured [1], LoopTurn, Captured [2], Drain] \<and>
     e_delivered t @ waiting t = [[1], [2]]"
proof -
  let ?s = "run (engine_step good_device) (engine_init 48000 20) [StartCapture]"
  let ?es = "[Captured [1], LoopTurn, Captured [2], Drain]"
  have s: "?s = (engine_init 48000 20)\<lparr>e_pa := True, e_queue := Some (0, []), e_running := True, e_capture := True, e_task := True\<rparr>"
    by (simp add: engine_init_def start_capture_def prog_simps ensure_pyaudio_app good_device_def fresh_queue_def)
  have w: "\<forall>k \<le> length ?es. length (waiting (run (engine_step good_device) ?s (take k ?es))) \<le> 64"
  proof (intro allI impI)
    fix k assume "k \<le> length ?es"
    then have "k = 0 \<or> k = 1 \<or> k = 2 \<or> k = 3 \<or> k = 4" by auto
    then show "length (waiting (run (engine_step good_device) ?s (take k ?es))) \<le> 64"
      unfolding s by (elim disjE) (simp_all add: engine_init_def pyaudio_callback_def loop_turn_def drain_round_def CAPTURE_MAX_def waiting_def)
  qed
  have "e_delivered (run (engine_step good_device) ?s ?es) @ waiting (run (engine_step good_device) ?s ?es) =
      e_delivered ?s @ concat (map (\<lambda>e. case e of Captured x \<Rightarrow> [x] | _ \<Rightarrow> []) ?es)"
    by (rule capture_lossless [OF _ _ _ _ w refl]) (unfold s, simp_all add: engine_init_def waiting_def)
  moreover have "e_delivered ?s = []" unfolding s by (simp add: engine_init_def)
  ultimately show ?thesis by (intro exI [of _ ?s] exI [of _ "run (engine_step good_device) ?s ?es"]) simp
qed

end
