(* ===== verification/Layout.thy ===== *)
theory Layout
  imports App_Properties
begin

text \<open>
  What the screen shows (\<^verbatim>\<open>client/ui/screen.py\<close>, \<^verbatim>\<open>status_bar.py\<close>, \<^verbatim>\<open>sidebar.py\<close>, \<^verbatim>\<open>input_bar.py\<close> and their
  calls in \<^verbatim>\<open>App._render\<close>): the windows and the rows written into them, as lists of Unicode code points.
  The chat window is in Chat_View, the loop that draws in Ui_Loop.
\<close>

type_synonym utext = "nat list"

definition cps :: "string \<Rightarrow> utext" where "cps s = map of_char s"
definition ELLIPSIS :: nat where "ELLIPSIS = 0x2026"
definition spaces :: "int \<Rightarrow> utext" where "spaces n = replicate (nat n) 32"
definition ljust :: "nat \<Rightarrow> utext \<Rightarrow> utext" where "ljust w t = t @ replicate (w - length t) 32"

section \<open>Windows\<close>

record rect =
  r_top :: int
  r_left :: int
  r_height :: int
  r_width :: int

definition SIDEBAR_W :: int where "SIDEBAR_W = 22"
definition HEADER_H :: int where "HEADER_H = 1"
definition INPUT_H :: int where "INPUT_H = 1"

text \<open>Header, sidebar, divider, chat and input line of a terminal of \<open>h\<close> lines and \<open>w\<close> columns.\<close>

definition rebuild :: "int \<Rightarrow> int \<Rightarrow> rect list" where
  "rebuild h w =
    (let mid_h = max (h - HEADER_H - INPUT_H) 1; chat_w = max (w - SIDEBAR_W - 1) 1 in
     [\<lparr>r_top = 0, r_left = 0, r_height = HEADER_H, r_width = w\<rparr>,
      \<lparr>r_top = HEADER_H, r_left = 0, r_height = mid_h, r_width = SIDEBAR_W\<rparr>,
      \<lparr>r_top = HEADER_H, r_left = SIDEBAR_W, r_height = mid_h, r_width = 1\<rparr>,
      \<lparr>r_top = HEADER_H, r_left = SIDEBAR_W + 1, r_height = mid_h, r_width = chat_w\<rparr>,
      \<lparr>r_top = h - INPUT_H, r_left = 0, r_height = INPUT_H, r_width = w\<rparr>])"

definition covers :: "rect \<Rightarrow> int \<Rightarrow> int \<Rightarrow> bool" where
  "covers q r c \<longleftrightarrow> r_top q \<le> r \<and> r < r_top q + r_height q \<and> r_left q \<le> c \<and> c < r_left q + r_width q"

section \<open>The status bar\<close>

definition status_row :: "nat \<Rightarrow> string \<Rightarrow> string option \<Rightarrow> nat \<Rightarrow> utext" where
  "status_row w status chat new_count =
    (let title = cps '' ChatterTerminal v1.0'' @ (case chat of
           Some (c # cs) \<Rightarrow> cps ''  '' @ [0x203A] @ cps ''  '' @ cps (c # cs) | _ \<Rightarrow> []);
         dot = (if status = ''online'' then 0x25CF else 0x25CB);
         badge = (if new_count \<noteq> 0 then cps ('' ['' @ nat_str new_count @ '' unread]'') else []);
         right = cps '' '' @ [dot] @ cps '' '' @ cps status @ badge @ cps '' '';
         title = trunc ELLIPSIS title (int w - int (length right) - 1);
         pad = int w - int (length title) - int (length right)
     in title @ spaces (max pad 0) @ right)"

section \<open>The sidebar\<close>

datatype attr = TitleAttr | LineAttr | OnlineAttr | OfflineAttr | HighlightAttr | DimAttr | PlainAttr

fun item_label :: "chat_item \<Rightarrow> string" where
  "item_label (RoomItem r) = CHR ''#'' # lr_name r"
| "item_label (ContactItem c) = ct_username c"

fun item_online :: "chat_item \<Rightarrow> bool" where
  "item_online (RoomItem r) = True"
| "item_online (ContactItem c) = (ct_status c = ''online'')"

definition item_dot :: "chat_item \<Rightarrow> nat" where
  "item_dot i = (case i of RoomItem r \<Rightarrow> of_char (CHR ''#'') | ContactItem c \<Rightarrow> if item_online i then 0x25CF else 0x25CB)"

definition badge_text :: "nat \<Rightarrow> utext" where
  "badge_text n = cps (''['' @ nat_str n @ '']'')"

definition item_row :: "nat \<Rightarrow> string option \<Rightarrow> (string \<times> nat) list \<Rightarrow> chat_item \<Rightarrow> utext \<times> attr" where
  "item_row w chat unread_map i =
    (let badge = (case dget unread_map (item_name i) of Some n \<Rightarrow> n | None \<Rightarrow> 0);
         label = trunc ELLIPSIS (cps (item_label i)) (int w - 5);
         line = cps '' '' @ [item_dot i] @ cps '' '' @ label
     in (if badge \<noteq> 0 then trunc ELLIPSIS line (int w - int (length (badge_text badge)) - 1) @ badge_text badge else line,
         if Some (item_name i) = chat then HighlightAttr
         else if item_online i then OnlineAttr else OfflineAttr))"

definition sidebar_rows ::
  "nat \<Rightarrow> nat \<Rightarrow> chat_item list \<Rightarrow> string option \<Rightarrow> (string \<times> nat) list \<Rightarrow> (utext \<times> attr) list" where
  "sidebar_rows h w entries chat unread_map =
    (let rows = [(cps '' CHATS'', TitleAttr), (cps '' '' @ replicate 18 0x2500, LineAttr)]
           @ map (item_row w chat unread_map) entries
           @ (if entries = [] then [(cps '' (no contacts)'', DimAttr)] else []);
         rows = take h rows @ replicate (h - length rows) ([], PlainAttr)
     in map (\<lambda>(t, a). (take w (ljust w t), a)) rows)"

section \<open>The input line\<close>

definition PROMPT :: utext where "PROMPT = cps ''> ''"

text \<open>The row and the column of the terminal's cursor (\<open>None\<close> when it is not moved).\<close>

definition input_row :: "nat \<Rightarrow> string \<Rightarrow> nat \<Rightarrow> string \<Rightarrow> utext \<times> nat option" where
  "input_row w line_buf pos hint =
    (let right = take (w div 3) (cps (if hint = [] then ''  [Enter] send  [^C] quit'' else ''  '' @ hint));
         avail = int w - int (length PROMPT) - int (length right) - 1;
         start = nat (max 0 (int pos - avail + 1));
         visible = (if 0 < avail then take (nat avail) (drop start (cps line_buf)) else []);
         cur_col = (if 0 < avail then int (length PROMPT) + (int pos - int start) else int (length PROMPT));
         line = PROMPT @ visible;
         pad = int w - int (length line) - int (length right)
     in (take w (line @ spaces (max pad 0) @ right), if 0 \<le> cur_col \<and> cur_col < int w then Some (nat cur_col) else None))"

text \<open>The rows of a frame, from the application's state.\<close>

definition shown_status :: "'e app_scheme \<Rightarrow> string" where
  "shown_status s = (if conn_status s = ''reconnecting''
     then ''reconnecting (#'' @ nat_str (reconnect_att s) @ '')'' else conn_status s)"

definition render_header :: "nat \<Rightarrow> 'e app_scheme \<Rightarrow> utext" where
  "render_header w s = status_row w (shown_status s) (current_chat s) (sum_list (map snd (unread s)))"

definition render_sidebar :: "nat \<Rightarrow> 'e app_scheme \<Rightarrow> (utext \<times> attr) list" where
  "render_sidebar h s = sidebar_rows h (nat SIDEBAR_W) (contact_items s) (current_chat s) (unread s)"

definition render_input :: "nat \<Rightarrow> 'e app_scheme \<Rightarrow> utext \<times> nat option" where
  "render_input w s = input_row w (buf s) (cursor s) (notice s)"

section \<open>Properties\<close>

lemma length_cps [simp]: "length (cps s) = length s" by (simp add: cps_def)
lemma length_spaces [simp]: "length (spaces n) = nat n" by (simp add: spaces_def)
lemma length_ljust: "length (ljust w t) = max w (length t)" by (simp add: ljust_def)

text \<open> The five windows tile the terminal: on one of at least three lines and 24 columns, every cell belongs to
  exactly one of them, and none reaches beyond the edges. \<close>

theorem windows_tile_terminal:
  assumes "3 \<le> h" "24 \<le> w"
  shows "(\<forall>r c. 0 \<le> r \<and> r < h \<and> 0 \<le> c \<and> c < w \<longleftrightarrow> length (filter (\<lambda>q. covers q r c) (rebuild h w)) = 1) \<and>
    (\<forall>r c. length (filter (\<lambda>q. covers q r c) (rebuild h w)) \<le> 1)"
  using assms by (auto simp: rebuild_def covers_def SIDEBAR_W_def HEADER_H_def INPUT_H_def Let_def)

lemma windows_tile_terminal_witness: "length (filter (\<lambda>q. covers q 23 79) (rebuild 24 80)) = 1"
  by (rule windows_tile_terminal [of 24 80, THEN conjunct1, THEN spec, THEN spec, THEN iffD1]) simp_all

lemma nth_cps: "i < length s \<Longrightarrow> cps s ! i = of_char (s ! i)" by (simp add: cps_def)

text \<open> The input line always shows the cursor: on a row of at least five columns, with the cursor on the text
  or just behind it, the row is exactly as wide as the window, the terminal's cursor is put on it, and the cell
  there shows the character the next insertion goes before. \<close>

theorem input_row_shows_cursor:
  assumes "5 \<le> w" "cursor s \<le> length (buf s)" "render_input w s = (row, c)"
  shows "length row = w \<and> (\<exists>k. c = Some k \<and> k < w \<and>
    (cursor s < length (buf s) \<longrightarrow> row ! k = of_char (buf s ! cursor s)))"
proof -
  define right where "right = take (w div 3) (cps (if notice s = [] then ''  [Enter] send  [^C] quit'' else ''  '' @ notice s))"
  define avail where "avail = w - 3 - length right"
  define start where "start = cursor s + 1 - avail"
  define visible where "visible = take avail (drop start (cps (buf s)))"
  have rl: "length right \<le> w div 3" by (simp add: right_def)
  have av: "0 < avail" "int w - int (length PROMPT) - int (length right) - 1 = int avail"
    using rl assms(1) by (auto simp: avail_def PROMPT_def)
  have st: "nat (max 0 (int (cursor s) - int avail + 1)) = start" by (auto simp: start_def)
  have pos: "start \<le> cursor s" "cursor s - start < avail" using av(1) by (auto simp: start_def)
  have vl: "length visible \<le> avail" by (simp add: visible_def)
  let ?line = "PROMPT @ visible @ spaces (int w - int (length (PROMPT @ visible)) - int (length right)) @ right"
  have len: "length ?line = w" using vl rl assms(1) by (auto simp: avail_def PROMPT_def)
  have "max (int w - int (length (PROMPT @ visible)) - int (length right)) 0 =
      int w - int (length (PROMPT @ visible)) - int (length right)"
    using vl rl assms(1) by (auto simp: avail_def PROMPT_def)
  moreover have "render_input w s =
      (take w ((PROMPT @ visible) @ spaces (max (int w - int (length (PROMPT @ visible)) - int (length right)) 0) @ right),
       if 0 \<le> int (length PROMPT) + (int (cursor s) - int start) \<and> int (length PROMPT) + (int (cursor s) - int start) < int w
       then Some (nat (int (length PROMPT) + (int (cursor s) - int start))) else None)"
    unfolding render_input_def input_row_def Let_def right_def [symmetric] av(2) st
    using av(1) by (simp add: visible_def)
  moreover have k: "int (length PROMPT) + (int (cursor s) - int start) = int (2 + (cursor s - start))" "2 + (cursor s - start) < w"
    using pos rl by (auto simp: PROMPT_def avail_def)
  ultimately have e: "row = ?line" "c = Some (2 + (cursor s - start))"
    using assms(3) len by (simp_all del: of_nat_add)
  have "?line ! (2 + (cursor s - start)) = of_char (buf s ! cursor s)" if "cursor s < length (buf s)"
  proof -
    have i: "cursor s - start < length visible" using that pos by (simp add: visible_def)
    then have "?line ! (2 + (cursor s - start)) = visible ! (cursor s - start)"
      by (simp add: PROMPT_def nth_append cps_def)
    also have "\<dots> = cps (buf s) ! cursor s" using i pos that by (simp add: visible_def)
    finally show ?thesis using that by (simp add: nth_cps)
  qed
  then show ?thesis using e len k(2) by simp
qed

text \<open> The sidebar fills its window with rows of the window's width, and the row of every contact that fits and
  has unread messages ends in their number, however long the contact's name is. \<close>

theorem sidebar_shows_unread:
  assumes "i < length (contact_items s)" "i + 2 < h"
    and "dget (unread s) (item_name (contact_items s ! i)) = Some n" "0 < n" "n < 10 ^ 15"
  shows "length (render_sidebar h s) = h \<and> (\<forall>x \<in> set (render_sidebar h s). length (fst x) = 22) \<and>
    (\<exists>pre k. fst (render_sidebar h s ! (i + 2)) = pre @ badge_text n @ replicate k 32)"
proof -
  let ?it = "contact_items s ! i"
  let ?row = "item_row 22 (current_chat s) (unread s) ?it"
  have nl: "length (nat_str n) \<le> 15" using assms(5) length_nat_str [of n 15] by simp
  have bl: "length (badge_text n) \<le> 17" using nl by (simp add: badge_text_def)
  have r: "fst (render_sidebar h s ! (i + 2)) = take 22 (ljust 22 (fst ?row))"
    using assms(1,2)
    by (auto simp: render_sidebar_def sidebar_rows_def SIDEBAR_W_def Let_def nth_append split_def)
  obtain pre where p: "fst ?row = pre @ badge_text n" "int (length pre) \<le> 22 - int (length (badge_text n)) - 1"
  proof
    let ?line = "cps '' '' @ [item_dot ?it] @ cps '' '' @ trunc ELLIPSIS (cps (item_label ?it)) (int 22 - 5)"
    let ?pre = "trunc ELLIPSIS ?line (22 - int (length (badge_text n)) - 1)"
    show "fst ?row = ?pre @ badge_text n" using assms(3,4) by (simp add: item_row_def Let_def)
    show "int (length ?pre) \<le> 22 - int (length (badge_text n)) - 1" using bl by (intro trunc_length) simp
  qed
  then have "length (fst ?row) \<le> 22" by simp
  then have "take 22 (ljust 22 (fst ?row)) = pre @ badge_text n @ replicate (22 - length (fst ?row)) 32"
    using p(1) by (simp add: ljust_def)
  moreover have "length (render_sidebar h s) = h" by (simp add: render_sidebar_def sidebar_rows_def Let_def)
  moreover have "\<forall>x \<in> set (render_sidebar h s). length (fst x) = 22"
    by (auto simp: render_sidebar_def sidebar_rows_def SIDEBAR_W_def Let_def length_ljust split_def)
  ultimately show ?thesis using r by auto
qed

definition busy_app :: app where
  "busy_app = app_boot ''ann'' None\<lparr>buf := ''hello'', cursor := 3, unread := [(''room:r1'', 12)],
     contact_items := [RoomItem \<lparr>lr_id = ''r1'', lr_name = ''a very long name of a room'', lr_last_message = None,
       lr_unread_count = 0\<rparr>]\<rparr>"

lemma input_row_shows_cursor_witness:
  "\<exists>row k. render_input 5 busy_app = (row, Some k) \<and> row ! k = of_char (CHR ''l'')"
proof -
  obtain row c where r: "render_input 5 busy_app = (row, c)" by fastforce
  show ?thesis using input_row_shows_cursor [OF _ _ r] r by (auto simp: busy_app_def)
qed

lemma sidebar_shows_unread_witness:
  "\<exists>pre k. fst (render_sidebar 22 busy_app ! 2) = pre @ cps ''[12]'' @ replicate k 32"
proof -
  have "nat_str 12 = ''12''" by code_simp
  then show ?thesis
    using sidebar_shows_unread [of 0 busy_app 22 12]
    by (auto simp: busy_app_def room_key_def badge_text_def numeral_2_eq_2)
qed

end
