(* ===== verification/Text_Wrap.thy ===== *)
theory Text_Wrap
  imports Prelude
begin

text \<open>
  Python's \<^verbatim>\<open>textwrap.wrap(text, width)\<close> with its default options, which breaks the messages of the chat window
  into lines. A text is munged (tabs expanded, white space replaced), split into chunks by the regular
  expression \<^verbatim>\<open>wordsep_re\<close> and filled into lines; chunks that are too long are broken, after a hyphen where there is
  one.
\<close>

section \<open>Munging\<close>

definition wrap_space :: "char \<Rightarrow> bool" where
  "wrap_space c \<longleftrightarrow> (let n = (of_char c :: nat) in (9 \<le> n \<and> n \<le> 13) \<or> n = 32)"

fun expand_tabs :: "nat \<Rightarrow> string \<Rightarrow> string" where
  "expand_tabs col [] = []"
| "expand_tabs col (c # cs) =
    (if c = CHR 0x09 then replicate (8 - col mod 8) (CHR '' '') @ expand_tabs (col + (8 - col mod 8)) cs
     else if c = CHR 0x0A \<or> c = CHR 0x0D then c # expand_tabs 0 cs
     else c # expand_tabs (col + 1) cs)"

definition munge :: "string \<Rightarrow> string" where
  "munge t = map (\<lambda>c. if wrap_space c then CHR '' '' else c) (expand_tabs 0 t)"

section \<open>Splitting\<close>

text \<open>\<^verbatim>\<open>\w\<close>, a letter (\<^verbatim>\<open>[^\d\W]\<close>) and the punctuation of a word, on the characters up to U+00FF.\<close>

definition re_word :: "char \<Rightarrow> bool" where
  "re_word c \<longleftrightarrow> (let n = (of_char c :: nat) in
     (48 \<le> n \<and> n \<le> 57) \<or> (65 \<le> n \<and> n \<le> 90) \<or> n = 95 \<or> (97 \<le> n \<and> n \<le> 122) \<or>
     n \<in> {170, 178, 179, 181, 185, 186, 188, 189, 190} \<or> (192 \<le> n \<and> n \<noteq> 215 \<and> n \<noteq> 247))"

definition re_letter :: "char \<Rightarrow> bool" where
  "re_letter c \<longleftrightarrow> re_word c \<and> \<not> (let n = (of_char c :: nat) in 48 \<le> n \<and> n \<le> 57)"

definition re_punct :: "char \<Rightarrow> bool" where
  "re_punct c \<longleftrightarrow> re_word c \<or> (of_char c :: nat) \<in> {33, 34, 39, 38, 46, 44, 63}"

definition hyphen :: char where "hyphen = CHR ''-''"

fun starts_letter :: "string \<Rightarrow> bool" where
  "starts_letter (a # b # c # cs) = (re_letter a \<and> (re_letter b \<or> (b = hyphen \<and> re_letter c)))"
| "starts_letter [a, b] = (re_letter a \<and> re_letter b)"
| "starts_letter _ = False"

text \<open>\<^verbatim>\<open>(?=-{2,}\w)\<close> with the number of hyphens; \<open>prev\<close> below is what precedes, last character first.\<close>

definition hyphens :: "string \<Rightarrow> nat" where
  "hyphens t = length (takeWhile (\<lambda>c. c = hyphen) t)"

definition dash_ahead :: "string \<Rightarrow> bool" where
  "dash_ahead t \<longleftrightarrow> 2 \<le> hyphens t \<and> (case drop (hyphens t) t of [] \<Rightarrow> False | c # _ \<Rightarrow> re_word c)"

fun last_punct :: "string \<Rightarrow> bool" where
  "last_punct [] = False"
| "last_punct (c # _) = re_punct c"

text \<open>The text before a hyphen: two letters, or a letter, a hyphen and a letter.\<close>

fun before_hyphen :: "string \<Rightarrow> bool" where
  "before_hyphen (a # b # c # _) = (re_letter a \<and> (re_letter b \<or> (b = hyphen \<and> re_letter c)))"
| "before_hyphen [a, b] = (re_letter a \<and> re_letter b)"
| "before_hyphen _ = False"

text \<open>The lazy alternative for words: how the match ends after \<open>n\<close> characters, if it does.\<close>

definition word_ends :: "string \<Rightarrow> string \<Rightarrow> nat \<Rightarrow> nat option" where
  "word_ends prev rest n =
    (let before = rev (take n rest) @ prev; after = drop n rest in
     if after \<noteq> [] \<and> hd after = hyphen \<and> before_hyphen before \<and> starts_letter (tl after) then Some (n + 1)
     else if after = [] \<or> wrap_space (hd after) then Some n
     else if last_punct before \<and> dash_ahead after then Some n
     else None)"

definition first_end :: "string \<Rightarrow> string \<Rightarrow> nat" where
  "first_end prev rest =
    (case filter (\<lambda>n. word_ends prev rest n \<noteq> None) [1..<Suc (length rest)] of
       [] \<Rightarrow> length rest | n # _ \<Rightarrow> the (word_ends prev rest n))"

definition match_len :: "string \<Rightarrow> string \<Rightarrow> nat" where
  "match_len prev rest =
    (if wrap_space (hd rest) then length (takeWhile wrap_space rest)
     else if last_punct prev \<and> dash_ahead rest then hyphens rest
     else first_end prev rest)"

lemma word_ends_ge: "word_ends prev rest n = Some m \<Longrightarrow> n \<le> m"
  by (auto simp: word_ends_def Let_def split: if_splits)

lemma match_len_pos: "rest \<noteq> [] \<Longrightarrow> 0 < match_len prev rest"
proof -
  assume r: "rest \<noteq> []"
  have "0 < first_end prev rest"
  proof (cases "filter (\<lambda>n. word_ends prev rest n \<noteq> None) [1..<Suc (length rest)]")
    case (Cons n ns)
    then have "n \<in> set (filter (\<lambda>n. word_ends prev rest n \<noteq> None) [1..<Suc (length rest)])" by simp
    then obtain m where "1 \<le> n" "word_ends prev rest n = Some m" by auto
    moreover from this have "first_end prev rest = m" using Cons by (simp only: first_end_def list.case option.sel)
    ultimately show ?thesis using word_ends_ge [of prev rest n m] by simp
  qed (use r in \<open>simp only: first_end_def list.case, simp\<close>)
  then show ?thesis using r by (cases rest) (auto simp: match_len_def dash_ahead_def)
qed

function split_chunks :: "string \<Rightarrow> string \<Rightarrow> string list" where
  "split_chunks prev rest =
    (if rest = [] then []
     else let n = match_len prev rest in take n rest # split_chunks (rev (take n rest) @ prev) (drop n rest))"
  by pat_completeness auto
termination by (relation "measure (\<lambda>(prev, rest). length rest)") (auto simp: match_len_pos)

declare split_chunks.simps [simp del]

lemma split_chunks_concat: "concat (split_chunks prev rest) = rest"
  by (induction prev rest rule: split_chunks.induct) (subst split_chunks.simps, simp add: Let_def)

lemma split_chunks_ne: "c \<in> set (split_chunks prev rest) \<Longrightarrow> c \<noteq> []"
proof (induction prev rest rule: split_chunks.induct)
  case (1 prev rest)
  from "1.prems" show ?case
    using match_len_pos [of rest prev] "1.IH" unfolding split_chunks.simps [of prev rest]
    by (auto simp: Let_def split: if_splits)
qed

section \<open>Filling\<close>

definition blank :: "string \<Rightarrow> bool" where
  "blank c \<longleftrightarrow> py_strip c = []"

text \<open>The chunks that fit on a line of \<open>w\<close> after \<open>k\<close> characters, and the others.\<close>

fun fill_line :: "nat \<Rightarrow> nat \<Rightarrow> string list \<Rightarrow> string list \<times> string list" where
  "fill_line w k [] = ([], [])"
| "fill_line w k (c # cs) =
    (if k + length c \<le> w then (case fill_line w (k + length c) cs of (l, r) \<Rightarrow> (c # l, r)) else ([], c # cs))"

text \<open>\<^verbatim>\<open>_handle_long_word\<close>: where a chunk is cut when \<open>left\<close> places are left.\<close>

definition last_hyphen :: "nat \<Rightarrow> string \<Rightarrow> nat option" where
  "last_hyphen left c = (case filter (\<lambda>i. c ! i = hyphen) [0..<min left (length c)] of [] \<Rightarrow> None | is \<Rightarrow> Some (last is))"

definition cut_at :: "nat \<Rightarrow> string \<Rightarrow> nat" where
  "cut_at left c = (if left < length c then (case last_hyphen left c of
       Some i \<Rightarrow> if 0 < i \<and> list_ex (\<lambda>x. x \<noteq> hyphen) (take i c) then i + 1 else left
     | None \<Rightarrow> left) else left)"

definition break_long :: "nat \<Rightarrow> string list \<times> string list \<Rightarrow> string list \<times> string list" where
  "break_long w lr = (case lr of
     (l, c # cs) \<Rightarrow> (if w < length c
       then let n = cut_at (w - length (concat l)) c in (l @ [take n c], drop n c # cs) else (l, c # cs))
   | (l, []) \<Rightarrow> (l, []))"

definition drop_blank_end :: "string list \<Rightarrow> string list" where
  "drop_blank_end l = (if l \<noteq> [] \<and> blank (last l) then butlast l else l)"

definition drop_blank_start :: "bool \<Rightarrow> string list \<Rightarrow> string list" where
  "drop_blank_start later cs = (if later \<and> cs \<noteq> [] \<and> blank (hd cs) then tl cs else cs)"

text \<open>One line: what it holds before the last white space is dropped, and the chunks that remain.\<close>

definition next_line :: "nat \<Rightarrow> bool \<Rightarrow> string list \<Rightarrow> string list \<times> string list" where
  "next_line w later cs = break_long w (fill_line w 0 (drop_blank_start later cs))"

definition chunk_size :: "string list \<Rightarrow> nat" where
  "chunk_size cs = length (concat cs) + length cs"

lemma fill_line_parts: "fill_line w k cs = (l, r) \<Longrightarrow> cs = l @ r \<and> k + length (concat l) \<le> max k w"
proof (induction w k cs arbitrary: l r rule: fill_line.induct)
  case (2 w k c cs)
  then show ?case by (fastforce split: if_splits prod.splits)
qed simp

lemma fill_line_stuck: "fill_line w k (c # cs) = ([], r) \<Longrightarrow> w < k + length c \<and> r = c # cs"
  by (auto split: if_splits prod.splits)

lemma cut_at_bounds: "cut_at left c \<le> left" "0 < left \<Longrightarrow> 0 < cut_at left c"
proof -
  have i: "i < left" if "last_hyphen left c = Some i" for i
  proof -
    from that obtain x xs where "filter (\<lambda>i. c ! i = hyphen) [0..<min left (length c)] = x # xs" "i = last (x # xs)"
      by (auto simp: last_hyphen_def split: list.splits)
    then have "i \<in> set (filter (\<lambda>i. c ! i = hyphen) [0..<min left (length c)])"
      using last_in_set [of "x # xs"] by (simp only: list.distinct) simp
    then show ?thesis by simp
  qed
  show "cut_at left c \<le> left" "0 < left \<Longrightarrow> 0 < cut_at left c"
    using i by (auto simp: cut_at_def Suc_le_eq split: option.split)
qed

lemma break_long_parts: "break_long w (l, r) = (l', r') \<Longrightarrow> concat l' @ concat r' = concat l @ concat r"
  by (auto simp: break_long_def Let_def split: list.splits if_splits)

lemma drop_blank_start_size:
  "chunk_size (drop_blank_start later cs) \<le> chunk_size cs"
  "drop_blank_start later cs \<noteq> cs \<Longrightarrow> chunk_size (drop_blank_start later cs) < chunk_size cs"
proof -
  have "drop_blank_start later cs = cs \<or> (cs \<noteq> [] \<and> drop_blank_start later cs = tl cs)"
    by (simp add: drop_blank_start_def)
  moreover have "cs \<noteq> [] \<Longrightarrow> chunk_size (tl cs) < chunk_size cs" by (cases cs) (simp_all add: chunk_size_def)
  ultimately show "chunk_size (drop_blank_start later cs) \<le> chunk_size cs"
    "drop_blank_start later cs \<noteq> cs \<Longrightarrow> chunk_size (drop_blank_start later cs) < chunk_size cs"
    by (metis le_refl less_imp_le)+
qed

lemma next_line_shrinks:
  assumes "0 < w" "cs \<noteq> []" "next_line w later cs = (l, r)"
  shows "chunk_size r < chunk_size cs"
proof -
  let ?cs = "drop_blank_start later cs"
  obtain l0 r0 where f: "fill_line w 0 ?cs = (l0, r0)" by fastforce
  note p = fill_line_parts [OF f]
  note le = drop_blank_start_size [of later cs]
  have b: "chunk_size r \<le> chunk_size r0" "l0 = [] \<Longrightarrow> r0 \<noteq> [] \<Longrightarrow> chunk_size r < chunk_size r0"
  proof -
    have br: "break_long w (l0, r0) = (l, r)" using assms(3) f by (simp add: next_line_def)
    then show "chunk_size r \<le> chunk_size r0"
      by (auto simp: break_long_def chunk_size_def Let_def split: list.splits if_splits)
    assume "l0 = []" "r0 \<noteq> []"
    moreover from this obtain c cs' where c: "?cs = c # cs'" "r0 = c # cs'" "w < length c"
      using p f fill_line_stuck by (cases ?cs) (auto dest: fill_line_stuck)
    ultimately show "chunk_size r < chunk_size r0"
      using br cut_at_bounds [of w c] assms(1) by (auto simp: break_long_def chunk_size_def Let_def)
  qed
  show ?thesis
  proof (cases "?cs = cs")
    case True
    show ?thesis
    proof (cases "l0 = []")
      case True
      then show ?thesis using b(2) p \<open>?cs = cs\<close> assms(2) by simp
    next
      case False
      then have "chunk_size r0 < chunk_size cs" using p \<open>?cs = cs\<close> by (cases l0) (auto simp: chunk_size_def)
      then show ?thesis using b(1) by simp
    qed
  next
    case False
    have "chunk_size r0 \<le> chunk_size ?cs" using p by (auto simp: chunk_size_def)
    then show ?thesis using b(1) le(2) False by simp
  qed
qed

text \<open>\<open>later\<close> says that a line has been started already.\<close>

function wrap_chunks :: "nat \<Rightarrow> bool \<Rightarrow> string list \<Rightarrow> string list" where
  "wrap_chunks w later cs =
    (if w = 0 \<or> cs = [] then []
     else case next_line w later cs of (l, r) \<Rightarrow>
       (let line = drop_blank_end l in
        if line = [] then wrap_chunks w later r else concat line # wrap_chunks w True r))"
  by pat_completeness auto
termination
  by (relation "measure (\<lambda>(w, later, cs). chunk_size cs)") (auto intro: next_line_shrinks [OF _ _ sym])

declare wrap_chunks.simps [simp del]

definition text_wrap :: "string \<Rightarrow> nat \<Rightarrow> exn + string list" where
  "text_wrap t w = (if w = 0 then Inl ValueError else Inr (wrap_chunks w False (split_chunks [] (munge t))))"

section \<open>What wrapping keeps\<close>

definition visible :: "string \<Rightarrow> string" where
  "visible t = filter (\<lambda>c. \<not> py_space c) t"

lemma visible_append [simp]: "visible (s @ t) = visible s @ visible t" "visible [] = []"
  by (simp_all add: visible_def)

lemma wrap_space_space: "wrap_space c \<Longrightarrow> py_space c" "py_space (CHR '' '')" "py_space (CHR 0x09)"
  by (auto simp: wrap_space_def py_space_def Let_def)

lemma visible_blank: "blank c \<Longrightarrow> visible c = []"
proof -
  assume "blank c"
  then have "dropWhile py_space (rev (dropWhile py_space c)) = []" by (simp add: blank_def py_strip_def py_lstrip_def py_rstrip_def)
  then have "\<forall>x \<in> set (dropWhile py_space c). py_space x" by (simp add: dropWhile_eq_Nil_conv)
  then have "\<forall>x \<in> set c. py_space x" by (metis UnE set_append set_takeWhileD takeWhile_dropWhile_id)
  then show ?thesis by (simp add: visible_def)
qed

lemma visible_expand: "visible (expand_tabs col t) = visible t"
  by (induction col t rule: expand_tabs.induct) (auto simp: visible_def wrap_space_space)

lemma visible_munge: "visible (munge t) = visible t"
proof -
  have "visible (map (\<lambda>c. if wrap_space c then CHR '' '' else c) s) = visible s" for s
    by (induction s) (auto simp: visible_def wrap_space_space)
  then show ?thesis by (simp add: munge_def visible_expand)
qed

lemma visible_drop_start: "visible (concat (drop_blank_start later cs)) = visible (concat cs)"
  by (cases cs) (simp_all add: drop_blank_start_def visible_blank)

lemma visible_drop_end: "visible (concat (drop_blank_end l)) = visible (concat l)"
  by (cases l rule: rev_cases) (simp_all add: drop_blank_end_def visible_blank)

lemma drop_end_length: "length (concat (drop_blank_end l)) \<le> length (concat l)"
  by (cases l rule: rev_cases) (simp_all add: drop_blank_end_def)

lemma next_line_keeps:
  assumes "next_line w later cs = (l, r)"
  shows "visible (concat l) @ visible (concat r) = visible (concat cs)" "length (concat l) \<le> w"
proof -
  obtain l0 r0 where f: "fill_line w 0 (drop_blank_start later cs) = (l0, r0)" by fastforce
  have b: "break_long w (l0, r0) = (l, r)" using assms f by (simp add: next_line_def)
  note p = fill_line_parts [OF f]
  have "visible (concat l @ concat r) = visible (concat l0 @ concat r0)" using break_long_parts [OF b] by simp
  then show "visible (concat l) @ visible (concat r) = visible (concat cs)"
    using p visible_drop_start [of later cs] by simp
  show "length (concat l) \<le> w"
  proof (cases r0)
    case (Cons c cs')
    have "length (take (cut_at (w - length (concat l0)) c) c) \<le> w - length (concat l0)"
      using cut_at_bounds(1) [of "w - length (concat l0)" c] by simp
    then show ?thesis using b p Cons by (auto simp: break_long_def Let_def split: if_splits)
  qed (use b p in \<open>auto simp: break_long_def\<close>)
qed

lemma wrap_chunks_keeps:
  "0 < w \<Longrightarrow> visible (concat (wrap_chunks w later cs)) = visible (concat cs) \<and> (\<forall>x \<in> set (wrap_chunks w later cs). length x \<le> w)"
proof (induction w later cs rule: wrap_chunks.induct)
  case (1 w later cs)
  show ?case
  proof (cases "cs = []")
    case False
    obtain l r where n: "next_line w later cs = (l, r)" by fastforce
    note k = next_line_keeps [OF n] visible_drop_end [of l] drop_end_length [of l]
    show ?thesis
    proof (cases "drop_blank_end l = []")
      case True
      then have "wrap_chunks w later cs = wrap_chunks w later r"
        using n False "1.prems" by (subst wrap_chunks.simps) simp
      then show ?thesis using "1.IH"(1) [OF _ n [symmetric] refl True] False "1.prems" k True by simp
    next
      case ne: False
      then have "wrap_chunks w later cs = concat (drop_blank_end l) # wrap_chunks w True r"
        using n False "1.prems" by (subst wrap_chunks.simps) simp
      then show ?thesis using "1.IH"(2) [OF _ n [symmetric] refl ne] False "1.prems" k by simp
    qed
  qed (simp add: wrap_chunks.simps)
qed

text \<open> Wrapping shows the whole text: no line is longer than the width, and the lines in their order hold every
  character of the text but white space, once. \<close>

theorem wrap_keeps_text:
  assumes "0 < w"
  shows "\<exists>ls. text_wrap t w = Inr ls \<and> (\<forall>l \<in> set ls. length l \<le> w) \<and> visible (concat ls) = visible t"
  using wrap_chunks_keeps [OF assms, of False "split_chunks [] (munge t)"] assms
  by (simp add: text_wrap_def split_chunks_concat visible_munge)

lemma wrap_keeps_text_witness:
  "\<exists>ls. text_wrap ''a goof-ball'' 5 = Inr ls \<and> visible (concat ls) = ''agoof-ball'' \<and> (\<forall>l \<in> set ls. length l \<le> 5)"
  using wrap_keeps_text [of 5 "''a goof-ball''"] by (auto simp: visible_def py_space_def)

end
