(* ===== verification/Chat_View.thy ===== *)
theory Chat_View
  imports Layout Text_Wrap End_To_End
begin

text \<open>
  The chat window (\<^verbatim>\<open>client/ui/chat_view.py\<close>, \<^verbatim>\<open>fmt_time\<close> of \<^verbatim>\<open>shared/utils.py\<close> and the call in \<^verbatim>\<open>App._render\<close>): the
  rows of the messages, of which the last ones are shown. The offset of local time from UTC is the argument \<open>tz\<close>, a
  function of the instant. A window is the list of what is written: row, column, text and attribute.
\<close>

section \<open>Local time\<close>

text \<open>The civil date of a day counted from 1970-01-01, as month and day, and the days \<^verbatim>\<open>datetime\<close> can represent.\<close>

definition month_day :: "int \<Rightarrow> int \<times> int" where
  "month_day day =
    (let z = day + 719468; doe = z mod 146097;
         yoe = (doe - doe div 1460 + doe div 36524 - doe div 146096) div 365;
         doy = doe - (365 * yoe + yoe div 4 - yoe div 100);
         mp = (5 * doy + 2) div 153
     in (if mp < 10 then mp + 3 else mp - 9, doy - (153 * mp + 2) div 5 + 1))"

definition month_names :: "string list" where
  "month_names = [''Jan'', ''Feb'', ''Mar'', ''Apr'', ''May'', ''Jun'', ''Jul'', ''Aug'', ''Sep'', ''Oct'', ''Nov'', ''Dec'']"

definition two_digits :: "int \<Rightarrow> string" where
  "two_digits n = (if n < 10 then ''0'' else '''') @ nat_str (nat n)"

text \<open>\<^verbatim>\<open>strftime("%I:%M %p")\<close> of a second of the day.\<close>

definition clock_text :: "int \<Rightarrow> string" where
  "clock_text sec =
    (let hour = sec div 3600; h = hour mod 12 in
     two_digits (if h = 0 then 12 else h) @ '':'' @ two_digits (sec div 60 mod 60) @ (if hour < 12 then '' AM'' else '' PM''))"

definition local_day :: "(int \<Rightarrow> int) \<Rightarrow> int \<Rightarrow> int" where
  "local_day tz ts = (ts + tz ts) div 86400"

definition strip_zero :: "string \<Rightarrow> string" where
  "strip_zero s = dropWhile (\<lambda>c. c = CHR ''0'') s"

text \<open>\<open>ValueError\<close> stands for any of the errors of \<^verbatim>\<open>fromtimestamp\<close> outside the years 1 to 9999.\<close>

definition fmt_time :: "(int \<Rightarrow> int) \<Rightarrow> int \<Rightarrow> int \<Rightarrow> exn + string" where
  "fmt_time tz t ts =
    (let day = local_day tz ts; today = local_day tz t; clk = clock_text ((ts + tz ts) mod 86400) in
     if day < -719162 \<or> 2932896 < day then Inl ValueError
     else if day = today then Inr (strip_zero clk)
     else if day = today - 1 then Inr (''Yesterday '' @ strip_zero clk)
     else (case month_day day of (m, d) \<Rightarrow> Inr (month_names ! nat (m - 1) @ '' '' @ two_digits d @ '' '' @ clk)))"

section \<open>Rows\<close>

datatype chat_attr = MineAttr | TheirsAttr | TimeAttr | NoAttr | FaintAttr

definition rjust :: "nat \<Rightarrow> utext \<Rightarrow> utext" where
  "rjust w t = replicate (w - length t) 32 @ t"

definition body_row :: "nat \<Rightarrow> bool \<Rightarrow> string \<Rightarrow> utext \<times> chat_attr" where
  "body_row w mine l = (if mine then (32 # rjust (w - 2) (cps l), MineAttr) else (cps ''  '' @ cps l, TheirsAttr))"

definition header_row :: "string \<Rightarrow> string \<Rightarrow> message_row \<Rightarrow> utext" where
  "header_row self ts m =
    (let mine = (msg_from_user m = self); edited = (if msg_edited m \<noteq> 0 then '' edited'' else '''');
         receipt = (if \<not> mine then '''' else if msg_read_status m \<noteq> 0 then '' read''
                    else if msg_delivered m \<noteq> 0 then '' sent'' else '''') in
     if mine then cps (''  You  '' @ ts @ ''  '' @ take 8 (msg_id m) @ receipt @ edited)
     else cps ''  '' @ trunc ELLIPSIS (cps (msg_from_user m)) 16 @ cps (''  '' @ ts @ ''  '' @ take 8 (msg_id m) @ edited))"

text \<open>A message without a text makes \<^verbatim>\<open>textwrap\<close> raise.\<close>

definition message_rows :: "(int \<Rightarrow> int) \<Rightarrow> int \<Rightarrow> nat \<Rightarrow> string \<Rightarrow> message_row \<Rightarrow> exn + (utext \<times> chat_attr) list" where
  "message_rows tz t w self m =
    (if msg_deleted m \<noteq> 0 then Inr []
     else
       sbnd (fmt_time tz t (msg_timestamp m)) (\<lambda>ts.
       sbnd (case msg_plaintext m of None \<Rightarrow> Inl AttributeError | Some txt \<Rightarrow> text_wrap txt (max (w - 4) 10)) (\<lambda>wrapped.
       Inr ([([], NoAttr), (header_row self ts m, TimeAttr)] @
         map (body_row w (msg_from_user m = self)) (if wrapped = [] then [[]] else wrapped)))))"

primrec collect :: "('a \<Rightarrow> exn + 'b list) \<Rightarrow> 'a list \<Rightarrow> exn + 'b list" where
  "collect f [] = Inr []"
| "collect f (x # xs) = sbnd (f x) (\<lambda>ys. sbnd (collect f xs) (\<lambda>zs. Inr (ys @ zs)))"

section \<open>The window\<close>

type_synonym put = "int \<times> int \<times> utext \<times> chat_attr"

definition centred :: "nat \<Rightarrow> utext \<Rightarrow> int" where
  "centred w t = max ((int w - int (length t)) div 2) 0"

definition draw_empty :: "nat \<Rightarrow> nat \<Rightarrow> put list" where
  "draw_empty h w = (let msg = cps ''Select a contact with /dm @username'' in [(int (h div 2), centred w msg, msg, FaintAttr)])"

definition draw_empty_chat :: "nat \<Rightarrow> nat \<Rightarrow> string \<Rightarrow> put list" where
  "draw_empty_chat h w peer =
    (let lines = [cps ''Open chat with '' @ trunc ELLIPSIS (cps peer) (max (int w - 18) 10), cps ''No messages yet.''];
         start = max (int h div 2 - 1) 0
     in map (\<lambda>(i, msg). (start + int i, centred w msg, msg, FaintAttr))
          (takeWhile (\<lambda>(i, msg). start + int i < int h) (enumerate 0 lines)))"

definition shown_rows :: "nat \<Rightarrow> nat \<Rightarrow> (utext \<times> chat_attr) list \<Rightarrow> put list" where
  "shown_rows h w rows =
    (let vis = (if h < length rows then (if h = 0 then rows else drop (length rows - h) rows) else rows);
         start_row = int h - int (length vis)
     in map (\<lambda>(i, (t, a)). (start_row + int i, 0, take w (ljust w t), a))
          (filter (\<lambda>(i, _). 0 \<le> start_row + int i \<and> start_row + int i < int h) (enumerate 0 vis)))"

definition chat_window ::
  "(int \<Rightarrow> int) \<Rightarrow> int \<Rightarrow> nat \<Rightarrow> nat \<Rightarrow> message_row list \<Rightarrow> string \<Rightarrow> string option \<Rightarrow> exn + put list" where
  "chat_window tz t h w ms self peer =
    (case peer of
       Some (c # cs) \<Rightarrow> (if ms = [] then Inr (draw_empty_chat h w (c # cs))
         else sbnd (collect (message_rows tz t w self) ms) (\<lambda>rows. Inr (shown_rows h w rows)))
     | _ \<Rightarrow> Inr (draw_empty h w))"

definition render_chat :: "(int \<Rightarrow> int) \<Rightarrow> nat \<Rightarrow> nat \<Rightarrow> 'e app_scheme \<Rightarrow> exn + put list" where
  "render_chat tz h w s = chat_window tz (clock s) h w (view s) (me s) (current_chat s)"

text \<open>A frame of \<^verbatim>\<open>_ui_loop\<close>: an exception of \<^verbatim>\<open>_render\<close> is not handled and ends the program.\<close>

definition ui_frame :: "(int \<Rightarrow> int) \<Rightarrow> nat \<Rightarrow> nat \<Rightarrow> 'e app_scheme \<Rightarrow> 'e app_scheme" where
  "ui_frame tz h w s = (case render_chat tz h w s of Inl e \<Rightarrow> s\<lparr>running := False\<rparr> | Inr puts \<Rightarrow> s)"

section \<open>Properties\<close>

lemma collect_snoc: "collect f (xs @ [x]) = sbnd (collect f xs) (\<lambda>ys. sbnd (f x) (\<lambda>zs. Inr (ys @ zs)))"
  by (induction xs) (simp_all add: sbnd_def split: sum.split)

lemma collect_Inl: "x \<in> set xs \<Longrightarrow> f x = Inl e \<Longrightarrow> \<exists>e. collect f xs = Inl e"
  by (induction xs) (auto simp: sbnd_def split: sum.split)

lemma length_take_ljust: "length (take w (ljust w t)) = w"
  by (simp add: length_ljust)

lemma shown_rows_last:
  assumes "length bs \<le> h" "0 < h"
  shows "drop (length (shown_rows h w (rs @ bs)) - length bs) (shown_rows h w (rs @ bs)) =
    map (\<lambda>(i, (t, a)). (int (h - length bs + i), 0, take w (ljust w t), a)) (enumerate 0 bs)"
    and "\<forall>(r, c, t, a) \<in> set (shown_rows h w (rs @ bs)). 0 \<le> r \<and> r < int h \<and> c = 0 \<and> length t = w"
proof -
  define rs' where "rs' = drop (length rs + length bs - h) rs"
  have l: "length rs' + length bs \<le> h" using assms(1) by (simp add: rs'_def)
  have vis: "(if h < length (rs @ bs) then (if h = 0 then rs @ bs else drop (length (rs @ bs) - h) (rs @ bs)) else rs @ bs) = rs' @ bs"
    using assms by (auto simp: rs'_def)
  define s where "s = int h - int (length (rs' @ bs))"
  have s: "0 \<le> s" "s + int (length rs') = int (h - length bs)" using l by (simp_all add: s_def)
  have in_range: "0 \<le> s + int (fst x) \<and> s + int (fst x) < int h" if "x \<in> set (enumerate 0 (rs' @ bs))" for x
  proof -
    from that have "fst x < length (rs' @ bs)" by (auto simp: in_set_enumerate_eq)
    then show ?thesis using s(1) by (simp add: s_def)
  qed
  then have "filter (\<lambda>(i, _). 0 \<le> s + int i \<and> s + int i < int h) (enumerate 0 (rs' @ bs)) = enumerate 0 (rs' @ bs)"
    by (intro filter_True) (auto simp: split_def)
  then have e: "shown_rows h w (rs @ bs) = map (\<lambda>(i, (t, a)). (s + int i, 0, take w (ljust w t), a)) (enumerate 0 (rs' @ bs))"
    unfolding shown_rows_def Let_def vis s_def [symmetric] by (rule arg_cong)
  have "map (\<lambda>(i, (t, a)). (s + int i, 0, take w (ljust w t), a)) (enumerate (length rs') bs) =
      map (\<lambda>(i, (t, a)). (int (h - length bs + i), 0, take w (ljust w t), a)) (enumerate 0 bs)"
    by (rule nth_equalityI) (use s(2) in \<open>auto simp: nth_enumerate_eq split: prod.split\<close>)
  then show "drop (length (shown_rows h w (rs @ bs)) - length bs) (shown_rows h w (rs @ bs)) =
    map (\<lambda>(i, (t, a)). (int (h - length bs + i), 0, take w (ljust w t), a)) (enumerate 0 bs)"
    unfolding e by (simp add: enumerate_append_eq)
  show "\<forall>(r, c, t, a) \<in> set (shown_rows h w (rs @ bs)). 0 \<le> r \<and> r < int h \<and> c = 0 \<and> length t = w"
    unfolding e by (auto simp: length_ljust simp del: in_set_enumerate_eq dest!: in_range)
qed

lemma body_fits: "length l + 4 \<le> w \<Longrightarrow> 14 \<le> w \<Longrightarrow> take w (ljust w (fst (body_row w mine l))) = ljust w (fst (body_row w mine l))"
  by (auto simp: body_row_def rjust_def length_ljust)

text \<open> C30: The newest message of the open chat is on the screen, whole: its lines are the last rows of the window, in
  order, none of them cut, and together they hold every character of the text but white space. Nothing is
  written outside the window. \<close>

theorem chat_shows_message:
  assumes "chat_window tz t h w (ms @ [m]) self (Some peer) = Inr puts" "peer \<noteq> []" "14 \<le> w" "0 < h"
    and "msg_deleted m = 0" "msg_plaintext m = Some txt" "text_wrap txt (w - 4) = Inr ls" "ls \<noteq> []" "length ls \<le> h"
  shows "drop (length puts - length ls) puts =
      map (\<lambda>(i, l). (int (h - length ls + i), 0, ljust w (fst (body_row w (msg_from_user m = self) l)),
        snd (body_row w (msg_from_user m = self) l))) (enumerate 0 ls) \<and>
    visible (concat ls) = visible txt \<and> (\<forall>(r, c, u, a) \<in> set puts. 0 \<le> r \<and> r < int h \<and> c = 0 \<and> length u = w)"
proof -
  let ?b = "body_row w (msg_from_user m = self)"
  have "w \<noteq> 0" using assms(3) by simp
  then have k: "\<forall>l \<in> set ls. length l \<le> w - 4" "visible (concat ls) = visible txt"
    using wrap_keeps_text [of "w - 4" "txt"] assms(3,7) by auto
  obtain c cs where p: "peer = c # cs" using assms(2) by (cases peer) auto
  have "max (w - 4) 10 = w - 4" using assms(3) by simp
  then obtain r0 ts where "puts = shown_rows h w (r0 @ [([], NoAttr), (header_row self ts m, TimeAttr)] @ map ?b ls)"
    using assms(1,5-8) p by (auto simp: chat_window_def collect_snoc sbnd_Inr message_rows_def)
  then obtain rs where rows: "puts = shown_rows h w (rs @ map ?b ls)" by (metis append_assoc)
  have "drop (length puts - length (map ?b ls)) puts =
      map (\<lambda>(i, (t, a)). (int (h - length (map ?b ls) + i), 0, take w (ljust w t), a)) (enumerate 0 (map ?b ls))"
    unfolding rows by (rule shown_rows_last(1)) (use assms(4,9) in simp_all)
  also have "\<dots> = map (\<lambda>(i, l). (int (h - length ls + i), 0, ljust w (fst (?b l)), snd (?b l))) (enumerate 0 ls)"
  proof (rule nth_equalityI)
    fix i assume "i < length (map (\<lambda>(i, (t, a)). (int (h - length (map ?b ls) + i), 0 :: int, take w (ljust w t), a)) (enumerate 0 (map ?b ls)))"
    then have i: "i < length ls" by simp
    then have "length (ls ! i) + 4 \<le> w" using k(1) assms(3) nth_mem [OF i] by fastforce
    then show "map (\<lambda>(i, (t, a)). (int (h - length (map ?b ls) + i), 0 :: int, take w (ljust w t), a)) (enumerate 0 (map ?b ls)) ! i =
        map (\<lambda>(i, l). (int (h - length ls + i), 0, ljust w (fst (?b l)), snd (?b l))) (enumerate 0 ls) ! i"
      using i assms(3) body_fits [of "ls ! i" w "msg_from_user m = self"] by (simp add: nth_enumerate_eq split: prod.split) (metis fst_conv)
  qed simp
  finally show ?thesis
    using k(2) shown_rows_last(2) [of "map ?b ls" h w rs] assms(4,9) unfolding rows by simp
qed

text \<open>A message whose text is null, from the user whose chat is open, and what is shown next.\<close>

lemma incoming_null:
  assumes "dget pkt ''id'' = Some (JStr i)" "i \<noteq> []" "dget pkt ''from'' = Some (JStr u)" "u \<noteq> []"
    and "dget pkt ''timestamp'' = Some (JInt ts)" "0 < ts" "ts < 2 ^ 63"
    and "dget pkt ''payload'' = Some (JObj [(''text'', JNull)])"
  shows "msg_handle_incoming C cb pkt s = cb (dset ''_plaintext'' JNull pkt)
    (s\<lparr>cdb := add_contact u None (clock s) (save_message i u (me s) None ts 1 (cdb s))\<rparr>)"
  using assms by (simp add: msg_handle_incoming_def prog_simps id_or_new_def time_or_now_def jget_def incoming_text_def
      jget_or_def obj_field_def save_incoming_def c_add_contact_def whenp_def sql_int_def Let_def)

lemma history_has:
  assumes "m \<in> set (messages d)" "in_conversation u v m" "length (filter (in_conversation u v) (messages d)) \<le> n"
  shows "m \<in> set (get_message_history u v (int n) d)"
proof -
  obtain older where o: "mset (older @ get_message_history u v (int n) d) = mset (filter (in_conversation u v) (messages d))"
    and l: "length (get_message_history u v (int n) d) = min n (length (filter (in_conversation u v) (messages d)))"
    using history_shows_latest [OF refl, of u v n d] by blast
  have "older = []" using mset_eq_length [OF o] l assms(3) by simp
  then have "set (get_message_history u v (int n) d) = set (filter (in_conversation u v) (messages d))"
    using o by (metis append_Nil set_mset_mset)
  then show ?thesis using assms(1,2) by simp
qed


definition hello_row :: message_row where
  "hello_row = \<lparr>msg_id = ''m1'', msg_from_user = ''bob'', msg_to_user = ''ann'', msg_plaintext = Some ''one goof-ball here'',
     msg_timestamp = 60, msg_delivered = 1, msg_read_status = 0, msg_edited = 0, msg_deleted = 0, msg_reply_to = None\<rparr>"

lemma hello_lines: "text_wrap ''one goof-ball here'' 10 = Inr [''one goof-'', ''ball here'']"
  by code_simp

lemma chat_shows_message_witness:
  "\<exists>puts. chat_window (\<lambda>_. 0) 90 5 14 ([] @ [hello_row]) ''ann'' (Some ''bob'') = Inr puts \<and>
     drop (length puts - 2) puts = [(3, 0, cps ''  one goof-   '', TheirsAttr), (4, 0, cps ''  ball here   '', TheirsAttr)]"
proof -
  obtain puts where p: "chat_window (\<lambda>_. 0) 90 5 14 ([] @ [hello_row]) ''ann'' (Some ''bob'') = Inr puts"
    using hello_lines by (fastforce simp: chat_window_def message_rows_def fmt_time_def local_day_def hello_row_def)
  show ?thesis
    using chat_shows_message [OF p, of "''one goof-ball here''" "[''one goof-'', ''ball here'']"] hello_lines p
    by (simp add: hello_row_def body_row_def ljust_def cps_def numeral_eq_Suc)
qed


end
