(* ===== verification/Dialog_View.thy ===== *)
theory Dialog_View
  imports Layout Fingerprint
begin

text \<open>
  What the dialogs draw (\<^verbatim>\<open>client/ui/verify_screen.py\<close>, \<^verbatim>\<open>call_overlay.py\<close>, \<^verbatim>\<open>divider.py\<close> and the drawing of
  \<^verbatim>\<open>auth_screen.py\<close>), on the cells of the terminal. The cells are one list, row by row; a cell holds one code point
  (attributes are left out). \<^verbatim>\<open>addstr\<close> goes on in the next line at the end of a line, and raises when it leaves the
  window, after writing what fits; here the code ignores that.
\<close>

section \<open>Cells\<close>

definition cell :: "window \<Rightarrow> int \<Rightarrow> int \<Rightarrow> utext \<Rightarrow> nat" where
  "cell win r c cells = cells ! nat (r * win_w win + c)"

text \<open>The screen has as many cells as the window.\<close>

definition fits :: "window \<Rightarrow> utext \<Rightarrow> bool" where
  "fits win cells \<longleftrightarrow> 0 \<le> win_h win \<and> 0 \<le> win_w win \<and> int (length cells) = win_h win * win_w win"

definition blank :: "window \<Rightarrow> utext" where
  "blank win = replicate (nat (win_h win * win_w win)) 32"

definition write_at :: "window \<Rightarrow> int \<Rightarrow> int \<Rightarrow> utext \<Rightarrow> utext \<Rightarrow> utext" where
  "write_at win r c t cells =
    (if in_window win r c then
       let p = nat (r * win_w win + c) in
       take p cells @ take (length cells - p) t @ drop (p + length t) cells
     else cells)"

text \<open>The dialogs' own clipping: nothing outside, and a text ends with its line.\<close>

definition put_clipped :: "window \<Rightarrow> int \<Rightarrow> int \<Rightarrow> utext \<Rightarrow> utext \<Rightarrow> utext" where
  "put_clipped win r c t cells =
    (if r < 0 \<or> win_h win \<le> r \<or> c < 0 \<or> win_w win - c \<le> 0 then cells
     else write_at win r c (take (nat (win_w win - c)) t) cells)"

text \<open>\<^verbatim>\<open>str.center\<close>: an odd space goes to the left in a field of odd width.\<close>

definition center :: "nat \<Rightarrow> utext \<Rightarrow> utext" where
  "center w t =
    (let marg = w - length t; left = marg div 2 + (if odd marg \<and> odd w then 1 else 0)
     in replicate left 32 @ t @ replicate (marg - left) 32)"

definition box_origin :: "int \<Rightarrow> int \<Rightarrow> window \<Rightarrow> int \<times> int" where
  "box_origin rows cols win = (max 0 ((win_h win - rows) div 2), max 0 ((win_w win - cols) div 2))"

definition box_edge :: "nat \<Rightarrow> utext" where "box_edge cols = cps ''+'' @ replicate (cols - 2) 45 @ cps ''+''"
definition box_sep :: "nat \<Rightarrow> utext" where "box_sep cols = cps ''|'' @ replicate (cols - 2) 45 @ cps ''|''"
definition box_line :: "nat \<Rightarrow> utext \<Rightarrow> utext" where "box_line cols t = cps ''|'' @ center (cols - 2) t @ cps ''|''"

text \<open>Numbered rows, put in this order at an origin.\<close>

definition put_rows :: "window \<Rightarrow> int \<times> int \<Rightarrow> (int \<times> utext) list \<Rightarrow> utext \<Rightarrow> utext" where
  "put_rows win origin rows cells = fold (\<lambda>(r, t). put_clipped win (fst origin + r) (snd origin) t) rows cells"

section \<open>The safety number\<close>

definition verify_rows :: "string \<Rightarrow> string \<Rightarrow> (int \<times> utext) list" where
  "verify_rows username num =
    [(0, box_edge 52), (17, box_edge 52),
     (1, box_line 52 (cps ''  End-to-End Encryption Verified  '')), (2, box_sep 52),
     (3, box_line 52 []), (4, box_line 52 (cps (''Safety number with '' @ username))), (5, box_line 52 []),
     (6, box_sep 52),
     (7, box_line 52 []), (8, box_line 52 (cps num)), (9, box_line 52 []),
     (10, box_sep 52),
     (11, box_line 52 (cps ''Compare this number with your contact'')),
     (12, box_line 52 (cps ''over a separate channel. If they match,'')),
     (13, box_line 52 (cps ''your conversation is secure.'')),
     (14, box_line 52 []), (15, box_sep 52),
     (16, box_line 52 (cps ''[C] Mark Verified   [ESC] Cancel''))]"

definition verify_draw :: "window \<Rightarrow> string \<Rightarrow> string \<Rightarrow> utext \<Rightarrow> utext" where
  "verify_draw win username num = put_rows win (box_origin 18 52 win) (verify_rows username num)"

text \<open>The dialog: drawn at first and again after every other key (-1 when there is none).\<close>

fun verify_loop :: "window \<Rightarrow> string \<Rightarrow> string \<Rightarrow> int list \<Rightarrow> utext \<Rightarrow> bool ui \<times> utext" where
  "verify_loop win username num [] cells = (Waiting, cells)"
| "verify_loop win username num (k # ks) cells =
    (if k = -1 then verify_loop win username num ks cells
     else if k = ord (CHR ''c'') \<or> k = ord (CHR ''C'') then (Done True ks, cells)
     else if k = 27 then (Done False ks, cells)
     else verify_loop win username num ks (verify_draw win username num cells))"

definition verify_show :: "window \<Rightarrow> string \<Rightarrow> string \<Rightarrow> int list \<Rightarrow> utext \<Rightarrow> bool ui \<times> utext" where
  "verify_show win username num ks cells = verify_loop win username num ks (verify_draw win username num cells)"

section \<open>An incoming call\<close>

definition overlay_rows :: "string \<Rightarrow> (int \<times> utext) list" where
  "overlay_rows caller =
    (let empty = cps ''|'' @ replicate 38 32 @ cps ''|'';
         name = (if length caller \<le> 36 then cps caller else take 35 (cps caller) @ [ELLIPSIS]) in
     [(0, box_edge 40), (1, box_line 40 (cps ''  Incoming Call  '')), (2, box_sep 40)]
     @ map (\<lambda>r. (r, empty)) [3, 4, 6, 7, 9]
     @ [(5, box_line 40 name), (8, box_sep 40), (10, box_line 40 (cps ''[A] Accept  [D] Decline'')), (11, box_edge 40)])"

definition overlay_render :: "window \<Rightarrow> string \<Rightarrow> utext \<Rightarrow> utext" where
  "overlay_render win caller = put_rows win (box_origin 12 40 win) (overlay_rows caller)"

definition overlay_clear :: "window \<Rightarrow> utext \<Rightarrow> utext" where
  "overlay_clear win = put_rows win (box_origin 12 40 win) (map (\<lambda>r. (int r, replicate 40 32)) [0..<12])"

text \<open>The column between sidebar and chat window; the last cell raises after it is written.\<close>

definition divider_render :: "window \<Rightarrow> utext \<Rightarrow> utext" where
  "divider_render win = fold (\<lambda>r. write_at win (int r) 0 [0x2502]) [0..<nat (win_h win)]"

section \<open>The login form and the unlock prompt\<close>

text \<open>The banner, its block characters written as ASCII.\<close>

definition banner_char :: "char \<Rightarrow> nat" where
  "banner_char c = (if c = CHR ''#'' then 0x2588 else if c = CHR ''7'' then 0x2557 else if c = CHR ''F'' then 0x2554
     else if c = CHR ''='' then 0x2550 else if c = CHR ''H'' then 0x2551 else if c = CHR ''J'' then 0x255D
     else if c = CHR ''L'' then 0x255A else of_char c)"

definition BANNER :: "utext list" where
  "BANNER = map (map banner_char)
    [''  ######7##7  ##7 #####7 ########7########7#######7######7 '',
     '' ##F====J##H  ##H##F==##7L==##F==JL==##F==J##F====J##F==##7'',
     '' ##H     #######H#######H   ##H      ##H   #####7  ######FJ'',
     '' ##H     ##F==##H##F==##H   ##H      ##H   ##F==J  ##F==##7'',
     '' L######7##H  ##H##H  ##H   ##H      ##H   #######7##H  ##H'',
     ''  L=====JL=J  L=JL=J  L=J  L=J      L=J   L======JL=J  L=J'',
     ''  ########7#######7######7 ###7   ###7##7###7   ##7 #####7 ##7'',
     ''  L==##F==J##F====J##F==##7####7 ####H##H####7  ##H##F==##7##H'',
     ''     ##H   #####7  ######FJ##F####F##H##H##F##7 ##H#######H##H'',
     ''     ##H   ##F==J  ##F==##7##HL##FJ##H##H##HL##7##H##F==##H##H'',
     ''     ##H   #######7##H  ##H##H L=J ##H##H##H L####H##H  ##H#######7'',
     ''     L=J   L======JL=J  L=JL=J     L=JL=JL=J  L===JL=J  L=JL======J'']"

definition TAGLINE :: utext where
  "TAGLINE = cps ''  Self-hosted '' @ [0xB7] @ cps '' E2E Encrypted '' @ [0xB7] @ cps '' Terminal Chat''"

text \<open>A text in the middle of its line, if the line exists.\<close>

definition put_middle :: "window \<Rightarrow> int \<Rightarrow> utext \<Rightarrow> utext \<Rightarrow> utext" where
  "put_middle win r t cells =
    (if r < win_h win then write_at win r (max ((win_w win - int (length t)) div 2) 0) t cells else cells)"

definition tag_row :: "window \<Rightarrow> int" where
  "tag_row win = max ((win_h win - 12 - 10) div 2) 0 + 12"

definition draw_menu :: "window \<Rightarrow> utext" where
  "draw_menu win =
    put_middle win (tag_row win + 2) (cps ''  [L] Login    [R] Register    [Q] Quit  '')
    (put_middle win (tag_row win) TAGLINE
    (fold (\<lambda>(i, line). put_middle win (max ((win_h win - 12 - 10) div 2) 0 + int i) line) (enumerate 0 BANNER)
      (blank win)))"

text \<open>Label rows start at the column \<open>form_col\<close> less the length of a label.\<close>

definition label_row :: "window \<Rightarrow> int \<Rightarrow> utext \<Rightarrow> utext \<Rightarrow> utext" where
  "label_row win r t cells = (if r < win_h win then write_at win r (form_col win - 13) t cells else cells)"

definition draw_form :: "window \<Rightarrow> string \<Rightarrow> utext \<Rightarrow> utext" where
  "draw_form win title cells =
    label_row win (form_row win + 4) (cps ''  Password : '')
    (label_row win (form_row win + 2) (cps ''  Username : '')
    (label_row win (form_row win) (cps ''  '' @ [0x2500, 0x2500] @ cps '' '' @ cps title @ cps '' '' @ replicate 26 0x2500) cells))"

definition draw_empty_error :: "window \<Rightarrow> utext \<Rightarrow> utext" where
  "draw_empty_error win = label_row win (form_row win + 6) (cps ''  Username and password cannot be empty.'')"

text \<open>One line of input with its echo; \<open>col\<close> is behind the label.\<close>

definition echo :: "bool \<Rightarrow> string \<Rightarrow> utext" where
  "echo secret typed = (if secret then replicate (length typed) 42 else cps typed)"

fun get_line_screen :: "window \<Rightarrow> int \<Rightarrow> int \<Rightarrow> bool \<Rightarrow> string \<Rightarrow> int list \<Rightarrow> utext \<Rightarrow> string ui \<times> utext" where
  "get_line_screen win row col secret typed [] cells = (Waiting, cells)"
| "get_line_screen win row col secret typed (k # ks) cells =
    (if is_enter k then (Done typed ks, cells)
     else if is_backspace k then
       (if typed = [] then get_line_screen win row col secret typed ks cells
        else
          let typed = butlast typed; wiped = write_at win row col (spaces 40) cells;
              cells' = write_at win row col (echo secret typed) wiped in
          if \<not> addstr_fits win row col 40 then (Failed CursesError, wiped)
          else if addstr_fits win row col (int (length typed)) \<and> in_window win row (col + int (length typed))
          then get_line_screen win row col secret typed ks cells' else (Failed CursesError, cells'))
     else if is_char k then
       (let typed = typed @ [chr k]; c = col + int (length typed) - 1 in
        if in_window win row c
        then get_line_screen win row col secret typed ks (write_at win row c (echo secret [chr k]) cells)
        else (Failed CursesError, cells))
     else get_line_screen win row col secret typed ks cells)"

definition prompt_screen :: "window \<Rightarrow> int \<Rightarrow> int \<Rightarrow> bool \<Rightarrow> int list \<Rightarrow> utext \<Rightarrow> string ui \<times> utext" where
  "prompt_screen win row col secret ks cells =
    (if in_window win row col then get_line_screen win row col secret [] ks cells else (Failed CursesError, cells))"

fun then_screen :: "'a ui \<times> utext \<Rightarrow> ('a \<Rightarrow> int list \<Rightarrow> utext \<Rightarrow> 'b ui \<times> utext) \<Rightarrow> 'b ui \<times> utext" where
  "then_screen (Done a ks, cells) f = f a ks cells"
| "then_screen (Waiting, cells) f = (Waiting, cells)"
| "then_screen (Failed e, cells) f = (Failed e, cells)"

lemma then_screen_cong [fundef_cong]:
  "m = m' \<Longrightarrow> (\<And>a ks cells. m' = (Done a ks, cells) \<Longrightarrow> f a ks cells = g a ks cells) \<Longrightarrow> then_screen m f = then_screen m' g"
  by (cases "fst m'"; cases m') simp_all

lemma get_line_screen_result: "fst (get_line_screen win row col secret typed ks cells) = get_line win row col typed ks"
  by (induction win row col secret typed ks cells rule: get_line_screen.induct) (auto simp: Let_def)

lemma prompt_screen_result: "fst (prompt_screen win row col secret ks cells) = prompt win row col ks"
  by (simp add: prompt_screen_def prompt_def get_line_screen_result)

lemma prompt_screen_consumes: "prompt_screen win row col secret ks cells = (Done l ks', cells') \<Longrightarrow> length ks' < length ks"
  using prompt_consumes [of win row col ks l ks'] prompt_screen_result [of win row col secret ks cells] by simp

function auth_screen :: "window \<Rightarrow> int list \<Rightarrow> creds option ui \<times> utext" where
  "auth_screen win ks =
    then_screen (choose_mode ks, draw_menu win) (\<lambda>mode ks cells. case mode of
      None \<Rightarrow> (Done None ks, cells)
    | Some mk \<Rightarrow>
        let cells = draw_form win (if mk [] [] = Register [] [] then ''Register'' else ''Login'') cells in
        then_screen (prompt_screen win (form_row win + 2) (form_col win) False ks cells) (\<lambda>username ks cells.
        then_screen (prompt_screen win (form_row win + 4) (form_col win) True ks cells) (\<lambda>password ks cells.
        if py_strip username = [] \<or> password = [] then auth_screen win ks
        else (Done (Some (mk (py_strip username) password)) ks, cells))))"
  by pat_completeness auto
termination
  by (relation "measure (\<lambda>(win, ks). length ks)") (auto dest!: choose_mode_consumes prompt_screen_consumes)

declare auth_screen.simps [simp del]

text \<open>The prompt that unlocks the key: its lines around the middle, and the stars of the password.\<close>

definition unlock_lines :: "string \<Rightarrow> utext list" where
  "unlock_lines username = map cps
    [''ChatterTerminal'', [], ''Welcome back, '' @ username @ ''!'', [], ''Enter your password to unlock E2E encryption.'', [],
     ''Password: '', [], ''[Enter] unlock    [S] skip encryption    [N] new account    [Q] quit'']"

definition unlock_top :: "window \<Rightarrow> int" where "unlock_top win = win_h win div 2 - 4"

definition unlock_col :: "window \<Rightarrow> int" where "unlock_col win = max ((win_w win - 10 - 20) div 2) 0 + 10"

definition draw_unlock :: "window \<Rightarrow> string \<Rightarrow> utext" where
  "draw_unlock win username =
    fold (\<lambda>(i, t) cells. if 0 \<le> unlock_top win + int i then put_middle win (unlock_top win + int i) t cells else cells)
      (enumerate 0 (unlock_lines username)) (blank win)"

definition wipe_stars :: "window \<Rightarrow> nat \<Rightarrow> utext \<Rightarrow> utext" where
  "wipe_stars win n cells =
    (let row = unlock_top win + 6; wiped = write_at win row (unlock_col win) (spaces 40) cells in
     if in_window win row (unlock_col win) \<and> addstr_fits win row (unlock_col win) 40
     then write_at win row (unlock_col win) (replicate n 42) wiped else wiped)"

fun unlock_screen :: "window \<Rightarrow> string \<Rightarrow> int list \<Rightarrow> utext \<Rightarrow> string option ui \<times> utext" where
  "unlock_screen win typed [] cells = (Waiting, cells)"
| "unlock_screen win typed (k # ks) cells =
    (if k = 27 \<or> k = ord (CHR ''q'') \<or> k = ord (CHR ''Q'') \<or> k = 3 then (Done None ks, cells)
     else if k = ord (CHR ''s'') \<or> k = ord (CHR ''S'') then (Done (Some []) ks, cells)
     else if k = ord (CHR ''n'') \<or> k = ord (CHR ''N'') then (Done None ks, cells)
     else if is_enter k then (Done (Some typed) ks, cells)
     else if is_backspace k then
       unlock_screen win (butlast typed) ks (if typed = [] then cells else wipe_stars win (length typed - 1) cells)
     else if is_char k then
       unlock_screen win (typed @ [chr k]) ks
         (write_at win (unlock_top win + 6) (unlock_col win + int (length typed)) [42] cells)
     else unlock_screen win typed ks cells)"

definition unlock_show :: "window \<Rightarrow> string \<Rightarrow> int list \<Rightarrow> string option ui \<times> utext" where
  "unlock_show win username ks = unlock_screen win [] ks (draw_unlock win username)"

section \<open>Reading cells back\<close>

lemma length_write_at [simp]: "length (write_at win r c t cells) = length cells"
  by (auto simp: write_at_def Let_def)

lemma length_put_clipped [simp]: "length (put_clipped win r c t cells) = length cells"
  by (simp add: put_clipped_def)

lemma length_fold: "(\<And>x cells. length (f x cells) = length cells) \<Longrightarrow> length (fold f xs cells) = length cells"
  by (induction xs arbitrary: cells) simp_all

lemma length_put_rows [simp]: "length (put_rows win origin rows cells) = length cells"
  unfolding put_rows_def by (rule length_fold) (simp add: split_def)

lemma index_in_row:
  fixes w :: int
  assumes "0 \<le> c" "0 \<le> c'" "c' < w" "c + n \<le> w"
  shows "r * w + c \<le> r' * w + c' \<and> r' * w + c' < r * w + c + n \<longleftrightarrow> r' = r \<and> c \<le> c' \<and> c' < c + n"
proof -
  have "r' * w + c' \<ge> r * w + c + n" if "r < r'"
  proof -
    have "(r + 1) * w \<le> r' * w" by (rule mult_right_mono) (use that assms in auto)
    then show ?thesis using assms by (simp add: algebra_simps)
  qed
  moreover have "r' * w + c' < r * w + c" if "r' < r"
  proof -
    have "(r' + 1) * w \<le> r * w" by (rule mult_right_mono) (use that assms in auto)
    then show ?thesis using assms by (simp add: algebra_simps)
  qed
  ultimately show ?thesis by (cases r r' rule: linorder_cases) auto
qed

lemma index_bound:
  assumes "in_window win r c" "fits win cells"
  shows "0 \<le> r * win_w win + c" "nat (r * win_w win + c) < length cells"
proof -
  have "(r + 1) * win_w win \<le> win_h win * win_w win" by (rule mult_right_mono) (use assms in \<open>auto simp: in_window_def\<close>)
  moreover show "0 \<le> r * win_w win + c" using assms(1) by (auto simp: in_window_def)
  ultimately show "nat (r * win_w win + c) < length cells"
    using assms by (simp add: in_window_def fits_def algebra_simps nat_less_iff)
qed

lemma nth_write:
  "q < length cells \<Longrightarrow> (take p cells @ take (length cells - p) t @ drop (p + length t) cells) ! q =
    (if p \<le> q \<and> q < p + length t then t ! (q - p) else cells ! q)"
  by (auto simp: nth_append min_def)

text \<open>A text that ends in its line changes its own cells only.\<close>

lemma cell_write:
  assumes "fits win cells" "in_window win r' c'" "in_window win r c" "c + int (length t) \<le> win_w win"
  shows "cell win r' c' (write_at win r c t cells) =
    (if r' = r \<and> c \<le> c' \<and> c' < c + int (length t) then t ! nat (c' - c) else cell win r' c' cells)"
proof -
  let ?p = "r * win_w win + c" and ?q = "r' * win_w win + c'"
  have b: "0 \<le> ?p" "0 \<le> ?q" "nat ?q < length cells"
    using index_bound(1) [OF assms(3,1)] index_bound [OF assms(2,1)] by auto
  then have "nat ?p \<le> nat ?q \<and> nat ?q < nat ?p + length t \<longleftrightarrow> ?p \<le> ?q \<and> ?q < ?p + int (length t)" by auto
  also have "\<dots> \<longleftrightarrow> r' = r \<and> c \<le> c' \<and> c' < c + int (length t)"
    using index_in_row [of c c' "win_w win" "int (length t)" r r'] assms by (auto simp: in_window_def)
  finally have i: "nat ?p \<le> nat ?q \<and> nat ?q < nat ?p + length t \<longleftrightarrow> r' = r \<and> c \<le> c' \<and> c' < c + int (length t)" .
  have "nat (r * win_w win + c') - nat (r * win_w win + c) = nat (c' - c)" if "r' = r" "c \<le> c'"
    using b that by auto
  then show ?thesis
    using assms(3) b(3) i unfolding cell_def write_at_def Let_def by (simp add: nth_write)
qed

lemma fits_length: "fits win cells \<Longrightarrow> length cells' = length cells \<Longrightarrow> fits win cells'"
  by (simp add: fits_def)

lemma fits_blank: "0 \<le> win_h win \<Longrightarrow> 0 \<le> win_w win \<Longrightarrow> fits win (blank win)"
  by (simp add: fits_def blank_def)

lemma cell_put:
  assumes "fits win cells" "in_window win r' c'"
  shows "cell win r' c' (put_clipped win r c t cells) =
    (if r' = r \<and> 0 \<le> c \<and> c \<le> c' \<and> c' < c + int (length t) then t ! nat (c' - c) else cell win r' c' cells)"
proof (cases "0 \<le> r \<and> r < win_h win \<and> 0 \<le> c \<and> c < win_w win")
  case True
  let ?t = "take (nat (win_w win - c)) t"
  have "cell win r' c' (write_at win r c ?t cells) =
      (if r' = r \<and> c \<le> c' \<and> c' < c + int (length ?t) then ?t ! nat (c' - c) else cell win r' c' cells)"
    by (rule cell_write) (use assms True in \<open>auto simp: in_window_def\<close>)
  moreover have "c' < c + int (length ?t) \<longleftrightarrow> c' < c + int (length t)" if "c \<le> c'"
    using assms(2) by (auto simp: in_window_def)
  ultimately show ?thesis
    using True by (auto simp: put_clipped_def)
next
  case False
  then show ?thesis using assms(2) by (auto simp: put_clipped_def in_window_def)
qed

lemma cell_put_rows:
  assumes "fits win cells" "in_window win r' c'" "distinct (map fst rows)" "0 \<le> snd origin"
  shows "cell win r' c' (put_rows win origin rows cells) =
    (case map_of rows (r' - fst origin) of
       Some t \<Rightarrow> if snd origin \<le> c' \<and> c' < snd origin + int (length t) then t ! nat (c' - snd origin) else cell win r' c' cells
     | None \<Rightarrow> cell win r' c' cells)"
  using assms(1,3)
proof (induction rows arbitrary: cells)
  case (Cons x rows)
  obtain r t where x: "x = (r, t)" by (cases x)
  let ?cells = "put_clipped win (fst origin + r) (snd origin) t cells"
  have "put_rows win origin (x # rows) cells = put_rows win origin rows ?cells" by (simp add: put_rows_def x)
  moreover have "fits win ?cells" using Cons.prems(1) by (rule fits_length) simp
  ultimately have "cell win r' c' (put_rows win origin (x # rows) cells) =
    (case map_of rows (r' - fst origin) of
       Some t \<Rightarrow> if snd origin \<le> c' \<and> c' < snd origin + int (length t) then t ! nat (c' - snd origin) else cell win r' c' ?cells
     | None \<Rightarrow> cell win r' c' ?cells)"
    using Cons.IH [of ?cells] Cons.prems(2) by simp
  moreover have "map_of rows (r' - fst origin) = None" if "r' - fst origin = r"
    using Cons.prems(2) that x by (auto simp: map_of_eq_None_iff)
  ultimately show ?case
    using cell_put [OF Cons.prems(1) assms(2), of "fst origin + r" "snd origin" t] assms(4) x
    by (cases "r' - fst origin = r") (auto split: option.split)
qed (simp add: put_rows_def)

lemma cells_eqI:
  assumes "fits win a" "fits win b" "\<And>r c. in_window win r c \<Longrightarrow> cell win r c a = cell win r c b"
  shows "a = b"
proof (rule nth_equalityI)
  show "length a = length b" using assms(1,2) by (simp add: fits_def)
  fix i assume i: "i < length a"
  then have w: "0 < win_w win" using assms(1) by (cases "win_w win = 0") (auto simp: fits_def)
  have "int i < win_h win * win_w win" using i assms(1) by (simp add: fits_def)
  moreover have "int i div win_w win * win_w win \<le> int i" using w by (simp add: minus_mod_eq_div_mult [symmetric])
  ultimately have "int i div win_w win * win_w win < win_h win * win_w win" by linarith
  then have "int i div win_w win < win_h win" using w by simp
  then have "in_window win (int i div win_w win) (int i mod win_w win)" using w by (simp add: in_window_def pos_imp_zdiv_nonneg_iff)
  from assms(3) [OF this] show "a ! i = b ! i" by (simp add: cell_def)
qed

lemma length_center [simp]: "length (center w t) = max w (length t)"
  by (auto simp: center_def Let_def) presburger

definition read_row :: "window \<Rightarrow> int \<Rightarrow> int \<Rightarrow> nat \<Rightarrow> utext \<Rightarrow> utext" where
  "read_row win r c n cells = map (\<lambda>i. cell win r (c + int i) cells) [0..<n]"

section \<open>Properties\<close>

lemma fits_verify_draw: "fits win cells \<Longrightarrow> fits win (verify_draw win username num cells)"
  by (erule fits_length) (simp add: verify_draw_def)

lemma nth_box_line:
  assumes "length t = 24" "i < 24"
  shows "box_line 52 t ! (14 + i) = t ! i"
proof -
  have "box_line 52 t = (cps ''|'' @ replicate 13 32) @ t @ replicate 13 32 @ cps ''|''"
    using assms(1) by (simp add: box_line_def center_def Let_def)
  moreover have "length (cps ''|'' @ replicate 13 (32 :: nat)) = 14" by simp
  ultimately show ?thesis using assms by (simp only: nth_append) simp
qed

lemma verify_draw_number:
  assumes "fits win cells" "9 \<le> win_h win" "38 \<le> win_w win" "length num = 24"
  shows "read_row win (fst (box_origin 18 52 win) + 8) (snd (box_origin 18 52 win) + 14) 24
    (verify_draw win username num cells) = cps num"
proof (rule nth_equalityI)
  let ?o = "box_origin 18 52 win"
  fix i assume "i < length (read_row win (fst ?o + 8) (snd ?o + 14) 24 (verify_draw win username num cells))"
  then have i: "i < 24" by (simp add: read_row_def)
  have o: "0 \<le> snd ?o" by (simp add: box_origin_def)
  have w: "in_window win (fst ?o + 8) (snd ?o + 14 + int i)"
    using assms(2,3) i by (auto simp: in_window_def box_origin_def max_def)
  have "cell win (fst ?o + 8) (snd ?o + 14 + int i) (verify_draw win username num cells) = box_line 52 (cps num) ! nat (14 + int i)"
    unfolding verify_draw_def
    by (subst cell_put_rows [OF assms(1) w _ o]) (use i assms(4) in \<open>simp_all add: verify_rows_def box_line_def\<close>)
  also have "\<dots> = cps num ! i" using nth_box_line [of "cps num" i] i assms(4) by (simp add: nat_add_distrib)
  finally show "read_row win (fst ?o + 8) (snd ?o + 14) 24 (verify_draw win username num cells) ! i = cps num ! i"
    using i by (simp add: read_row_def)
qed (simp add: read_row_def assms(4))

lemma verify_loop_draws:
  "fits win cells \<Longrightarrow> \<exists>before. fits win before \<and>
    snd (verify_loop win username num ks (verify_draw win username num cells)) = verify_draw win username num before"
proof (induction ks arbitrary: cells)
  case (Cons k ks)
  then show ?case using Cons.IH [OF fits_verify_draw [OF Cons.prems]] by (auto simp: Let_def)
qed auto

lemma verify_loop_result: "fst (verify_loop win username num ks cells) = verify_keys ks"
  by (induction ks arbitrary: cells) (simp_all add: ord_def)

lemma cps_eq_iff [simp]: "cps s = cps t \<longleftrightarrow> s = t"
proof -
  have "inj (of_char :: char \<Rightarrow> nat)" by (auto intro!: injI simp: of_char_eq_iff)
  then show ?thesis by (simp add: cps_def inj_map_eq_map)
qed

text \<open> C31: Two users who verify each other read the same number off their screens. Whatever the sizes of the two terminals
  (of at least 9 lines and 38 columns), whatever was on them, whoever the contacts are and whatever keys were
  pressed, the middle row of both boxes holds the safety number of the two keys, whole; the screens of other keys show
  the same number only if the first 64 bits of the hashes agree. The dialog confirms exactly when C is the first
  of the keys C and Escape. \<close>

theorem verify_screens_agree:
  assumes "fits win cells" "9 \<le> win_h win" "38 \<le> win_w win" "fits win' cells'" "9 \<le> win_h win'" "38 \<le> win_w win'"
    and "shown = (\<lambda>win u num ks cells. read_row win (fst (box_origin 18 52 win) + 8) (snd (box_origin 18 52 win) + 14) 24
      (snd (verify_show win u num ks cells)))"
  shows "shown win u (safety_number a b) ks cells = cps (safety_number a b) \<and>
    shown win' v (safety_number b a) ks' cells' = shown win u (safety_number a b) ks cells \<and>
    (shown win' v (safety_number c d) ks' cells' = shown win u (safety_number a b) ks cells \<longleftrightarrow>
      safety_value c d = safety_value a b) \<and>
    fst (verify_show win u (safety_number a b) ks cells) = verify_keys ks"
proof -
  have draw: "shown w x (safety_number k l) ks cells = cps (safety_number k l)"
    if h: "fits w cells" "9 \<le> win_h w" "38 \<le> win_w w" for w x k l ks cells
  proof -
    obtain y where "fits w y" "snd (verify_show w x (safety_number k l) ks cells) = verify_draw w x (safety_number k l) y"
      using verify_loop_draws [OF h(1)] unfolding verify_show_def by blast
    then show ?thesis using verify_draw_number [OF _ h(2,3) safety_number_length] unfolding assms(7) by simp
  qed
  show ?thesis
    using draw assms(1-6) safety_number_agrees [of c d a b, THEN conjunct2, THEN conjunct2] by (simp add: verify_show_def verify_loop_result safety_number_commute [of b a])
qed

lemma overlay_rows_length: "(r, t) \<in> set (overlay_rows caller) \<Longrightarrow> length t = 40"
  by (auto simp: overlay_rows_def Let_def box_edge_def box_sep_def box_line_def)

lemma overlay_rows_keys: "map fst (overlay_rows caller) = [0, 1, 2, 3, 4, 6, 7, 9, 5, 8, 10, 11]"
  by (simp add: overlay_rows_def Let_def)

text \<open> The call overlay can be taken away: on a terminal of any size, clearing after drawing gives the same screen as
  clearing alone, whoever calls; everything outside the box is untouched by both. \<close>

theorem overlay_clear_undoes:
  assumes "fits win cells"
  shows "overlay_clear win (overlay_render win caller cells) = overlay_clear win cells \<and>
    (\<forall>r c. in_window win r c \<and> \<not> (fst (box_origin 12 40 win) \<le> r \<and> r < fst (box_origin 12 40 win) + 12 \<and>
        snd (box_origin 12 40 win) \<le> c \<and> c < snd (box_origin 12 40 win) + 40) \<longrightarrow>
      cell win r c (overlay_clear win (overlay_render win caller cells)) = cell win r c cells)"
proof -
  let ?o = "box_origin 12 40 win" and ?blank = "map (\<lambda>r. (int r, replicate 40 (32 :: nat))) [0..<12]"
  have o: "0 \<le> snd ?o" by (simp add: box_origin_def)
  have f: "fits win (overlay_render win caller cells)" using assms by (rule fits_length) (simp add: overlay_render_def)
  have clear: "cell win r c (overlay_clear win x) =
      (if fst ?o \<le> r \<and> r < fst ?o + 12 \<and> snd ?o \<le> c \<and> c < snd ?o + 40 then 32 else cell win r c x)"
    if "fits win x" "in_window win r c" for r c x
  proof -
    have d: "distinct (map fst ?blank)" by (simp add: distinct_map inj_on_def comp_def)
    have "map_of ?blank (r - fst ?o) = (if fst ?o \<le> r \<and> r < fst ?o + 12 then Some (replicate 40 32) else None)"
    proof (cases "fst ?o \<le> r \<and> r < fst ?o + 12")
      case True
      then have "(r - fst ?o, replicate 40 (32 :: nat)) \<in> set ?blank"
        by (auto simp: image_iff intro!: bexI [of _ "nat (r - fst ?o)"])
      then show ?thesis using True d map_of_is_SomeI by simp
    next
      case False
      then show ?thesis by (auto simp: map_of_eq_None_iff)
    qed
    then show ?thesis
      unfolding overlay_clear_def by (subst cell_put_rows [OF that d o]) (auto simp: nth_replicate)
  qed
  have draw: "cell win r c (overlay_render win caller cells) = cell win r c cells"
    if "in_window win r c" "\<not> (fst ?o \<le> r \<and> r < fst ?o + 12 \<and> snd ?o \<le> c \<and> c < snd ?o + 40)" for r c
  proof -
    have "distinct (map fst (overlay_rows caller))" by (simp add: overlay_rows_keys)
    moreover have "r - fst ?o \<in> {0..<12} \<and> length t = 40" if "map_of (overlay_rows caller) (r - fst ?o) = Some t" for t
    proof
      have "(r - fst ?o, t) \<in> set (overlay_rows caller)" using that by (rule map_of_SomeD)
      then show "length t = 40" by (rule overlay_rows_length)
      have "r - fst ?o \<in> set (map fst (overlay_rows caller))" using that by (force dest: map_of_SomeD)
      then show "r - fst ?o \<in> {0..<12}" unfolding overlay_rows_keys by auto
    qed
    ultimately show ?thesis
      unfolding overlay_render_def using that
      by (subst cell_put_rows [OF assms that(1) _ o]) (force split: option.split)+
  qed
  have "overlay_clear win (overlay_render win caller cells) = overlay_clear win cells"
    by (rule cells_eqI [of win]) (use f assms clear draw in \<open>auto simp: overlay_clear_def intro: fits_length\<close>)
  then show ?thesis using clear [OF assms] by auto
qed

text \<open>The dialogs with their screens give the results of the dialogs.\<close>

lemma then_screen_result: "(\<And>a ks cells. fst (f a ks cells) = g a ks) \<Longrightarrow> fst (then_screen m f) = then_ui (fst m) g"
  by (cases m; cases "fst m") auto

lemma auth_screen_result: "fst (auth_screen win ks) = show_auth win ks"
proof (induction ks rule: measure_induct_rule [of length])
  case (less ks)
  have form: "fst (then_screen (prompt_screen win (form_row win + 2) (form_col win) False ks1 cells) (\<lambda>username ks cells.
        then_screen (prompt_screen win (form_row win + 4) (form_col win) True ks cells) (\<lambda>password ks cells.
        if py_strip username = [] \<or> password = [] then auth_screen win ks
        else (Done (Some (mk (py_strip username) password)) ks, cells)))) =
      then_ui (prompt win (form_row win + 2) (form_col win) ks1) (\<lambda>username ks.
        then_ui (prompt win (form_row win + 4) (form_col win) ks) (\<lambda>password ks.
        if py_strip username = [] \<or> password = [] then show_auth win ks
        else Done (Some (mk (py_strip username) password)) ks))"
    if "length ks1 < length ks" for ks1 cells mk
  proof (cases "prompt_screen win (form_row win + 2) (form_col win) False ks1 cells")
    case u: (Pair r1 cells1)
    have r1: "r1 = prompt win (form_row win + 2) (form_col win) ks1"
      using prompt_screen_result [of win "form_row win + 2" "form_col win" False ks1 cells] u by simp
    show ?thesis
    proof (cases r1)
      case (Done name ks2)
      show ?thesis
      proof (cases "prompt_screen win (form_row win + 4) (form_col win) True ks2 cells1")
        case p: (Pair r2 cells2)
        have r2: "r2 = prompt win (form_row win + 4) (form_col win) ks2"
          using prompt_screen_result [of win "form_row win + 4" "form_col win" True ks2 cells1] p by simp
        show ?thesis
        proof (cases r2)
          case d: (Done pw ks3)
          have "length ks3 < length ks"
            using prompt_consumes [of win "form_row win + 2" "form_col win" ks1 name ks2]
              prompt_consumes [of win "form_row win + 4" "form_col win" ks2 pw ks3] that r1 r2 Done d by simp
          then show ?thesis using less.IH [of ks3] u p Done d r1 [symmetric] r2 [symmetric] by simp
        qed (use u p Done r1 [symmetric] r2 [symmetric] in simp_all)
      qed
    qed (use u r1 [symmetric] in simp_all)
  qed
  show ?case
    by (subst auth_screen.simps, subst show_auth.simps)
      (cases "choose_mode ks"; use form choose_mode_consumes in \<open>auto simp: Let_def split: option.split\<close>)
qed

lemma unlock_screen_result: "fst (unlock_screen win typed ks cells) = unlock_keys typed ks"
  by (induction win typed ks cells rule: unlock_screen.induct) auto

text \<open>Two key sequences that differ in which characters were typed, and in nothing else.\<close>

definition same_shape :: "int list \<Rightarrow> int list \<Rightarrow> bool" where
  "same_shape = list_all2 (\<lambda>k k'. k = k' \<or> is_char k \<and> is_char k')"

lemma same_shape_Cons [simp]:
  "same_shape (k # ks) (k' # ks') \<longleftrightarrow> (k = k' \<or> is_char k \<and> is_char k') \<and> same_shape ks ks'"
  by (simp add: same_shape_def)

text \<open> Nobody reads a password off the screen: what the password prompt leaves on it depends on how many characters
  were typed, erased and typed again, not on which; two sequences of keys that differ in the characters alone
  leave the same cells, also when the prompt fails half way. \<close>

theorem password_not_shown:
  assumes "same_shape ks ks'" "length typed = length typed'"
  shows "snd (get_line_screen win row col True typed ks cells) = snd (get_line_screen win row col True typed' ks' cells)"
  using assms
proof (induction ks arbitrary: ks' typed typed' cells)
  case Nil
  then show ?case by (simp add: same_shape_def)
next
  case (Cons k ks)
  obtain k' rest where ks': "ks' = k' # rest" using Cons.prems(1) by (cases ks') (auto simp: same_shape_def)
  have s: "same_shape ks rest" "k = k' \<or> is_char k \<and> is_char k'" using Cons.prems(1) by (simp_all add: ks')
  have e: "typed = [] \<longleftrightarrow> typed' = []" "echo True x = replicate (length x) 42" for x
    using Cons.prems(2) by (auto simp: echo_def)
  have "length (butlast typed) = length (butlast typed')" "length (typed @ [chr k]) = length (typed' @ [chr k'])"
    using Cons.prems(2) by simp_all
  then have IH: "snd (get_line_screen win row col True (butlast typed) ks c) = snd (get_line_screen win row col True (butlast typed') rest c)"
    "snd (get_line_screen win row col True (typed @ [chr k]) ks c) = snd (get_line_screen win row col True (typed' @ [chr k']) rest c)"
    "snd (get_line_screen win row col True typed ks c) = snd (get_line_screen win row col True typed' rest c)" for c
    using Cons.IH [OF s(1)] Cons.prems(2) by blast+
  show ?case
  proof (cases "is_char k")
    case True
    then have "is_char k'" using s(2) by auto
    then show ?thesis
      using True char_not_control [of k] char_not_control [of k'] IH(2) e(2) Cons.prems(2) by (simp add: ks' Let_def)
  next
    case False
    then have "k' = k" using s(2) by auto
    then show ?thesis using False IH e Cons.prems(2) by (simp add: ks' Let_def)
  qed
qed

text \<open>The stars of the unlock prompt are drawn over its label: after \<open>n\<close> characters the label has lost its first
  \<open>n\<close> letters.\<close>

lemma cell_write_above:
  assumes "fits win cells" "in_window win r' c'" "r' < r"
  shows "cell win r' c' (write_at win r c t cells) = cell win r' c' cells"
proof (cases "in_window win r c")
  case True
  have "(r' + 1) * win_w win \<le> r * win_w win" by (rule mult_right_mono) (use assms True in \<open>auto simp: in_window_def\<close>)
  then have "r' * win_w win + c' < r * win_w win + c" using assms(2) True by (simp add: in_window_def algebra_simps)
  moreover have q: "0 \<le> r' * win_w win + c'" "nat (r' * win_w win + c') < length cells" using index_bound [OF assms(2,1)] by auto
  ultimately have "\<not> nat (r * win_w win + c) \<le> nat (r' * win_w win + c')" by linarith
  then show ?thesis using q True unfolding cell_def write_at_def Let_def by (simp add: nth_write)
qed (simp add: write_at_def)

lemma length_put_middle [simp]: "length (put_middle win r t cells) = length cells"
  by (simp add: put_middle_def)

lemma draw_unlock_label:
  assumes "9 \<le> win_h win" "30 \<le> win_w win" "i < 10"
  shows "cell win (unlock_top win + 6) (unlock_col win + int i) (draw_unlock win username) = cps ''Password: '' ! i"
proof -
  let ?put = "\<lambda>(i, t) cells. if 0 \<le> unlock_top win + int i then put_middle win (unlock_top win + int i) t cells else cells"
  let ?hint = "cps ''[Enter] unlock    [S] skip encryption    [N] new account    [Q] quit''"
  define before where "before = fold ?put (enumerate 0 (take 6 (unlock_lines username))) (blank win)"
  have f: "fits win (fold ?put xs (blank win))" for xs
    using assms(1,2) by (intro fits_length [OF fits_blank] length_fold) (auto simp: split_def)
  have t: "0 \<le> unlock_top win" "unlock_top win + 8 < win_h win" using assms(1) by (auto simp: unlock_top_def)
  have col: "unlock_col win = (win_w win - 10) div 2" "max ((win_w win - 10) div 2) 0 = (win_w win - 10) div 2"
    using assms(2) by (auto simp: unlock_col_def)
  have iw: "in_window win (unlock_top win + 6) (unlock_col win + int j)" if "j < 10" for j
    using that t assms(2) by (auto simp: in_window_def col)
  let ?c1 = "write_at win (unlock_top win + 6) (unlock_col win) (cps ''Password: '') before"
  have c1: "cell win (unlock_top win + 6) (unlock_col win + int i) ?c1 = cps ''Password: '' ! i"
    by (subst cell_write [OF f [of "enumerate 0 (take 6 (unlock_lines username))", folded before_def] iw [OF assms(3)] iw [of 0, simplified]])
      (use assms col in auto)
  have "draw_unlock win username =
      put_middle win (unlock_top win + 8) ?hint (put_middle win (unlock_top win + 7) [] ?c1)"
    using t col by (simp add: draw_unlock_def before_def unlock_lines_def put_middle_def cps_def)
  moreover have "fits win ?c1" using f [of "enumerate 0 (take 6 (unlock_lines username))", folded before_def] by (rule fits_length) simp
  moreover have "fits win (put_middle win (unlock_top win + 7) [] ?c1)" using \<open>fits win ?c1\<close> by (rule fits_length) simp
  moreover have "cell win (unlock_top win + 6) (unlock_col win + int i) (put_middle win r x y) =
      cell win (unlock_top win + 6) (unlock_col win + int i) y" if "unlock_top win + 6 < r" "fits win y" for r x y
    using cell_write_above [OF that(2) iw [OF assms(3)] that(1)] by (simp add: put_middle_def)
  ultimately show ?thesis using c1 by simp
qed

lemma unlock_screen_types:
  assumes "fits win cells" "printable s" "set s \<inter> set prompt_keys = {}" "0 \<le> unlock_top win + 6" "unlock_top win + 6 < win_h win"
    and "unlock_col win + int (length typed + length s) \<le> win_w win" "0 \<le> unlock_col win"
    and "in_window win (unlock_top win + 6) (unlock_col win + j)"
  shows "cell win (unlock_top win + 6) (unlock_col win + j) (snd (unlock_screen win typed (map ord s) cells)) =
    (if int (length typed) \<le> j \<and> j < int (length typed + length s) then 42
     else cell win (unlock_top win + 6) (unlock_col win + j) cells)"
  using assms
proof (induction s arbitrary: typed cells)
  case (Cons c s)
  let ?cells = "write_at win (unlock_top win + 6) (unlock_col win + int (length typed)) [42] cells"
  have c: "is_char (ord c)" using Cons.prems(2) by (simp add: printable_def)
  then have "ord c \<noteq> 27" "ord c \<noteq> 3" by (auto simp: is_char_def)
  moreover have "c \<notin> set prompt_keys" using Cons.prems(3) by simp
  ultimately have "unlock_screen win typed (map ord (c # s)) cells = unlock_screen win (typed @ [c]) (map ord s) ?cells"
    using char_not_control [OF c] c by (simp add: ord_inj prompt_keys_def)
  moreover have "fits win ?cells" using Cons.prems(1) by (rule fits_length) simp
  moreover have "cell win (unlock_top win + 6) (unlock_col win + j) ?cells =
      (if j = int (length typed) then 42 else cell win (unlock_top win + 6) (unlock_col win + j) cells)"
    by (subst cell_write [OF Cons.prems(1) Cons.prems(8)]) (use Cons.prems in \<open>auto simp: in_window_def\<close>)
  ultimately show ?case using Cons.IH [of ?cells "typed @ [c]"] Cons.prems by (auto simp: printable_def)
qed simp

theorem stars_overwrite_label:
  assumes "9 \<le> win_h win" "30 \<le> win_w win" "printable s" "set s \<inter> set prompt_keys = {}" "length s \<le> 10"
  shows "read_row win (unlock_top win + 6) (unlock_col win) 10 (snd (unlock_show win username (map ord s))) =
    replicate (length s) 42 @ drop (length s) (cps ''Password: '')"
proof (rule nth_equalityI)
  fix i assume "i < length (read_row win (unlock_top win + 6) (unlock_col win) 10 (snd (unlock_show win username (map ord s))))"
  then have i: "i < 10" by (simp add: read_row_def)
  have f: "fits win (draw_unlock win username)"
    using assms(1,2) unfolding draw_unlock_def by (intro fits_length [OF fits_blank] length_fold) (auto simp: split_def)
  have b: "0 \<le> unlock_top win + 6" "unlock_top win + 6 < win_h win" "0 \<le> unlock_col win" "unlock_col win + 10 \<le> win_w win"
    using assms(1,2) by (auto simp: unlock_top_def unlock_col_def)
  have "in_window win (unlock_top win + 6) (unlock_col win + int i)" using b i by (auto simp: in_window_def)
  then have "cell win (unlock_top win + 6) (unlock_col win + int i) (snd (unlock_show win username (map ord s))) =
      (if int i < int (length s) then 42 else cps ''Password: '' ! i)"
    using unlock_screen_types [OF f assms(3,4) b(1,2), of "[]" "int i"] b assms(5) draw_unlock_label [OF assms(1,2) i]
    by (simp add: unlock_show_def)
  then show "read_row win (unlock_top win + 6) (unlock_col win) 10 (snd (unlock_show win username (map ord s))) ! i =
      (replicate (length s) 42 @ drop (length s) (cps ''Password: '')) ! i"
    using i assms(5) by (simp add: read_row_def nth_append)
qed (use assms(5) in \<open>simp add: read_row_def\<close>)

section \<open>Witnesses\<close>

definition term_24_80 :: window where "term_24_80 = \<lparr>win_h = 24, win_w = 80\<rparr>"

lemma verify_screens_agree_witness:
  "read_row \<lparr>win_h = 9, win_w = 38\<rparr> 8 14 24
     (snd (verify_show \<lparr>win_h = 9, win_w = 38\<rparr> ''ann'' (safety_number [2] [1]) [] (blank \<lparr>win_h = 9, win_w = 38\<rparr>))) =
   read_row term_24_80 11 28 24 (snd (verify_show term_24_80 ''bob'' (safety_number [1] [2]) [10, 67] (blank term_24_80)))"
  using verify_screens_agree [of term_24_80 "blank term_24_80" "\<lparr>win_h = 9, win_w = 38\<rparr>" "blank \<lparr>win_h = 9, win_w = 38\<rparr>"
      _ "''bob''" "[1]" "[2]" "[10, 67]" "''ann''" "[]", OF _ _ _ _ _ _ refl]
  by (simp add: fits_blank term_24_80_def box_origin_def)

lemma overlay_clear_undoes_witness:
  "overlay_clear term_24_80 (overlay_render term_24_80 ''bob'' (blank term_24_80)) = overlay_clear term_24_80 (blank term_24_80)"
  by (rule conjunct1 [OF overlay_clear_undoes]) (simp add: fits_blank term_24_80_def)

lemma password_not_shown_witness:
  "snd (get_line_screen term_24_80 12 33 True [] (map ord ''secret'' @ [127, ord (CHR ''x''), 10]) (blank term_24_80)) =
   snd (get_line_screen term_24_80 12 33 True [] (map ord ''abcdef'' @ [127, ord (CHR ''y''), 10]) (blank term_24_80))"
  by (rule password_not_shown) (simp_all add: ord_def is_char_def same_shape_def)

lemma stars_overwrite_label_witness:
  "read_row term_24_80 14 35 10 (snd (unlock_show term_24_80 ''ann'' (map ord ''abc''))) = cps ''***sword: ''"
proof -
  have "unlock_top term_24_80 = 8" "unlock_col term_24_80 = 35" by (simp_all add: unlock_top_def unlock_col_def term_24_80_def)
  then show ?thesis
    using stars_overwrite_label [of term_24_80 "''abc''" "''ann''"]
    by (simp add: term_24_80_def printable_def is_char_def ord_def prompt_keys_def cps_def numeral_3_eq_3)
qed

end
