(* ===== verification/Ui_Loop.thy ===== *)
theory Ui_Loop
  imports Chat_View Dialog_View
begin

text \<open>
  The loop of the user interface (\<^verbatim>\<open>App._ui_loop\<close>, \<^verbatim>\<open>App._render\<close> and \<^verbatim>\<open>Screen.resize\<close>): it polls a key, handles
  it, and draws the windows when something has set \<open>dirty\<close>. The lemmas show that whatever changes what is shown
  also sets \<open>dirty\<close>, so that what is on the screen is never out of date, and what the loop does with a notice
  that has expired.
\<close>

section \<open>A frame\<close>

text \<open>What is in the windows: the status bar, the sidebar, the divider, the chat and the input line.\<close>

record frame =
  f_header :: utext
  f_sidebar :: "(utext \<times> attr) list"
  f_divider :: "int list"
  f_chat :: "put list"
  f_input :: "utext \<times> nat option"

text \<open>A notice is cleared by the first drawing more than four seconds after it was set.\<close>

definition expire_notice :: "'e app_scheme \<Rightarrow> 'e app_scheme" where
  "expire_notice s = (if notice s \<noteq> [] \<and> 4 < clock s - notice_ts s then s\<lparr>notice := []\<rparr> else s)"

definition window_h :: "int \<times> int \<Rightarrow> nat \<Rightarrow> nat" where
  "window_h dims i = nat (r_height (rebuild (fst dims) (snd dims) ! i))"

definition window_w :: "int \<times> int \<Rightarrow> nat \<Rightarrow> nat" where
  "window_w dims i = nat (r_width (rebuild (fst dims) (snd dims) ! i))"

definition picture :: "(int \<Rightarrow> int) \<Rightarrow> int \<times> int \<Rightarrow> 'e app_scheme \<Rightarrow> exn + frame" where
  "picture tz dims s =
    sbnd (render_chat tz (window_h dims 3) (window_w dims 3) s) (\<lambda>puts.
    Inr \<lparr>f_header = render_header (window_w dims 0) s, f_sidebar = render_sidebar (window_h dims 1) s,
      f_divider = map int [0..<window_h dims 2], f_chat = puts, f_input = render_input (window_w dims 4) s\<rparr>)"

section \<open>The loop\<close>

text \<open>
  The size of the terminal, the frame on it (\<open>None\<close> when there is none, or it was cleared) and the instant it was
  drawn at. An exception of the chat window leaves the loop before anything is put on the screen.
\<close>

record 'e ui =
  u_app :: "'e app_scheme"
  u_size :: "int \<times> int"
  u_shown :: "frame option"
  u_drawn_at :: int

definition render :: "(int \<Rightarrow> int) \<Rightarrow> 'e ui \<Rightarrow> 'e ui" where
  "render tz u =
    (let s = expire_notice (u_app u) in
     case picture tz (u_size u) s of
       Inl e \<Rightarrow> u\<lparr>u_app := s\<lparr>running := False\<rparr>\<rparr>
     | Inr f \<Rightarrow> u\<lparr>u_app := s\<lparr>dirty := False\<rparr>, u_shown := Some f, u_drawn_at := clock s\<rparr>)"

definition resize :: "int \<times> int \<Rightarrow> 'e ui \<Rightarrow> 'e ui" where
  "resize dims u = u\<lparr>u_size := dims, u_shown := None, u_app := (u_app u)\<lparr>dirty := True\<rparr>\<rparr>"

text \<open>A round without a key, with a key, or with the report that the terminal has another size.\<close>

datatype poll = Idle | Pressed int io | Resized "int \<times> int"

definition redraw :: "(int \<Rightarrow> int) \<Rightarrow> 'e ui \<Rightarrow> 'e ui" where
  "redraw tz u = (if dirty (u_app u) then render tz u else u)"

fun ui_round :: "crypto \<Rightarrow> (int \<Rightarrow> int) \<Rightarrow> poll \<Rightarrow> 'e ui \<Rightarrow> 'e ui" where
  "ui_round C tz Idle u = redraw tz u"
| "ui_round C tz (Pressed key io) u = (case handle_key C io key (u_app u) of
     (Inl e, s) \<Rightarrow> u\<lparr>u_app := s\<lparr>running := False\<rparr>\<rparr> | (Inr _, s) \<Rightarrow> redraw tz (u\<lparr>u_app := s\<rparr>))"
| "ui_round C tz (Resized dims) u = resize dims u"

text \<open>
  Between the rounds the event loop runs the rest of the application: packets, connection changes and the passing
  of time. The loop stops once \<open>running\<close> is unset.
\<close>

datatype ui_event = Arrives packet | Linked nat | Cut nat | Clock int | Round poll

fun ui_step :: "crypto \<Rightarrow> audio_host \<Rightarrow> (int \<Rightarrow> int) \<Rightarrow> 'e ui \<Rightarrow> ui_event \<Rightarrow> 'e ui" where
  "ui_step C host tz u (Arrives pkt) = u\<lparr>u_app := snd (app_route C host pkt (u_app u))\<rparr>"
| "ui_step C host tz u (Linked n) = u\<lparr>u_app := snd (on_connect n (u_app u))\<rparr>"
| "ui_step C host tz u (Cut n) = u\<lparr>u_app := snd (on_disconnect n (u_app u))\<rparr>"
| "ui_step C host tz u (Clock t) = u\<lparr>u_app := (u_app u)\<lparr>clock := t\<rparr>\<rparr>"
| "ui_step C host tz u (Round r) = (if running (u_app u) then ui_round C tz r u else u)"

definition ui_open :: "int \<times> int \<Rightarrow> 'e app_scheme \<Rightarrow> 'e ui" where
  "ui_open dims s = \<lparr>u_app = s, u_size = dims, u_shown = None, u_drawn_at = clock s\<rparr>"

section \<open>Whatever changes the picture sets the flag\<close>

text \<open>What a frame is drawn from, but for the time.\<close>

definition visible where
  "visible s = (me s, conn_status s, reconnect_att s, current_chat s, unread s, contact_items s, view s, buf s, cursor s, notice s)"

definition paints :: "'e app_scheme \<Rightarrow> 'e app_scheme \<Rightarrow> bool" where
  "paints s t \<longleftrightarrow> (dirty s \<longrightarrow> dirty t) \<and> (dirty t \<or> visible t = visible s)"

interpretation paint: line_effect paints
  by unfold_locales (auto simp: paints_def visible_def erase_before_def type_char_def)

lemma visible_fields: "visible s = visible t \<longleftrightarrow> me s = me t \<and> conn_status s = conn_status t \<and>
  reconnect_att s = reconnect_att t \<and> current_chat s = current_chat t \<and> unread s = unread t \<and>
  contact_items s = contact_items t \<and> view s = view t \<and> buf s = buf t \<and> cursor s = cursor t \<and> notice s = notice t"
  by (simp add: visible_def)

lemma visible_update [simp]: "visible (s\<lparr>clock := n\<rparr>) = visible s" "visible (s\<lparr>dirty := b\<rparr>) = visible s"
  "visible (s\<lparr>running := b\<rparr>) = visible s"
  by (simp_all add: visible_def)

lemma picture_visible: "visible s = visible t \<Longrightarrow> clock s = clock t \<Longrightarrow> picture tz dims s = picture tz dims t"
  by (simp add: visible_fields picture_def render_chat_def render_header_def render_sidebar_def render_input_def shown_status_def)

definition on_screen :: "(int \<Rightarrow> int) \<Rightarrow> 'e ui \<Rightarrow> bool" where
  "on_screen tz u \<longleftrightarrow> (\<exists>f. u_shown u = Some f \<and> picture tz (u_size u) ((u_app u)\<lparr>clock := u_drawn_at u\<rparr>) = Inr f)"

definition up_to_date :: "(int \<Rightarrow> int) \<Rightarrow> 'e ui \<Rightarrow> bool" where
  "up_to_date tz u \<longleftrightarrow> dirty (u_app u) \<or> on_screen tz u"

lemma on_screen_visible:
  "on_screen tz u \<Longrightarrow> visible t = visible (u_app u) \<Longrightarrow> on_screen tz (u\<lparr>u_app := t\<rparr>)"
  using picture_visible [of "t\<lparr>clock := u_drawn_at u\<rparr>" "(u_app u)\<lparr>clock := u_drawn_at u\<rparr>"] by (auto simp: on_screen_def)

lemma up_to_date_paints: "up_to_date tz u \<Longrightarrow> paints (u_app u) t \<Longrightarrow> up_to_date tz (u\<lparr>u_app := t\<rparr>)"
  using on_screen_visible by (auto simp: up_to_date_def paints_def)

lemma expire_dirty [simp]: "dirty (expire_notice s) = dirty s" by (simp add: expire_notice_def)

text \<open>A drawing either puts the present state on the screen or, by an exception, stops the loop.\<close>

lemma render_cases:
  obtains (drawn) "on_screen tz (render tz u)" "\<not> dirty (u_app (render tz u))"
  | (failed) "\<not> running (u_app (render tz u))" "dirty (u_app (render tz u)) = dirty (u_app u)"
proof (cases "picture tz (u_size u) (expire_notice (u_app u))")
  case (Inr f)
  let ?s = "expire_notice (u_app u)"
  have "picture tz (u_size u) (?s\<lparr>dirty := False, clock := clock ?s\<rparr>) = Inr f"
    using Inr picture_visible [of "?s\<lparr>dirty := False, clock := clock ?s\<rparr>" ?s] by simp
  then show ?thesis using Inr drawn by (simp add: render_def on_screen_def Let_def)
qed (use failed in \<open>simp add: render_def Let_def\<close>)

lemma redraw_on_screen:
  "up_to_date tz u \<Longrightarrow> running (u_app (redraw tz u)) \<Longrightarrow> on_screen tz (redraw tz u) \<and> \<not> dirty (u_app (redraw tz u))"
  by (cases rule: render_cases [of tz u]) (auto simp: redraw_def up_to_date_def)

lemma redraw_up_to_date: "up_to_date tz u \<Longrightarrow> up_to_date tz (redraw tz u)"
  by (cases rule: render_cases [of tz u]) (auto simp: redraw_def up_to_date_def)

lemma render_frame:
  "running (u_app (render tz u)) = running (ui_frame tz (window_h (u_size u) 3) (window_w (u_size u) 3) (expire_notice (u_app u)))"
  by (simp add: render_def ui_frame_def picture_def sbnd_def Let_def split: sum.split)

text \<open>A key, before the drawing that follows it.\<close>

lemma pressed_up_to_date:
  assumes "up_to_date tz u" "handle_key C io key (u_app u) = (r, s)"
  shows "up_to_date tz (u\<lparr>u_app := s\<rparr>)"
  using assms paint.leff_handle_key [of C io key] by (auto intro: up_to_date_paints dest: stepsD)

lemma stopped_up_to_date: "up_to_date tz (u\<lparr>u_app := s\<rparr>) \<Longrightarrow> up_to_date tz (u\<lparr>u_app := s\<lparr>running := False\<rparr>\<rparr>)"
  using on_screen_visible [of tz "u\<lparr>u_app := s\<rparr>" "s\<lparr>running := False\<rparr>"] by (auto simp: up_to_date_def)

lemma round_up_to_date: "up_to_date tz u \<Longrightarrow> up_to_date tz (ui_round C tz r u)"
proof (cases r)
  case (Pressed key io)
  assume u: "up_to_date tz u"
  obtain res s where h: "handle_key C io key (u_app u) = (res, s)" by fastforce
  show ?thesis
    using Pressed h pressed_up_to_date [OF u h] redraw_up_to_date stopped_up_to_date by (cases res) simp_all
qed (simp_all add: redraw_up_to_date resize_def, simp add: up_to_date_def)

lemma steps_up_to_date: "up_to_date tz u \<Longrightarrow> steps paints m \<Longrightarrow> up_to_date tz (u\<lparr>u_app := snd (m (u_app u))\<rparr>)"
  by (rule up_to_date_paints) (simp_all add: steps_def)

interpretation loop: machine "ui_step C host tz" "up_to_date tz"
proof
  fix u :: "'a ui" and e
  assume u: "up_to_date tz u"
  show "up_to_date tz (ui_step C host tz u e)"
    by (cases e) (simp_all add: u steps_up_to_date paint.cmd_route paint.aeff_connection
        up_to_date_paints paint.leff_clock round_up_to_date)
qed

section \<open>Properties\<close>



text \<open>
  A notice is cleared by a drawing, and only by a drawing: as long as nothing but time passes it stays on the
  screen, however old it is. Then the next change clears it.
\<close>

lemma notice_outlives:
  assumes "\<not> dirty (u_app u)" "\<forall>e \<in> set es. e = Round Idle \<or> (\<exists>t. e = Clock t)"
  shows "u_shown (run (ui_step C host tz) u es) = u_shown u \<and> notice (u_app (run (ui_step C host tz) u es)) = notice (u_app u)"
  using assms by (induction es arbitrary: u) (auto simp: run_Cons redraw_def)

lemma drawing_clears_notice:
  assumes "dirty (u_app u)" "4 < clock (u_app u) - notice_ts (u_app u)"
  shows "notice (u_app (redraw tz u)) = []"
  using assms by (auto simp: redraw_def render_def expire_notice_def Let_def split: sum.split)

lemma young_notice_stays:
  assumes "clock (u_app u) - notice_ts (u_app u) \<le> 4"
  shows "notice (u_app (redraw tz u)) = notice (u_app u)"
  using assms by (auto simp: redraw_def render_def expire_notice_def Let_def split: sum.split)

end
