(* ===== verification/Server_System.thy ===== *)
theory Server_System
  imports Ws_Server Tcp_Properties
begin

text \<open>
  The server process as a machine (\<^verbatim>\<open>server/main.py\<close>): connections open, deliver messages, break and
  close, files are transferred, the expiry task runs and time passes, in any order. The invariants of
  the components hold in every reachable state.
\<close>

record system =
  srv_of :: server
  who :: "ws \<Rightarrow> string option"
  opened :: "ws set"

datatype event =
    Connect ws "string option"
  | Recv ws string
  | Break_socket ws
  | Close ws
  | Transfer bytes
  | Expire
  | Wait nat real

definition close_connection :: "ws \<Rightarrow> system \<Rightarrow> system" where
  "close_connection w S = S\<lparr>srv_of := snd (cleanup w (who S w) (srv_of S)),
     who := (who S)(w := None), opened := opened S - {w}\<rparr>"

fun sys_step ::
  "(bytes \<Rightarrow> bytes \<Rightarrow> exn + bool) \<Rightarrow> string \<Rightarrow> system \<Rightarrow> event \<Rightarrow> system" where
  "sys_step checkpw base S (Connect w ip) = (if w \<in> opened S then S else
     S\<lparr>srv_of := srv_of S\<lparr>remote := (remote (srv_of S))(w := ip), broken := broken (srv_of S) - {w}\<rparr>,
       who := (who S)(w := None), opened := insert w (opened S)\<rparr>)"
| "sys_step checkpw base S (Recv w raw) = (if w \<notin> opened S then S else
     case handle_msg checkpw base w (who S w) raw (srv_of S) of
       (Inr (Continue u), s) \<Rightarrow> S\<lparr>srv_of := s, who := (who S)(w := u)\<rparr>
     | (_, s) \<Rightarrow> close_connection w (S\<lparr>srv_of := s\<rparr>))"
| "sys_step checkpw base S (Break_socket w) =
     S\<lparr>srv_of := srv_of S\<lparr>broken := insert w (broken (srv_of S))\<rparr>\<rparr>"
| "sys_step checkpw base S (Close w) = (if w \<notin> opened S then S else
     close_connection w (S\<lparr>srv_of := srv_of S\<lparr>broken := insert w (broken (srv_of S))\<rparr>\<rparr>))"
| "sys_step checkpw base S (Transfer inp) = S\<lparr>srv_of := fst (handle_client base inp (srv_of S))\<rparr>"
| "sys_step checkpw base S Expire = S\<lparr>srv_of := snd (cleanup_expired base (srv_of S))\<rparr>"
| "sys_step checkpw base S (Wait n x) = S\<lparr>srv_of := srv_of S\<lparr>clock := clock (srv_of S) + int n,
     mono := mono (srv_of S) + abs x\<rparr>\<rparr>"

definition sys_boot :: "(nat \<Rightarrow> byte) \<Rightarrow> int \<Rightarrow> real \<Rightarrow> system" where
  "sys_boot ent t m = \<lparr>srv_of = boot ent t m, who = (\<lambda>_. None), opened = {}\<rparr>"

section \<open>Effects of a step\<close>

text \<open>An allowed effect that also ignores sockets and clocks relates the server before and after any step.\<close>

context server_effect
begin

lemma eff_close: "R (srv_of S) (srv_of (close_connection w S))"
  using eff_cleanup [of w "who S w"] by (simp add: close_connection_def steps_def)

lemma eff_sys_step:
  assumes "\<And>s x. R s (s\<lparr>remote := x\<rparr>)" "\<And>s x. R s (s\<lparr>broken := x\<rparr>)"
    "\<And>s x. R s (s\<lparr>clock := x\<rparr>)" "\<And>s x. R s (s\<lparr>mono := x\<rparr>)"
  shows "R (srv_of S) (srv_of (sys_step c b S e))"
proof (cases e)
  case (Connect w ip)
  have "R s (s\<lparr>remote := x, broken := y\<rparr>)" for s x y
    using assms(1) [of s x] assms(2) [of "s\<lparr>remote := x\<rparr>" y] by (rule R_trans)
  then show ?thesis using Connect by (simp add: R_refl)
next
  case (Recv w raw)
  obtain r s where m: "handle_msg c b w (who S w) raw (srv_of S) = (r, s)" by fastforce
  have 1: "R (srv_of S) s" using eff_handle_msg m by (rule stepsD)
  have "R (srv_of S) (srv_of (close_connection w (S\<lparr>srv_of := s\<rparr>)))"
    using 1 eff_close [of "S\<lparr>srv_of := s\<rparr>" w] by (auto intro: R_trans)
  then show ?thesis using Recv m 1 by (auto simp: R_refl split: sum.split flow.split)
next
  case (Close w)
  let ?S = "S\<lparr>srv_of := srv_of S\<lparr>broken := insert w (broken (srv_of S))\<rparr>\<rparr>"
  have "R (srv_of S) (srv_of ?S)" using assms(2) by simp
  then have "R (srv_of S) (srv_of (close_connection w ?S))" using eff_close by (rule R_trans)
  then show ?thesis using Close by (simp add: R_refl)
next
  case (Wait n x)
  have "R s (s\<lparr>clock := x, mono := y\<rparr>)" for s x y
    using assms(3) [of s x] assms(4) [of "s\<lparr>clock := x\<rparr>" y] by (rule R_trans)
  then show ?thesis using Wait by simp
qed (use assms(2) eff_handle_client eff_cleanup_expired in \<open>auto simp: steps_def\<close>)

end

lemma keys_sys_step: "db_ok (db (srv_of S)) \<Longrightarrow> db_ok (db (srv_of (sys_step c b S e)))"
  using keys.eff_sys_step [of S c b e] by (simp add: keeps_keys_def)

lemma calls_sys_step: "calls_ok (srv_of S) \<Longrightarrow> calls_ok (srv_of (sys_step c b S e))"
  using callseff.eff_sys_step [of S c b e] by (simp add: keeps_calls_def calls_ok_def)

lemma accounts_sys_step: "keeps_accounts (srv_of S) (srv_of (sys_step c b S e))"
  using accts.eff_sys_step [of S c b e] by (simp add: keeps_accounts_same)

section \<open>Invariants of the running server\<close>

definition sys_ok :: "system \<Rightarrow> bool" where
  "sys_ok S \<longleftrightarrow> db_ok (db (srv_of S)) \<and> calls_ok (srv_of S) \<and> (\<forall>w. w \<notin> opened S \<longrightarrow> who S w = None)"

lemma who_close: "(\<forall>w. w \<notin> opened S \<longrightarrow> who S w = None) \<Longrightarrow>
    (\<forall>w. w \<notin> opened (close_connection v S) \<longrightarrow> who (close_connection v S) w = None)"
  by (simp add: close_connection_def)

lemma who_sys_step: "(\<forall>w. w \<notin> opened S \<longrightarrow> who S w = None) \<Longrightarrow>
    (\<forall>w. w \<notin> opened (sys_step c b S e) \<longrightarrow> who (sys_step c b S e) w = None)"
  by (cases e) (auto simp: close_connection_def split: sum.split flow.split prod.split)

interpretation sys: machine "sys_step c b" sys_ok for c b
  by unfold_locales (simp add: sys_ok_def keys_sys_step calls_sys_step who_sys_step)

lemma sys_boot_ok: "sys_ok (sys_boot ent t m)"
  by (simp add: sys_ok_def sys_boot_def boot_def db_ok_empty calls_ok_def get_session_mem_def)


text \<open> No sequence of messages, transfers or expiry runs deletes an account or changes its id, password
  hash or public key. \<close>

theorem accounts_persist:
  assumes "get_by_username u (db (srv_of S)) = Some r"
  shows "\<exists>r'. get_by_username u (db (srv_of (run (sys_step checkpw base) S es))) = Some r' \<and>
    u_id r' = u_id r \<and> u_password r' = u_password r \<and> u_public_key r' = u_public_key r"
proof -
  have "keeps_accounts (srv_of S) (srv_of (run (sys_step checkpw base) S es))"
  proof (induction es arbitrary: S)
    case Nil
    then show ?case by (simp add: keeps_accounts_same)
  next
    case (Cons e es)
    show ?case unfolding run_Cons by (rule keeps_accounts_trans [OF accounts_sys_step Cons.IH])
  qed
  then show ?thesis using assms unfolding keeps_accounts_def by blast
qed

definition account_a :: user_row where
  "account_a = \<lparr>u_id = ''1'', u_name = ''a'', u_password = ''h'', u_public_key = None, u_created_at = 0,
     u_last_seen = None\<rparr>"

definition sys_example :: system where
  "sys_example = (sys_boot byte_of 1 0)\<lparr>srv_of := (boot byte_of 1 0)\<lparr>db := empty_db\<lparr>users := [account_a]\<rparr>\<rparr>\<rparr>"

lemma accounts_persist_witness:
  "\<exists>r. get_by_username ''a'' (db (srv_of (run (sys_step (\<lambda>_ _. Inr False) ''/srv'') sys_example
     [Connect 1 None, Recv 1 ''x'', Close 1]))) = Some r \<and> u_password r = ''h''"
proof -
  have "get_by_username ''a'' (db (srv_of sys_example)) = Some account_a"
    by (simp add: sys_example_def get_by_username_def account_a_def)
  from accounts_persist [OF this] obtain r where
    "get_by_username ''a'' (db (srv_of (run (sys_step (\<lambda>_ _. Inr False) ''/srv'') sys_example
       [Connect 1 None, Recv 1 ''x'', Close 1]))) = Some r" "u_password r = u_password account_a" by blast
  then show ?thesis by (simp add: account_a_def del: run_Cons run_Nil)
qed

end
