(* ===== verification/Startup.thy ===== *)
theory Startup
  imports Server_System App_Properties
begin

text \<open>
  How the two programs start (\<^verbatim>\<open>client/main.py\<close>, \<^verbatim>\<open>client/config.py\<close>, \<^verbatim>\<open>server/main.py\<close>, \<^verbatim>\<open>server/config.py\<close> and the
  set-up of the databases): options and environment give the configuration, the configuration the file of
  the database; a process runs on the tables it finds there and leaves them for the next one. The password
  database of the system is the argument \<open>pw\<close> (\<open>None\<close> asks for the own home), whether a port can be bound
  is an argument too. Paths are compared as the strings the code builds.
\<close>

section \<open>Configuration\<close>

type_synonym environ = "(string \<times> string) list"

definition getenv :: "environ \<Rightarrow> string \<Rightarrow> string \<Rightarrow> string" where
  "getenv e k d = (case dget e k of Some v \<Rightarrow> v | None \<Rightarrow> d)"

definition is_slash :: "char \<Rightarrow> bool" where "is_slash c \<longleftrightarrow> c = CHR ''/''"

definition rstrip_slash :: "string \<Rightarrow> string" where
  "rstrip_slash p = rev (dropWhile is_slash (rev p))"

definition expanduser :: "(string option \<Rightarrow> string option) \<Rightarrow> environ \<Rightarrow> string \<Rightarrow> string" where
  "expanduser pw e path =
    (if \<not> starts_with path ''~'' then path
     else
       let name = takeWhile (\<lambda>c. \<not> is_slash c) (tl path); tail = dropWhile (\<lambda>c. \<not> is_slash c) (tl path);
           home = (if name = [] then (case dget e ''HOME'' of Some h \<Rightarrow> Some h | None \<Rightarrow> pw None) else pw (Some name))
       in (case home of
             None \<Rightarrow> path
           | Some h \<Rightarrow> (if rstrip_slash h @ tail = [] then ''/'' else rstrip_slash h @ tail)))"

record client_config =
  cc_url :: string
  cc_tcp_host :: string
  cc_tcp_port :: int
  cc_db :: string
  cc_downloads :: string

definition profile_path :: "string \<Rightarrow> string" where
  "profile_path p = ''~/.chatterminal/profiles/'' @ p @ ''/chatterminal.db''"

definition client_db_path :: "(string option \<Rightarrow> string option) \<Rightarrow> environ \<Rightarrow> string" where
  "client_db_path pw e =
    (let db = getenv e ''CT_CLIENT_DB'' []; profile = getenv e ''CT_CLIENT_PROFILE'' [] in
     expanduser pw e (if db \<noteq> [] then db else if profile \<noteq> [] then profile_path profile
       else ''~/.chatterminal/chatterminal.db''))"

definition client_config :: "(string option \<Rightarrow> string option) \<Rightarrow> environ \<Rightarrow> exn + client_config" where
  "client_config pw e =
    sbnd (int_of_str (getenv e ''CT_TCP_PORT'' ''8766'')) (\<lambda>port.
    Inr \<lparr>cc_url = getenv e ''CT_SERVER'' ''ws://localhost:8765'', cc_tcp_host = getenv e ''CT_TCP_HOST'' ''127.0.0.1'',
      cc_tcp_port = port, cc_db = client_db_path pw e, cc_downloads = expanduser pw e ''~/.chatterminal/downloads''\<rparr>)"

record server_config =
  sc_ws :: "string \<times> int"
  sc_tcp :: "string \<times> int"
  sc_udp :: "string \<times> int"
  sc_db :: string

definition server_config :: "(string option \<Rightarrow> string option) \<Rightarrow> environ \<Rightarrow> exn + server_config" where
  "server_config pw e =
    (let host = getenv e ''CT_HOST'' ''0.0.0.0'' in
     sbnd (int_of_str (getenv e ''CT_PORT'' ''8765'')) (\<lambda>ws.
     sbnd (int_of_str (getenv e ''CT_TCP_PORT'' ''8766'')) (\<lambda>tcp.
     sbnd (int_of_str (getenv e ''CT_UDP_RELAY_PORT'' ''8767'')) (\<lambda>udp.
     Inr \<lparr>sc_ws = (host, ws), sc_tcp = (getenv e ''CT_TCP_HOST'' host, tcp),
       sc_udp = (getenv e ''CT_UDP_RELAY_HOST'' host, udp),
       sc_db = expanduser pw e (getenv e ''CT_DB'' ''~/.chatterminal_server/server.db'')\<rparr>))))"

section \<open>Database files\<close>

text \<open>A file of SQLite may exist without tables: it is created when it is opened.\<close>

record 'd store =
  st_dirs :: "string set"
  st_dbs :: "string \<Rightarrow> 'd option option"

definition dirname :: "string \<Rightarrow> string" where
  "dirname p = (let head = rev (dropWhile (\<lambda>c. \<not> is_slash c) (rev p)) in
     if list_all is_slash head then head else rstrip_slash head)"

lemma length_dirname: "length (dirname p) \<le> length p"
  using length_dropWhile_le [of "\<lambda>c. \<not> is_slash c" "rev p"]
    length_dropWhile_le [of is_slash "dropWhile (\<lambda>c. \<not> is_slash c) (rev p)"]
  by (simp add: dirname_def rstrip_slash_def Let_def)

function with_parents :: "string \<Rightarrow> string list" where
  "with_parents p = (if length (dirname p) < length p then p # with_parents (dirname p) else [p])"
  by pat_completeness auto
termination by (relation "measure length") auto

declare with_parents.simps [simp del]

definition make_dirs :: "string \<Rightarrow> ('d store, unit) prog" where
  "make_dirs p = (\<lambda>S. if p = [] then (Inl FileNotFoundError, S)
     else if \<exists>q \<in> set (with_parents p). st_dbs S q \<noteq> None then (Inl OSError, S)
     else (Inr (), S\<lparr>st_dirs := set (with_parents p) \<union> st_dirs S\<rparr>))"

definition connect_db :: "string \<Rightarrow> ('d store, unit) prog" where
  "connect_db p = (\<lambda>S. if dirname p \<notin> insert [] (st_dirs S) \<or> p \<in> st_dirs S then (Inl OperationalError, S)
     else (Inr (), S\<lparr>st_dbs := (st_dbs S)(p := Some (case st_dbs S p of Some d \<Rightarrow> d | None \<Rightarrow> None))\<rparr>))"

definition put_db :: "string \<Rightarrow> 'd \<Rightarrow> ('d store, unit) prog" where
  "put_db p d = modify (\<lambda>S. S\<lparr>st_dbs := (st_dbs S)(p := Some (Some d))\<rparr>)"

text \<open>\<^verbatim>\<open>CREATE TABLE IF NOT EXISTS\<close> of all tables, and \<^verbatim>\<open>DELETE FROM\<close> all tables, which must exist.\<close>

definition create_tables :: "'d \<Rightarrow> string \<Rightarrow> ('d store, 'd) prog" where
  "create_tables fresh p =
    thn (connect_db p)
    (bnd (gets (\<lambda>S. case st_dbs S p of Some (Some d) \<Rightarrow> d | _ \<Rightarrow> fresh)) (\<lambda>d.
    thn (put_db p d) (ret d)))"

definition clear_tables :: "('d \<Rightarrow> 'd) \<Rightarrow> string \<Rightarrow> ('d store, unit) prog" where
  "clear_tables clear p =
    thn (connect_db p)
    (bnd (gets (\<lambda>S. st_dbs S p)) (\<lambda>t. case t of
       Some (Some d) \<Rightarrow> put_db p (clear d) | _ \<Rightarrow> raise OperationalError))"

section \<open>The client\<close>

record client_args =
  ca_db :: "string option"
  ca_profile :: "string option"
  ca_reset :: bool

definition set_env :: "string \<Rightarrow> string option \<Rightarrow> environ \<Rightarrow> environ" where
  "set_env k v e = (case v of Some (c # cs) \<Rightarrow> dset k (c # cs) e | _ \<Rightarrow> e)"

definition client_env :: "client_args \<Rightarrow> environ \<Rightarrow> environ" where
  "client_env args e = set_env ''CT_CLIENT_PROFILE'' (ca_profile args) (set_env ''CT_CLIENT_DB'' (ca_db args) e)"

definition client_init_db :: "string \<Rightarrow> (client_db store, client_db) prog" where
  "client_init_db p = thn (make_dirs (dirname p)) (create_tables init_client_db p)"

text \<open>The start up to the credentials: \<open>picked\<close> is the answer of the login form, \<open>s0\<close> the new application object.\<close>

definition client_open ::
  "client_args \<Rightarrow> creds option \<Rightarrow> 'e app_scheme \<Rightarrow> client_config \<Rightarrow>
    (client_db store, client_config \<times> creds option \<times> 'e app_scheme) prog" where
  "client_open args picked s0 cfg =
    thn (whenp (ca_reset args) (clear_tables clear_local_data (cc_db cfg)))
    (bnd (client_init_db (cc_db cfg)) (\<lambda>d.
    case initial_creds picked (s0\<lparr>cdb := d\<rparr>) of
      (Inr c, s) \<Rightarrow> ret (cfg, c, s) | (Inl x, s) \<Rightarrow> raise x))"

definition client_main ::
  "(string option \<Rightarrow> string option) \<Rightarrow> client_args \<Rightarrow> environ \<Rightarrow> creds option \<Rightarrow> 'e app_scheme \<Rightarrow>
    (client_db store, client_config \<times> creds option \<times> 'e app_scheme) prog" where
  "client_main pw args e picked s0 = bnd (lift_result (client_config pw (client_env args e))) (client_open args picked s0)"

text \<open>A whole run of the program: what is written to the tables stays in the file.\<close>

definition client_process ::
  "crypto \<Rightarrow> audio_host \<Rightarrow> (string option \<Rightarrow> string option) \<Rightarrow> client_args \<Rightarrow> environ \<Rightarrow> creds option \<Rightarrow>
    auth_round list \<Rightarrow> app_event list \<Rightarrow> 'e app_scheme \<Rightarrow> (client_db store, unit) prog" where
  "client_process C host pw args e picked rounds es s0 =
    bnd (client_main pw args e picked s0) (\<lambda>(cfg, creds, s). case creds of
      None \<Rightarrow> ret ()
    | Some c \<Rightarrow> put_db (cc_db cfg) (cdb (run (app_step C (cc_url cfg) host) s (Session rounds c # es))))"

section \<open>The server\<close>

record services =
  sv_files :: bool
  sv_audio :: bool

text \<open>\<open>binds\<close> tells whether a port can be bound. Only the WebSocket port must be free.\<close>

definition run_server ::
  "(string option \<Rightarrow> string option) \<Rightarrow> environ \<Rightarrow> (string \<times> int \<Rightarrow> bool) \<Rightarrow> server_config \<Rightarrow> (database store, services) prog" where
  "run_server pw e binds cfg =
    thn (make_dirs (dirname (sc_db cfg)))
    (thn (make_dirs (expanduser pw e ''~/.chatterminal_server/files''))
    (thn (create_tables empty_db (sc_db cfg))
    (if \<not> binds (sc_ws cfg) then raise OSError
     else ret \<lparr>sv_files = binds (sc_tcp cfg), sv_audio = binds (sc_udp cfg)\<rparr>)))"

definition server_main ::
  "(string option \<Rightarrow> string option) \<Rightarrow> bool \<Rightarrow> environ \<Rightarrow> (string \<times> int \<Rightarrow> bool) \<Rightarrow> (database store, services option) prog" where
  "server_main pw reset e binds =
    bnd (lift_result (server_config pw e)) (\<lambda>cfg.
    if reset then
      thn (make_dirs (dirname (sc_db cfg))) (thn (clear_tables clear_server_state (sc_db cfg)) (ret None))
    else bnd (run_server pw e binds cfg) (\<lambda>up. ret (Some up)))"

text \<open>The process over its restarts: memory and sockets are lost, the tables and the stored files stay.\<close>

datatype life_event = Live event | Restart "nat \<Rightarrow> byte" nat real

definition sys_restart :: "(nat \<Rightarrow> byte) \<Rightarrow> nat \<Rightarrow> real \<Rightarrow> system \<Rightarrow> system" where
  "sys_restart ent n m S = \<lparr>srv_of = (boot ent (clock (srv_of S) + int n) m)\<lparr>db := db (srv_of S),
     fs_files := fs_files (srv_of S), fs_dirs := fs_dirs (srv_of S)\<rparr>, who = (\<lambda>_. None), opened = {}\<rparr>"

fun life_step :: "(bytes \<Rightarrow> bytes \<Rightarrow> exn + bool) \<Rightarrow> string \<Rightarrow> system \<Rightarrow> life_event \<Rightarrow> system" where
  "life_step checkpw base S (Live e) = sys_step checkpw base S e"
| "life_step checkpw base S (Restart ent n m) = sys_restart ent n m S"

section \<open>The server over its restarts\<close>

lemma sys_restart_ok: "sys_ok S \<Longrightarrow> sys_ok (sys_restart ent n m S)"
  by (simp add: sys_ok_def sys_restart_def boot_def calls_ok_def get_session_mem_def)

interpretation life: machine "life_step c b" sys_ok for c b
proof unfold_locales
  fix S e assume "sys_ok S"
  then show "sys_ok (life_step c b S e)" by (cases e) (simp_all add: sys.inv_step sys_restart_ok)
qed

lemma accounts_life_step: "keeps_accounts (srv_of S) (srv_of (life_step c b S e))"
  by (cases e) (auto simp: accounts_sys_step, simp add: sys_restart_def keeps_accounts_def)

lemma accounts_life: "keeps_accounts (srv_of S) (srv_of (run (life_step c b) S es))"
proof (induction es arbitrary: S)
  case Nil
  then show ?case by (simp add: keeps_accounts_same)
next
  case (Cons e es)
  show ?case unfolding run_Cons by (rule keeps_accounts_trans [OF accounts_life_step Cons.IH])
qed

text \<open> C5: The server survives its restarts: however often the process is stopped and started again, between whatever
  packets, transfers and expiry runs, the invariants of the running server hold at every moment, and an
  account that existed at any time exists ever after with its id, password hash and public key. \<close>

theorem server_over_restarts:
  assumes "get_by_username u (db (srv_of S)) = Some r"
  shows "sys_ok (run (life_step checkpw base) (sys_boot ent t m) es) \<and>
    (\<exists>r'. get_by_username u (db (srv_of (run (life_step checkpw base) S es))) = Some r' \<and>
      u_id r' = u_id r \<and> u_password r' = u_password r \<and> u_public_key r' = u_public_key r)"
proof
  show "sys_ok (run (life_step checkpw base) (sys_boot ent t m) es)" by (rule life.inv_run [OF sys_boot_ok])
  show "\<exists>r'. get_by_username u (db (srv_of (run (life_step checkpw base) S es))) = Some r' \<and>
      u_id r' = u_id r \<and> u_password r' = u_password r \<and> u_public_key r' = u_public_key r"
    using accounts_life [of S checkpw base es] assms unfolding keeps_accounts_def by blast
qed

section \<open>The client over its runs\<close>

text \<open>A program that touches no other file than \<open>p\<close>.\<close>

definition only_db :: "string \<Rightarrow> 'd store \<Rightarrow> 'd store \<Rightarrow> bool" where
  "only_db p S T \<longleftrightarrow> (\<forall>q. q \<noteq> p \<longrightarrow> st_dbs T q = st_dbs S q)"

interpretation only: effect_order "only_db p" for p
  by unfold_locales (auto simp: only_db_def)

lemmas only_intro = only.steps_ret only.steps_raise only.steps_gets only.steps_lift_result only.steps_bnd only.steps_thn

lemma only_primitives: "steps (only_db p) (make_dirs q)" "steps (only_db p) (connect_db p)" "steps (only_db p) (put_db p d)"
  by (simp_all add: steps_def make_dirs_def connect_db_def put_db_def only_db_def)

lemma only_tables: "steps (only_db p) (create_tables fresh p)" "steps (only_db p) (clear_tables clear p)"
  unfolding create_tables_def clear_tables_def
  by (auto intro!: only_intro only_primitives split: option.split)

lemma only_open: "steps (only_db (cc_db cfg)) (client_open args picked s0 cfg)"
  unfolding client_open_def client_init_db_def whenp_def
  by (auto intro!: only_intro only_primitives only_tables split: prod.split sum.split)

lemma client_main_config:
  "client_main pw args e picked s0 S = (Inr (cfg, c, s), T) \<Longrightarrow> client_config pw (client_env args e) = Inr cfg"
  by (auto simp: client_main_def client_open_def prog_simps split: sum.splits prod.splits)

lemma only_client:
  assumes "client_config pw (client_env args e) = Inr cfg"
  shows "only_db (cc_db cfg) S (snd (client_process C host pw args e picked rounds es s0 S))"
proof (cases "client_main pw args e picked s0 S")
  case (Pair r T)
  have st: "only_db (cc_db cfg) S T"
    using only_open [of cfg args picked s0] Pair by (auto simp: client_main_def assms prog_simps elim: stepsD)
  show ?thesis
  proof (cases r)
    case (Inr x)
    obtain cfg' c s where x: "x = (cfg', c, s)" by (cases x)
    then have "cfg' = cfg" using client_main_config Pair Inr assms by fastforce
    moreover have "only_db (cc_db cfg) T (snd (put_db (cc_db cfg) d T))" for d using only_primitives(3) [of "cc_db cfg" d]
      by (simp only: steps_def)
    ultimately show ?thesis
      using st Pair Inr x only.R_trans [OF st] by (cases c) (auto simp: client_process_def prog_simps)
  qed (use st Pair in \<open>simp add: client_process_def prog_simps\<close>)
qed

lemma expand_profile:
  "expanduser pw e (profile_path p) =
    (case (case dget e ''HOME'' of Some h \<Rightarrow> Some h | None \<Rightarrow> pw None) of
       None \<Rightarrow> profile_path p | Some h \<Rightarrow> rstrip_slash h @ tl (profile_path p))"
  by (simp add: expanduser_def profile_path_def is_slash_def Let_def split: option.split)

lemma profile_paths_differ: "p \<noteq> q \<Longrightarrow> expanduser pw e (profile_path p) \<noteq> expanduser pw e (profile_path q)"
  unfolding expand_profile by (auto simp: profile_path_def split: option.split)

lemma expand_home_cong: "dget e ''HOME'' = dget e' ''HOME'' \<Longrightarrow> expanduser pw e p = expanduser pw e' p"
  by (simp only: expanduser_def)

text \<open> Profiles are separate: a client started for one profile, whatever it receives, types and stores in its whole run
  and also when it resets its own data, leaves the database of every other profile as it was. \<close>

theorem profiles_isolated:
  assumes "ca_profile args = Some p" "p \<noteq> []" "ca_db args = None" "getenv e ''CT_CLIENT_DB'' [] = []" "q \<noteq> p"
  shows "st_dbs (snd (client_process C host pw args e picked rounds es s0 S)) (expanduser pw e (profile_path q)) =
    st_dbs S (expanduser pw e (profile_path q))"
proof (cases "client_config pw (client_env args e)")
  case (Inr cfg)
  obtain c cs where p: "p = c # cs" using assms(2) by (cases p) auto
  then have e: "client_env args e = dset ''CT_CLIENT_PROFILE'' p e" using assms(1,3) by (simp add: client_env_def set_env_def)
  then have home: "expanduser pw (client_env args e) x = expanduser pw e x" for x
    by (intro expand_home_cong) simp
  have "cc_db cfg = client_db_path pw (client_env args e)"
    using Inr by (auto simp: client_config_def sbnd_Inr)
  also have "\<dots> = expanduser pw e (profile_path p)"
    using assms(2,4) e home by (simp add: client_db_path_def getenv_def Let_def)
  finally have "cc_db cfg \<noteq> expanduser pw e (profile_path q)"
    using profile_paths_differ [of p q pw e] assms(5) by auto
  then show ?thesis using only_client [OF Inr, of S C host picked rounds es s0] unfolding only_db_def by metis
qed (simp add: client_process_def client_main_def prog_simps)

text \<open>A database whose folder exists: it can be opened again.\<close>

definition has_db :: "string \<Rightarrow> 'd \<Rightarrow> 'd store \<Rightarrow> bool" where
  "has_db p d S \<longleftrightarrow> st_dbs S p = Some (Some d) \<and> p \<notin> set (with_parents (dirname p)) \<union> st_dirs S \<and> dirname p \<noteq> [] \<and>
    set (with_parents (dirname p)) \<subseteq> st_dirs S \<and> (\<forall>q \<in> set (with_parents (dirname p)). st_dbs S q = None)"

lemma has_db_connect: "has_db p d S \<Longrightarrow> connect_db p S = (Inr (), S)"
proof -
  assume h: "has_db p d S"
  have "dirname p \<in> set (with_parents (dirname p))" by (subst with_parents.simps) simp
  then have "connect_db p S = (Inr (), S\<lparr>st_dbs := (st_dbs S)(p := st_dbs S p)\<rparr>)"
    using h by (auto simp: has_db_def connect_db_def)
  then show ?thesis by simp
qed

lemma has_db_create: "has_db p d S \<Longrightarrow> create_tables fresh p S = (Inr d, S)"
  using has_db_connect [of p d S] by (auto simp: create_tables_def put_db_def prog_simps has_db_def fun_upd_idem)

lemma has_db_folder: "has_db p d S \<Longrightarrow> make_dirs (dirname p) S = (Inr (), S)"
  by (auto simp: make_dirs_def has_db_def Un_absorb1)

lemma has_db_dirs: "has_db p d S \<Longrightarrow> \<forall>q \<in> X. st_dbs S q = None \<Longrightarrow> has_db p d (S\<lparr>st_dirs := X \<union> st_dirs S\<rparr>)"
  by (auto simp: has_db_def)

lemma has_db_open: "has_db p d S \<Longrightarrow> client_init_db p S = (Inr d, S)"
  by (simp add: client_init_db_def has_db_folder has_db_create prog_simps)

lemma has_db_clear:
  assumes "has_db p d S"
  shows "clear_tables f p S = (Inr (), S\<lparr>st_dbs := (st_dbs S)(p \<mapsto> Some (f d))\<rparr>)" "has_db p (f d) (S\<lparr>st_dbs := (st_dbs S)(p \<mapsto> Some (f d))\<rparr>)"
  using assms has_db_connect [OF assms] by (auto simp: clear_tables_def put_db_def prog_simps has_db_def)

text \<open>A server keeps the database it finds, and needs neither the port for files nor the one for audio.\<close>

lemma server_starts:
  assumes "server_config pw e = Inr cfg" "has_db (sc_db cfg) d S" "binds (sc_ws cfg)"
    and "expanduser pw e ''~/.chatterminal_server/files'' \<noteq> []"
    and "\<forall>q \<in> set (with_parents (expanduser pw e ''~/.chatterminal_server/files'')). st_dbs S q = None"
  shows "\<exists>T. server_main pw False e binds S = (Inr (Some \<lparr>sv_files = binds (sc_tcp cfg), sv_audio = binds (sc_udp cfg)\<rparr>), T) \<and>
    (\<forall>p. st_dbs T p = st_dbs S p)"
proof -
  let ?X = "set (with_parents (expanduser pw e ''~/.chatterminal_server/files''))"
  have m: "make_dirs (expanduser pw e ''~/.chatterminal_server/files'') S = (Inr (), S\<lparr>st_dirs := ?X \<union> st_dirs S\<rparr>)"
    using assms(4,5) by (auto simp: make_dirs_def)
  have c: "create_tables empty_db (sc_db cfg) (S\<lparr>st_dirs := ?X \<union> st_dirs S\<rparr>) = (Inr d, S\<lparr>st_dirs := ?X \<union> st_dirs S\<rparr>)"
    by (rule has_db_create [OF has_db_dirs [OF assms(2,5)]])
  show ?thesis
    using assms(1,3) by (simp add: server_main_def run_server_def prog_simps has_db_folder [OF assms(2)] m c)
qed

text \<open> What a start finds: on the database an earlier run left, the client goes on as the user whose token is stored
  there, without asking, and asks with the login form when there is no token; started to reset, it empties every table and
  asks, and the old rows are gone from the file. \<close>

theorem start_resumes_account:
  assumes "client_config pw (client_env args e) = Inr cfg" "has_db (cc_db cfg) d S"
  shows "\<exists>creds s T. client_main pw args e picked s0 S = (Inr (cfg, creds, s), T) \<and>
    (if ca_reset args then creds = picked \<and> st_dbs T (cc_db cfg) = Some (Some init_client_db)
     else T = S \<and> cdb s = d \<and>
       (case get_account d of
          Some a \<Rightarrow> (case a_session_token a of
              Some (c # cs) \<Rightarrow> creds = Some (Token (c # cs)) \<and> me s = a_username a
            | _ \<Rightarrow> creds = picked)
        | None \<Rightarrow> creds = picked))"
proof (cases "ca_reset args")
  case True
  have "get_account (clear_local_data d) = None" "clear_local_data d = init_client_db"
    by (simp_all add: get_account_def clear_local_data_def init_client_db_def)
  then show ?thesis
    using True assms(1) has_db_clear [OF assms(2), of clear_local_data] has_db_open [OF has_db_clear(2) [OF assms(2)], of clear_local_data]
    by (auto simp: client_main_def client_open_def prog_simps whenp_def initial_creds_def cq_def)
next
  case False
  then show ?thesis
    using assms(1) has_db_open [OF assms(2)]
    by (auto simp: client_main_def client_open_def prog_simps whenp_def initial_creds_def cq_def split: option.split list.split)
qed

text \<open> Two ways to start do not work. A reset of a client that has never run (its database has no tables) raises, and so
  does a database named without a folder; in both cases before the user interface appears, and whatever else
  is on the disk. \<close>

lemma no_folder:
  assumes "CHR ''/'' \<notin> set p"
  shows "dirname p = []"
proof -
  have "dropWhile (\<lambda>c. \<not> is_slash c) (rev p) = []" using assms by (auto simp: is_slash_def dropWhile_eq_Nil_conv)
  then show ?thesis by (simp add: dirname_def Let_def del: dropWhile_eq_Nil_conv)
qed

theorem start_failures:
  assumes "client_config pw (client_env args e) = Inr cfg"
    and "ca_reset args \<and> st_dbs S (cc_db cfg) \<in> {None, Some None} \<or> \<not> ca_reset args \<and> CHR ''/'' \<notin> set (cc_db cfg)"
  shows "fst (client_process C host pw args e picked rounds es s0 S) =
    Inl (if ca_reset args then OperationalError else FileNotFoundError)"
  using assms(2)
proof (elim disjE conjE)
  assume r: "ca_reset args" "st_dbs S (cc_db cfg) \<in> {None, Some None}"
  then have "fst (clear_tables clear_local_data (cc_db cfg) S) = Inl OperationalError"
    by (auto simp: clear_tables_def connect_db_def prog_simps)
  then show ?thesis
    using r assms(1) by (cases "clear_tables clear_local_data (cc_db cfg) S")
      (simp add: client_process_def client_main_def client_open_def whenp_def prog_simps)
next
  assume r: "\<not> ca_reset args" "CHR ''/'' \<notin> set (cc_db cfg)"
  then show ?thesis
    using assms(1) no_folder [OF r(2)]
    by (simp add: client_process_def client_main_def client_open_def client_init_db_def make_dirs_def whenp_def prog_simps)
qed

section \<open>Witnesses\<close>

definition plain_args :: client_args where "plain_args = \<lparr>ca_db = None, ca_profile = Some ''work'', ca_reset = False\<rparr>"
definition home_env :: environ where "home_env = [(''HOME'', ''/home/ann'')]"
definition no_pw :: "string option \<Rightarrow> string option" where "no_pw _ = None"

definition saved_db :: client_db where
  "saved_db = init_client_db\<lparr>account := [\<lparr>a_id = ''1'', a_username = ''ann'', a_private_key = None, a_public_key = None,
     a_server_url = ''u'', a_session_token = Some ''tok''\<rparr>]\<rparr>"

definition empty_store :: "client_db store" where "empty_store = \<lparr>st_dirs = {''/''}, st_dbs = \<lambda>_. None\<rparr>"

lemma home_config: "\<exists>cfg. client_config no_pw (client_env plain_args home_env) = Inr cfg \<and>
    cc_db cfg = ''/home/ann/.chatterminal/profiles/work/chatterminal.db''"
proof -
  have "int_of_str ''8766'' = Inr 8766" by code_simp
  then show ?thesis
    by (simp add: client_config_def client_env_def plain_args_def set_env_def home_env_def getenv_def client_db_path_def
        expanduser_def profile_path_def starts_with_def rstrip_slash_def is_slash_def)
qed

lemma server_over_restarts_witness:
  "\<exists>r. get_by_username ''a'' (db (srv_of (run (life_step (\<lambda>_ _. Inr False) ''/srv'') sys_example
     [Live (Connect 1 None), Live (Recv 1 ''x''), Restart byte_of 5 0, Live (Connect 2 None)]))) = Some r \<and> u_password r = ''h''"
proof -
  have "get_by_username ''a'' (db (srv_of sys_example)) = Some account_a"
    by (simp add: sys_example_def get_by_username_def account_a_def)
  from server_over_restarts [OF this, THEN conjunct2] obtain r where
    "get_by_username ''a'' (db (srv_of (run (life_step (\<lambda>_ _. Inr False) ''/srv'') sys_example
       [Live (Connect 1 None), Live (Recv 1 ''x''), Restart byte_of 5 0, Live (Connect 2 None)]))) = Some r"
    "u_password r = u_password account_a" by blast
  then show ?thesis by (simp add: account_a_def del: run_Cons run_Nil)
qed

lemma profiles_isolated_witness:
  "st_dbs (snd (client_process toy good_host no_pw plain_args home_env None [] [] (app_boot ''ann'' None) empty_store))
     (expanduser no_pw home_env (profile_path ''play'')) = None"
  by (subst profiles_isolated [where p = "''work''"]) (simp_all add: plain_args_def home_env_def getenv_def empty_store_def)

lemma start_failures_witness:
  "fst (client_process toy good_host no_pw (plain_args\<lparr>ca_reset := True\<rparr>) home_env None [] [] (app_boot ''ann'' None) empty_store) =
     Inl OperationalError"
proof -
  have "client_env (plain_args\<lparr>ca_reset := True\<rparr>) = client_env plain_args" by (rule ext) (simp add: client_env_def)
  then show ?thesis
    using home_config start_failures [of no_pw "plain_args\<lparr>ca_reset := True\<rparr>" home_env _ empty_store toy good_host None "[]" "[]" "app_boot ''ann'' None"]
    by (auto simp: empty_store_def)
qed

lemma start_resumes_account_witness:
  "\<exists>cfg s T. client_main no_pw plain_args home_env None (app_boot [] None)
      \<lparr>st_dirs = set (with_parents ''/home/ann/.chatterminal/profiles/work''),
        st_dbs = [''/home/ann/.chatterminal/profiles/work/chatterminal.db'' \<mapsto> Some saved_db]\<rparr> =
    (Inr (cfg, Some (Token ''tok''), s), T) \<and> me s = ''ann''"
proof -
  let ?p = "''/home/ann/.chatterminal/profiles/work/chatterminal.db''" and ?d = "''/home/ann/.chatterminal/profiles/work''"
  let ?S = "\<lparr>st_dirs = set (with_parents ?d), st_dbs = [?p \<mapsto> Some saved_db]\<rparr>"
  obtain cfg where c: "client_config no_pw (client_env plain_args home_env) = Inr cfg" "cc_db cfg = ?p" using home_config by blast
  have d: "dirname ?p = ?d" by code_simp
  have "?p \<notin> set (with_parents ?d)" by code_simp
  then have "has_db (cc_db cfg) saved_db ?S" by (auto simp: has_db_def c(2) d)
  then show ?thesis
    using start_resumes_account [OF c(1), of saved_db ?S None "app_boot [] None"]
    by (auto simp: plain_args_def saved_db_def get_account_def)
qed

end
