(* ===== verification/Coroutines.thy ===== *)
theory Coroutines
  imports Prelude
begin

text \<open>
  Coroutines of \<^verbatim>\<open>asyncio\<close>: a program that gives way to others wherever it awaits. What runs between two awaits, and
  each statement of the database, is one atomic step. A pool of coroutines on one state is run by a schedule that
  starts coroutines and resumes them one step at a time, in any order. Run alone, a coroutine is a program of
  theory Prelude. Two ways to reason about all schedules: steps within an effect, and obligations that a coroutine
  settles before it ends.
\<close>

section \<open>Coroutines\<close>

datatype (dead 's, 'a) coro = Value 'a | Error exn | Await "'s \<Rightarrow> ('s, 'a) coro \<times> 's"

primrec cbnd :: "('s, 'a) coro \<Rightarrow> ('a \<Rightarrow> ('s, 'b) coro) \<Rightarrow> ('s, 'b) coro" where
  "cbnd (Value a) f = f a"
| "cbnd (Error e) f = Error e"
| "cbnd (Await g) f = Await (\<lambda>s. map_prod (\<lambda>c. cbnd c f) id (g s))"

text \<open>One atomic step; code without an await that goes on with the first step of the rest; pure results.\<close>

definition atom :: "('s, 'a) prog \<Rightarrow> ('s, 'a) coro" where
  "atom m = Await (\<lambda>s. case m s of (Inl e, t) \<Rightarrow> (Error e, t) | (Inr a, t) \<Rightarrow> (Value a, t))"

definition fuse :: "('s, 'a) prog \<Rightarrow> ('a \<Rightarrow> ('s, 'b) coro) \<Rightarrow> ('s, 'b) coro" where
  "fuse m f = Await (\<lambda>s. case m s of
      (Inl e, t) \<Rightarrow> (Error e, t)
    | (Inr a, t) \<Rightarrow> (case f a of Await g \<Rightarrow> g t | c \<Rightarrow> (c, t)))"

definition pure_result :: "exn + 'a \<Rightarrow> ('s, 'a) coro" where
  "pure_result r = (case r of Inl e \<Rightarrow> Error e | Inr a \<Rightarrow> Value a)"

text \<open>A loop.\<close>

primrec co_each :: "('a \<Rightarrow> ('s, unit) coro) \<Rightarrow> 'a list \<Rightarrow> ('s, unit) coro" where
  "co_each f [] = Value ()"
| "co_each f (x # xs) = cbnd (f x) (\<lambda>_. co_each f xs)"

section \<open>Running alone\<close>

lemma bnd_unit [simp]: "bnd (ret a) f = f a" "bnd m ret = m" "bnd (raise e) f = raise e"
  by (auto simp: bnd_def fun_eq_iff split: prod.split sum.split)

primrec alone :: "('s, 'a) coro \<Rightarrow> ('s, 'a) prog" where
  "alone (Value a) = ret a"
| "alone (Error e) = raise e"
| "alone (Await g) = (\<lambda>s. case map_prod alone id (g s) of (r, t) \<Rightarrow> r t)"

named_theorems alone_simps \<comment> \<open>a coroutine run alone as a program\<close>

lemma alone_cbnd [alone_simps]: "alone (cbnd c f) = bnd (alone c) (\<lambda>a. alone (f a))"
proof (induction c)
  case (Await g)
  show ?case
  proof
    fix s
    show "alone (cbnd (Await g) f) s = bnd (alone (Await g)) (\<lambda>a. alone (f a)) s"
      using Await [of "g s" "fst (g s)"] rangeI [of g s] by (cases "g s") (simp add: bnd_def)
  qed
qed (simp_all add: bnd_def fun_eq_iff)

lemma alone_atom [alone_simps]: "alone (atom m) = m"
  by (rule ext) (simp add: atom_def split: prod.split sum.split)

lemma alone_fuse [alone_simps]: "alone (fuse m f) = bnd m (\<lambda>a. alone (f a))"
proof
  fix s
  show "alone (fuse m f) s = bnd m (\<lambda>a. alone (f a)) s"
    by (cases "m s"; cases "fst (m s)"; cases "f (projr (fst (m s)))") (auto simp: fuse_def bnd_def)
qed

lemma alone_pure [alone_simps]: "alone (pure_result r) = lift_result r"
  by (rule ext) (simp add: pure_result_def lift_result_def split: sum.split)

lemmas alone_cases [alone_simps] =
  option.case_distrib [of alone] prod.case_distrib [of alone] if_distrib [of alone]

lemmas case_cong = option.case_cong if_cong prod.case_cong

lemma alone_each [alone_simps]: "alone (co_each f xs) = for_each (\<lambda>x. alone (f x)) xs"
  by (induction xs) (simp_all add: alone_simps thn_def)

text \<open>
  A coroutine with a private part \<open>l\<close> beside the shared state (what a connection has read and written): the private
  part goes along with it from step to step, and an exception is a value of the whole.
\<close>

primrec with_local :: "('s \<times> 'l, 'a) coro \<Rightarrow> 'l \<Rightarrow> ('s, (exn + 'a) \<times> 'l) coro" where
  "with_local (Value a) = (\<lambda>l. Value (Inr a, l))"
| "with_local (Error e) = (\<lambda>l. Value (Inl e, l))"
| "with_local (Await g) = (\<lambda>l. Await (\<lambda>s. case map_prod with_local id (g (s, l)) of (k, (t, l')) \<Rightarrow> (k l', t)))"

lemma alone_with_local: "alone (with_local c l) s = (case alone c (s, l) of (r, (t, l')) \<Rightarrow> (Inr (r, l'), t))"
proof (induction c arbitrary: l s)
  case (Await g)
  obtain d t l' where d: "g (s, l) = (d, (t, l'))" by (metis prod.collapse)
  then show ?case using Await [of "g (s, l)" d l' t] rangeI [of g "(s, l)"] by simp
qed simp_all

lemma cbnd_cbnd: "cbnd (cbnd c f) g = cbnd c (\<lambda>a. cbnd (f a) g)"
proof (induction c)
  case (Await h)
  show ?case
    unfolding cbnd.simps
  proof (rule arg_cong [of _ _ Await], rule ext)
    fix x
    show "map_prod (\<lambda>c. cbnd c g) id (map_prod (\<lambda>c. cbnd c f) id (h x)) = map_prod (\<lambda>c. cbnd c (\<lambda>a. cbnd (f a) g)) id (h x)"
      using Await [of "h x" "fst (h x)"] rangeI [of h x] by (cases "h x") simp
  qed
qed simp_all

section \<open>Steps within an effect\<close>

primrec allowed :: "('s \<Rightarrow> 's \<Rightarrow> bool) \<Rightarrow> ('s, 'a) coro \<Rightarrow> bool" where
  "allowed R (Value a) = True"
| "allowed R (Error e) = True"
| "allowed R (Await g) = (\<forall>s. R s (snd (g s)) \<and> fst (map_prod (allowed R) id (g s)))"

lemma allowed_Await: "allowed R (Await g) \<longleftrightarrow> (\<forall>s. R s (snd (g s)) \<and> allowed R (fst (g s)))"
  by (simp add: map_prod_def split_def)

lemma allowed_atom: "steps R m \<Longrightarrow> allowed R (atom m)"
  by (auto simp: atom_def allowed_Await steps_def split: prod.split sum.split)
    (metis snd_conv)+

lemma allowed_cbnd: "allowed R c \<Longrightarrow> (\<And>a. allowed R (f a)) \<Longrightarrow> allowed R (cbnd c f)"
proof (induction c)
  case (Await g)
  show ?case
    unfolding cbnd.simps allowed_Await
  proof (intro allI conjI)
    fix s
    show "R s (snd (map_prod (\<lambda>c. cbnd c f) id (g s)))" using Await.prems(1) by (simp add: allowed_Await)
    have "allowed R (fst (g s))" using Await.prems(1) by (simp only: allowed_Await)
    then show "allowed R (fst (map_prod (\<lambda>c. cbnd c f) id (g s)))"
      using Await.IH [of "g s" "fst (g s)"] Await.prems(2) rangeI [of g s] by (cases "g s") simp
  qed
qed simp_all

lemma allowed_with_local: "allowed (\<lambda>a b. R (fst a) (fst b)) c \<Longrightarrow> allowed R (with_local c l)"
proof (induction c arbitrary: l)
  case (Await g)
  have "R s (snd (case map_prod with_local id (g (s, l)) of (k, (t, l')) \<Rightarrow> (k l', t))) \<and>
      allowed R (fst (case map_prod with_local id (g (s, l)) of (k, (t, l')) \<Rightarrow> (k l', t)))" for s
  proof -
    obtain d t l' where d: "g (s, l) = (d, (t, l'))" by (metis prod.collapse)
    have "R s t" "allowed (\<lambda>a b. R (fst a) (fst b)) d"
      using Await.prems d unfolding allowed_Await by (metis fst_conv snd_conv)+
    then show ?thesis using d Await.IH [of "g (s, l)" d l'] rangeI [of g "(s, l)"] by simp
  qed
  then show ?case unfolding with_local.simps allowed_Await by blast
qed simp_all

lemma allowed_pure: "allowed R (pure_result r)"
  by (simp add: pure_result_def split: sum.split)

named_theorems co_intro \<comment> \<open>coroutines made of allowed steps\<close>

lemma allowed_each [co_intro]: "(\<And>x. allowed R (f x)) \<Longrightarrow> allowed R (co_each f xs)"
  by (induction xs) (auto intro: allowed_cbnd)

lemma allowed_branch [co_intro]:
  "allowed R (Value a)"
  "allowed R c \<Longrightarrow> (\<And>x. allowed R (f x)) \<Longrightarrow> allowed R (case x of None \<Rightarrow> c | Some x \<Rightarrow> f x)"
  "(\<And>x y. allowed R (g x y)) \<Longrightarrow> allowed R (case p of (x, y) \<Rightarrow> g x y)"
  "allowed R c \<Longrightarrow> allowed R d \<Longrightarrow> allowed R (if b then c else d)"
  by (auto split: option.split prod.split)

lemmas [co_intro] = allowed_cbnd allowed_pure allowed_atom

context effect_order
begin

lemma allowed_fuse:
  assumes "steps R m" "\<And>a. allowed R (f a)"
  shows "allowed R (fuse m f)"
proof -
  have "R s (snd (case m s of (Inl e, t) \<Rightarrow> (Error e, t) | (Inr a, t) \<Rightarrow> (case f a of Await g \<Rightarrow> g t | c \<Rightarrow> (c, t)))) \<and>
      allowed R (fst (case m s of (Inl e, t) \<Rightarrow> (Error e, t) | (Inr a, t) \<Rightarrow> (case f a of Await g \<Rightarrow> g t | c \<Rightarrow> (c, t))))" for s
  proof (cases "m s")
    case (Pair r t)
    have st: "R s t" using assms(1) Pair by (rule stepsD)
    show ?thesis
    proof (cases r)
      case (Inr a)
      show ?thesis
      proof (cases "f a")
        case (Await g)
        then have "R t (snd (g t)) \<and> allowed R (fst (g t))" using assms(2) [of a] by (simp only: allowed_Await)
        then show ?thesis using Pair Inr Await st by (auto intro: R_trans)
      qed (use Pair Inr st in simp_all)
    qed (use Pair st in simp)
  qed
  then show ?thesis unfolding fuse_def allowed_Await by blast
qed

end

section \<open>Interleaving\<close>

type_synonym ('s, 'a) pool = "('s, 'a) coro list \<times> 's"

datatype ('s, 'a) turn = Spawn "('s, 'a) coro" | Resume nat

fun turn_step :: "('s, 'a) pool \<Rightarrow> ('s, 'a) turn \<Rightarrow> ('s, 'a) pool" where
  "turn_step (cs, s) (Spawn c) = (cs @ [c], s)"
| "turn_step (cs, s) (Resume i) =
    (if i < length cs then
       (case cs ! i of Await g \<Rightarrow> (case g s of (c, t) \<Rightarrow> (cs[i := c], t)) | _ \<Rightarrow> (cs, s))
     else (cs, s))"

text \<open>A coroutine that is resumed until it ends, with nothing in between, has run alone.\<close>

lemma resume_alone:
  "\<exists>n r. run turn_step (cs @ c # ds, s) (replicate n (Resume (length cs))) = (cs @ r # ds, snd (alone c s)) \<and>
    r = (case fst (alone c s) of Inl e \<Rightarrow> Error e | Inr a \<Rightarrow> Value a)"
proof (induction c arbitrary: s)
  case (Value a)
  show ?case by (rule exI [of _ 0]) simp
next
  case (Error e)
  show ?case by (rule exI [of _ 0]) simp
next
  case (Await g)
  obtain d t where d: "g s = (d, t)" by (cases "g s")
  obtain n r where n: "run turn_step (cs @ d # ds, t) (replicate n (Resume (length cs))) = (cs @ r # ds, snd (alone d t))"
    "r = (case fst (alone d t) of Inl e \<Rightarrow> Error e | Inr a \<Rightarrow> Value a)"
    using Await [of "g s" d t] d rangeI [of g s] by auto
  show ?case
    by (rule exI [of _ "Suc n"]) (use n d in \<open>simp add: nth_append\<close>)
qed

text \<open>One step of a coroutine that stands at an atom.\<close>

lemma go_atom:
  assumes "i < length cs" "cs ! i = cbnd (atom m) f"
  shows "turn_step (cs, s) (Resume i) = (case m s of (Inl e, t) \<Rightarrow> (cs[i := Error e], t) | (Inr a, t) \<Rightarrow> (cs[i := f a], t))"
  using assms by (simp add: atom_def split: prod.split sum.split)

lemma go_atoms:
  "turn_step (cbnd (atom m) f # cs, s) (Resume 0) = (case m s of (Inl e, t) \<Rightarrow> (Error e # cs, t) | (Inr a, t) \<Rightarrow> (f a # cs, t))"
  "turn_step (c # cbnd (atom m) f # cs, s) (Resume (Suc 0)) =
    (case m s of (Inl e, t) \<Rightarrow> (c # Error e # cs, t) | (Inr a, t) \<Rightarrow> (c # f a # cs, t))"
  using go_atom [of 0 "cbnd (atom m) f # cs" m f s] go_atom [of 1 "c # cbnd (atom m) f # cs" m f s]
  by (simp_all del: turn_step.simps cong: prod.case_cong sum.case_cong)

context effect_order
begin

text \<open>Coroutines of allowed steps stay within the effect under every schedule.\<close>

lemma turn_effect:
  assumes "\<forall>c \<in> set cs. allowed R c" "\<And>c. e = Spawn c \<Longrightarrow> allowed R c" "turn_step (cs, s) e = (ds, t)"
  shows "R s t \<and> (\<forall>c \<in> set ds. allowed R c)"
proof (cases e)
  case (Resume i)
  show ?thesis
  proof (cases "i < length cs")
    case True
    show ?thesis
    proof (cases "cs ! i")
      case (Await g)
      have "allowed R (Await g)" using assms(1) True Await nth_mem by metis
      then have "R s (snd (g s))" "allowed R (fst (g s))" by (simp_all only: allowed_Await)
      moreover have "ds = cs[i := fst (g s)]" "t = snd (g s)"
        using assms(3) Resume True Await by (simp_all add: split_def)
      ultimately show ?thesis using assms(1) by (auto dest!: set_update_subset_insert [THEN subsetD])
    qed (use assms Resume True in \<open>auto simp: R_refl\<close>)
  qed (use assms Resume in \<open>auto simp: R_refl\<close>)
qed (use assms in \<open>auto simp: R_refl\<close>)

lemma run_effect:
  assumes "\<forall>c \<in> set cs. allowed R c" "\<forall>c. Spawn c \<in> set es \<longrightarrow> allowed R c"
  shows "R s (snd (run turn_step (cs, s) es))"
  using assms
proof (induction es arbitrary: cs s)
  case (Cons e es)
  obtain ds t where t: "turn_step (cs, s) e = (ds, t)" by fastforce
  then have "R s t \<and> (\<forall>c \<in> set ds. allowed R c)" using Cons.prems by (intro turn_effect) auto
  then show ?case using Cons.IH [of ds t] Cons.prems(2) t by (auto intro: R_trans)
qed (simp add: R_refl)

end

section \<open>Obligations\<close>

text \<open>
  \<open>D s\<close> is what is still to be done in state \<open>s\<close>. A coroutine that owes \<open>O\<close> never leaves more to be done
  than it owes itself, and has settled everything when it ends, also when it ends with an exception. In a pool of such
  coroutines nothing is left to be done once all of them have ended, whatever the schedule.
\<close>

primrec settles :: "('s \<Rightarrow> 'o set) \<Rightarrow> ('s, 'a) coro \<Rightarrow> 'o set \<Rightarrow> bool" where
  "settles D (Value a) = (\<lambda>ob. ob = {})"
| "settles D (Error e) = (\<lambda>ob. ob = {})"
| "settles D (Await g) = (\<lambda>ob. \<forall>s. \<exists>ob'. fst (map_prod (settles D) id (g s)) ob' \<and> D (snd (g s)) \<subseteq> (D s - ob) \<union> ob')"

lemma settles_Await:
  "settles D (Await g) ob \<longleftrightarrow> (\<forall>s. \<exists>ob'. settles D (fst (g s)) ob' \<and> D (snd (g s)) \<subseteq> (D s - ob) \<union> ob')"
  by (simp add: map_prod_def split_def)

lemma allowed_settles: "allowed (\<lambda>s t. D t \<subseteq> D s) c \<Longrightarrow> settles D c {}"
proof (induction c)
  case (Await g)
  show ?case unfolding settles_Await
  proof
    fix s
    have "D (snd (g s)) \<subseteq> D s \<and> allowed (\<lambda>s t. D t \<subseteq> D s) (fst (g s))"
      using Await.prems unfolding allowed_Await by blast
    then show "\<exists>ob'. settles D (fst (g s)) ob' \<and> D (snd (g s)) \<subseteq> (D s - {}) \<union> ob'"
      using Await.IH [of "g s" "fst (g s)"] rangeI [of g s] by (cases "g s") auto
  qed
qed simp_all

lemma settles_cbnd: "settles D c ob \<Longrightarrow> (\<And>a. settles D (f a) {}) \<Longrightarrow> settles D (cbnd c f) ob"
proof (induction c arbitrary: ob)
  case (Await g)
  show ?case unfolding cbnd.simps settles_Await
  proof
    fix s
    obtain ob' where "settles D (fst (g s)) ob'" "D (snd (g s)) \<subseteq> (D s - ob) \<union> ob'"
      using Await.prems(1) unfolding settles_Await by blast
    then show "\<exists>ob'. settles D (fst (map_prod (\<lambda>c. cbnd c f) id (g s))) ob' \<and>
        D (snd (map_prod (\<lambda>c. cbnd c f) id (g s))) \<subseteq> (D s - ob) \<union> ob'"
      using Await.IH [of "g s" "fst (g s)" ob'] Await.prems(2) rangeI [of g s] by (cases "g s") auto
  qed
qed simp_all

lemma settles_atom:
  assumes "\<And>s a t. m s = (Inr a, t) \<Longrightarrow> D t \<subseteq> (D s - ob) \<union> owed a \<and> settles D (f a) (owed a)"
    and "\<And>s e t. m s = (Inl e, t) \<Longrightarrow> D t \<subseteq> D s - ob"
  shows "settles D (cbnd (atom m) f) ob"
  unfolding atom_def cbnd.simps settles_Await
proof
  fix s
  show "\<exists>ob'. settles D (fst (map_prod (\<lambda>c. cbnd c f) id (case m s of (Inl e, t) \<Rightarrow> (Error e, t) | (Inr a, t) \<Rightarrow> (Value a, t)))) ob' \<and>
      D (snd (map_prod (\<lambda>c. cbnd c f) id (case m s of (Inl e, t) \<Rightarrow> (Error e, t) | (Inr a, t) \<Rightarrow> (Value a, t)))) \<subseteq> (D s - ob) \<union> ob'"
  proof (cases "m s")
    case (Pair r t)
    show ?thesis
    proof (cases r)
      case (Inl e)
      then show ?thesis using Pair assms(2) [of s e t] by simp
    next
      case (Inr a)
      then show ?thesis using Pair assms(1) [of s a t] by auto
    qed
  qed
qed

definition covered :: "('s \<Rightarrow> 'o set) \<Rightarrow> ('s, 'a) pool \<Rightarrow> bool" where
  "covered D p \<longleftrightarrow> (\<exists>obs. list_all2 (settles D) (fst p) obs \<and> D (snd p) \<subseteq> \<Union>(set obs))"

lemma turn_covered:
  assumes "covered D (cs, s)" "\<And>c. e = Spawn c \<Longrightarrow> settles D c {}"
  shows "covered D (turn_step (cs, s) e)"
proof -
  obtain obs where o: "list_all2 (settles D) cs obs" "D s \<subseteq> \<Union>(set obs)"
    using assms(1) by (auto simp: covered_def)
  show ?thesis
  proof (cases e)
    case (Spawn c)
    then have "list_all2 (settles D) (cs @ [c]) (obs @ [{}])" using o(1) assms(2) by (simp add: list_all2_appendI)
    then show ?thesis unfolding covered_def using o(2) Spawn by (intro exI [of _ "obs @ [{}]"]) auto
  next
    case (Resume i)
    show ?thesis
    proof (cases "i < length cs \<and> (\<exists>g. cs ! i = Await g)")
      case True
      then obtain g where g: "i < length cs" "cs ! i = Await g" by blast
      then have i: "i < length obs" "settles D (Await g) (obs ! i)"
        using o(1) list_all2_lengthD [OF o(1)] list_all2_nthD [OF o(1) g(1)] by simp_all
      then obtain ob' where ob': "settles D (fst (g s)) ob'" "D (snd (g s)) \<subseteq> (D s - obs ! i) \<union> ob'"
        unfolding settles_Await by blast
      have "list_all2 (settles D) (cs[i := fst (g s)]) (obs[i := ob'])"
        using o(1) ob'(1) by (rule list_all2_update_cong)
      moreover have "D (snd (g s)) \<subseteq> \<Union>(set (obs[i := ob']))"
      proof
        fix x assume "x \<in> D (snd (g s))"
        then consider "x \<in> ob'" | "x \<in> D s" "x \<notin> obs ! i" using ob'(2) by blast
        then show "x \<in> \<Union>(set (obs[i := ob']))"
        proof cases
          case 1
          then show ?thesis using set_update_memI [OF i(1)] by blast
        next
          case 2
          then obtain ob where "ob \<in> set obs" "x \<in> ob" using o(2) by blast
          then obtain j where j: "j < length obs" "x \<in> obs ! j" by (auto simp: in_set_conv_nth)
          then have "i \<noteq> j" using 2 by blast
          then have "obs[i := ob'] ! j = obs ! j" "j < length (obs[i := ob'])" using j by simp_all
          then show ?thesis using j(2) nth_mem [of j "obs[i := ob']"] by auto
        qed
      qed
      ultimately show ?thesis using Resume g by (auto simp: covered_def split_def)
    next
      case False
      then have "turn_step (cs, s) e = (cs, s)" using Resume by (auto split: coro.split)
      then show ?thesis using assms(1) by simp
    qed
  qed
qed

lemma run_covered:
  "covered D p \<Longrightarrow> \<forall>c. Spawn c \<in> set es \<longrightarrow> settles D c {} \<Longrightarrow> covered D (run turn_step p es)"
proof (induction es arbitrary: p)
  case (Cons e es)
  obtain cs s where p: "p = (cs, s)" by fastforce
  have "covered D (turn_step p e)" unfolding p by (rule turn_covered) (use Cons.prems p in auto)
  then show ?case using Cons.IH Cons.prems(2) by simp
qed simp

definition ended :: "('s, 'a) coro \<Rightarrow> bool" where
  "ended c = (case c of Await g \<Rightarrow> False | _ \<Rightarrow> True)"

lemma covered_ended: "covered D (cs, s) \<Longrightarrow> \<forall>c \<in> set cs. ended c \<Longrightarrow> D s = {}"
proof -
  have "list_all2 (settles D) cs obs \<Longrightarrow> \<forall>c \<in> set cs. ended c \<Longrightarrow> \<Union>(set obs) = {}" for obs
    by (induction cs obs rule: list_all2_induct) (auto simp: ended_def split: coro.splits)
  then show "covered D (cs, s) \<Longrightarrow> \<forall>c \<in> set cs. ended c \<Longrightarrow> D s = {}" by (fastforce simp: covered_def)
qed

section \<open>Rely and guarantee\<close>

text \<open>
  A step may be allowed only because of what the coroutine did before. \<open>G\<close> is at once what every step of a pool
  guarantees and what a coroutine relies on between its own steps; \<open>P\<close> is what the coroutine knows of the state, and
  no step of the others takes it away.
\<close>

definition lasting :: "('s \<Rightarrow> 's \<Rightarrow> bool) \<Rightarrow> ('s \<Rightarrow> bool) \<Rightarrow> bool" where
  "lasting G P \<longleftrightarrow> (\<forall>s t. P s \<longrightarrow> G s t \<longrightarrow> P t)"

primrec guarded :: "('s \<Rightarrow> 's \<Rightarrow> bool) \<Rightarrow> ('s, 'a) coro \<Rightarrow> ('s \<Rightarrow> bool) \<Rightarrow> bool" where
  "guarded G (Value a) = (\<lambda>P. True)"
| "guarded G (Error e) = (\<lambda>P. True)"
| "guarded G (Await g) = (\<lambda>P. \<forall>s. P s \<longrightarrow> G s (snd (g s)) \<and>
     (\<exists>Q. lasting G Q \<and> Q (snd (g s)) \<and> fst (map_prod (guarded G) id (g s)) Q))"

lemma guarded_Await: "guarded G (Await g) P \<longleftrightarrow>
    (\<forall>s. P s \<longrightarrow> G s (snd (g s)) \<and> (\<exists>Q. lasting G Q \<and> Q (snd (g s)) \<and> guarded G (fst (g s)) Q))"
  by (simp add: map_prod_def split_def)

lemma lasting_True [simp]: "lasting G (\<lambda>_. True)" by (simp add: lasting_def)

lemma guarded_weaken: "guarded G c P \<Longrightarrow> (\<And>s. Q s \<Longrightarrow> P s) \<Longrightarrow> guarded G c Q"
  by (cases c) (simp_all add: guarded_Await del: guarded.simps(3))

lemma guarded_allowed: "allowed G c \<Longrightarrow> guarded G c P"
proof (induction c arbitrary: P)
  case (Await g)
  have "G s (snd (g s)) \<and> guarded G (fst (g s)) (\<lambda>_. True)" for s
  proof -
    have "G s (snd (g s))" "allowed G (fst (g s))" using Await.prems unfolding allowed_Await by blast+
    then show ?thesis using Await.IH [of "g s" "fst (g s)"] rangeI [of g s] by (cases "g s") simp
  qed
  then show ?case unfolding guarded_Await by (intro allI impI conjI exI [of _ "\<lambda>_. True"]) auto
qed simp_all

lemma guarded_cbnd: "guarded G c P \<Longrightarrow> (\<And>a. guarded G (f a) (\<lambda>_. True)) \<Longrightarrow> guarded G (cbnd c f) P"
proof (induction c arbitrary: P)
  case (Await g)
  show ?case unfolding cbnd.simps guarded_Await
  proof (intro allI impI)
    fix s assume "P s"
    then obtain Q where Q: "G s (snd (g s))" "lasting G Q" "Q (snd (g s))" "guarded G (fst (g s)) Q"
      using Await.prems(1) unfolding guarded_Await by blast
    then have "guarded G (cbnd (fst (g s)) f) Q"
      using Await.IH [of "g s" "fst (g s)" Q] Await.prems(2) rangeI [of g s] by (cases "g s") simp
    then show "G s (snd (map_prod (\<lambda>c. cbnd c f) id (g s))) \<and>
        (\<exists>Q. lasting G Q \<and> Q (snd (map_prod (\<lambda>c. cbnd c f) id (g s))) \<and>
             guarded G (fst (map_prod (\<lambda>c. cbnd c f) id (g s))) Q)"
      using Q by auto
  qed
qed (auto intro: guarded_weaken)

text \<open>What an atom establishes for the rest.\<close>

lemma guarded_atom:
  assumes "\<And>s. P s \<Longrightarrow> G s (snd (m s))"
    and "\<And>s a t. P s \<Longrightarrow> m s = (Inr a, t) \<Longrightarrow> Q a t"
    and "\<And>a. lasting G (Q a)" "\<And>a. guarded G (f a) (Q a)"
  shows "guarded G (cbnd (atom m) f) P"
  unfolding atom_def cbnd.simps guarded_Await
proof (intro allI impI)
  fix s assume P: "P s"
  show "G s (snd (map_prod (\<lambda>c. cbnd c f) id (case m s of (Inl e, t) \<Rightarrow> (Error e, t) | (Inr a, t) \<Rightarrow> (Value a, t)))) \<and>
    (\<exists>Q. lasting G Q \<and>
       Q (snd (map_prod (\<lambda>c. cbnd c f) id (case m s of (Inl e, t) \<Rightarrow> (Error e, t) | (Inr a, t) \<Rightarrow> (Value a, t)))) \<and>
       guarded G (fst (map_prod (\<lambda>c. cbnd c f) id (case m s of (Inl e, t) \<Rightarrow> (Error e, t) | (Inr a, t) \<Rightarrow> (Value a, t)))) Q)"
  proof (cases "m s")
    case (Pair r t)
    show ?thesis
    proof (cases r)
      case (Inl e)
      then show ?thesis using Pair assms(1) [OF P] by (auto intro: exI [of _ "\<lambda>_. True"])
    next
      case (Inr a)
      then show ?thesis using Pair assms(1) [OF P] assms(2) [OF P, of a t] assms(3,4) by auto
    qed
  qed
qed

lemma guarded_branch:
  "guarded G (Value a) P"
  "guarded G c P \<Longrightarrow> (\<And>x. guarded G (f x) P) \<Longrightarrow> guarded G (case y of None \<Rightarrow> c | Some x \<Rightarrow> f x) P"
  "(\<And>x y. guarded G (g x y) P) \<Longrightarrow> guarded G (case p of (x, y) \<Rightarrow> g x y) P"
  "guarded G c P \<Longrightarrow> guarded G d P \<Longrightarrow> guarded G (if b then c else d) P"
  by (auto split: option.split prod.split)

lemma guarded_with_local:
  "guarded (\<lambda>a b. G (fst a) (fst b)) c P \<Longrightarrow> guarded G (with_local c l) (\<lambda>s. P (s, l))"
proof (induction c arbitrary: P l)
  case (Await g)
  show ?case unfolding with_local.simps guarded_Await
  proof (intro allI impI)
    fix s assume P: "P (s, l)"
    obtain d t l' where d: "g (s, l) = (d, (t, l'))" by (metis prod.collapse)
    obtain Q where Q: "G s t" "lasting (\<lambda>a b. G (fst a) (fst b)) Q" "Q (t, l')" "guarded (\<lambda>a b. G (fst a) (fst b)) d Q"
      using Await.prems P d unfolding guarded_Await by (metis fst_conv snd_conv)
    have "lasting G (\<lambda>s. Q (s, l'))" using Q(2) unfolding lasting_def by (metis fst_conv)
    moreover have "guarded G (with_local d l') (\<lambda>s. Q (s, l'))"
      using Await.IH [of "g (s, l)" d Q l'] d Q(4) rangeI [of g "(s, l)"] by simp
    ultimately show "G s (snd (case map_prod with_local id (g (s, l)) of (k, (t, l')) \<Rightarrow> (k l', t))) \<and>
        (\<exists>Q. lasting G Q \<and> Q (snd (case map_prod with_local id (g (s, l)) of (k, (t, l')) \<Rightarrow> (k l', t))) \<and>
             guarded G (fst (case map_prod with_local id (g (s, l)) of (k, (t, l')) \<Rightarrow> (k l', t))) Q)"
      using d Q by auto
  qed
qed simp_all

context effect_order
begin

lemma guarded_fuse:
  assumes "steps R m" "\<And>a. guarded R (f a) (\<lambda>_. True)"
  shows "guarded R (fuse m f) P"
  unfolding fuse_def guarded_Await
proof (intro allI impI)
  fix s
  show "R s (snd (case m s of (Inl e, t) \<Rightarrow> (Error e, t) | (Inr a, t) \<Rightarrow> (case f a of Await g \<Rightarrow> g t | c \<Rightarrow> (c, t)))) \<and>
    (\<exists>Q. lasting R Q \<and>
       Q (snd (case m s of (Inl e, t) \<Rightarrow> (Error e, t) | (Inr a, t) \<Rightarrow> (case f a of Await g \<Rightarrow> g t | c \<Rightarrow> (c, t)))) \<and>
       guarded R (fst (case m s of (Inl e, t) \<Rightarrow> (Error e, t) | (Inr a, t) \<Rightarrow> (case f a of Await g \<Rightarrow> g t | c \<Rightarrow> (c, t)))) Q)"
  proof (cases "m s")
    case (Pair r t)
    have st: "R s t" using assms(1) Pair by (rule stepsD)
    show ?thesis
    proof (cases r)
      case (Inr a)
      show ?thesis
      proof (cases "f a")
        case (Await g)
        then obtain Q where "R t (snd (g t))" "lasting R Q" "Q (snd (g t))" "guarded R (fst (g t)) Q"
          using assms(2) [of a] by (simp only: guarded_Await) blast
        then show ?thesis using Pair Inr Await st by (auto intro: R_trans)
      qed (use Pair Inr st in \<open>auto intro: exI [of _ "\<lambda>_. True"]\<close>)
    qed (use Pair st in \<open>auto intro: exI [of _ "\<lambda>_. True"]\<close>)
  qed
qed

text \<open>What the coroutines of a pool know.\<close>

definition knows :: "('s, 'a) pool \<Rightarrow> ('s \<Rightarrow> bool) list \<Rightarrow> bool" where
  "knows p Ps \<longleftrightarrow> list_all2 (guarded R) (fst p) Ps \<and> (\<forall>P \<in> set Ps. lasting R P \<and> P (snd p))"

lemma turn_guarded:
  assumes "knows (cs, s) Ps" "\<And>c. e = Spawn c \<Longrightarrow> guarded R c (\<lambda>_. True)" "turn_step (cs, s) e = (ds, t)"
  shows "R s t \<and> (\<exists>Qs. knows (ds, t) Qs)"
proof (cases e)
  case (Spawn c)
  then have "knows (ds, t) (Ps @ [\<lambda>_. True])"
    using assms by (auto simp: knows_def intro: list_all2_appendI)
  then show ?thesis using Spawn assms(3) R_refl by auto
next
  case (Resume i)
  show ?thesis
  proof (cases "i < length cs \<and> (\<exists>g. cs ! i = Await g)")
    case True
    then obtain g where g: "i < length cs" "cs ! i = Await g" by blast
    have l: "length Ps = length cs" using assms(1) by (auto simp: knows_def dest: list_all2_lengthD)
    have P: "guarded R (Await g) (Ps ! i)" "(Ps ! i) s"
      using assms(1) g l list_all2_nthD [of "guarded R" cs Ps i] nth_mem [of i Ps] by (auto simp: knows_def)
    then obtain Q where Q: "R s (snd (g s))" "lasting R Q" "Q (snd (g s))" "guarded R (fst (g s)) Q"
      unfolding guarded_Await by blast
    have dt: "ds = cs[i := fst (g s)]" "t = snd (g s)" using assms(3) Resume g by (simp_all add: split_def)
    have "list_all2 (guarded R) ds (Ps[i := Q])"
      using assms(1) Q(4) by (auto simp: knows_def dt intro: list_all2_update_cong)
    moreover have "lasting R P' \<and> P' t" if "P' \<in> set (Ps[i := Q])" for P'
    proof (cases "P' = Q")
      case False
      then have "P' \<in> set Ps" using that set_update_subset_insert [of Ps i Q] by blast
      then have "lasting R P'" "P' s" using assms(1) unfolding knows_def snd_conv by blast+
      then show ?thesis using Q(1) dt(2) unfolding lasting_def by blast
    qed (use Q dt(2) in simp)
    ultimately show ?thesis using Q(1) dt(2) by (auto simp: knows_def)
  next
    case False
    then have "turn_step (cs, s) e = (cs, s)" using Resume by (auto split: coro.split)
    then show ?thesis using assms R_refl by auto
  qed
qed

lemma run_guarded:
  assumes "\<forall>c. Spawn c \<in> set es \<longrightarrow> guarded R c (\<lambda>_. True)" "knows p Ps"
  shows "R (snd p) (snd (run turn_step p es))"
  using assms
proof (induction es arbitrary: p Ps)
  case (Cons e es)
  obtain cs s where p: "p = (cs, s)" by fastforce
  obtain ds t where t: "turn_step (cs, s) e = (ds, t)" by fastforce
  have "guarded R c (\<lambda>_. True)" if "e = Spawn c" for c using Cons.prems(1) that by simp
  then have "R s t \<and> (\<exists>Qs. knows (ds, t) Qs)" using turn_guarded [OF _ _ t] Cons.prems(2) unfolding p by blast
  then obtain Qs where "R s t" "knows (ds, t) Qs" by blast
  then show ?case using Cons.IH [of "(ds, t)" Qs] Cons.prems(1) p t by (auto intro: R_trans)
qed (simp add: R_refl)

end

end
