(* ===== verification/Call_Tasks.thy ===== *)
theory Call_Tasks
  imports Coroutines Server_System
begin

text \<open>
  The operations of the call manager as coroutines (\<^verbatim>\<open>server/call_manager.py\<close> and the branches of
  \<^verbatim>\<open>server/ws_server.py\<close> that call it): the session table in memory is changed first, and while the statement of the
  database runs other handlers see a session that has no row yet, or a row that is not up to date. A row that is still
  to be written is an obligation of the handler that wrote the session.
\<close>

section \<open>Steps\<close>

text \<open>The code before the first await of an invitation, an acceptance and a hang-up.\<close>

definition ring :: "ws \<Rightarrow> json \<Rightarrow> string \<Rightarrow> string \<Rightarrow> string \<Rightarrow> packet \<Rightarrow> (call_info \<times> int) option server_prog" where
  "ring w session_id sid caller callee pkt =
    bnd (own_ip w) (\<lambda>ip.
    bnd (router_get callee) (\<lambda>r. case r of
      None \<Rightarrow> thn (send_packet w CALL_DECLINE [(''session_id'', session_id), (''reason'', JStr ''unavailable'')]) (ret None)
    | Some _ \<Rightarrow>
        let info = \<lparr>ci_ip = ip, ci_udp_port = jget pkt ''local_port'', ci_pubkey = jget pkt ''ephemeral_pubkey''\<rparr> in
        bnd now (\<lambda>ts.
        thn (modify (\<lambda>s. s\<lparr>calls := put_session sid \<lparr>cs_id = sid, cs_caller = caller, cs_callee = callee,
           cs_status = ''pending'', cs_caller_info = info, cs_callee_info = None, cs_created_at = ts\<rparr> (calls s)\<rparr>))
        (ret (Some (info, ts))))))"

definition pick_up :: "ws \<Rightarrow> string \<Rightarrow> packet \<Rightarrow> (call \<times> call_info) option server_prog" where
  "pick_up w sid pkt =
    bnd (own_ip w) (\<lambda>ip.
    bnd (gets (\<lambda>s. get_session_mem (calls s) sid)) (\<lambda>c. case c of
      None \<Rightarrow> ret None
    | Some c \<Rightarrow>
        if cs_status c \<noteq> ''pending'' then ret None
        else
          let info = \<lparr>ci_ip = ip, ci_udp_port = jget pkt ''local_port'', ci_pubkey = jget pkt ''ephemeral_pubkey''\<rparr> in
          thn (modify (\<lambda>s. s\<lparr>calls := put_session sid (c\<lparr>cs_status := ''active'', cs_callee_info := Some info\<rparr>) (calls s)\<rparr>))
          (ret (Some (c, info)))))"

definition hang_up :: "string \<Rightarrow> (call \<times> int) option server_prog" where
  "hang_up sid =
    bnd (pop_call sid) (\<lambda>c. case c of
      None \<Rightarrow> ret None
    | Some c \<Rightarrow> bnd now (\<lambda>t. ret (Some (c, t))))"

text \<open>The packet to the other side, after the statement.\<close>

definition signal :: "string \<Rightarrow> string \<Rightarrow> string \<Rightarrow> int \<Rightarrow> packet \<Rightarrow> unit server_prog" where
  "signal user ty sid ts kw =
    bnd new_id (\<lambda>i. thn (call_send user (signal_fields ty i ts sid @ kw)) (ret ()))"

section \<open>Handlers\<close>

definition co_with_call :: "packet \<Rightarrow> (string \<Rightarrow> (server, unit) coro) \<Rightarrow> (server, unit) coro" where
  "co_with_call pkt f =
    cbnd (pure_result (call_key (jget_or pkt ''session_id'' (JStr [])))) (\<lambda>i. case i of None \<Rightarrow> Value () | Some i \<Rightarrow> f i)"

definition co_call_invite :: "ws \<Rightarrow> string \<Rightarrow> packet \<Rightarrow> (server, unit) coro" where
  "co_call_invite w username pkt =
    cbnd (pure_result (strip_field pkt ''to'')) (\<lambda>callee.
    let session_id = jget_or pkt ''session_id'' (jget pkt ''id'') in
    if callee = [] \<or> \<not> truthy session_id
    then atom (send_packet w ERROR [(''error'', JStr ''INVALID_CALL_INVITE'')])
    else
      cbnd (pure_result (as_str TypeError session_id)) (\<lambda>sid.
      cbnd (atom (ring w session_id sid username callee pkt)) (\<lambda>r. case r of
        None \<Rightarrow> Value ()
      | Some (info, ts) \<Rightarrow>
          cbnd (atom (dbx (create_call sid username callee ts))) (\<lambda>_.
          atom (signal callee ''CALL_INVITE'' sid ts
            [(''from'', JStr username), (''caller'', JStr username), (''to'', JStr callee),
             (''caller_ip'', JStr (ci_ip info)), (''local_port'', ci_udp_port info),
             (''caller_udp_port'', ci_udp_port info), (''ephemeral_pubkey'', ci_pubkey info),
             (''caller_pubkey'', ci_pubkey info)])))))"

definition co_call_accept :: "ws \<Rightarrow> packet \<Rightarrow> (server, unit) coro" where
  "co_call_accept w pkt = co_with_call pkt (\<lambda>sid.
    cbnd (atom (pick_up w sid pkt)) (\<lambda>r. case r of
      None \<Rightarrow> Value ()
    | Some (c, info) \<Rightarrow>
        cbnd (atom (dbm (update_call_status sid ''active''))) (\<lambda>_.
        atom (bnd now (\<lambda>ts. signal (cs_caller c) ''CALL_ACCEPT'' sid ts
          [(''from'', JStr (cs_callee c)), (''to'', JStr (cs_caller c)),
           (''callee_ip'', JStr (ci_ip info)), (''local_port'', ci_udp_port info),
           (''callee_udp_port'', ci_udp_port info), (''ephemeral_pubkey'', ci_pubkey info),
           (''callee_pubkey'', ci_pubkey info)])))))"

definition co_call_over :: "string \<Rightarrow> (call \<Rightarrow> string) \<Rightarrow> packet \<Rightarrow> (server, unit) coro" where
  "co_call_over ty party pkt = co_with_call pkt (\<lambda>sid.
    cbnd (atom (hang_up sid)) (\<lambda>r. case r of
      None \<Rightarrow> Value ()
    | Some (c, t) \<Rightarrow>
        cbnd (atom (dbm (db_end_call sid t False))) (\<lambda>_.
        atom (bnd now (\<lambda>ts. signal (party c) ty sid ts [])))))"

definition co_call_decline :: "packet \<Rightarrow> (server, unit) coro" where
  "co_call_decline pkt = co_call_over ''CALL_DECLINE'' cs_caller pkt"

definition co_call_end :: "string \<Rightarrow> packet \<Rightarrow> (server, unit) coro" where
  "co_call_end username pkt = co_call_over ''CALL_END'' (\<lambda>c. other_party c username) pkt"

section \<open>Run alone, a coroutine is its handler\<close>

lemma with_call_cong: "p = q \<Longrightarrow> (\<And>i s. f i s = g i s) \<Longrightarrow> with_call p f = with_call q g"
  by (simp add: with_call_def fun_eq_iff bnd_def split: prod.split sum.split option.split)

lemma alone_with_call: "alone (co_with_call pkt f) = with_call pkt (\<lambda>i. alone (f i))"
  by (simp add: co_with_call_def with_call_def alone_simps cong: case_cong)

lemma own_ip_app: "\<exists>ip. own_ip w s = (Inr ip, s)"
  by (simp add: own_ip_def prog_simps split: option.split)

lemma alone_call_invite [alone_simps]: "alone (co_call_invite w u pkt) = h_call_invite w u pkt"
proof -
  have "alone (cbnd (atom (ring w j sid u v pkt)) (\<lambda>r. case r of
        None \<Rightarrow> Value ()
      | Some (info, ts) \<Rightarrow>
          cbnd (atom (dbx (create_call sid u v ts))) (\<lambda>_.
          atom (signal v ''CALL_INVITE'' sid ts
            [(''from'', JStr u), (''caller'', JStr u), (''to'', JStr v),
             (''caller_ip'', JStr (ci_ip info)), (''local_port'', ci_udp_port info),
             (''caller_udp_port'', ci_udp_port info), (''ephemeral_pubkey'', ci_pubkey info),
             (''caller_pubkey'', ci_pubkey info)])))) s =
      bnd (own_ip w) (\<lambda>ip.
      bnd (call_invite sid u v \<lparr>ci_ip = ip, ci_udp_port = jget pkt ''local_port'',
            ci_pubkey = jget pkt ''ephemeral_pubkey''\<rparr>) (\<lambda>ok.
      whenp (\<not> ok) (send_packet w CALL_DECLINE
        [(''session_id'', j), (''reason'', JStr ''unavailable'')]))) s" for j sid v s
  proof -
    obtain ip where ip: "own_ip w s = (Inr ip, s)" using own_ip_app by blast
    show ?thesis
      by (cases "lookup (connections s) v"; cases "create_call sid u v (clock s) (db s)")
        (simp_all add: alone_simps ip whenp_def ring_def signal_def call_invite_def prog_simps Let_def
          split: prod.split sum.split option.split)
  qed
  then show ?thesis
    unfolding co_call_invite_def h_call_invite_def
    by (simp add: alone_simps fun_eq_iff bnd_def Let_def split: prod.split sum.split)
qed

lemma alone_call_accept [alone_simps]: "alone (co_call_accept w pkt) = h_call_accept w pkt"
proof -
  have "alone (cbnd (atom (pick_up w sid pkt)) (\<lambda>r. case r of
      None \<Rightarrow> Value ()
    | Some (c, info) \<Rightarrow>
        cbnd (atom (dbm (update_call_status sid ''active''))) (\<lambda>_.
        atom (bnd now (\<lambda>ts. signal (cs_caller c) ''CALL_ACCEPT'' sid ts
          [(''from'', JStr (cs_callee c)), (''to'', JStr (cs_caller c)),
           (''callee_ip'', JStr (ci_ip info)), (''local_port'', ci_udp_port info),
           (''callee_udp_port'', ci_udp_port info), (''ephemeral_pubkey'', ci_pubkey info),
           (''callee_pubkey'', ci_pubkey info)]))))) s =
      bnd (own_ip w) (\<lambda>ip. thn (call_accept sid \<lparr>ci_ip = ip, ci_udp_port = jget pkt ''local_port'',
        ci_pubkey = jget pkt ''ephemeral_pubkey''\<rparr>) (ret ())) s" for sid s
  proof -
    obtain ip where ip: "own_ip w s = (Inr ip, s)" using own_ip_app by blast
    show ?thesis
      by (cases "get_session_mem (calls s) sid")
        (simp_all add: alone_simps ip pick_up_def signal_def call_accept_def prog_simps Let_def split: option.split)
  qed
  then show ?thesis
    unfolding co_call_accept_def h_call_accept_def alone_with_call by (intro with_call_cong refl) (simp only:)
qed

lemma alone_call_over:
  "alone (co_call_over ty party pkt) = with_call pkt (\<lambda>sid.
    bnd (pop_call sid) (\<lambda>c. case c of
      None \<Rightarrow> ret ()
    | Some c \<Rightarrow>
        bnd now (\<lambda>t.
        thn (dbm (db_end_call sid t False))
        (bnd now (\<lambda>ts.
        bnd new_id (\<lambda>i.
        thn (call_send (party c) (signal_fields ty i ts sid)) (ret ())))))))"
proof -
  have "alone (cbnd (atom (hang_up sid)) (\<lambda>r. case r of
      None \<Rightarrow> Value ()
    | Some (c, t) \<Rightarrow>
        cbnd (atom (dbm (db_end_call sid t False))) (\<lambda>_.
        atom (bnd now (\<lambda>ts. signal (party c) ty sid ts []))))) s =
      bnd (pop_call sid) (\<lambda>c. case c of
      None \<Rightarrow> ret ()
    | Some c \<Rightarrow>
        bnd now (\<lambda>t.
        thn (dbm (db_end_call sid t False))
        (bnd now (\<lambda>ts.
        bnd new_id (\<lambda>i.
        thn (call_send (party c) (signal_fields ty i ts sid)) (ret ())))))) s" for sid s
    by (cases "get_session_mem (calls s) sid")
      (simp_all add: alone_simps hang_up_def signal_def prog_simps split: option.split)
  then show ?thesis
    unfolding co_call_over_def alone_with_call by (intro with_call_cong refl) (simp only:)
qed

lemma alone_calls_over [alone_simps]:
  "alone (co_call_decline pkt) = h_call_decline pkt" "alone (co_call_end u pkt) = h_call_end u pkt"
  by (simp_all add: co_call_decline_def co_call_end_def alone_call_over h_call_decline_def h_call_end_def
      call_decline_def [abs_def] call_end_def [abs_def])

section \<open>Steps within an effect\<close>

text \<open>What acceptance and hang-up do, and what an invitation does besides.\<close>

locale call_over_effect = packet_effect +
  assumes eff_pick_up: "steps R (pick_up w i pkt)"
    and eff_hang_up: "steps R (hang_up i)"
    and eff_call_status: "steps R (dbm (update_call_status i st))"
    and eff_end_call: "steps R (dbm (db_end_call i t r))"
begin

lemma eff_signal: "steps R (signal u ty i ts kw)"
  unfolding signal_def call_send_def by (intro eff_intro)

lemma eff_signal_now: "steps R (bnd now (\<lambda>ts. signal u ty i ts kw))"
  by (intro eff_intro eff_signal)

lemma co_with_call_ok: "(\<And>i. allowed R (f i)) \<Longrightarrow> allowed R (co_with_call pkt f)"
  unfolding co_with_call_def by (intro co_intro)

lemma co_call_accept_ok: "allowed R (co_call_accept w pkt)"
  unfolding co_call_accept_def
  by (intro co_with_call_ok co_intro eff_pick_up eff_call_status eff_signal_now)
lemma co_call_over_ok: "allowed R (co_call_over ty party pkt)"
  unfolding co_call_over_def by (intro co_with_call_ok co_intro eff_hang_up eff_end_call eff_signal_now)

lemma co_calls_ok:
  "allowed R (co_call_accept w pkt)" "allowed R (co_call_decline pkt)" "allowed R (co_call_end u pkt)"
  unfolding co_call_decline_def co_call_end_def by (rule co_call_accept_ok co_call_over_ok)+

end

locale call_task_effect = call_over_effect +
  assumes eff_ring: "steps R (ring w j i a b pkt)"
    and eff_create_call: "steps R (dbx (create_call i a b t))"
begin

lemma co_call_invite_ok: "allowed R (co_call_invite w u pkt)"
  unfolding co_call_invite_def Let_def by (intro co_intro eff_ring eff_create_call eff_signal eff_send_packet)

end

locale task_effect = call_task_effect R + server_effect R for R :: "server \<Rightarrow> server \<Rightarrow> bool"

section \<open>Instances\<close>

text \<open>Every session is filed under its own id, and has the address of the callee just when it is active.\<close>

definition sessions_ok :: "server \<Rightarrow> bool" where
  "sessions_ok s \<longleftrightarrow> (\<forall>i c. get_session_mem (calls s) i = Some c \<longrightarrow>
     cs_id c = i \<and> (cs_status c = ''pending'' \<and> cs_callee_info c = None \<or>
                    cs_status c = ''active'' \<and> cs_callee_info c \<noteq> None))"

definition keeps_sessions :: "server \<Rightarrow> server \<Rightarrow> bool" where
  "keeps_sessions s t \<longleftrightarrow> (sessions_ok s \<longrightarrow> sessions_ok t)"

text \<open>The sessions that have no row yet.\<close>

definition unfiled :: "server \<Rightarrow> string set" where
  "unfiled s = {i. get_session_mem (calls s) i \<noteq> None \<and> get_call i (db s) = None}"

lemma calls_ok_parts: "calls_ok s \<longleftrightarrow> sessions_ok s \<and> unfiled s = {}"
proof -
  have "unfiled s = {} \<longleftrightarrow> (\<forall>i c. get_session_mem (calls s) i = Some c \<longrightarrow> get_call i (db s) \<noteq> None)"
    by (force simp: unfiled_def)
  then show ?thesis unfolding calls_ok_def sessions_ok_def by blast
qed

lemma sessions_calls: "calls t = calls s \<Longrightarrow> keeps_sessions s t"
  by (simp add: keeps_sessions_def sessions_ok_def)

lemma sessions_put:
  "sessions_ok s \<Longrightarrow> cs_id c = i \<Longrightarrow> cs_status c = ''pending'' \<and> cs_callee_info c = None \<or>
     cs_status c = ''active'' \<and> cs_callee_info c \<noteq> None \<Longrightarrow> sessions_ok (s\<lparr>calls := put_session i c (calls s)\<rparr>)"
  by (auto simp: sessions_ok_def sess.get_put)

lemma sessions_pop: "sessions_ok s \<Longrightarrow> sessions_ok (s\<lparr>calls := pop_session i (calls s)\<rparr>)"
  by (auto simp: sessions_ok_def sess.get_del split: if_splits)

text \<open>The steps in closed form.\<close>

lemma ring_cases:
  assumes "ring w j sid a b pkt s = (r, t)"
  obtains (unreachable) "r = Inr None \<or> (\<exists>e. r = Inl e)" "calls t = calls s" "db t = db s" "out_grows s t"
  | (rings) info c where "r = Inr (Some (info, clock s))" "t = s\<lparr>calls := put_session sid c (calls s)\<rparr>"
      "cs_id c = sid" "cs_status c = ''pending''" "cs_callee_info c = None"
proof -
  obtain ip where "own_ip w s = (Inr ip, s)" using own_ip_app by blast
  then show thesis
    using assms that by (cases "lookup (connections s) b") (auto simp: ring_def prog_simps out_grows_def Let_def split: if_splits)
qed

lemma pick_up_cases:
  assumes "pick_up w sid pkt s = (r, t)"
  obtains (refused) "r = Inr None" "t = s"
  | (picked) c info where "r = Inr (Some (c, info))" "get_session_mem (calls s) sid = Some c" "cs_status c = ''pending''"
      "t = s\<lparr>calls := put_session sid (c\<lparr>cs_status := ''active'', cs_callee_info := Some info\<rparr>) (calls s)\<rparr>"
proof -
  obtain ip where ip: "own_ip w s = (Inr ip, s)" using own_ip_app by blast
  show thesis
  proof (cases "get_session_mem (calls s) sid")
    case None
    then show thesis using ip assms refused by (simp add: pick_up_def prog_simps)
  next
    case (Some c)
    let ?info = "\<lparr>ci_ip = ip, ci_udp_port = jget pkt ''local_port'', ci_pubkey = jget pkt ''ephemeral_pubkey''\<rparr>"
    show thesis
    proof (cases "cs_status c = ''pending''")
      case True
      then have "pick_up w sid pkt s = (Inr (Some (c, ?info)), s\<lparr>calls := put_session sid
          (c\<lparr>cs_status := ''active'', cs_callee_info := Some ?info\<rparr>) (calls s)\<rparr>)"
        using ip Some by (simp add: pick_up_def prog_simps Let_def)
      then show thesis using assms Some True by (intro picked [of c ?info]) simp_all
    next
      case False
      then show thesis using ip assms Some by (intro refused) (simp_all add: pick_up_def prog_simps)
    qed
  qed
qed

lemma hang_up_app: "hang_up sid s = (Inr (map_option (\<lambda>c. (c, clock s)) (get_session_mem (calls s) sid)),
    s\<lparr>calls := pop_session sid (calls s)\<rparr>)"
  by (cases "get_session_mem (calls s) sid") (simp_all add: hang_up_def prog_simps)

lemma sessions_upd [simp]:
  "sessions_ok (s\<lparr>db := d\<rparr>) = sessions_ok s" "sessions_ok (s\<lparr>epos := e\<rparr>) = sessions_ok s"
  "sessions_ok (s\<lparr>outbox := x\<rparr>) = sessions_ok s"
  by (simp_all add: sessions_ok_def)

lemma call_invite_sessions: "keeps_sessions s (snd (call_invite i a b n s))"
proof -
  let ?c = "\<lparr>cs_id = i, cs_caller = a, cs_callee = b, cs_status = ''pending'', cs_caller_info = n, cs_callee_info = None,
    cs_created_at = clock s\<rparr>"
  have "sessions_ok s \<Longrightarrow> sessions_ok (s\<lparr>calls := put_session i ?c (calls s)\<rparr>)" by (rule sessions_put) simp_all
  then show ?thesis
    by (cases "create_call i a b (clock s) (db s)"; cases "lookup (connections s) b")
      (simp_all add: call_invite_def prog_simps keeps_sessions_def)
qed

lemma call_accept_sessions: "keeps_sessions s (snd (call_accept i n s))"
proof (cases "get_session_mem (calls s) i")
  case (Some c)
  let ?c = "c\<lparr>cs_status := ''active'', cs_callee_info := Some n\<rparr>"
  have "sessions_ok s \<Longrightarrow> cs_id c = i" using Some by (simp add: sessions_ok_def)
  then have "sessions_ok s \<Longrightarrow> sessions_ok (s\<lparr>calls := put_session i ?c (calls s)\<rparr>)" by (intro sessions_put) simp_all
  then show ?thesis
    using Some by (cases "lookup (connections s) (cs_caller c)") (simp_all add: call_accept_def prog_simps keeps_sessions_def)
qed (simp add: call_accept_def prog_simps keeps_sessions_def)

lemma call_over_sessions:
  "keeps_sessions s (snd (call_decline i s))" "keeps_sessions s (snd (call_end i u s))"
  "keeps_sessions s (snd (relay_audio i u d s))"
  by (cases "get_session_mem (calls s) i";
      simp add: call_decline_def call_end_def relay_audio_def prog_simps keeps_sessions_def sessions_pop split: option.split)+

lemma steps_sessions: "(\<And>s. keeps_sessions s (snd (m s))) \<Longrightarrow> steps keeps_sessions m"
  by (simp add: steps_def)

interpretation sesseff: server_effect keeps_sessions
proof unfold_locales
  show "keeps_sessions s t \<Longrightarrow> keeps_sessions t u \<Longrightarrow> keeps_sessions s u" for s t u
    by (simp add: keeps_sessions_def)
qed (auto intro!: steps_sessions call_invite_sessions call_accept_sessions call_over_sessions sessions_calls)

lemma db_calls_frame:
  "calls (snd (dbx f s)) = calls s" "calls (snd (dbm g s)) = calls s"
  "outbox (snd (dbx f s)) = outbox s" "outbox (snd (dbm g s)) = outbox s"
  by (simp_all add: prog_simps dbx_def split: sum.split)

lemma ring_keeps: "keeps_sessions s (snd (ring w j i a b pkt s))"
proof (cases "ring w j i a b pkt s")
  case (Pair r t)
  then show ?thesis
  proof (cases rule: ring_cases)
    case unreachable
    then show ?thesis using Pair by (simp add: sessions_calls)
  next
    case (rings info c)
    then show ?thesis using Pair by (simp add: keeps_sessions_def sessions_put)
  qed
qed

lemma pick_up_keeps: "keeps_sessions s (snd (pick_up w i pkt s))"
proof (cases "pick_up w i pkt s")
  case (Pair r t)
  then show ?thesis
  proof (cases rule: pick_up_cases)
    case (picked c info)
    have "sessions_ok s \<Longrightarrow> cs_id c = i" using picked(2) by (simp add: sessions_ok_def)
    then show ?thesis using Pair picked(4) by (simp add: keeps_sessions_def sessions_put)
  qed (use Pair in \<open>simp add: keeps_sessions_def\<close>)
qed

lemma hang_up_keeps: "keeps_sessions s (snd (hang_up i s))"
  by (simp add: hang_up_app keeps_sessions_def sessions_pop)

interpretation calltasks: task_effect keeps_sessions
  by unfold_locales (auto intro!: steps_sessions ring_keeps pick_up_keeps hang_up_keeps sessions_calls simp: db_calls_frame)

lemma call_steps_frame:
  "db (snd (ring w j i a b pkt s)) = db s \<and> out_grows s (snd (ring w j i a b pkt s))"
  "db (snd (pick_up w i pkt s)) = db s \<and> out_grows s (snd (pick_up w i pkt s))"
  "db (snd (hang_up i s)) = db s \<and> out_grows s (snd (hang_up i s))"
proof -
  have "db t = db s \<and> out_grows s t" if "ring w j i a b pkt s = (r, t)" for r t
    using that by (rule ring_cases) (simp_all add: out_grows_def)
  then show "db (snd (ring w j i a b pkt s)) = db s \<and> out_grows s (snd (ring w j i a b pkt s))" using prod.collapse [symmetric] by blast
  have "db t = db s \<and> out_grows s t" if "pick_up w i pkt s = (r, t)" for r t
    using that by (rule pick_up_cases) (simp_all add: out_grows_def)
  then show "db (snd (pick_up w i pkt s)) = db s \<and> out_grows s (snd (pick_up w i pkt s))" using prod.collapse [symmetric] by blast
qed (simp_all add: hang_up_app out_grows_def)

lemma call_db_users:
  "users (db (snd (dbx (create_call i a b t) s))) = users (db s)"
  "users (update_call_status i st d) = users d" "users (db_end_call i t r d) = users d"
  by (simp_all add: dbx_def create_call_def update_call_status_def db_end_call_def split: sum.split)

interpretation keytasks: task_effect keeps_keys
  by unfold_locales (auto simp: steps_def keeps_keys_def call_steps_frame prog_simps dbx_def intro: db_keeps split: sum.split)

interpretation accttasks: task_effect keeps_accounts
  by unfold_locales (rule stepsI, rule keeps_accounts_same, simp add: call_steps_frame call_db_users prog_simps del: dbx_app)+

interpretation outtasks: task_effect out_grows
  by unfold_locales (simp_all add: steps_def call_steps_frame, simp_all add: out_grows_def prog_simps dbx_def split: sum.split)

section \<open>Rows still to be written\<close>

definition files_calls :: "server \<Rightarrow> server \<Rightarrow> bool" where
  "files_calls s t \<longleftrightarrow> unfiled t \<subseteq> unfiled s"

lemma get_call_None:
  "get_call j (update_call_status i st d) = None \<longleftrightarrow> get_call j d = None"
  "get_call j (db_end_call i t r d) = None \<longleftrightarrow> get_call j d = None"
  "create_call i a b t d = Inr d' \<Longrightarrow> get_call j d' = None \<longleftrightarrow> j \<noteq> i \<and> get_call j d = None"
  using get_call_update get_call_create by blast+

lemma unfiled_upd [simp]:
  "unfiled (s\<lparr>epos := e\<rparr>) = unfiled s" "unfiled (s\<lparr>outbox := x\<rparr>) = unfiled s"
  "unfiled (s\<lparr>connections := c\<rparr>) = unfiled s" "unfiled (s\<lparr>rates := l\<rparr>) = unfiled s"
  "unfiled (s\<lparr>fs_files := f\<rparr>) = unfiled s" "unfiled (s\<lparr>fs_dirs := ds\<rparr>) = unfiled s"
  by (simp_all add: unfiled_def)

lemma unfiled_put: "unfiled (s\<lparr>calls := put_session i c (calls s)\<rparr>) \<subseteq> insert i (unfiled s)"
  by (auto simp: unfiled_def sess.get_put)

lemma unfiled_put_known: "get_session_mem (calls s) i \<noteq> None \<Longrightarrow>
    unfiled (s\<lparr>calls := put_session i c (calls s)\<rparr>) = unfiled s"
  by (auto simp: unfiled_def sess.get_put)

lemma unfiled_pop: "unfiled (s\<lparr>calls := pop_session i (calls s)\<rparr>) \<subseteq> unfiled s"
  by (auto simp: unfiled_def sess.get_del split: if_splits)

lemma unfiled_rows: "unfiled (s\<lparr>db := update_call_status i st (db s)\<rparr>) = unfiled s"
  "unfiled (s\<lparr>db := db_end_call i t r (db s)\<rparr>) = unfiled s"
  by (simp_all add: unfiled_def get_call_None)

text \<open>After the insertion the row is there, whether it succeeded or raised because the row was there before.\<close>

lemma unfiled_create:
  "dbx (create_call i a b t) s = (r, s') \<Longrightarrow> unfiled s' = unfiled s - {i}"
  using get_call_exists [of i a b t "db s"]
  by (auto simp: dbx_def unfiled_def get_call_None split: sum.splits)

lemma unfiled_none: "get_session_mem (calls s) i = None \<Longrightarrow> unfiled s = unfiled s - {i}"
  by (auto simp: unfiled_def)

lemma call_invite_files: "unfiled (snd (call_invite i a b n s)) \<subseteq> unfiled s"
proof (cases "lookup (connections s) b")
  case (Some w)
  let ?s = "s\<lparr>calls := put_session i \<lparr>cs_id = i, cs_caller = a, cs_callee = b, cs_status = ''pending'', cs_caller_info = n,
    cs_callee_info = None, cs_created_at = clock s\<rparr> (calls s)\<rparr>"
  have "unfiled (snd (dbx (create_call i a b (clock s)) ?s)) = unfiled ?s - {i}"
    by (rule unfiled_create [OF prod.collapse [symmetric]])
  then have "unfiled (snd (dbx (create_call i a b (clock s)) ?s)) \<subseteq> unfiled s"
    using unfiled_put [where s = s and i = i] by blast
  moreover have "unfiled (snd (call_invite i a b n s)) = unfiled (snd (dbx (create_call i a b (clock s)) ?s))"
    using Some by (cases "create_call i a b (clock s) (db s)") (simp_all add: call_invite_def prog_simps)
  ultimately show ?thesis by simp
qed (simp add: call_invite_def prog_simps)

lemma call_accept_files: "unfiled (snd (call_accept i n s)) \<subseteq> unfiled s"
proof (cases "get_session_mem (calls s) i")
  case (Some c)
  let ?s = "s\<lparr>calls := put_session i (c\<lparr>cs_status := ''active'', cs_callee_info := Some n\<rparr>) (calls s)\<rparr>"
  have "unfiled (?s\<lparr>db := update_call_status i ''active'' (db ?s)\<rparr>) = unfiled s"
    using Some unfiled_put_known [where s = s and i = i] by (simp only: unfiled_rows) simp
  then show ?thesis
    using Some by (cases "lookup (connections s) (cs_caller c)") (simp_all add: call_accept_def prog_simps)
qed (simp add: call_accept_def prog_simps)

lemma call_over_files:
  "unfiled (snd (call_decline i s)) \<subseteq> unfiled s" "unfiled (snd (call_end i u s)) \<subseteq> unfiled s"
  "unfiled (snd (relay_audio i u d s)) \<subseteq> unfiled s"
proof -
  have "unfiled (s\<lparr>calls := pop_session i (calls s), db := db_end_call i t r (db s)\<rparr>) \<subseteq> unfiled s" for t r
    using unfiled_rows(2) [where s = "s\<lparr>calls := pop_session i (calls s)\<rparr>"] unfiled_pop [of i s] by simp
  then show "unfiled (snd (call_decline i s)) \<subseteq> unfiled s" "unfiled (snd (call_end i u s)) \<subseteq> unfiled s"
    "unfiled (snd (relay_audio i u d s)) \<subseteq> unfiled s"
    by (cases "get_session_mem (calls s) i";
        simp add: call_decline_def call_end_def relay_audio_def prog_simps unfiled_pop split: option.split)+
qed

interpretation filed: call_over_effect files_calls
proof unfold_locales
  show "files_calls s (s\<lparr>db := d\<rparr>)" if "db_step (db s) d" for s d
    using call_sessions_step [OF that] by (simp add: files_calls_def unfiled_def get_call_def)
  show "steps files_calls (pick_up w i pkt)" for w i pkt
  proof (rule stepsI)
    fix s
    have "files_calls s t" if "pick_up w i pkt s = (r, t)" for r t
      using that by (rule pick_up_cases) (simp_all add: files_calls_def unfiled_put_known)
    then show "files_calls s (snd (pick_up w i pkt s))" using prod.collapse [symmetric] by blast
  qed
  show "files_calls s t \<Longrightarrow> files_calls t u \<Longrightarrow> files_calls s u" for s t u by (auto simp: files_calls_def)
qed (auto simp: steps_def files_calls_def prog_simps hang_up_app unfiled_rows
    intro: subsetD [OF call_invite_files] subsetD [OF call_accept_files] subsetD [OF call_over_files(1)]
      subsetD [OF call_over_files(2)] subsetD [OF call_over_files(3)] subsetD [OF unfiled_pop])

text \<open>An invitation owes the row of its session between its first two steps.\<close>

lemma invite_settles: "settles unfiled (co_call_invite w u pkt) {}"
proof -
  have quick: "settles unfiled c {}" if "allowed files_calls c" for c :: "(server, 'b) coro"
    using allowed_settles [of unfiled c] that by (simp add: files_calls_def [abs_def])
  have core: "settles unfiled (cbnd (atom (ring w j sid u v pkt)) (\<lambda>r. case r of
      None \<Rightarrow> Value () | Some (info, ts) \<Rightarrow> cbnd (atom (dbx (create_call sid u v ts))) (\<lambda>_. atom (signal v ty sid ts (kw info))))) {}"
    for j sid v ty and kw :: "call_info \<Rightarrow> packet"
  proof (rule settles_atom [where owed = "\<lambda>r. case r of None \<Rightarrow> {} | Some _ \<Rightarrow> {sid}"])
    have last: "settles unfiled (cbnd (atom (dbx (create_call sid u v ts))) (\<lambda>_. atom (signal v ty sid ts (kw info)))) {sid}" for ts info
      by (rule settles_atom [where owed = "\<lambda>_. {}"])
        (use unfiled_create quick [OF allowed_atom [OF filed.eff_signal]] in \<open>auto\<close>)
    fix s a t
    assume r: "ring w j sid u v pkt s = (Inr a, t)"
    then show "unfiled t \<subseteq> (unfiled s - {}) \<union> (case a of None \<Rightarrow> {} | Some _ \<Rightarrow> {sid}) \<and>
        settles unfiled (case a of None \<Rightarrow> Value () | Some (info, ts) \<Rightarrow>
          cbnd (atom (dbx (create_call sid u v ts))) (\<lambda>_. atom (signal v ty sid ts (kw info))))
          (case a of None \<Rightarrow> {} | Some _ \<Rightarrow> {sid})"
    proof (cases rule: ring_cases)
      case unreachable
      then show ?thesis by (auto simp: unfiled_def)
    next
      case (rings info c)
      then show ?thesis using last unfiled_put [where s = s and i = sid and c = c] by auto
    qed
  next
    fix s e t
    assume "ring w j sid u v pkt s = (Inl e, t)"
    then show "unfiled t \<subseteq> unfiled s - {}" by (cases rule: ring_cases) (auto simp: unfiled_def)
  qed
  show ?thesis
    unfolding co_call_invite_def Let_def
    by (intro settles_cbnd quick [OF allowed_pure]) (simp split: if_split, intro conjI impI settles_cbnd core
      quick [OF allowed_pure] quick [OF allowed_atom [OF filed.eff_send_packet]])
qed

end
