(* ===== verification/File_Tasks.thy ===== *)
theory File_Tasks
  imports Coroutines Tcp_Properties
begin

text \<open>
  Transfers and the expiry of files as coroutines (\<^verbatim>\<open>server/tcp_server.py\<close>, \<^verbatim>\<open>server/files.py\<close>). A connection has read and
  written bytes of its own; the steps are the statements of the database, the writes to the socket and the code between
  two awaits. Each coroutine run alone is the program of Tcp_Server or Server_Files.
\<close>

section \<open>Uploads\<close>

primrec co_poll_file :: "nat \<Rightarrow> string \<Rightarrow> (tcp, file_row option) coro" where
  "co_poll_file 0 fid = Value None"
| "co_poll_file (Suc n) fid = cbnd (atom (srv (dbq (get_file fid)))) (\<lambda>f. case f of
     Some f \<Rightarrow> Value (Some f) | None \<Rightarrow> co_poll_file n fid)"

text \<open>The two \<^verbatim>\<open>readexactly\<close> of a frame: \<open>None\<close> when the connection ends before.\<close>

definition take_frame :: "frame option tcp_prog" where
  "take_frame = (\<lambda>(s, inp, out). case read_frame inp of
     Short \<Rightarrow> (Inr None, (s, [], out))
   | Bad e rest \<Rightarrow> (Inl e, (s, rest, out))
   | Frame i checksum data rest \<Rightarrow> (Inr (Some (i, checksum, data)), (s, rest, out)))"

text \<open>The bytes of a chunk are on the disk before its row is written.\<close>

definition save_chunk :: "string \<Rightarrow> string \<Rightarrow> int \<Rightarrow> bytes \<Rightarrow> string server_prog" where
  "save_chunk base file_id i data =
    thn (makedirs (file_dir base file_id)) (thn (write_file (chunk_path base file_id i) data) new_id)"

definition co_store_chunk :: "string \<Rightarrow> string \<Rightarrow> int \<Rightarrow> bytes \<Rightarrow> string \<Rightarrow> (tcp, unit) coro" where
  "co_store_chunk base file_id i data checksum =
    cbnd (atom (srv (save_chunk base file_id i data))) (\<lambda>chunk_id.
    atom (srv (dbm (add_chunk chunk_id file_id i checksum))))"

text \<open>The fuel is more than the number of bytes still to be read, and every frame takes some.\<close>

primrec co_recv_chunks :: "nat \<Rightarrow> string \<Rightarrow> string \<Rightarrow> int \<Rightarrow> (tcp, bool) coro" where
  "co_recv_chunks 0 base fid expected = Value False"
| "co_recv_chunks (Suc n) base fid expected =
    cbnd (atom (srv (dbq (count_delivered fid)))) (\<lambda>k.
    if \<not> k < expected then Value True
    else fuse take_frame (\<lambda>frame. case frame of
        None \<Rightarrow> Value False
      | Some (i, checksum, data) \<Rightarrow>
          cbnd (co_store_chunk base fid (int i) data checksum) (\<lambda>_.
          cbnd (atom (tcp_write (text_bytes (''ACK'' @ newline)))) (\<lambda>_.
          co_recv_chunks n base fid expected))))"

definition notice_entry :: "file_row \<Rightarrow> string \<Rightarrow> (string \<times> string \<times> int) option server_prog" where
  "notice_entry f fid =
    bnd (make_packet ''FILE_DONE'' [(''file_id'', JStr fid), (''name'', JStr (f_name f)),
          (''size'', JInt (f_size f)), (''uploader'', JStr (f_uploader f)),
          (''encrypted_key'', opt_json (f_encrypted_key f))]) (\<lambda>pkt.
    bnd (router_get (f_recipient f)) (\<lambda>w. case w of
      Some w \<Rightarrow> thn (attempt (ws_send w pkt) (\<lambda>_. ret ())) (ret None)
    | None \<Rightarrow>
        bnd (lift_result (case parse_packet pkt of Inl e \<Rightarrow> Inl e
          | Inr (JObj d) \<Rightarrow> item_str d ''id'' | Inr _ \<Rightarrow> Inl TypeError)) (\<lambda>i.
        bnd now (\<lambda>ts. ret (Some (i, pkt, ts))))))"

definition co_notify_recipient :: "file_row \<Rightarrow> string \<Rightarrow> (tcp, unit) coro" where
  "co_notify_recipient f fid =
    (if f_recipient f = [] then Value ()
     else cbnd (atom (srv (notice_entry f fid))) (\<lambda>entry. case entry of
         None \<Rightarrow> Value ()
       | Some (i, pkt, ts) \<Rightarrow> atom (srv (dbm (db_enqueue i (f_recipient f) pkt ts)))))"

text \<open>The line that says which chunks the server has; the value is how many bytes the client has still to send.\<close>

definition announce :: "bytes \<Rightarrow> nat tcp_prog" where
  "announce bs = thn (tcp_write bs) (gets (\<lambda>(s, inp, out). length inp))"

definition co_process_upload :: "string \<Rightarrow> string \<Rightarrow> (tcp, unit) coro" where
  "co_process_upload base file_id =
    (if length file_id \<noteq> 36 then Value ()
     else cbnd (co_poll_file 50 file_id) (\<lambda>meta. case meta of
       None \<Rightarrow> Value ()
     | Some f \<Rightarrow>
         cbnd (atom (srv (dbq (get_chunks file_id)))) (\<lambda>existing.
         cbnd (atom (announce (text_bytes (have_line (sort (map c_index existing)))))) (\<lambda>n.
         cbnd (co_recv_chunks (Suc n) base file_id (f_total_chunks f)) (\<lambda>complete.
         if \<not> complete then Value ()
         else cbnd (atom (tcp_write (text_bytes (''DONE'' @ newline)))) (\<lambda>_.
           co_notify_recipient f file_id))))))"

section \<open>Downloads\<close>

primrec co_send_chunks :: "string \<Rightarrow> string \<Rightarrow> chunk_row list \<Rightarrow> (tcp, unit) coro" where
  "co_send_chunks base file_id [] = Value ()"
| "co_send_chunks base file_id (c # cs) = cbnd (atom (send_chunk base file_id c)) (\<lambda>ok.
     if ok then co_send_chunks base file_id cs else Value ())"

definition co_process_download :: "string \<Rightarrow> string \<Rightarrow> (tcp, unit) coro" where
  "co_process_download base file_id =
    (if length file_id \<noteq> 36 then Value ()
     else cbnd (atom (srv (dbq (get_file file_id)))) (\<lambda>meta. case meta of
       None \<Rightarrow> Value ()
     | Some _ \<Rightarrow> cbnd (atom (srv (dbq (get_chunks file_id)))) (co_send_chunks base file_id)))"

definition co_process_request :: "string \<Rightarrow> (tcp, unit) coro" where
  "co_process_request base =
    cbnd (atom readline) (\<lambda>id_line.
    if id_line = [] then Value ()
    else cbnd (pure_result (utf8_decode id_line)) (\<lambda>text.
      let line = py_strip text in
      if starts_with line ''DOWNLOAD ''
      then co_process_download base (py_strip (remove_prefix line ''DOWNLOAD ''))
      else co_process_upload base line))"

text \<open>A connection whose client sends \<open>inp\<close>; an exception closes it. The value is what it was sent.\<close>

definition co_handle_client :: "string \<Rightarrow> bytes \<Rightarrow> (server, bytes) coro" where
  "co_handle_client base inp =
    cbnd (with_local (co_process_request base) (inp, [])) (\<lambda>(r, (rest, out)). Value out)"

section \<open>Expiry\<close>

definition co_delete_file_data :: "string \<Rightarrow> string \<Rightarrow> (server, unit) coro" where
  "co_delete_file_data base file_id =
    (let p = file_dir base file_id in
     cbnd (atom (bnd (gets fs_dirs) (\<lambda>dirs. whenp (p \<in> dirs) (rmtree p)))) (\<lambda>_.
     atom (dbm (delete_file file_id))))"

definition co_cleanup_expired :: "string \<Rightarrow> (server, nat) coro" where
  "co_cleanup_expired base =
    cbnd (atom (bnd now (\<lambda>t. dbq (get_expired_files t)))) (\<lambda>expired.
    cbnd (co_each (\<lambda>f. co_delete_file_data base (f_id f)) expired) (\<lambda>_.
    Value (length expired)))"

section \<open>Run alone\<close>

lemma srv_bnd: "srv (bnd m f) = bnd (srv m) (\<lambda>a. srv (f a))"
  by (auto simp: fun_eq_iff srv_def bnd_def split: prod.split sum.split)

lemma srv_ret: "srv (ret a) = ret a" "srv (Pair (Inr a)) = Pair (Inr a)"
  by (auto simp: fun_eq_iff srv_def)

lemma bnd_done: "bnd m (\<lambda>_. ret ()) = m" "bnd m (\<lambda>_. Pair (Inr ())) = m" for m :: "('s, unit) prog"
  by (auto simp: bnd_def fun_eq_iff split: prod.split sum.split)

lemma alone_poll: "alone (co_poll_file n fid) = srv (poll_file n fid)"
  by (induction n) (simp_all add: alone_simps srv_bnd srv_ret option.case_distrib [of srv] cong: case_cong)

lemma alone_store_chunk: "alone (co_store_chunk base fid i d ck) = srv (store_chunk base fid i d ck)"
  by (simp add: co_store_chunk_def store_chunk_def save_chunk_def alone_simps srv_bnd thn_def bnd_bnd)

lemma alone_notify: "alone (co_notify_recipient f fid) = srv (notify_recipient f fid)"
  by (simp add: co_notify_recipient_def notify_recipient_def notice_entry_def alone_simps srv_bnd thn_def bnd_bnd srv_ret bnd_done
      offline_enqueue_def option.case_distrib [of srv] option.case_distrib [of "\<lambda>m. bnd m f" for f] cong: case_cong)

lemma alone_recv:
  "length inp < n \<Longrightarrow> alone (co_recv_chunks n base fid expected) (s, inp, out) = recv_chunks base fid expected (s, inp, out)"
proof (induction n arbitrary: s inp out)
  case (Suc n)
  then show ?case
    by (subst recv_chunks.simps) (auto simp: alone_simps alone_store_chunk bnd_app take_frame_def srv_def tcp_write_def
        split: frame_read.split prod.split sum.split dest!: read_frame_shorter)
qed simp

lemma alone_announced:
  "bnd (announce bs) (\<lambda>n. bnd (alone (co_recv_chunks (Suc n) base fid e)) k) = bnd (tcp_write bs) (\<lambda>_. bnd (recv_chunks base fid e) k)"
  by (rule ext) (auto simp: announce_def alone_recv bnd_app thn_app tcp_write_def simp del: co_recv_chunks.simps split: prod.split)

lemma alone_upload: "alone (co_process_upload base fid) = process_upload base fid"
  by (simp add: co_process_upload_def process_upload_def alone_simps alone_poll alone_notify alone_announced thn_def
      del: co_recv_chunks.simps co_poll_file.simps poll_file.simps cong: case_cong)

lemma alone_send_chunks: "alone (co_send_chunks base fid cs) = send_chunks base fid cs"
  by (induction cs) (simp_all add: alone_simps cong: case_cong)

lemma alone_download: "alone (co_process_download base fid) = process_download base fid"
  by (simp add: co_process_download_def process_download_def alone_simps alone_send_chunks cong: case_cong)

lemma alone_request: "alone (co_process_request base) = process_request base"
  by (simp add: co_process_request_def process_request_def alone_simps alone_upload alone_download Let_def cong: case_cong)

lemma alone_client: "alone (co_handle_client base inp) s = (case handle_client base inp s of (t, out) \<Rightarrow> (Inr out, t))"
  by (auto simp: co_handle_client_def handle_client_def alone_simps alone_with_local alone_request bnd_app attempt_app
      split: prod.split sum.split)

lemma alone_cleanup_expired: "alone (co_cleanup_expired base) = cleanup_expired base"
  by (simp add: co_cleanup_expired_def cleanup_expired_def co_delete_file_data_def delete_file_data_def alone_simps thn_def
      Let_def bnd_bnd)

section \<open>Steps within an effect\<close>

context packet_effect
begin

lemmas [co_intro] = conn.allowed_fuse

lemma conn_take_frame: "steps (on_server R) take_frame"
  by (auto simp: steps_def on_server_def take_frame_def R_refl split: frame_read.split)

lemma eff_notice_entry [eff_intro]: "steps R (notice_entry f fid)"
  unfolding notice_entry_def by (intro eff_intro)

lemmas conn_co = conn.steps_rules conn_srv conn_write conn_take_frame

lemma conn_announce: "steps (on_server R) (announce bs)"
  unfolding announce_def by (intro conn_co)

lemma co_poll_ok: "allowed (on_server R) (co_poll_file n fid)"
proof (induction n)
  case (Suc n)
  then show ?case unfolding co_poll_file.simps by (intro co_intro conn_co eff_intro)
qed simp

lemma co_notify_ok: "allowed (on_server R) (co_notify_recipient f fid)"
  unfolding co_notify_recipient_def by (intro co_intro conn_co eff_intro)

lemma co_send_chunks_ok: "allowed (on_server R) (co_send_chunks base fid cs)"
proof (induction cs)
  case (Cons c cs)
  have "steps (on_server R) (send_chunk base fid c)" unfolding send_chunk_def by (intro conn_co eff_intro)
  then show ?case using Cons unfolding co_send_chunks.simps by (intro co_intro)
qed simp

lemma co_download_ok: "allowed (on_server R) (co_process_download base fid)"
  unfolding co_process_download_def by (intro co_intro conn_co eff_intro co_send_chunks_ok)

end

context server_effect
begin

lemma eff_save_chunk [eff_intro]: "steps R (save_chunk base fid i d)"
  unfolding save_chunk_def by (intro eff_intro)

lemma co_recv_ok: "allowed (on_server R) (co_recv_chunks n base fid expected)"
proof (induction n)
  case (Suc n)
  then show ?case unfolding co_recv_chunks.simps co_store_chunk_def by (intro co_intro conn_co eff_intro)
qed simp

lemma co_upload_ok: "allowed (on_server R) (co_process_upload base fid)"
  unfolding co_process_upload_def by (intro co_intro conn_co conn_announce eff_intro co_poll_ok co_recv_ok co_notify_ok)

lemma co_client_ok: "allowed R (co_handle_client base inp)"
proof -
  have "allowed (on_server R) (co_process_request base)"
    unfolding co_process_request_def Let_def by (intro co_intro conn_co co_upload_ok co_download_ok)
  then show ?thesis
    unfolding co_handle_client_def on_server_def by (intro co_intro allowed_with_local) simp
qed

lemma co_expiry_ok: "allowed R (co_cleanup_expired base)"
  unfolding co_cleanup_expired_def co_delete_file_data_def Let_def by (intro co_intro eff_intro)

end

end
