(* ===== verification/Server_Tasks.thy ===== *)
theory Server_Tasks
  imports Call_Tasks File_Tasks
begin

text \<open>
  The handlers of the WebSocket server as coroutines (\<^verbatim>\<open>server/ws_server.py\<close>, \<^verbatim>\<open>rooms.py\<close>, \<^verbatim>\<open>auth.py\<close>, \<^verbatim>\<open>offline.py\<close>): a
  step is a statement of the database or the code between two awaits; a packet that is sent goes out at once.
  Each coroutine run alone is the handler of Ws_Server. A schedule interleaves them with the coroutines of File_Tasks.
\<close>

section \<open>Sending and queueing\<close>

text \<open>Send to a user if online; else, or when the send fails, what has to be queued.\<close>

definition send_else :: "string \<Rightarrow> string \<Rightarrow> (string \<times> int) option server_prog \<Rightarrow> (string \<times> int) option server_prog" where
  "send_else to_user raw queue =
    bnd (router_get to_user) (\<lambda>t. case t of
      Some t \<Rightarrow> attempt (thn (ws_send t raw) (ret None)) (\<lambda>_. queue)
    | None \<Rightarrow> queue)"

definition stamped_now :: "string \<Rightarrow> (string \<times> int) option server_prog" where
  "stamped_now i = bnd now (\<lambda>ts. ret (Some (i, ts)))"

definition co_enqueue :: "string \<Rightarrow> string \<Rightarrow> (string \<times> int) option \<Rightarrow> (server, bool) coro" where
  "co_enqueue to_user raw entry = (case entry of
     None \<Rightarrow> Value False
   | Some (i, ts) \<Rightarrow> cbnd (atom (dbm (db_enqueue i to_user raw ts))) (\<lambda>_. Value True))"

definition co_send_or_queue :: "string \<Rightarrow> string \<Rightarrow> (exn + string) \<Rightarrow> (server, string) coro" where
  "co_send_or_queue to_user raw qid =
    cbnd (atom (send_else to_user raw (bnd (lift_result qid) stamped_now))) (\<lambda>entry.
    cbnd (co_enqueue to_user raw entry) (\<lambda>queued.
    Value (if queued then ''queued'' else ''delivered'')))"

definition co_route_to_member :: "packet \<Rightarrow> string \<Rightarrow> string \<Rightarrow> string \<Rightarrow> (server, unit) coro" where
  "co_route_to_member pkt payload sender member =
    (if member = sender then Value ()
     else cbnd (atom (send_else member payload
         (bnd new_id (\<lambda>fresh. stamped_now (py_str (jget_or pkt ''id'' (JStr fresh)) @ '':'' @ member))))) (\<lambda>entry.
       cbnd (co_enqueue member payload entry) (\<lambda>_. Value ())))"

definition co_route_room_message :: "string \<Rightarrow> packet \<Rightarrow> string \<Rightarrow> (server, unit) coro" where
  "co_route_room_message room_id pkt sender =
    cbnd (atom (get_members room_id)) (co_each (co_route_to_member pkt (json_dumps (JObj pkt)) sender))"

section \<open>Logging in and out\<close>

definition status_to :: "string \<Rightarrow> string \<times> ws \<Rightarrow> unit server_prog" where
  "status_to pkt x = (case x of (uname, w) \<Rightarrow> attempt (ws_send w pkt) (\<lambda>_. router_unregister uname))"

definition co_broadcast_status :: "string \<Rightarrow> string \<Rightarrow> (server, unit) coro" where
  "co_broadcast_status username status =
    fuse (bnd (make_packet (type_str STATUS) [(''user'', JStr username), (''status'', JStr status)]) (\<lambda>pkt.
          bnd (gets connections) (\<lambda>conns. ret (pkt, filter (\<lambda>x. fst x \<noteq> username) conns))))
      (\<lambda>(pkt, others). co_each (\<lambda>x. atom (status_to pkt x)) others)"

definition co_flush_offline :: "ws \<Rightarrow> string \<Rightarrow> (server, unit) coro" where
  "co_flush_offline w username =
    cbnd (atom (offline_flush username 0)) (\<lambda>queued.
    cbnd (if queued \<noteq> [] then atom (send_packet w SYNC_RESPONSE [(''messages'', JList (map JStr queued))]) else Value ()) (\<lambda>_.
    atom (offline_clear username)))"

definition co_on_auth_success :: "ws \<Rightarrow> json \<Rightarrow> string \<Rightarrow> (server, string) coro" where
  "co_on_auth_success w token username =
    cbnd (atom (thn (router_register username w) (send_packet w AUTH_RESPONSE (auth_kwargs (Auth_Ok token username))))) (\<lambda>_.
    cbnd (co_flush_offline w username) (\<lambda>_.
    cbnd (co_broadcast_status username ''online'') (\<lambda>_.
    Value username)))"

definition co_auth_register :: "string \<Rightarrow> json \<Rightarrow> json \<Rightarrow> (server, auth_result) coro" where
  "co_auth_register username password public_key =
    cbnd (atom (dbq (get_by_username username))) (\<lambda>u. case u of
      Some _ \<Rightarrow> Value (Auth_Fail ''USER_EXISTS'')
    | None \<Rightarrow>
        cbnd (atom (bnd (hash_password password) (\<lambda>hashed. bnd new_id (\<lambda>uid. bnd now (\<lambda>ts.
          bnd (lift_result (opt_text public_key)) (\<lambda>key. ret (hashed, uid, ts, key))))))) (\<lambda>(hashed, uid, ts, key).
        cbnd (atom (dbx (create_user uid username hashed ts key))) (\<lambda>_.
        cbnd (atom new_id) (\<lambda>token.
        cbnd (atom (dbx (create_session token uid username ts (ts + SESSION_TTL)))) (\<lambda>_.
        Value (Auth_Ok (JStr token) username))))))"

definition co_auth_login ::
  "(bytes \<Rightarrow> bytes \<Rightarrow> exn + bool) \<Rightarrow> string \<Rightarrow> json \<Rightarrow> (server, auth_result) coro" where
  "co_auth_login checkpw username password =
    cbnd (atom (dbq (get_by_username username))) (\<lambda>u. case u of
      None \<Rightarrow> Value (Auth_Fail ''AUTH_FAILED'')
    | Some user \<Rightarrow>
        if \<not> verify_password checkpw password (u_password user) then Value (Auth_Fail ''AUTH_FAILED'')
        else
          cbnd (atom (bnd now (\<lambda>ts. bnd new_id (\<lambda>token. ret (ts, token))))) (\<lambda>(ts, token).
          cbnd (atom (dbx (create_session token (u_id user) username ts (ts + SESSION_TTL)))) (\<lambda>_.
          cbnd (atom (dbm (update_last_seen username ts))) (\<lambda>_.
          Value (Auth_Ok (JStr token) username)))))"

definition co_auth_answer :: "ws \<Rightarrow> string option \<Rightarrow> auth_result \<Rightarrow> (server, flow) coro" where
  "co_auth_answer w user res = (case res of
     Auth_Ok token username \<Rightarrow> cbnd (co_on_auth_success w token username) (\<lambda>u. Value (Continue (Some u)))
   | Auth_Fail err \<Rightarrow> cbnd (atom (send_packet w AUTH_RESPONSE (auth_kwargs res))) (\<lambda>_. Value (Continue user)))"

definition co_register :: "ws \<Rightarrow> string option \<Rightarrow> packet \<Rightarrow> (server, flow) coro" where
  "co_register w user pkt =
    cbnd (pure_result (strip_field pkt ''username'')) (\<lambda>uname.
    let pw = jget_or pkt ''password'' (JStr []) in
    if uname = [] \<or> \<not> truthy pw
    then cbnd (atom (send_packet w AUTH_RESPONSE [(''success'', JBool False), (''error'', JStr ''AUTH_FAILED'')]))
           (\<lambda>_. Value (Continue user))
    else cbnd (co_auth_register uname pw (jget pkt ''public_key'')) (co_auth_answer w user))"

definition co_token_login :: "json \<Rightarrow> (server, auth_result) coro" where
  "co_token_login token =
    cbnd (pure_result (opt_text token)) (\<lambda>t. case t of
      None \<Rightarrow> Value (Auth_Fail ''INVALID_TOKEN'')
    | Some t \<Rightarrow> cbnd (atom (validate_token t)) (\<lambda>session. case session of
        None \<Rightarrow> Value (Auth_Fail ''INVALID_TOKEN'')
      | Some row \<Rightarrow> Value (Auth_Ok token (s_username row))))"

definition co_password_login ::
  "(bytes \<Rightarrow> bytes \<Rightarrow> exn + bool) \<Rightarrow> json \<Rightarrow> json \<Rightarrow> (server, auth_result) coro" where
  "co_password_login checkpw username password =
    cbnd (pure_result (opt_text username)) (\<lambda>u. case u of
      None \<Rightarrow> Value (Auth_Fail ''AUTH_FAILED'')
    | Some u \<Rightarrow> co_auth_login checkpw u password)"

definition co_login ::
  "(bytes \<Rightarrow> bytes \<Rightarrow> exn + bool) \<Rightarrow> ws \<Rightarrow> string option \<Rightarrow> packet \<Rightarrow> (server, flow) coro" where
  "co_login checkpw w user pkt =
    cbnd (case dget pkt ''token'' of
        Some token \<Rightarrow> co_token_login token
      | None \<Rightarrow> co_password_login checkpw (jget_or pkt ''username'' (JStr [])) (jget_or pkt ''password'' (JStr [])))
    (co_auth_answer w user)"

definition co_logout :: "packet \<Rightarrow> (server, flow) coro" where
  "co_logout pkt =
    cbnd (case dget pkt ''token'' of
        None \<Rightarrow> Value ()
      | Some token \<Rightarrow> cbnd (pure_result (opt_text token)) (\<lambda>t. case t of
            None \<Rightarrow> Value () | Some t \<Rightarrow> atom (dbm (delete_session t))))
    (\<lambda>_. Value Break)"

definition co_cleanup :: "ws \<Rightarrow> string option \<Rightarrow> (server, unit) coro" where
  "co_cleanup w user =
    fuse (gets (\<lambda>s. peer_of s w)) (\<lambda>peer.
    cbnd (case user of
        None \<Rightarrow> Value ()
      | Some u \<Rightarrow> if u = [] then Value () else
          fuse (thn (router_unregister u) (rate_reset u)) (\<lambda>_. co_broadcast_status u ''offline''))
    (\<lambda>_. atom (rate_reset peer)))"

section \<open>Keys, messages, files\<close>

definition co_key_request :: "ws \<Rightarrow> packet \<Rightarrow> (server, unit) coro" where
  "co_key_request w pkt =
    cbnd (pure_result (strip_field pkt ''username'')) (\<lambda>target.
    if target = []
    then atom (send_packet w KEY_RESPONSE [(''success'', JBool False), (''error'', JStr ''MISSING_USERNAME'')])
    else cbnd (atom (dbq (get_public_key target))) (\<lambda>key. atom
      (if (case key of None \<Rightarrow> False | Some k \<Rightarrow> k \<noteq> [])
       then send_packet w KEY_RESPONSE [(''success'', JBool True), (''username'', JStr target),
             (''public_key'', opt_json key)]
       else send_packet w KEY_RESPONSE [(''success'', JBool False), (''username'', JStr target),
             (''error'', JStr ''KEY_NOT_FOUND'')])))"

definition co_message :: "ws \<Rightarrow> string \<Rightarrow> packet \<Rightarrow> (server, unit) coro" where
  "co_message w username pkt =
    cbnd (pure_result (name_field pkt ''to'')) (\<lambda>to_user. case to_user of
      None \<Rightarrow> Value ()
    | Some to_user \<Rightarrow>
        let pkt = stamp username pkt; raw = json_dumps (JObj pkt) in
        cbnd (co_send_or_queue to_user raw (item_str pkt ''id'')) (\<lambda>status.
        cbnd (pure_result (item pkt ''id'')) (\<lambda>i.
        atom (send_packet w DELIVERY [(''msg_id'', i), (''status'', JStr status)]))))"

definition co_message_edit :: "string \<Rightarrow> string \<Rightarrow> ws \<Rightarrow> string \<Rightarrow> packet \<Rightarrow> (server, unit) coro" where
  "co_message_edit kind status w username pkt =
    (let pkt = stamp username pkt; raw = json_dumps (JObj pkt) in
     cbnd (cbnd (pure_result (name_field pkt ''room_id'')) (\<lambda>room_id. case room_id of
         Some room_id \<Rightarrow> co_route_room_message room_id pkt username
       | None \<Rightarrow> cbnd (pure_result (name_field pkt ''to'')) (\<lambda>target. case target of
           None \<Rightarrow> Value ()
         | Some target \<Rightarrow>
             cbnd (atom (bnd (router_get target) (\<lambda>t. case t of
                 Some t \<Rightarrow> thn (ws_send t raw) (ret None)
               | None \<Rightarrow> stamped_now (py_str (jget pkt ''msg_id'') @ '':'' @ target @ '':'' @ kind)))) (\<lambda>entry.
             cbnd (co_enqueue target raw entry) (\<lambda>_. Value ())))))
     (\<lambda>_. atom (send_packet w DELIVERY [(''msg_id'', jget pkt ''msg_id''), (''status'', JStr status)])))"

definition co_file_init :: "string \<Rightarrow> ws \<Rightarrow> string \<Rightarrow> packet \<Rightarrow> (server, unit) coro" where
  "co_file_init base w username pkt =
    cbnd (pure_result (strip_field pkt ''to'')) (\<lambda>to_user.
    let file_id = jget_or pkt ''file_id'' (jget pkt ''id'') in
    if to_user = [] \<or> \<not> truthy file_id
    then atom (send_packet w ERROR [(''error'', JStr ''INVALID_FILE_INIT'')])
    else
      let pkt = dset ''file_id'' file_id (stamp username pkt) in
      cbnd (atom now) (\<lambda>t.
      cbnd (pure_result (as_str TypeError file_id)) (\<lambda>fid.
      cbnd (pure_result (py_int (jget_or pkt ''size'' (JInt 0)))) (\<lambda>size.
      cbnd (pure_result (py_int (jget_or pkt ''total_chunks'' (JInt 1)))) (\<lambda>total.
      let m = \<lparr>fm_id = fid, fm_name = jget_or pkt ''name'' (JStr ''unknown''),
        fm_size = size, fm_total_chunks = total, fm_uploader = username, fm_recipient = to_user,
        fm_encrypted_key = json_dumps (jget pkt ''encrypted_key''),
        fm_created_at = jget_or pkt ''timestamp'' (JInt t)\<rparr> in
      cbnd (pure_result (file_row_of m)) (\<lambda>row.
      cbnd (case row of None \<Rightarrow> Value () | Some r \<Rightarrow> atom (dbm (create_file r))) (\<lambda>_.
      cbnd (fuse (makedirs (file_dir base fid)) (\<lambda>_.
        co_send_or_queue to_user (json_dumps (JObj pkt)) (Inr (fid @ '':'' @ to_user @ '':init'')))) (\<lambda>_.
      atom (send_packet w FILE_ACK [(''file_id'', file_id)])))))))))"

definition co_file_notice :: "msg_type \<Rightarrow> string \<Rightarrow> packet \<Rightarrow> (server, unit) coro" where
  "co_file_notice ty username pkt =
    cbnd (pure_result (name_field pkt ''to'')) (\<lambda>target. case target of
      None \<Rightarrow> Value ()
    | Some target \<Rightarrow>
        let file_id = jget_or pkt ''file_id'' (jget pkt ''id'');
            raw = json_dumps (JObj (stamp username pkt)) in
        cbnd (co_send_or_queue target raw (Inr (py_str file_id @ '':'' @ target @ '':'' @ type_str ty))) (\<lambda>_. Value ()))"

section \<open>Rooms and synchronisation\<close>

definition co_room_create :: "ws \<Rightarrow> string \<Rightarrow> packet \<Rightarrow> (server, unit) coro" where
  "co_room_create w username pkt =
    cbnd (pure_result (strip_field pkt ''name'')) (\<lambda>name.
    let req_id = jget pkt ''req_id'' in
    if name = []
    then atom (send_packet w ROOM_INFO [(''req_id'', req_id), (''success'', JBool False),
           (''error'', JStr ''MISSING_NAME'')])
    else
      cbnd (atom (bnd new_id (\<lambda>room_id. bnd now (\<lambda>ts. ret (room_id, ts))))) (\<lambda>(room_id, ts).
      cbnd (atom (thn (dbx (insert_room \<lparr>r_id = room_id, r_name = name, r_created_by = username, r_created_at = ts\<rparr>))
        (dbm (insert_member \<lparr>m_room_id = room_id, m_username = username, m_joined_at = ts\<rparr>)))) (\<lambda>_.
      atom (send_packet w ROOM_INFO [(''req_id'', req_id), (''success'', JBool True),
        (''room'', room_json (room_id, name, username))]))))"

definition co_join_room :: "string \<Rightarrow> string \<Rightarrow> (server, bool) coro" where
  "co_join_room room_id username =
    cbnd (atom (room_exists room_id)) (\<lambda>b.
      if \<not> b then Value False
      else cbnd (atom now) (\<lambda>ts.
        cbnd (atom (dbm (insert_member \<lparr>m_room_id = room_id, m_username = username, m_joined_at = ts\<rparr>))) (\<lambda>_.
        Value True)))"

definition co_room_join :: "ws \<Rightarrow> string \<Rightarrow> packet \<Rightarrow> (server, unit) coro" where
  "co_room_join w username pkt =
    cbnd (pure_result (strip_field pkt ''room_id'')) (\<lambda>room_id.
    let req_id = jget pkt ''req_id'' in
    cbnd (co_join_room room_id username) (\<lambda>success.
    cbnd (if success then
           cbnd (atom (get_user_rooms username)) (\<lambda>user_rooms.
             Value (case List.find (\<lambda>(i, n, c). i = room_id) user_rooms of
               Some room \<Rightarrow> room_json room | None \<Rightarrow> JObj [(''id'', JStr room_id)]))
         else Value (JObj [(''id'', JStr room_id)])) (\<lambda>response.
    atom (send_packet w ROOM_INFO [(''req_id'', req_id), (''success'', JBool success), (''room'', response)]))))"

definition co_room_leave :: "ws \<Rightarrow> string \<Rightarrow> packet \<Rightarrow> (server, unit) coro" where
  "co_room_leave w username pkt =
    cbnd (pure_result (strip_field pkt ''room_id'')) (\<lambda>room_id.
    if room_id = [] then Value ()
    else cbnd (atom (leave_room room_id username)) (\<lambda>_.
      atom (send_packet w ROOM_INFO [(''success'', JBool True), (''room'', JObj [(''id'', JStr room_id)]),
        (''left'', JBool True)])))"

definition co_room_members :: "ws \<Rightarrow> packet \<Rightarrow> (server, unit) coro" where
  "co_room_members w pkt =
    cbnd (pure_result (strip_field pkt ''room_id'')) (\<lambda>room_id.
    let req_id = jget pkt ''req_id'' in
    cbnd (if room_id = [] then Value [] else atom (get_members room_id)) (\<lambda>members.
    atom (send_packet w ROOM_MEMBERS_LIST [(''req_id'', req_id), (''room_id'', JStr room_id),
      (''members'', JList (map JStr members))])))"

definition co_room_message :: "ws \<Rightarrow> string \<Rightarrow> packet \<Rightarrow> (server, unit) coro" where
  "co_room_message w username pkt =
    cbnd (pure_result (strip_field pkt ''room_id'')) (\<lambda>room_id.
    if room_id = [] then Value ()
    else cbnd (atom (get_members room_id)) (\<lambda>members.
      if username \<notin> set members then atom (send_packet w ERROR [(''error'', JStr ''NOT_IN_ROOM'')])
      else
        let pkt = stamp username pkt in
        cbnd (co_route_room_message room_id pkt username) (\<lambda>_.
        cbnd (pure_result (item pkt ''id'')) (\<lambda>i.
        atom (send_packet w DELIVERY [(''msg_id'', i), (''status'', JStr ''delivered'')])))))"

definition co_typing :: "string \<Rightarrow> packet \<Rightarrow> (server, unit) coro" where
  "co_typing username pkt =
    cbnd (pure_result (name_field pkt ''room_id'')) (\<lambda>room_id. case room_id of
      Some room_id \<Rightarrow> co_route_room_message room_id (stamp username pkt) username
    | None \<Rightarrow> cbnd (pure_result (name_field pkt ''to'')) (\<lambda>to_user. case to_user of
        None \<Rightarrow> Value ()
      | Some to_user \<Rightarrow> atom (send_quietly to_user (json_dumps (JObj (stamp username pkt))))))"

definition co_sync_request :: "ws \<Rightarrow> string \<Rightarrow> packet \<Rightarrow> (server, unit) coro" where
  "co_sync_request w username pkt =
    cbnd (pure_result (since_value (jget_or pkt ''since'' (JInt 0)))) (\<lambda>since.
    cbnd (case since of Some i \<Rightarrow> atom (offline_flush username i) | None \<Rightarrow> Value []) (\<lambda>queued.
    cbnd (atom (send_packet w SYNC_RESPONSE [(''messages'', JList (map JStr queued))])) (\<lambda>_.
    atom (offline_clear username))))"

section \<open>Dispatch\<close>

text \<open>A branch without a second step (also the relaying of audio) is an atom.\<close>

fun co_dispatch :: "string \<Rightarrow> ws \<Rightarrow> string \<Rightarrow> packet \<Rightarrow> msg_type option \<Rightarrow> (server, unit) coro" where
  "co_dispatch base w u pkt (Some KEY_REQUEST) = co_key_request w pkt"
| "co_dispatch base w u pkt (Some MESSAGE) = co_message w u pkt"
| "co_dispatch base w u pkt (Some MESSAGE_EDIT) = co_message_edit ''edit'' ''edited'' w u pkt"
| "co_dispatch base w u pkt (Some MESSAGE_DELETE) = co_message_edit ''delete'' ''deleted'' w u pkt"
| "co_dispatch base w u pkt (Some FILE_INIT) = co_file_init base w u pkt"
| "co_dispatch base w u pkt (Some FILE_ACK) = co_file_notice FILE_ACK u pkt"
| "co_dispatch base w u pkt (Some FILE_DONE) = co_file_notice FILE_DONE u pkt"
| "co_dispatch base w u pkt (Some FILE_CANCEL) = co_file_notice FILE_CANCEL u pkt"
| "co_dispatch base w u pkt (Some ROOM_CREATE) = co_room_create w u pkt"
| "co_dispatch base w u pkt (Some ROOM_JOIN) = co_room_join w u pkt"
| "co_dispatch base w u pkt (Some ROOM_LEAVE) = co_room_leave w u pkt"
| "co_dispatch base w u pkt (Some ROOM_MEMBERS) = co_room_members w pkt"
| "co_dispatch base w u pkt (Some ROOM_MESSAGE) = co_room_message w u pkt"
| "co_dispatch base w u pkt (Some CALL_INVITE) = co_call_invite w u pkt"
| "co_dispatch base w u pkt (Some CALL_ACCEPT) = co_call_accept w pkt"
| "co_dispatch base w u pkt (Some CALL_DECLINE) = co_call_decline pkt"
| "co_dispatch base w u pkt (Some CALL_END) = co_call_end u pkt"
| "co_dispatch base w u pkt (Some TYPING) = co_typing u pkt"
| "co_dispatch base w u pkt (Some SYNC_REQUEST) = co_sync_request w u pkt"
| "co_dispatch base w u pkt ty = atom (dispatch base w u pkt ty)"

definition co_handle_pkt ::
  "(bytes \<Rightarrow> bytes \<Rightarrow> exn + bool) \<Rightarrow> string \<Rightarrow> ws \<Rightarrow> string option \<Rightarrow> packet \<Rightarrow> (server, flow) coro" where
  "co_handle_pkt checkpw base w user pkt =
    (let ty = packet_type pkt in
     if ty = Some AUTH_REGISTER then co_register w user pkt
     else if ty = Some AUTH_LOGIN then co_login checkpw w user pkt
     else if ty = Some AUTH_LOGOUT then co_logout pkt
     else case user of
       None \<Rightarrow> cbnd (atom (send_packet w ERROR [(''error'', JStr ''UNAUTHORIZED'')])) (\<lambda>_. Value (Continue None))
     | Some u \<Rightarrow> cbnd (co_dispatch base w u pkt ty) (\<lambda>_. Value (Continue (Some u))))"

section \<open>Run alone, a coroutine is its handler\<close>

lemmas alone_auth_cases [alone_simps] = auth_result.case_distrib [of alone]

lemmas branch_cong = case_cong auth_result.case_cong

lemma alone_enqueue: "alone (co_enqueue u raw e) = (case e of None \<Rightarrow> ret False
    | Some (i, ts) \<Rightarrow> thn (dbm (db_enqueue i u raw ts)) (ret True))"
  by (simp add: co_enqueue_def alone_simps thn_def split: option.split cong: branch_cong)

lemma alone_send_or_queue [alone_simps]: "alone (co_send_or_queue u raw qid) = send_or_queue u raw qid"
  by (rule ext) (auto simp: co_send_or_queue_def send_or_queue_def send_else_def alone_simps alone_enqueue stamped_now_def
      prog_simps offline_enqueue_def Let_def split: option.split sum.split)

lemma alone_route_to_member: "alone (co_route_to_member pkt payload sender m) = route_to_member pkt payload sender m"
  by (rule ext) (auto simp: co_route_to_member_def route_to_member_def queue_for_member_def send_else_def alone_simps
      alone_enqueue stamped_now_def prog_simps offline_enqueue_def split: option.split)

lemma alone_route_room [alone_simps]: "alone (co_route_room_message r pkt u) = route_room_message r pkt u"
  by (simp add: co_route_room_message_def route_room_message_def alone_simps alone_route_to_member cong: branch_cong)

lemma for_each_filter: "for_each f (filter P xs) = for_each (\<lambda>x. if P x then f x else ret ()) xs"
  by (induction xs) (simp_all add: thn_def)

lemma alone_broadcast [alone_simps]: "alone (co_broadcast_status u st) = broadcast_status u st"
  by (simp add: co_broadcast_status_def broadcast_status_def alone_simps bnd_bnd for_each_filter status_to_def
      case_prod_unfold if_distrib cong: branch_cong)

lemma alone_flush [alone_simps]: "alone (co_flush_offline w u) = flush_offline w u"
  by (simp add: co_flush_offline_def flush_offline_def alone_simps thn_def whenp_def cong: branch_cong)

lemma alone_auth_success [alone_simps]: "alone (co_on_auth_success w t u) = on_auth_success w t u"
  by (simp add: co_on_auth_success_def on_auth_success_def alone_simps thn_def bnd_bnd cong: branch_cong)

lemma alone_auth_register [alone_simps]: "alone (co_auth_register u p k) = auth_register u p k"
  by (simp add: co_auth_register_def auth_register_def alone_simps thn_def bnd_bnd cong: branch_cong)

lemma alone_auth_login [alone_simps]: "alone (co_auth_login c u p) = auth_login c u p"
  by (simp add: co_auth_login_def auth_login_def alone_simps thn_def bnd_bnd cong: branch_cong)

lemma alone_auth_answer: "alone (co_auth_answer w u r) = auth_answer w u r"
  by (simp add: co_auth_answer_def auth_answer_def alone_simps thn_def bnd_bnd cong: branch_cong)

lemma alone_register [alone_simps]: "alone (co_register w u pkt) = h_register w u pkt"
  by (simp add: co_register_def h_register_def alone_simps alone_auth_answer thn_def Let_def cong: branch_cong)

lemma alone_login [alone_simps]: "alone (co_login c w u pkt) = h_login c w u pkt"
  by (simp add: co_login_def h_login_def co_token_login_def token_login_def co_password_login_def password_login_def
      alone_simps alone_auth_answer cong: branch_cong)

lemma alone_logout [alone_simps]: "alone (co_logout pkt) = h_logout pkt"
  by (simp add: co_logout_def h_logout_def alone_simps thn_def cong: branch_cong)

lemma alone_cleanup: "alone (co_cleanup w u) = cleanup w u"
  by (simp add: co_cleanup_def cleanup_def alone_simps thn_def bnd_bnd cong: branch_cong)

lemma alone_key_request [alone_simps]: "alone (co_key_request w pkt) = h_key_request w pkt"
  by (simp add: co_key_request_def h_key_request_def alone_simps cong: branch_cong)

lemma alone_message [alone_simps]: "alone (co_message w u pkt) = h_message w u pkt"
  by (simp add: co_message_def h_message_def alone_simps Let_def cong: branch_cong)

lemma alone_message_edit [alone_simps]: "alone (co_message_edit k st w u pkt) = h_message_edit k st w u pkt"
  by (rule ext) (auto simp: co_message_edit_def h_message_edit_def alone_simps alone_enqueue stamped_now_def prog_simps
      offline_enqueue_def Let_def split: option.split sum.split)

lemma alone_file_init [alone_simps]: "alone (co_file_init b w u pkt) = h_file_init b w u pkt"
  by (simp add: co_file_init_def h_file_init_def register_file_def alone_simps thn_def bnd_bnd Let_def cong: branch_cong)

lemma alone_file_notice [alone_simps]: "alone (co_file_notice ty u pkt) = h_file_notice ty u pkt"
  by (simp add: co_file_notice_def h_file_notice_def alone_simps thn_def Let_def cong: branch_cong)

lemma alone_room_create [alone_simps]: "alone (co_room_create w u pkt) = h_room_create w u pkt"
  by (simp add: co_room_create_def h_room_create_def create_room_def alone_simps thn_def bnd_bnd Let_def cong: branch_cong)

lemma alone_room_join [alone_simps]: "alone (co_room_join w u pkt) = h_room_join w u pkt"
  by (simp add: co_room_join_def h_room_join_def co_join_room_def join_room_def alone_simps thn_def Let_def cong: branch_cong)

lemma alone_room_leave [alone_simps]: "alone (co_room_leave w u pkt) = h_room_leave w u pkt"
  by (simp add: co_room_leave_def h_room_leave_def alone_simps thn_def cong: branch_cong)

lemma alone_room_members [alone_simps]: "alone (co_room_members w pkt) = h_room_members w pkt"
  by (simp add: co_room_members_def h_room_members_def alone_simps Let_def cong: branch_cong)

lemma alone_room_message [alone_simps]: "alone (co_room_message w u pkt) = h_room_message w u pkt"
  by (simp add: co_room_message_def h_room_message_def alone_simps thn_def Let_def cong: branch_cong)

lemma alone_typing [alone_simps]: "alone (co_typing u pkt) = h_typing u pkt"
  by (simp add: co_typing_def h_typing_def alone_simps cong: branch_cong)

lemma alone_sync_request [alone_simps]: "alone (co_sync_request w u pkt) = h_sync_request w u pkt"
  by (simp add: co_sync_request_def h_sync_request_def alone_simps thn_def cong: branch_cong)

lemma alone_dispatch: "alone (co_dispatch b w u pkt ty) = dispatch b w u pkt ty"
  by (cases "(b, w, u, pkt, ty)" rule: co_dispatch.cases) (simp_all add: alone_simps h_message_delete_def)


section \<open>Every interleaving keeps the invariants\<close>

lemma allowed_auth_result [co_intro]:
  "(\<And>t u. allowed R (k t u)) \<Longrightarrow> (\<And>e. allowed R (l e)) \<Longrightarrow> allowed R (case r of Auth_Ok t u \<Rightarrow> k t u | Auth_Fail e \<Rightarrow> l e)"
  by (simp split: auth_result.split)

context packet_effect
begin

lemmas [co_intro] = allowed_fuse

lemma co_send_else: "steps R q \<Longrightarrow> steps R (send_else u raw q)"
  unfolding send_else_def by (intro eff_intro)

lemma co_stamped: "steps R (stamped_now i)"
  unfolding stamped_now_def by (intro eff_intro)

lemmas step_intro = eff_intro co_send_else co_stamped

lemma co_enqueue_ok: "allowed R (co_enqueue u raw e)"
  unfolding co_enqueue_def by (intro co_intro step_intro)

lemma co_send_or_queue_ok: "allowed R (co_send_or_queue u raw i)"
  unfolding co_send_or_queue_def by (intro co_intro co_enqueue_ok step_intro)

lemma co_route_ok: "allowed R (co_route_room_message r p u)"
  unfolding co_route_room_message_def co_route_to_member_def by (intro co_intro co_enqueue_ok step_intro)

lemma co_broadcast_ok: "allowed R (co_broadcast_status u st)"
  unfolding co_broadcast_status_def status_to_def by (intro co_intro step_intro)

lemma co_auth_answer_ok: "allowed R (co_auth_answer w u r)"
  unfolding co_auth_answer_def co_on_auth_success_def co_flush_offline_def
  by (intro co_intro co_broadcast_ok step_intro)

lemma co_register_ok: "allowed R (co_register w u p)"
  unfolding co_register_def co_auth_register_def Let_def by (intro co_intro co_auth_answer_ok step_intro)
lemma co_login_ok: "allowed R (co_login c w u p)"
  unfolding co_login_def co_token_login_def co_password_login_def co_auth_login_def
  by (intro co_intro co_auth_answer_ok step_intro)
lemma co_logout_ok: "allowed R (co_logout p)"
  unfolding co_logout_def by (intro co_intro step_intro)
lemmas co_auth_ok = co_register_ok co_login_ok co_logout_ok

lemma co_cleanup_ok: "allowed R (co_cleanup w u)"
  unfolding co_cleanup_def by (intro co_intro co_broadcast_ok step_intro)

lemma co_key_request_ok: "allowed R (co_key_request w p)"
  unfolding co_key_request_def by (intro co_intro step_intro)
lemma co_message_ok: "allowed R (co_message w u p)"
  unfolding co_message_def Let_def by (intro co_intro co_send_or_queue_ok step_intro)
lemma co_message_edit_ok: "allowed R (co_message_edit k st w u p)"
  unfolding co_message_edit_def Let_def by (intro co_intro co_enqueue_ok co_route_ok step_intro)
lemma co_file_init_ok: "allowed R (co_file_init b w u p)"
  unfolding co_file_init_def Let_def by (intro co_intro co_send_or_queue_ok step_intro)
lemma co_file_notice_ok: "allowed R (co_file_notice ty u p)"
  unfolding co_file_notice_def Let_def by (intro co_intro co_send_or_queue_ok step_intro)
lemma co_typing_ok: "allowed R (co_typing u p)"
  unfolding co_typing_def by (intro co_intro co_route_ok step_intro)
lemma co_sync_request_ok: "allowed R (co_sync_request w u p)"
  unfolding co_sync_request_def by (intro co_intro step_intro)
lemma co_room_create_ok: "allowed R (co_room_create w u p)"
  unfolding co_room_create_def Let_def by (intro co_intro step_intro)
lemma co_room_join_ok: "allowed R (co_room_join w u p)"
  unfolding co_room_join_def co_join_room_def room_exists_def Let_def by (intro co_intro step_intro)
lemma co_room_leave_ok: "allowed R (co_room_leave w u p)"
  unfolding co_room_leave_def by (intro co_intro step_intro)
lemma co_room_members_ok: "allowed R (co_room_members w p)"
  unfolding co_room_members_def Let_def by (intro co_intro step_intro)
lemma co_room_message_ok: "allowed R (co_room_message w u p)"
  unfolding co_room_message_def Let_def by (intro co_intro co_route_ok step_intro)

end

context call_over_effect
begin

lemma co_dispatch_but_invite: "ty \<noteq> Some CALL_INVITE \<Longrightarrow> allowed R (co_dispatch b w u p ty)"
proof -
  have "allowed R (atom (dispatch b w u p ty))" for ty by (rule allowed_atom [OF eff_dispatch])
  note this [of ty]
  then show "ty \<noteq> Some CALL_INVITE \<Longrightarrow> ?thesis"
    by (cases "(b, w, u, p, ty)" rule: co_dispatch.cases)
      (simp_all add: co_key_request_ok co_message_ok co_message_edit_ok co_file_init_ok co_file_notice_ok co_typing_ok
        co_sync_request_ok co_room_create_ok co_room_join_ok co_room_leave_ok co_room_members_ok co_room_message_ok
        co_calls_ok del: dispatch.simps)
qed

end

context call_task_effect
begin

lemma co_dispatch_ok: "allowed R (co_dispatch b w u p ty)"
  by (cases "ty = Some CALL_INVITE") (simp_all add: co_call_invite_ok co_dispatch_but_invite)

lemma co_handle_ok: "allowed R (co_handle_pkt c b w u p)"
  unfolding co_handle_pkt_def Let_def by (intro co_intro co_auth_ok co_dispatch_ok step_intro)

end

section \<open>The server as a pool of coroutines\<close>

text \<open>
  A job is a packet that a connection starts to handle, the cleanup of a connection, a connection for a transfer with what
  its client sends, the removal of expired files, or one step of a coroutine. This allows more than the event loop does: also two packets of one connection at once.
\<close>

datatype job = Start ws "string option" packet | Leave ws "string option" | Client bytes | Clean | Go nat

definition as_unit :: "('s, 'a) coro \<Rightarrow> ('s, unit) coro" where
  "as_unit c = cbnd c (\<lambda>_. Value ())"

fun turn_of :: "(bytes \<Rightarrow> bytes \<Rightarrow> exn + bool) \<Rightarrow> string \<Rightarrow> job \<Rightarrow> (server, unit) turn" where
  "turn_of checkpw base (Start w u pkt) = Spawn (as_unit (co_handle_pkt checkpw base w u pkt))"
| "turn_of checkpw base (Leave w u) = Spawn (co_cleanup w u)"
| "turn_of checkpw base (Client inp) = Spawn (as_unit (co_handle_client base inp))"
| "turn_of checkpw base Clean = Spawn (as_unit (co_cleanup_expired base))"
| "turn_of checkpw base (Go i) = Resume i"

definition serve :: "(bytes \<Rightarrow> bytes \<Rightarrow> exn + bool) \<Rightarrow> string \<Rightarrow> job list \<Rightarrow> server \<Rightarrow> (server, unit) pool" where
  "serve checkpw base jobs s = run turn_step ([], s) (map (turn_of checkpw base) jobs)"

context task_effect
begin

lemma serve_effect: "R s (snd (serve c b jobs s))"
  unfolding serve_def
proof (rule run_effect)
  show "\<forall>co. Spawn co \<in> set (map (turn_of c b) jobs) \<longrightarrow> allowed R co"
  proof (intro allI impI)
    fix co assume "Spawn co \<in> set (map (turn_of c b) jobs)"
    then obtain j where j: "turn_of c b j = Spawn co" by auto
    have "allowed R (as_unit (co_handle_pkt c b w u pkt))" for w u pkt
      unfolding as_unit_def by (intro co_intro co_handle_ok)
    moreover have "allowed R (as_unit (co_handle_client b inp))" "allowed R (as_unit (co_cleanup_expired b))" for inp
      unfolding as_unit_def by (intro co_intro co_client_ok co_expiry_ok)+
    ultimately show "allowed R co" using j co_cleanup_ok by (cases j) auto
  qed
qed simp

end

interpretation filed_disk: server_effect files_calls
proof unfold_locales
  show "files_calls s (s\<lparr>db := d\<rparr>)" if "db_step (db s) d" for s d
    using call_sessions_step [OF that] by (simp add: files_calls_def unfiled_def get_call_def)
qed (simp add: files_calls_def unfiled_def)

lemma settles_quick: "allowed files_calls c \<Longrightarrow> settles unfiled c {}"
  using allowed_settles [of unfiled c] by (simp add: files_calls_def [abs_def])

lemma settles_unit: "settles D c {} \<Longrightarrow> settles D (as_unit c) {}"
  unfolding as_unit_def by (intro settles_cbnd) auto

lemma handle_settles: "settles unfiled (as_unit (co_handle_pkt c b w u pkt)) {}"
proof -
  have "settles unfiled (co_dispatch b w v pkt ty) {}" for v ty
    by (cases "ty = Some CALL_INVITE") (simp_all add: invite_settles settles_quick filed.co_dispatch_but_invite)
  moreover have "settles unfiled (co_register w u pkt) {}" "settles unfiled (co_login c w u pkt) {}"
    "settles unfiled (co_logout pkt) {}" "settles unfiled (atom (send_packet w ty kw)) {}" for ty kw
    by (intro settles_quick filed.co_auth_ok allowed_atom filed.eff_send_packet)+
  ultimately have "settles unfiled (co_handle_pkt c b w u pkt) {}"
    unfolding co_handle_pkt_def Let_def by (auto split: option.split intro!: settles_cbnd)
  then show ?thesis by (rule settles_unit)
qed

lemma serve_filed: "unfiled s = {} \<Longrightarrow> covered unfiled (serve c b jobs s)"
  unfolding serve_def
proof (rule run_covered)
  show "\<forall>co. Spawn co \<in> set (map (turn_of c b) jobs) \<longrightarrow> settles unfiled co {}"
  proof (intro allI impI)
    fix co assume "Spawn co \<in> set (map (turn_of c b) jobs)"
    then obtain j where "turn_of c b j = Spawn co" by auto
    then show "settles unfiled co {}"
      using handle_settles settles_quick [OF filed.co_cleanup_ok] settles_unit [OF settles_quick [OF filed_disk.co_client_ok]]
        settles_unit [OF settles_quick [OF filed_disk.co_expiry_ok]]
      by (cases j) auto
  qed
qed (simp add: covered_def)

text \<open> C4: The invariants of the server do not depend on handling packets one at a time: in whatever order the steps
  of any number of handlers, cleanups, file transfers and expiry runs interleave at their awaits, the database keys stay unique, the sessions of
  the call table well formed, every account as it is, and what was sent stays sent. A session may be without its row
  while an invitation is handled, but when no handler is under way every session has one. \<close>

theorem interleaved_server_invariant:
  assumes "db_ok (db s)" "calls_ok s" "get_by_username u (db s) = Some r" "(cs, t) = serve checkpw base jobs s"
  shows "db_ok (db t) \<and> sessions_ok t \<and> ((\<forall>c \<in> set cs. ended c) \<longrightarrow> calls_ok t) \<and> prefix (outbox s) (outbox t) \<and>
    (\<exists>r'. get_by_username u (db t) = Some r' \<and> u_id r' = u_id r \<and> u_password r' = u_password r \<and> u_public_key r' = u_public_key r)"
proof -
  have t: "t = snd (serve checkpw base jobs s)" using assms(4) by (metis snd_conv)
  have "sessions_ok t" using calltasks.serve_effect [of s checkpw base jobs] assms(2)
    by (simp add: t keeps_sessions_def calls_ok_parts)
  moreover have "unfiled t = {}" if "\<forall>c \<in> set cs. ended c"
    using serve_filed [of s checkpw base jobs] covered_ended [of unfiled cs t] that assms(2,4) by (simp add: calls_ok_parts)
  ultimately show ?thesis
    using keytasks.serve_effect [of s checkpw base jobs] outtasks.serve_effect [of s checkpw base jobs]
      accttasks.serve_effect [of s checkpw base jobs] assms(1,3)
    by (simp add: t keeps_keys_def out_grows_def keeps_accounts_def calls_ok_parts)
qed

section \<open>Races\<close>

lemma co_message_start:
  assumes "packet_type pkt = Some MESSAGE" "dget pkt ''to'' = Some (JStr v)" "v \<noteq> []" "dget pkt ''id'' = Some (JStr i)"
  shows "as_unit (co_handle_pkt checkpw base w (Some u) pkt) =
    cbnd (atom (send_else v (json_dumps (JObj (stamp u pkt))) (stamped_now i))) (\<lambda>entry.
    cbnd (co_enqueue v (json_dumps (JObj (stamp u pkt))) entry) (\<lambda>queued.
    cbnd (atom (send_packet w DELIVERY [(''msg_id'', JStr i), (''status'', JStr (if queued then ''queued'' else ''delivered''))]))
      (\<lambda>_. Value ())))"
proof -
  have "name_field pkt ''to'' = Inr (Some v)" using assms(2,3) by (simp add: name_field_def jget_def as_name_def)
  moreover have "item_str (stamp u pkt) ''id'' = Inr i" "item (stamp u pkt) ''id'' = Inr (JStr i)"
    using assms(4) by (simp_all add: item_str_def item_def stamp_def)
  moreover have "bnd (lift_result (Inr i)) stamped_now = stamped_now i" by (rule ext) (simp add: prog_simps)
  ultimately show ?thesis
    using assms(1) by (simp add: as_unit_def co_handle_pkt_def co_message_def co_send_or_queue_def pure_result_def cbnd_cbnd Let_def)
qed

text \<open> C37: A message is lost when its addressee logs in at the wrong moment. The sender's handler finds the addressee
  offline; before it has written the packet to the queue, the addressee's handler reads the (empty) queue; then
  the packet is written, and the addressee's handler clears the queue it believes to have delivered. The sender is told that
  the packet is queued, the addressee has received nothing but the answer to the login, and nothing is in the queue. \<close>

theorem login_race_loses_message:
  assumes "packet_type pkt = Some MESSAGE" "dget pkt ''to'' = Some (JStr v)" "v \<noteq> []" "dget pkt ''id'' = Some (JStr i)"
    and "packet_type lp = Some AUTH_LOGIN" "dget lp ''token'' = Some (JStr tok)"
    and "get_session tok (clock s) (db s) = Some row" "s_username row = v"
    and "lookup (connections s) v = None" "wu \<notin> broken s" "wv \<notin> broken s" "queued_box v (db s) = []"
    and "t = snd (serve checkpw base [Start wu (Some u) pkt, Start wv None lp, Go 0, Go 1, Go 1, Go 1, Go 0, Go 1, Go 0] s)"
  shows "\<exists>x y. outbox t = outbox s @
      [(wv, json_dumps (JObj (packet_fields ''AUTH_RESPONSE'' x (clock s) (auth_kwargs (Auth_Ok (JStr tok) v))))),
       (wu, json_dumps (JObj (packet_fields ''DELIVERY'' y (clock s) [(''msg_id'', JStr i), (''status'', JStr ''queued'')])))] \<and>
    queued_box v (db t) = []"
proof -
  let ?raw = "json_dumps (JObj (stamp u pkt))"
  let ?auth = "\<lambda>x. json_dumps (JObj (packet_fields ''AUTH_RESPONSE'' x (clock s) (auth_kwargs (Auth_Ok (JStr tok) v))))"
  have login: "as_unit (co_handle_pkt checkpw base wv None lp) =
      cbnd (atom (validate_token tok)) (\<lambda>session. cbnd (case session of
        None \<Rightarrow> Value (Auth_Fail ''INVALID_TOKEN'') | Some row \<Rightarrow> Value (Auth_Ok (JStr tok) (s_username row))) (\<lambda>r.
      cbnd (co_auth_answer wv None r) (\<lambda>_. Value ())))"
    using assms(5,6) by (simp add: as_unit_def co_handle_pkt_def co_login_def co_token_login_def pure_result_def cbnd_cbnd)
  have "get_queued v 0 (clear_queue v d) = []" for d by (simp add: get_queued_def clear_queue_def)
  then show ?thesis
    using assms(7-13)
    by (simp add: serve_def co_message_start [OF assms(1-4)] login go_atoms cbnd_cbnd send_else_def stamped_now_def validate_token_def
        co_auth_answer_def co_on_auth_success_def co_flush_offline_def co_enqueue_def prog_simps queued_box_def
        offline_flush_def offline_clear_def del: turn_step.simps(2))
      blast
qed

text \<open>Two registrations of one name at once: both find the name free, the second insert raises, and its connection is
  closed without an answer (one after the other, the second is told that the name exists).\<close>

lemma hash_password_ok: "\<exists>h. hash_password (JStr p) s = (Inr h, s\<lparr>epos := epos s + 16\<rparr>)"
  by (auto simp: hash_password_app pbkdf2_def PBKDF2_ITERATIONS_def Let_def split: sum.split)

lemma co_register_start:
  assumes "packet_type p = Some AUTH_REGISTER" "dget p ''username'' = Some (JStr n)" "py_strip n = n" "n \<noteq> []"
    and "dget p ''password'' = Some (JStr pw)" "pw \<noteq> []" "dget p ''public_key'' = None"
  shows "as_unit (co_handle_pkt checkpw base w None p) =
    cbnd (co_auth_register n (JStr pw) JNull) (\<lambda>r. cbnd (co_auth_answer w None r) (\<lambda>_. Value ()))"
proof -
  have "strip_field p ''username'' = Inr n" using assms(2,3) by (simp add: strip_field_def str_field_def jget_or_def)
  then show ?thesis
    using assms by (simp add: as_unit_def co_handle_pkt_def co_register_def pure_result_def jget_or_def jget_def cbnd_cbnd Let_def)
qed

lemma register_race:
  assumes "packet_type p = Some AUTH_REGISTER" "dget p ''username'' = Some (JStr n)" "py_strip n = n" "n \<noteq> []"
    and "dget p ''password'' = Some (JStr pw)" "pw \<noteq> []" "dget p ''public_key'' = None"
    and "packet_type q = Some AUTH_REGISTER" "dget q ''username'' = Some (JStr n)"
    and "dget q ''password'' = Some (JStr pw')" "pw' \<noteq> []" "dget q ''public_key'' = None"
    and "users (db s) = []"
    and "(cs, t) = serve checkpw base [Start w None p, Start w' None q, Go 0, Go 1, Go 0, Go 0, Go 1, Go 1] s"
  shows "cs ! 1 = Error IntegrityError \<and> map u_name (users (db t)) = [n] \<and> outbox t = outbox s"
proof -
  obtain h where h: "\<And>x :: server. hash_password (JStr pw) x = (Inr (h x), x\<lparr>epos := epos x + 16\<rparr>)"
    using hash_password_ok by metis
  obtain h' where h': "\<And>x :: server. hash_password (JStr pw') x = (Inr (h' x), x\<lparr>epos := epos x + 16\<rparr>)"
    using hash_password_ok by metis
  show ?thesis
    using assms(13,14)
    by (simp add: serve_def co_register_start [OF assms(1-7)] co_register_start [OF assms(8,9,3,4,10-12)] co_auth_register_def
        go_atoms cbnd_cbnd prog_simps get_by_username_def create_user_def h h' del: turn_step.simps(2))
qed

section \<open>Witnesses\<close>

definition race_server :: server where
  "race_server = (boot byte_of 5 0)\<lparr>db := empty_db\<lparr>sessions := [\<lparr>s_token = ''tok'', s_user_id = ''1'', s_username = ''bob'',
     s_created_at = 1, s_expires_at = 100\<rparr>]\<rparr>\<rparr>"

lemma login_race_loses_message_witness:
  "\<exists>t. queued_box ''bob'' (db t) = [] \<and> length (outbox t) = 2 \<and> t = snd (serve (\<lambda>_ _. Inr False) ''/srv''
     [Start 1 (Some ''ann'') [(''type'', JStr ''MESSAGE''), (''id'', JStr ''m''), (''to'', JStr ''bob'')],
      Start 2 None [(''type'', JStr ''AUTH_LOGIN''), (''token'', JStr ''tok'')], Go 0, Go 1, Go 1, Go 1, Go 0, Go 1, Go 0] race_server)"
proof -
  let ?p = "[(''type'', JStr ''MESSAGE''), (''id'', JStr ''m''), (''to'', JStr ''bob'')]"
  let ?l = "[(''type'', JStr ''AUTH_LOGIN''), (''token'', JStr ''tok'')]"
  have "packet_type ?p = Some MESSAGE" "packet_type ?l = Some AUTH_LOGIN" by (simp_all add: packet_type_def jget_def msg_type_of_Some)
  then show ?thesis
    using login_race_loses_message [where pkt = ?p and lp = ?l and v = "''bob''" and i = "''m''" and tok = "''tok''" and s = race_server
        and wu = 1 and wv = 2 and checkpw = "\<lambda>_ _. Inr False" and base = "''/srv''" and u = "''ann''", OF _ _ _ _ _ _ _ _ _ _ _ _ refl]
    by (fastforce simp: race_server_def boot_def empty_db_def get_session_def lookup_def queued_box_def get_queued_def)
qed

lemma interleaved_server_invariant_witness:
  "\<exists>cs t. serve (\<lambda>_ _. Inr False) ''/srv'' [Start 1 None [(''type'', JStr ''PING'')], Go 0, Leave 1 None, Go 1, Go 0]
     (srv_of sys_example) = (cs, t) \<and> db_ok (db t) \<and> sessions_ok t \<and> (\<exists>r. get_by_username ''a'' (db t) = Some r)"
proof -
  let ?jobs = "[Start 1 None [(''type'', JStr ''PING'')], Go 0, Leave 1 None, Go 1, Go 0]"
  have "get_by_username ''a'' (db (srv_of sys_example)) = Some account_a"
    by (simp add: sys_example_def get_by_username_def account_a_def)
  moreover have "db_ok (db (srv_of sys_example))" "calls_ok (srv_of sys_example)"
    by (simp_all add: sys_example_def db_ok_def empty_db_def calls_ok_def get_session_mem_def boot_def account_a_def)
  moreover obtain cs t where "(cs, t) = serve (\<lambda>_ _. Inr False) ''/srv'' ?jobs (srv_of sys_example)"
    using prod.collapse [of "serve (\<lambda>_ _. Inr False) ''/srv'' ?jobs (srv_of sys_example)"] by blast
  ultimately have "(cs, t) = serve (\<lambda>_ _. Inr False) ''/srv'' ?jobs (srv_of sys_example)" "db_ok (db t)" "sessions_ok t"
    "\<exists>r. get_by_username ''a'' (db t) = Some r"
    using interleaved_server_invariant [of "srv_of sys_example" "''a''" account_a cs t "\<lambda>_ _. Inr False" "''/srv''" ?jobs]
    by blast+
  then show ?thesis by metis
qed

end
