(* ===== verification/Call_Race.thy ===== *)
theory Call_Race
  imports Server_Tasks Call_End_To_End
begin

text \<open>
  A call that is accepted while the caller hangs up: the two handlers of the server interleave, and what they leave in
  its database and at the caller's client.
\<close>

section \<open>The server\<close>

lemma accept_start:
  assumes "packet_type p = Some CALL_ACCEPT" "dget p ''session_id'' = Some (JStr sid)"
  shows "as_unit (co_handle_pkt checkpw base w (Some v) p) =
    cbnd (atom (pick_up w sid p)) (\<lambda>r. cbnd (case r of
        None \<Rightarrow> Value ()
      | Some (c, info) \<Rightarrow>
          cbnd (atom (dbm (update_call_status sid ''active''))) (\<lambda>_.
          atom (bnd now (\<lambda>ts. signal (cs_caller c) ''CALL_ACCEPT'' sid ts
            [(''from'', JStr (cs_callee c)), (''to'', JStr (cs_caller c)),
             (''callee_ip'', JStr (ci_ip info)), (''local_port'', ci_udp_port info),
             (''callee_udp_port'', ci_udp_port info), (''ephemeral_pubkey'', ci_pubkey info),
             (''callee_pubkey'', ci_pubkey info)])))) (\<lambda>_. Value ()))"
  using assms by (simp add: as_unit_def co_handle_pkt_def co_call_accept_def co_with_call_def pure_result_def jget_or_def cbnd_cbnd)

lemma end_start:
  assumes "packet_type q = Some CALL_END" "dget q ''session_id'' = Some (JStr sid)"
  shows "as_unit (co_handle_pkt checkpw base w (Some u) q) =
    cbnd (atom (hang_up sid)) (\<lambda>r. cbnd (case r of
        None \<Rightarrow> Value ()
      | Some (c, t) \<Rightarrow>
          cbnd (atom (dbm (db_end_call sid t False))) (\<lambda>_.
          atom (bnd now (\<lambda>ts. signal (other_party c u) ''CALL_END'' sid ts [])))) (\<lambda>_. Value ()))"
  using assms by (simp add: as_unit_def co_handle_pkt_def co_call_end_def co_call_over_def co_with_call_def pure_result_def
      jget_or_def cbnd_cbnd)

lemma row_after_race:
  assumes "get_call sid d = Some row"
  shows "get_call sid (update_call_status sid ''active'' (db_end_call sid t False d)) =
    Some (row\<lparr>k_ended_at := Some t, k_relay_used := 0, k_status := ''active''\<rparr>)"
  using assms
proof -
  have "List.find (\<lambda>k. k_id k = sid) ks = Some row \<Longrightarrow> List.find (\<lambda>k. k_id k = sid)
      (call_sessions (update_call_status sid ''active'' (db_end_call sid t False (d\<lparr>call_sessions := ks\<rparr>)))) =
    Some (row\<lparr>k_ended_at := Some t, k_relay_used := 0, k_status := ''active''\<rparr>)" for ks
    by (induction ks) (auto simp: update_call_status_def db_end_call_def split: if_splits)
  from this [of "call_sessions d"] assms show ?thesis by (simp add: get_call_def)
qed

abbreviation accepted_packet :: "string \<Rightarrow> int \<Rightarrow> string \<Rightarrow> string \<Rightarrow> string \<Rightarrow> string \<Rightarrow> packet \<Rightarrow> packet" where
  "accepted_packet i ts sid v u ip p \<equiv> signal_fields ''CALL_ACCEPT'' i ts sid @
    [(''from'', JStr v), (''to'', JStr u), (''callee_ip'', JStr ip), (''local_port'', jget p ''local_port''),
     (''callee_udp_port'', jget p ''local_port''), (''ephemeral_pubkey'', jget p ''ephemeral_pubkey''),
     (''callee_pubkey'', jget p ''ephemeral_pubkey'')]"

lemma server_race:
  assumes "get_session_mem (calls s) sid = Some c" "cs_status c = ''pending''" "cs_caller c \<noteq> cs_callee c"
    and "reachable s (cs_caller c) = Some wa" "reachable s (cs_callee c) = Some wb" "get_call sid (db s) = Some row"
    and "packet_type p = Some CALL_ACCEPT" "dget p ''session_id'' = Some (JStr sid)"
    and "packet_type q = Some CALL_END" "dget q ''session_id'' = Some (JStr sid)"
    and "t = snd (serve checkpw base [Start wb (Some (cs_callee c)) p, Start wa (Some (cs_caller c)) q,
           Go 0, Go 1, Go 1, Go 1, Go 0, Go 0] s)"
  shows "\<exists>i j. get_session_mem (calls t) sid = None \<and>
    get_call sid (db t) = Some (row\<lparr>k_ended_at := Some (clock s), k_relay_used := 0, k_status := ''active''\<rparr>) \<and>
    outbox t = outbox s @ [(wb, json_dumps (JObj (signal_fields ''CALL_END'' i (clock s) sid))),
      (wa, json_dumps (JObj (accepted_packet j (clock s) sid (cs_callee c) (cs_caller c) (ip_of s wb) p)))]"
proof -
  have conns: "lookup (connections s) (cs_caller c) = Some wa" "wa \<notin> broken s"
    "lookup (connections s) (cs_callee c) = Some wb" "wb \<notin> broken s"
    using assms(4,5) by (auto simp: reachable_def split: option.splits if_splits)
  have pick: "pick_up wb sid p s = (Inr (Some (c, \<lparr>ci_ip = ip_of s wb, ci_udp_port = jget p ''local_port'',
      ci_pubkey = jget p ''ephemeral_pubkey''\<rparr>)), s\<lparr>calls := put_session sid (c\<lparr>cs_status := ''active'', cs_callee_info :=
      Some \<lparr>ci_ip = ip_of s wb, ci_udp_port = jget p ''local_port'', ci_pubkey = jget p ''ephemeral_pubkey''\<rparr>\<rparr>) (calls s)\<rparr>)"
    using assms(1,2) by (simp add: pick_up_def own_ip_def ip_of_def prog_simps Let_def)
  show ?thesis
    using assms(3,11) conns row_after_race [OF assms(6)]
    by (simp add: serve_def accept_start [OF assms(7,8)] end_start [OF assms(9,10)] go_atoms cbnd_cbnd pick hang_up_app
        sess.get_put sess.get_del signal_def other_party_def prog_simps del: turn_step.simps(2))
      blast
qed

section \<open>The caller\<close>

lemma lower_end: "py_lower ''end'' = ''end''" by code_simp

lemma enter_ends:
  assumes "ready a" "py_strip (buf a) = txt" "starts_with txt ''/''" "py_split txt = [''/call'', ''end'']"
    and "active_session a = Some sid" "sid \<noteq> []" "a1 = app_step C url host a (Key 10 io)"
  obtains i where "send_q a1 = send_q a @ [json_dumps (JObj (packet_fields ''CALL_END'' i (clock a)
      [(''session_id'', JStr sid), (''from'', JStr (me a)), (''timestamp'', JInt (clock a))]))]"
    "active_session a1 = None" "voice_key a1 = None" "ephemeral_private a1 = None" "ready a1"
proof -
  let ?a = "a\<lparr>buf := [], cursor := 0, dirty := True\<rparr>"
  obtain c cs where sid: "sid = c # cs" using assms(6) by (cases sid) auto
  obtain t where t: "run_command C io txt ?a = (Inr (), t)" "send_q t = send_q a @ [json_dumps (JObj (packet_fields
      ''CALL_END'' (next_id a) (clock a) [(''session_id'', JStr sid), (''from'', JStr (me a)), (''timestamp'', JInt (clock a))]))]"
    "active_session t = None" "voice_key t = None" "ephemeral_private t = None" "ready t"
    using assms(1,4,5) sid
    by (simp add: run_call part_def lower_words lower_end call_command_def client_call_end_def stop_audio_stream_def
        prog_simps set_notice_def next_id_def packet_fields_def)
  then show ?thesis using that enter_command [OF assms(2,3) t(1)] assms(7) by simp
qed

lemma json_wf_jget: "wf_members kvs \<Longrightarrow> json_wf (jget kvs k)"
  by (induction kvs) (auto simp: jget_def)

lemma accept_without_call:
  assumes "packet_type pkt = Some CALL_ACCEPT" "ready a" "host_ok h" "ephemeral_private a = None" "voice_key a = None"
    and "dget pkt ''session_id'' = Some (JStr sid)" "dget pkt ''callee_udp_port'' = Some (JInt p)" "dget pkt ''local_port'' = Some (JInt p)"
    and "a2 = app_step C url h a (Packet pkt)"
  obtains k where "length k = 32" "audio_stream a2 = Some (started k sid)" "active_session a2 = active_session a" "ready a2"
proof -
  have a2: "a2 = snd (case handle_call_accept C h pkt a of (Inl e, t) \<Rightarrow> (Inl e, t) | (Inr x, t) \<Rightarrow> (Inr (), t\<lparr>dirty := True\<rparr>))"
    using assms(1,2,9) packet_type_Some [of pkt CALL_ACCEPT]
    by (simp add: app_route_app route_packet_def bnd_app whenp_def call_types_def file_types_def app_call_incoming_def call_handle_incoming_def)
  have "\<exists>k. length k = 32 \<and> audio_stream a2 = Some (started k sid) \<and> active_session a2 = active_session a \<and> ready a2"
    unfolding a2 using assms(2-8) stream_start_ok [OF assms(3)]
    by (intro exI [of _ "map (\<lambda>i. entropy a (epos a + i)) [0..<32]"])
      (auto simp: handle_call_accept_def start_audio_stream_def Let_def jget_or_def jget_def prog_simps peer_address_def
        py_or_def urandom_def free_port_def host_ok_def)
  then show ?thesis using that by blast
qed

lemma end_without_call:
  assumes "py_strip (buf a) = txt" "starts_with txt ''/''" "py_split txt = [''/call'', ''end'']" "active_session a = None" "ready a"
  shows "audio_stream (app_step C url host a (Key 10 io)) = audio_stream a"
    "notice (app_step C url host a (Key 10 io)) = ''No active call.''"
proof -
  let ?a = "a\<lparr>buf := [], cursor := 0, dirty := True\<rparr>"
  obtain t where t: "run_command C io txt ?a = (Inr (), t)" "audio_stream t = audio_stream a" "notice t = ''No active call.''"
    using assms(3-5)
    by (simp add: run_call part_def lower_words lower_end call_command_def prog_simps set_notice_def Let_def)
  show "audio_stream (app_step C url host a (Key 10 io)) = audio_stream a"
    "notice (app_step C url host a (Key 10 io)) = ''No active call.''"
    using t enter_command [OF assms(1,2) t(1)] by simp_all
qed

lemma started_sends: "length k = 32 \<Longrightarrow> \<exists>p st. capture_callback C opus pcm (started k sid) = (Some p, st)"
  by (simp add: started_def stream_init_def capture_callback_def send_frame_def encrypt_packet_def Let_def)

section \<open>Both together\<close>

text \<open> C38: Hanging up can open the microphone. The caller types \<open>/call end\<close> while the callee's acceptance is under way:
  the acceptance has marked the session active when the hang-up removes it. Then the session is gone and the callee has
  been told so, but the database says for ever that the ended call is active, and the caller still receives the acceptance:
  its client starts a stream that captures and sends audio in a call that does not exist, and typing \<open>/call end\<close>
  again does not stop it. \<close>

theorem hang_up_opens_microphone:
  assumes "host_ok ha" "ready a" "py_strip (buf a) = txt" "starts_with txt ''/''" "py_split txt = [''/call'', ''end'']"
    and "active_session a = Some sid" "sid \<noteq> []" "a1 = app_step C url ha a (Key 10 io)"
    and "json_loads (last (send_q a1)) = Inr (JObj q)"
    and "get_session_mem (calls s) sid = Some c" "cs_status c = ''pending''" "cs_caller c \<noteq> cs_callee c" "calls_ok s"
    and "reachable s (cs_caller c) = Some wa" "reachable s (cs_callee c) = Some wb"
    and "json_wf (JObj p)" "packet_type p = Some CALL_ACCEPT" "dget p ''session_id'' = Some (JStr sid)"
    and "dget p ''local_port'' = Some (JInt n)"
    and "t = snd (serve checkpw base [Start wb (Some (cs_callee c)) p, Start wa (Some (cs_caller c)) q,
           Go 0, Go 1, Go 1, Go 1, Go 0, Go 0] s)"
    and "a2 = receive_raw C url ha a1 (snd (last (outbox t)))"
  shows "get_session_mem (calls t) sid = None \<and>
    (\<exists>row. get_call sid (db t) = Some row \<and> k_status row = ''active'' \<and> k_ended_at row = Some (clock s)) \<and>
    map fst (outbox t) = map fst (outbox s) @ [wb, wa] \<and> active_session a2 = None \<and>
    (\<exists>st pkt st'. audio_stream a2 = Some st \<and> capture_callback C opus pcm st = (Some pkt, st')) \<and>
    audio_stream (app_step C url ha (a2\<lparr>buf := buf a\<rparr>) (Key 10 io)) = audio_stream a2"
proof -
  obtain i where a1: "send_q a1 = send_q a @ [json_dumps (JObj (packet_fields ''CALL_END'' i (clock a)
      [(''session_id'', JStr sid), (''from'', JStr (me a)), (''timestamp'', JInt (clock a))]))]"
    "active_session a1 = None" "voice_key a1 = None" "ephemeral_private a1 = None" "ready a1"
    by (rule enter_ends [OF assms(2-8)])
  let ?q = "packet_fields ''CALL_END'' i (clock a)
      [(''session_id'', JStr sid), (''from'', JStr (me a)), (''timestamp'', JInt (clock a))]"
  have "json_wf (JObj ?q)" by (rule json_wf_packet) simp
  then have q: "q = ?q" using assms(9) a1(1) json_loads_dumps [of "JObj ?q"] by simp
  have qs: "packet_type q = Some CALL_END" "dget q ''session_id'' = Some (JStr sid)"
    by (simp_all add: q packet_type_Some packet_fields_def jget_def)
  obtain row where row: "get_call sid (db s) = Some row" using assms(10,13) by (auto simp: calls_ok_def)
  obtain j k where t: "get_session_mem (calls t) sid = None"
    "get_call sid (db t) = Some (row\<lparr>k_ended_at := Some (clock s), k_relay_used := 0, k_status := ''active''\<rparr>)"
    "outbox t = outbox s @ [(wb, json_dumps (JObj (signal_fields ''CALL_END'' j (clock s) sid))),
      (wa, json_dumps (JObj (accepted_packet k (clock s) sid (cs_callee c) (cs_caller c) (ip_of s wb) p)))]"
    using server_race [OF assms(10-12,14,15) row assms(17,18) qs assms(20)] by blast
  let ?go = "accepted_packet k (clock s) sid (cs_callee c) (cs_caller c) (ip_of s wb) p"
  have go: "json_wf (JObj ?go)" "packet_type ?go = Some CALL_ACCEPT" "dget ?go ''session_id'' = Some (JStr sid)"
    "dget ?go ''callee_udp_port'' = Some (JInt n)" "dget ?go ''local_port'' = Some (JInt n)"
    using assms(16,19) json_wf_jget [of p] by (simp_all add: packet_type_Some signal_fields_def jget_def)
  have a2: "a2 = app_step C url ha a1 (Packet ?go)" using assms(21) t(3) receive_dumps [OF go(1)] by simp
  obtain kk where k: "length kk = 32" "audio_stream a2 = Some (started kk sid)" "active_session a2 = active_session a1" "ready a2"
    by (rule accept_without_call [OF go(2) a1(5) assms(1) a1(4,3) go(3-5) a2])
  have "audio_stream (app_step C url ha (a2\<lparr>buf := buf a\<rparr>) (Key 10 io)) = audio_stream (a2\<lparr>buf := buf a\<rparr>)"
    by (rule end_without_call) (use assms(3-5) k(3,4) a1(2) in auto)
  then show ?thesis using t k(2,3) a1(2) started_sends [OF k(1), of C opus pcm sid] by auto
qed

section \<open>The property at a concrete input\<close>

definition ann_ends :: app where
  "ann_ends = ann_calls\<lparr>buf := ''/call end'', active_session := Some ''c''\<rparr>"

definition bob_accepts :: packet where
  "bob_accepts = [(''type'', JStr ''CALL_ACCEPT''), (''session_id'', JStr ''c''), (''local_port'', JInt 4000)]"

lemma end_lines: "py_strip ''/call end'' = ''/call end''" "py_split ''/call end'' = [''/call'', ''end'']"
  by code_simp+

lemma hang_up_opens_microphone_witness:
  "\<exists>q t a2. json_loads (last (send_q (app_step toy ''url'' good_host ann_ends (Key 10 no_io)))) = Inr (JObj q) \<and>
     t = snd (serve (\<lambda>_ _. Inr False) ''/srv'' [Start 2 (Some ''bob'') bob_accepts, Start 1 (Some ''alice'') q,
           Go 0, Go 1, Go 1, Go 1, Go 0, Go 0] call_example) \<and>
     a2 = receive_raw toy ''url'' good_host (app_step toy ''url'' good_host ann_ends (Key 10 no_io)) (snd (last (outbox t))) \<and>
     get_session_mem (calls t) ''c'' = None \<and> active_session a2 = None \<and> audio_stream a2 \<noteq> None"
proof -
  let ?a1 = "app_step toy ''url'' good_host ann_ends (Key 10 no_io)"
  have a: "ready ann_ends" "buf ann_ends = ''/call end''" "active_session ann_ends = Some ''c''"
    by (simp_all add: ann_ends_def ann_calls_def ann_app_def)
  obtain i where "send_q ?a1 = send_q ann_ends @ [json_dumps (JObj (packet_fields ''CALL_END'' i (clock ann_ends)
      [(''session_id'', JStr ''c''), (''from'', JStr (me ann_ends)), (''timestamp'', JInt (clock ann_ends))]))]"
    by (rule enter_ends [OF a(1) _ _ end_lines(2) a(3) _ refl]) (simp_all add: a end_lines)
  moreover have "json_wf (JObj (packet_fields ''CALL_END'' i (clock ann_ends)
      [(''session_id'', JStr ''c''), (''from'', JStr (me ann_ends)), (''timestamp'', JInt (clock ann_ends))]))"
    by (rule json_wf_packet) simp
  ultimately obtain q where q: "json_loads (last (send_q ?a1)) = Inr (JObj q)"
    by (simp add: json_loads_dumps)
  let ?t = "snd (serve (\<lambda>_ _. Inr False) ''/srv'' [Start 2 (Some ''bob'') bob_accepts, Start 1 (Some ''alice'') q,
           Go 0, Go 1, Go 1, Go 1, Go 0, Go 0] call_example)"
  let ?c = "snd (hd (calls call_example))"
  have c: "get_session_mem (calls call_example) ''c'' = Some ?c" "cs_status ?c = ''pending''" "cs_caller ?c = ''alice''"
    "cs_callee ?c = ''bob''" "calls_ok call_example" "reachable call_example ''alice'' = Some 1" "reachable call_example ''bob'' = Some 2"
    by (simp_all add: call_example_def get_session_mem_def calls_ok_def get_call_def empty_db_def reachable_def lookup_def boot_def)
  have p: "json_wf (JObj bob_accepts)" "packet_type bob_accepts = Some CALL_ACCEPT"
    "dget bob_accepts ''session_id'' = Some (JStr ''c'')" "dget bob_accepts ''local_port'' = Some (JInt 4000)"
    by (simp_all add: bob_accepts_def packet_type_Some jget_def)
  show ?thesis
    using hang_up_opens_microphone [OF good_host_ok a(1) _ _ end_lines(2) a(3) _ refl q c(1,2) _ c(5) _ _ p(1-4) _ refl,
        where wa = 1 and wb = 2 and checkpw = "\<lambda>_ _. Inr False" and base = "''/srv''" and t = ?t and opus = None and pcm = "[]"]
      q by (auto simp: a end_lines c)
qed

end
