(* ===== verification/Transfer_Tasks.thy ===== *)
theory Transfer_Tasks
  imports Server_Tasks
begin

text \<open>
  What holds between the chunks on the disk and their rows while transfers interleave with everything else: a row is
  only there when its bytes are, because an upload writes the bytes first and nothing but the expiry of a file removes
  any. The expiry breaks it.
\<close>

section \<open>Rows with their bytes\<close>

definition chunk_stored :: "string \<Rightarrow> server \<Rightarrow> string \<Rightarrow> int \<Rightarrow> bool" where
  "chunk_stored base s fid i \<longleftrightarrow> fs_files s (chunk_path base fid i) \<noteq> None"

definition recorded :: "string \<Rightarrow> server \<Rightarrow> bool" where
  "recorded base s \<longleftrightarrow> (\<forall>c \<in> set (chunks (db s)). chunk_stored base s (c_file_id c) (c_index c))"

text \<open>Files are only added, and rows only beside their bytes.\<close>

definition disk_grows :: "string \<Rightarrow> server \<Rightarrow> server \<Rightarrow> bool" where
  "disk_grows base s t \<longleftrightarrow> dom (fs_files s) \<subseteq> dom (fs_files t) \<and> (recorded base s \<longrightarrow> recorded base t)"

lemma disk_grows_same: "fs_files t = fs_files s \<Longrightarrow> chunks (db t) = chunks (db s) \<Longrightarrow> disk_grows base s t"
  by (simp add: disk_grows_def recorded_def chunk_stored_def)

lemma disk_grows_trans: "disk_grows base s t \<Longrightarrow> disk_grows base t u \<Longrightarrow> disk_grows base s u"
  by (auto simp: disk_grows_def)

lemma call_chunks:
  "create_call i a b t d = Inr d' \<Longrightarrow> chunks d' = chunks d"
  "chunks (update_call_status i st d) = chunks d" "chunks (db_end_call i n r d) = chunks d"
  by (auto simp: create_call_def update_call_status_def db_end_call_def split: if_splits)

lemma call_ops_disk:
  "disk_grows base s (snd (call_invite i a b n s))" "disk_grows base s (snd (call_accept i n s))"
  "disk_grows base s (snd (call_decline i s))" "disk_grows base s (snd (call_end i u s))"
  "disk_grows base s (snd (relay_audio i u d s))"
  by (auto simp: call_invite_def call_accept_def call_decline_def call_end_def relay_audio_def prog_simps dbx_def call_chunks
      intro!: disk_grows_same split: option.split sum.split)

lemma ring_disk: "fs_files (snd (ring w j i a b pkt s)) = fs_files s"
proof -
  obtain ip where "own_ip w s = (Inr ip, s)" using own_ip_app by blast
  then show ?thesis by (cases "lookup (connections s) b") (simp_all add: ring_def prog_simps Let_def)
qed

lemma call_steps_disk:
  "disk_grows base s (snd (ring w j i a b pkt s))" "disk_grows base s (snd (pick_up w i pkt s))"
  "disk_grows base s (snd (hang_up i s))"
proof -
  have "disk_grows base s t" if "ring w j i a b pkt s = (r, t)" for r t
    using that by (rule ring_cases) (use ring_disk [of w j i a b pkt s] that in \<open>auto intro!: disk_grows_same\<close>)
  then show "disk_grows base s (snd (ring w j i a b pkt s))" using prod.collapse [symmetric] by blast
  have "disk_grows base s t" if "pick_up w i pkt s = (r, t)" for r t
    using that by (rule pick_up_cases) (auto intro!: disk_grows_same)
  then show "disk_grows base s (snd (pick_up w i pkt s))" using prod.collapse [symmetric] by blast
qed (auto simp: hang_up_app intro!: disk_grows_same)

interpretation disktasks: call_task_effect "disk_grows base" for base
proof unfold_locales
  show "disk_grows base s t \<Longrightarrow> disk_grows base t u \<Longrightarrow> disk_grows base s u" for s t u by (rule disk_grows_trans)
qed (auto simp: steps_def call_ops_disk call_steps_disk prog_simps dbx_def call_chunks intro!: disk_grows_same split: sum.split)

section \<open>Transfers\<close>

lemma with_bytes_lasting: "lasting (on_server (disk_grows base)) (\<lambda>x. chunk_stored base (fst x) fid i)"
  by (auto simp: lasting_def on_server_def disk_grows_def chunk_stored_def)

lemma save_chunk_cases:
  assumes "save_chunk base fid i d s = (r, t)"
  shows "disk_grows base s t \<and> (\<forall>a. r = Inr a \<longrightarrow> chunk_stored base t fid i)"
  using assms by (auto simp: save_chunk_def prog_simps makedirs_def write_file_def disk_grows_def recorded_def chunk_stored_def
      split: if_splits)

lemma add_chunk_recorded: "chunk_stored base s fid i \<Longrightarrow> disk_grows base s (s\<lparr>db := add_chunk cid fid i ck (db s)\<rparr>)"
  by (auto simp: disk_grows_def recorded_def chunk_stored_def add_chunk_def)

text \<open>Storing a chunk: the row is written only after the bytes, and nobody removes them in between.\<close>

lemma store_guarded: "guarded (on_server (disk_grows base)) (co_store_chunk base fid i d ck) P"
proof -
  have last: "guarded (on_server (disk_grows base)) (cbnd (atom (srv (dbm (add_chunk cid fid i ck)))) Value)
      (\<lambda>x. chunk_stored base (fst x) fid i)" for cid
    by (rule guarded_atom [where Q = "\<lambda>_ _. True"]) (auto simp: srv_def on_server_def add_chunk_recorded)
  have "cbnd (atom m) Value = atom m" for m :: "unit tcp_prog"
    by (simp add: atom_def fun_eq_iff split: prod.split sum.split)
  with last have "guarded (on_server (disk_grows base)) (atom (srv (dbm (add_chunk cid fid i ck))))
      (\<lambda>x. chunk_stored base (fst x) fid i)" for cid by simp
  then show ?thesis
    unfolding co_store_chunk_def
    by (intro guarded_atom [where Q = "\<lambda>_ x. chunk_stored base (fst x) fid i"] with_bytes_lasting)
      (auto simp: srv_def on_server_def dest: save_chunk_cases split: prod.splits)
qed

lemma recv_guarded: "guarded (on_server (disk_grows base)) (co_recv_chunks n base fid expected) P"
proof (induction n arbitrary: P)
  case (Suc n)
  have rest: "guarded (on_server (disk_grows base)) (cbnd (atom (tcp_write bs)) (\<lambda>_. co_recv_chunks n base fid expected)) Q" for bs Q
    by (intro guarded_cbnd Suc guarded_allowed allowed_atom disktasks.conn_write)
  show ?case unfolding co_recv_chunks.simps
    by (intro guarded_cbnd guarded_branch guarded_allowed [OF allowed_atom] disktasks.conn_srv disktasks.eff_dbq
        disktasks.conn.guarded_fuse disktasks.conn_take_frame store_guarded rest)
qed simp

lemma upload_guarded: "guarded (on_server (disk_grows base)) (co_process_upload base fid) P"
  unfolding co_process_upload_def
  by (intro guarded_branch guarded_cbnd recv_guarded guarded_allowed [OF disktasks.co_poll_ok] guarded_allowed [OF disktasks.co_notify_ok]
      guarded_allowed [OF allowed_atom] disktasks.conn_srv disktasks.eff_dbq disktasks.conn_announce disktasks.conn_write)

lemma client_guarded: "guarded (disk_grows base) (co_handle_client base inp) (\<lambda>_. True)"
proof -
  have "guarded (on_server (disk_grows base)) (co_process_request base) (\<lambda>_. True)"
    unfolding co_process_request_def Let_def
    by (intro guarded_branch guarded_cbnd upload_guarded guarded_allowed [OF disktasks.co_download_ok]
        guarded_allowed [OF allowed_atom] guarded_allowed [OF allowed_pure] disktasks.conn_write)
  then have "guarded (disk_grows base) (with_local (co_process_request base) (inp, [])) (\<lambda>_. True)"
    using guarded_with_local [of "disk_grows base" "co_process_request base" "\<lambda>_. True" "(inp, [])"] by (simp add: on_server_def [abs_def])
  then show ?thesis unfolding co_handle_client_def by (intro guarded_cbnd guarded_branch)
qed

lemma unit_guarded: "guarded G c (\<lambda>_. True) \<Longrightarrow> guarded G (as_unit c) (\<lambda>_. True)"
  unfolding as_unit_def by (intro guarded_cbnd guarded_branch)

lemma serve_disk_grows:
  assumes "Clean \<notin> set jobs"
  shows "disk_grows base s (snd (serve checkpw base jobs s))"
proof -
  have "guarded (disk_grows base) c (\<lambda>_. True)" if "Spawn c \<in> set (map (turn_of checkpw base) jobs)" for c
  proof -
    from that have "Spawn c \<in> turn_of checkpw base ` set jobs" by (simp only: list.set_map)
    then obtain j where j: "j \<in> set jobs" "turn_of checkpw base j = Spawn c" by (elim imageE) (simp only:)
    then have "j \<noteq> Clean" using assms by blast
    then show ?thesis
      using j(2) unit_guarded [OF guarded_allowed [OF disktasks.co_handle_ok]] guarded_allowed [OF disktasks.co_cleanup_ok]
        unit_guarded [OF client_guarded]
      by (cases j) auto
  qed
  then show ?thesis
    using disktasks.run_guarded [of "map (turn_of checkpw base) jobs" base "([], s)" "[]"]
    by (simp add: serve_def disktasks.knows_def)
qed

section \<open>Properties\<close>


definition one_stored :: server where
  "one_stored = (boot byte_of 5 0)\<lparr>db := empty_db\<lparr>chunks := [\<lparr>c_id = ''x'', c_file_id = ''f'', c_index = 3, c_checksum = '''',
     c_delivered = 1\<rparr>]\<rparr>, fs_files := [chunk_path ''/srv'' ''f'' 3 \<mapsto> [1]]\<rparr>"


text \<open>
  When a file expires while a chunk of it is being stored, the row is written after the expiry has removed bytes and rows:
  it stays without bytes, and as its file has no row any more, no later expiry removes it.
\<close>

lemma expiry_race:
  assumes "plain_base base" "plain_id fid" "ready base fid s" "files (db s) = [f]" "f_id f = fid" "expired (clock s) f"
    and "next_id s \<notin> c_id ` set (chunks (db s))"
    and "(cs, t) = run turn_step ([as_unit (with_local (co_store_chunk base fid i d ck) l), as_unit (co_cleanup_expired base)], s)
      (map Resume [0, 1, 1, 1, 0])"
  shows "(\<exists>c \<in> set (chunks (db t)). c_file_id c = fid \<and> c_index c = i) \<and> \<not> chunk_stored base t fid i \<and> files (db t) = []"
proof -
  have p: "chunk_path base fid i \<noteq> file_dir base fid" "below (file_dir base fid) (chunk_path base fid i)"
    using assms(1,2) below_chunk_path by (auto simp: chunk_path_not_dir)
  show ?thesis
    using assms(3-8) p
    by (auto simp: co_store_chunk_def co_cleanup_expired_def co_delete_file_data_def as_unit_def atom_def save_chunk_def
        makedirs_def write_file_def ready_def prog_simps srv_def Let_def whenp_def rmtree_def delete_file_def add_chunk_def
        get_expired_files_filter chunk_stored_def next_id_def split: if_splits prod.splits)
qed

end
